(* ===== verification/Prelude.thy ===== *)
theory Prelude
  imports Main "HOL-Library.Word" "HOL-Library.List_Lexorder" "HOL-Library.Char_ord"
    "HOL-Library.AList" "HOL-Library.Multiset"
begin

text \<open>
  What the components share: the model of the parts of the Rust standard library that the
  daemons use on strings, byte strings, hash maps and unsigned integers, with the lemmas the
  component theories rest on.

  A Rust \<open>str\<close> is its UTF-8 byte string, a \<open>char list\<close> (an Isabelle character is one byte),
  so \<open>len\<close> is \<open>length\<close>, \<open>as_bytes\<close> is the identity and string order is the bytewise
  lexicographic order of \<open>List_Lexorder\<close>. The classification of a character
  (\<open>is_ascii_*\<close>, \<open>trim\<close>) is the one Rust gives on ASCII. A \<open>HashMap\<close> is an association
  list, whose order stands for the iteration order Rust leaves open. A \<open>u64\<close> is a
  \<open>64 word\<close>.
\<close>

section \<open>Named collections\<close>

named_theorems rust_str \<open>equations of the string operations\<close>
named_theorems gate_dest \<open>what a successful guard or gate implies\<close>

section \<open>Types\<close>

type_synonym bytes = "char list"
type_synonym u8 = "8 word"
type_synonym u32 = "32 word"
type_synonym u64 = "64 word"
type_synonym ('k, 'v) hash_map = "('k \<times> 'v) list"

section \<open>Prefixes and suffixes\<close>

definition starts_with :: "string \<Rightarrow> string \<Rightarrow> bool" where
  "starts_with s p \<longleftrightarrow> take (length p) s = p"

definition strip_prefix :: "string \<Rightarrow> string \<Rightarrow> string option" where
  "strip_prefix s p = (if starts_with s p then Some (drop (length p) s) else None)"

definition ends_with :: "string \<Rightarrow> string \<Rightarrow> bool" where
  "ends_with s p \<longleftrightarrow> length p \<le> length s \<and> drop (length s - length p) s = p"

definition strip_suffix :: "string \<Rightarrow> string \<Rightarrow> string option" where
  "strip_suffix s p = (if ends_with s p then Some (take (length s - length p) s) else None)"

lemma starts_with_iff [rust_str]: "starts_with s p \<longleftrightarrow> (\<exists>r. s = p @ r)"
  by (metis append_eq_conv_conj append_take_drop_id starts_with_def)

lemma strip_prefix_Some [rust_str]: "strip_prefix s p = Some r \<longleftrightarrow> s = p @ r"
  by (auto simp: strip_prefix_def starts_with_iff)

lemma strip_prefix_None [rust_str]: "strip_prefix s p = None \<longleftrightarrow> \<not> starts_with s p"
  by (simp add: strip_prefix_def)

lemma ends_with_iff [rust_str]: "ends_with s p \<longleftrightarrow> (\<exists>r. s = r @ p)"
proof
  assume "ends_with s p"
  then have "s = take (length s - length p) s @ p"
    by (metis append_take_drop_id ends_with_def)
  then show "\<exists>r. s = r @ p" by blast
qed (auto simp: ends_with_def)

lemma strip_suffix_Some [rust_str]: "strip_suffix s p = Some r \<longleftrightarrow> s = r @ p"
proof
  assume "strip_suffix s p = Some r"
  then show "s = r @ p"
    by (metis append_take_drop_id ends_with_def option.distinct(1) option.inject strip_suffix_def)
qed (simp add: strip_suffix_def ends_with_def)

lemma strip_suffix_None [rust_str]: "strip_suffix s p = None \<longleftrightarrow> \<not> ends_with s p"
  by (simp add: strip_suffix_def)

lemma starts_with_append [simp]: "starts_with (p @ r) p"
  by (simp add: starts_with_def)

lemma starts_with_trans: "starts_with s (p @ q) \<Longrightarrow> starts_with s p"
  by (auto simp: starts_with_iff)

section \<open>Characters\<close>

definition is_ascii_lowercase :: "char \<Rightarrow> bool" where
  "is_ascii_lowercase c \<longleftrightarrow> CHR ''a'' \<le> c \<and> c \<le> CHR ''z''"

definition is_ascii_uppercase :: "char \<Rightarrow> bool" where
  "is_ascii_uppercase c \<longleftrightarrow> CHR ''A'' \<le> c \<and> c \<le> CHR ''Z''"

definition is_ascii_digit :: "char \<Rightarrow> bool" where
  "is_ascii_digit c \<longleftrightarrow> CHR ''0'' \<le> c \<and> c \<le> CHR ''9''"

definition is_ascii_alphabetic :: "char \<Rightarrow> bool" where
  "is_ascii_alphabetic c \<longleftrightarrow> is_ascii_lowercase c \<or> is_ascii_uppercase c"

definition is_ascii_alphanumeric :: "char \<Rightarrow> bool" where
  "is_ascii_alphanumeric c \<longleftrightarrow> is_ascii_alphabetic c \<or> is_ascii_digit c"

definition is_ascii_control :: "char \<Rightarrow> bool" where
  "is_ascii_control c \<longleftrightarrow> of_char c < (32::nat) \<or> of_char c = (127::nat)"

definition is_whitespace :: "char \<Rightarrow> bool" where
  "is_whitespace c \<longleftrightarrow> c = CHR '' '' \<or> (9 \<le> (of_char c :: nat) \<and> (of_char c :: nat) \<le> 13)"

definition to_ascii_lowercase :: "char \<Rightarrow> char" where
  "to_ascii_lowercase c = (if is_ascii_uppercase c then char_of (of_char c + 32 :: nat) else c)"

lemmas ascii_defs = is_ascii_lowercase_def is_ascii_uppercase_def is_ascii_digit_def
  is_ascii_alphabetic_def is_ascii_alphanumeric_def

section \<open>Trimming, splitting and joining\<close>

definition trim_start :: "string \<Rightarrow> string" where
  "trim_start s = dropWhile is_whitespace s"

definition trim :: "string \<Rightarrow> string" where
  "trim s = rev (trim_start (rev (trim_start s)))"

text \<open>\<open>s.split(c)\<close>: the pieces between the separators, one more than there are separators.\<close>

fun split_on :: "char \<Rightarrow> string \<Rightarrow> string list" where
  "split_on c [] = [[]]"
| "split_on c (x # xs) =
     (if x = c then [] # split_on c xs
      else (case split_on c xs of [] \<Rightarrow> [[x]] | p # ps \<Rightarrow> (x # p) # ps))"

text \<open>\<open>s.split_once(c)\<close>: the parts before and after the first separator.\<close>

fun split_once :: "char \<Rightarrow> string \<Rightarrow> (string \<times> string) option" where
  "split_once c [] = None"
| "split_once c (x # xs) =
     (if x = c then Some ([], xs)
      else map_option (\<lambda>(a, b). (x # a, b)) (split_once c xs))"

text \<open>\<open>s.splitn(n, c)\<close>: at most \<open>n\<close> pieces, the last one holding the rest.\<close>

fun splitn :: "nat \<Rightarrow> char \<Rightarrow> string \<Rightarrow> string list" where
  "splitn 0 c s = []"
| "splitn (Suc 0) c s = [s]"
| "splitn (Suc (Suc n)) c s =
     (case split_once c s of None \<Rightarrow> [s] | Some (a, b) \<Rightarrow> a # splitn (Suc n) c b)"

text \<open>\<open>s.rfind(c)\<close> with the split at it: the parts before and after the last separator.\<close>

definition rsplit_once :: "char \<Rightarrow> string \<Rightarrow> (string \<times> string) option" where
  "rsplit_once c s = map_option (\<lambda>(a, b). (rev b, rev a)) (split_once c (rev s))"

definition trim_end :: "string \<Rightarrow> string" where
  "trim_end s = rev (trim_start (rev s))"

text \<open>\<open>s.rsplit_once(sep)\<close> for a separator of several characters: the parts before and after its last
  occurrence.\<close>

fun rsplit_once_str :: "string \<Rightarrow> string \<Rightarrow> (string \<times> string) option" where
  "rsplit_once_str sep [] = None"
| "rsplit_once_str sep (x # xs) =
     (case rsplit_once_str sep xs of
        Some (a, b) \<Rightarrow> Some (x # a, b)
      | None \<Rightarrow> map_option (\<lambda>r. ([], r)) (strip_prefix (x # xs) sep))"

text \<open>\<open>s.split_whitespace()\<close>: the pieces without white space.\<close>

fun split_whitespace_from :: "string \<Rightarrow> string \<Rightarrow> string list" where
  "split_whitespace_from w [] = (if w = [] then [] else [w])"
| "split_whitespace_from w (c # cs) =
     (if is_whitespace c then (if w = [] then [] else [w]) @ split_whitespace_from [] cs
      else split_whitespace_from (w @ [c]) cs)"

definition split_whitespace :: "string \<Rightarrow> string list" where
  "split_whitespace s = split_whitespace_from [] s"

text \<open>\<open>s.contains(t)\<close>.\<close>

fun contains_str :: "string \<Rightarrow> string \<Rightarrow> bool" where
  "contains_str [] t \<longleftrightarrow> t = []"
| "contains_str (x # xs) t \<longleftrightarrow> starts_with (x # xs) t \<or> contains_str xs t"

fun join :: "string \<Rightarrow> string list \<Rightarrow> string" where
  "join sep [] = []"
| "join sep [x] = x"
| "join sep (x # y # zs) = x @ sep @ join sep (y # zs)"

text \<open>\<open>Path::join\<close>, on the texts of the paths.\<close>

definition path_join :: "string \<Rightarrow> string \<Rightarrow> string" where
  "path_join d c = (if starts_with c ''/'' then c else if d = [] \<or> last d = CHR ''/'' then d @ c else d @ ''/'' @ c)"

text \<open>\<open>s.lines()\<close>: the lines without their ends, where a final line end opens no further line.\<close>

definition newline :: char where "newline = CHR 0x0A"

definition strip_cr :: "string \<Rightarrow> string" where
  "strip_cr l = (if l \<noteq> [] \<and> last l = CHR 0x0D then butlast l else l)"

definition lines :: "string \<Rightarrow> string list" where
  "lines s = (let ps = split_on newline s in
     map strip_cr (butlast ps) @ (if last ps = [] then [] else [last ps]))"

lemma dropWhile_whitespace_Nil: "dropWhile P s = [] \<longleftrightarrow> (\<forall>c \<in> set s. P c)"
  by (simp add: dropWhile_eq_Nil_conv)

lemma trim_empty_iff [rust_str]: "trim s = [] \<longleftrightarrow> (\<forall>c \<in> set s. is_whitespace c)"
proof -
  have "trim s = [] \<longleftrightarrow> (\<forall>c \<in> set (dropWhile is_whitespace s). is_whitespace c)"
    by (simp add: trim_def trim_start_def)
  also have "\<dots> \<longleftrightarrow> (\<forall>c \<in> set s. is_whitespace c)"
    by (metis dropWhile_eq_Nil_conv dropWhile_idem set_dropWhileD)
  finally show ?thesis .
qed

lemma split_on_not_Nil [simp]: "split_on c s \<noteq> []"
  by (cases s) (auto split: list.splits)

lemma split_on_append: "split_on c (s @ c # t) = split_on c s @ split_on c t"
  by (induction s) (auto split: list.splits)

lemma split_on_single: "c \<notin> set s \<Longrightarrow> split_on c s = [s]"
  by (induction s) auto

lemma lines_line: "newline \<notin> set l \<Longrightarrow> lines (l @ newline # s) = strip_cr l # lines s"
  by (simp add: lines_def split_on_append split_on_single butlast_append Let_def)

lemma lines_Nil [simp]: "lines [] = []"
  by (simp add: lines_def Let_def)

lemma lines_open: "newline \<notin> set l \<Longrightarrow> lines l = (if l = [] then [] else [l])"
  by (simp add: lines_def split_on_single Let_def)

lemma set_join: "set (join sep xs) \<subseteq> set sep \<union> \<Union> (set ` set xs)"
  by (induction sep xs rule: join.induct) auto

lemma split_once_Some:
  "split_once c s = Some (a, b) \<longleftrightarrow> s = a @ c # b \<and> c \<notin> set a"
proof (induction s arbitrary: a)
  case (Cons x xs)
  then show ?case by (cases a) auto
qed simp

lemma split_once_None: "split_once c s = None \<longleftrightarrow> c \<notin> set s"
  by (induction s) auto

lemma rsplit_once_Some:
  "rsplit_once c s = Some (a, b) \<longleftrightarrow> s = a @ c # b \<and> c \<notin> set b"
proof -
  have "rsplit_once c s = Some (a, b) \<longleftrightarrow> split_once c (rev s) = Some (rev b, rev a)"
    by (auto simp: rsplit_once_def)
  then show ?thesis
    by (simp add: split_once_Some rev_swap)
qed

section \<open>Hash maps\<close>

definition contains_key :: "('k, 'v) hash_map \<Rightarrow> 'k \<Rightarrow> bool" where
  "contains_key m k \<longleftrightarrow> map_of m k \<noteq> None"

lemma contains_key_iff: "contains_key m k \<longleftrightarrow> k \<in> fst ` set m"
  by (simp add: contains_key_def map_of_eq_None_iff)

lemma contains_key_update [simp]:
  "contains_key (AList.update k v m) k' \<longleftrightarrow> k' = k \<or> contains_key m k'"
  by (simp add: contains_key_def update_conv')

lemma set_AList_update: "set (AList.update k v m) \<subseteq> insert (k, v) (set m)"
  by (induction m) auto

lemma fold_delete: "fold AList.delete ks m = filter (\<lambda>(k, v). k \<notin> set ks) m"
  by (induction ks arbitrary: m) (auto simp: AList.delete_eq filter_empty_conv intro!: filter_cong)

lemma find_append: "find P (xs @ ys) = (case find P xs of None \<Rightarrow> find P ys | Some x \<Rightarrow> Some x)"
  by (induction xs) auto

lemma distinct_remdups_adj_sorted: "sorted xs \<Longrightarrow> distinct (remdups_adj xs)"
  by (induction xs rule: remdups_adj.induct) (auto simp: order.strict_iff_order)

lemma mset_map_filter_cong: "mset xs = mset ys \<Longrightarrow>
    mset (map g (filter Q (List.map_filter f xs))) = mset (map g (filter Q (List.map_filter f ys)))"
  by (simp add: List.map_filter_def)

section \<open>Decimal and hexadecimal\<close>

definition digit_char :: "nat \<Rightarrow> char" where
  "digit_char d = ''0123456789abcdef'' ! (d mod 16)"

fun dec :: "nat \<Rightarrow> string" where
  "dec n = (if n < 10 then [digit_char n] else dec (n div 10) @ [digit_char (n mod 10)])"

declare dec.simps [simp del]

definition dec_int :: "int \<Rightarrow> string" where
  "dec_int i = (if i < 0 then CHR ''-'' # dec (nat (- i)) else dec (nat i))"

definition hex :: "bytes \<Rightarrow> string" where
  "hex bs = concat (map (\<lambda>b. [digit_char (of_char b div 16), digit_char (of_char b mod 16)]) bs)"

lemma nat_below_16: "d < (16::nat) \<Longrightarrow>
    d \<in> {0, 1, 2, 3, 4, 5, 6, 7, 8, 9, 10, 11, 12, 13, 14, 15}"
  unfolding insert_iff empty_iff by presburger

lemma digit_char_inj: "d < 16 \<Longrightarrow> e < 16 \<Longrightarrow> digit_char d = digit_char e \<Longrightarrow> d = e"
  by (drule nat_below_16, drule nat_below_16, elim insertE emptyE; simp add: digit_char_def)

lemma digit_char_decimal: "d < 10 \<Longrightarrow> is_ascii_digit (digit_char d)"
  by (frule order.strict_trans [of d 10 16], simp, drule nat_below_16, elim insertE emptyE;
      simp add: digit_char_def is_ascii_digit_def less_eq_char_def)

lemma dec_digits: "c \<in> set (dec n) \<Longrightarrow> is_ascii_digit c"
proof (induction n rule: dec.induct)
  case (1 n)
  then show ?case
    by (cases "n < 10") (auto simp: dec.simps [of n] digit_char_decimal)
qed

lemma dec_Nil [simp]: "dec n \<noteq> []"
  by (subst dec.simps) simp

lemma length_dec: "n < 10 ^ k \<Longrightarrow> 0 < k \<Longrightarrow> length (dec n) \<le> k"
proof (induction n arbitrary: k rule: dec.induct)
  case (1 n)
  show ?case
  proof (cases "n < 10")
    case False
    then have "k \<noteq> 1" using 1 by auto
    then obtain j where j: "k = Suc j" "0 < j" using 1 by (metis One_nat_def Suc_pred neq0_conv)
    then have "length (dec (n div 10)) \<le> j" using 1 False by (intro "1.IH") auto
    then show ?thesis using False j by (simp add: dec.simps [of n])
  qed (use 1 in \<open>simp add: dec.simps [of n]\<close>)
qed

lemma dec_inj: "dec m = dec n \<Longrightarrow> m = n"
proof (induction m arbitrary: n rule: dec.induct)
  case (1 m)
  show ?case
  proof (cases "m < 10 \<longleftrightarrow> n < 10")
    case same: True
    show ?thesis
    proof (cases "m < 10")
      case True
      with same "1.prems" show ?thesis
        by (simp add: dec.simps [of m] dec.simps [of n] digit_char_inj)
    next
      case False
      with same "1.prems" have "dec (m div 10) = dec (n div 10)"
        and "digit_char (m mod 10) = digit_char (n mod 10)"
        by (simp_all add: dec.simps [of m] dec.simps [of n])
      with False have "m div 10 = n div 10" and "m mod 10 = n mod 10"
        using "1.IH" by (auto intro!: digit_char_inj simp: less_imp_le_nat)
      then show ?thesis by (metis div_mult_mod_eq)
    qed
  next
    case False
    then have "length (dec m) = 1 \<longleftrightarrow> length (dec n) \<noteq> 1"
      by (cases "m < 10"; cases "n < 10") (auto simp: dec.simps [of m] dec.simps [of n])
    with "1.prems" show ?thesis by simp
  qed
qed

lemma hex_Cons: "hex (b # bs) =
    digit_char (of_char b div 16) # digit_char (of_char b mod 16) # hex bs"
  by (simp add: hex_def)

lemma hex_inj: "hex a = hex b \<Longrightarrow> a = b"
proof (induction a arbitrary: b)
  case Nil
  then show ?case by (cases b) (auto simp: hex_def)
next
  case (Cons x xs)
  then obtain y ys where b: "b = y # ys" by (cases b) (auto simp: hex_def)
  have small: "(of_char c :: nat) div 16 < 16" for c :: char
    using nat_of_char_less_256 [of c] by linarith
  from Cons.prems b have "digit_char (of_char x div 16) = digit_char (of_char y div 16)"
    and "digit_char (of_char x mod 16) = digit_char (of_char y mod 16)" and "hex xs = hex ys"
    by (simp_all add: hex_Cons)
  then have "(of_char x :: nat) div 16 = of_char y div 16" "(of_char x :: nat) mod 16 = of_char y mod 16"
    using digit_char_inj small by simp_all
  then have "(of_char x :: nat) = of_char y" by (metis div_mult_mod_eq)
  then show ?case using Cons.IH \<open>hex xs = hex ys\<close> b by simp
qed

section \<open>Reading an unsigned integer\<close>

datatype int_error = IntEmpty | InvalidDigit | PosOverflow

text \<open>\<open>str::parse::<u32>\<close>: an optional plus sign and at least one decimal digit, read from the left.\<close>

fun parse_digits :: "nat \<Rightarrow> string \<Rightarrow> int_error + nat" where
  "parse_digits acc [] = Inr acc"
| "parse_digits acc (c # cs) =
     (if \<not> is_ascii_digit c then Inl InvalidDigit
      else let n = acc * 10 + (of_char c - 48) in
        if n \<ge> 2 ^ 32 then Inl PosOverflow else parse_digits n cs)"

definition parse_u32 :: "string \<Rightarrow> int_error + u32" where
  "parse_u32 s =
     (case s of [] \<Rightarrow> Inl IntEmpty
      | c # cs \<Rightarrow> if c = CHR ''+'' then
            (if cs = [] then Inl InvalidDigit else map_sum (\<lambda>e. e) of_nat (parse_digits 0 cs))
          else map_sum (\<lambda>e. e) of_nat (parse_digits 0 s))"

text \<open>\<open>str::parse::<i64>\<close>.\<close>

definition parse_i64 :: "string \<Rightarrow> int option" where
  "parse_i64 s =
     (let (neg, ds) = (if s \<noteq> [] \<and> hd s = CHR ''-'' then (True, tl s) else if s \<noteq> [] \<and> hd s = CHR ''+'' then (False, tl s) else (False, s))
      in if ds = [] \<or> \<not> list_all is_ascii_digit ds then None
         else (let n = fold (\<lambda>d acc. 10 * acc + int (of_char d - of_char (CHR ''0''))) ds 0;
                   i = (if neg then - n else n)
               in if - (2 ^ 63) \<le> i \<and> i < 2 ^ 63 then Some i else None))"

text \<open>\<open>str::parse::<u64>\<close>, where only success matters.\<close>

definition parse_u64 :: "string \<Rightarrow> u64 option" where
  "parse_u64 s =
     (let ds = (if s \<noteq> [] \<and> hd s = CHR ''+'' then tl s else s)
      in if ds = [] \<or> \<not> list_all is_ascii_digit ds then None
         else (let n = fold (\<lambda>d acc. 10 * acc + int (of_char d - of_char (CHR ''0''))) ds 0
               in if n < 2 ^ 64 then Some (of_int n) else None))"

lemma digit_value: "d < 10 \<Longrightarrow> int (of_char (digit_char d) - of_char (CHR ''0'')) = int d"
  by (frule order.strict_trans [of d 10 16], simp, drule nat_below_16, elim insertE emptyE; simp add: digit_char_def)

lemma dec_value: "fold (\<lambda>d acc. 10 * acc + int (of_char d - of_char (CHR ''0''))) (dec n) 0 = int n"
proof (induction n rule: dec.induct)
  case (1 n)
  show ?case
  proof (cases "n < 10")
    case True
    then show ?thesis using digit_value [of n] by (simp add: dec.simps [of n])
  next
    case False
    have "fold (\<lambda>d acc. 10 * acc + int (of_char d - of_char (CHR ''0''))) (dec n) 0 = 10 * int (n div 10) + int (n mod 10)"
      using False 1 digit_value [of "n mod 10"] by (simp add: dec.simps [of n])
    also have "\<dots> = int n" by presburger
    finally show ?thesis .
  qed
qed

lemma parse_i64_dec_int:
  assumes "- (2 ^ 63) \<le> i" and "i < 2 ^ 63"
  shows "parse_i64 (dec_int i) = Some i"
proof (cases "i < 0")
  case True
  then show ?thesis
    using assms dec_digits [of _ "nat (- i)"] dec_value [of "nat (- i)"] by (simp add: parse_i64_def dec_int_def list_all_iff Let_def)
next
  case False
  have "is_ascii_digit (hd (dec (nat i)))" using dec_digits [of _ "nat i"] by simp
  then have "hd (dec (nat i)) \<noteq> CHR ''-''" "hd (dec (nat i)) \<noteq> CHR ''+''" by (auto simp: is_ascii_digit_def less_eq_char_def)
  then show ?thesis
    using False assms dec_digits [of _ "nat i"] dec_value [of "nat i"] by (simp add: parse_i64_def dec_int_def list_all_iff Let_def)
qed

lemma dec_plain: "list_all is_ascii_digit (dec n)" "hd (dec n) \<noteq> CHR ''+''" "hd (dec n) \<noteq> CHR ''-''"
proof -
  show "list_all is_ascii_digit (dec n)" using dec_digits by (auto simp: list_all_iff)
  have "is_ascii_digit (hd (dec n))" using dec_digits [of "hd (dec n)" n] by simp
  then show "hd (dec n) \<noteq> CHR ''+''" "hd (dec n) \<noteq> CHR ''-''" by (auto simp: is_ascii_digit_def less_eq_char_def)
qed

lemma parse_u64_dec: "n < 2 ^ 64 \<Longrightarrow> parse_u64 (dec n) = Some (of_nat n)"
  using dec_plain [of n] dec_value [of n] by (simp add: parse_u64_def Let_def)

text \<open>\<open>String::from_utf8\<close>: the well-formed byte sequences of the Unicode standard.\<close>

definition cont_byte :: "nat \<Rightarrow> nat \<Rightarrow> char \<Rightarrow> bool" where
  "cont_byte lo hi c \<longleftrightarrow> lo \<le> of_char c \<and> of_char c \<le> hi"

abbreviation tail_byte :: "char \<Rightarrow> bool" where
  "tail_byte \<equiv> cont_byte 128 191"

fun utf8_ok :: "bytes \<Rightarrow> bool" where
  "utf8_ok [] \<longleftrightarrow> True"
| "utf8_ok (a # s) \<longleftrightarrow>
     (if of_char a < (128 :: nat) then utf8_ok s
      else if cont_byte 194 223 a then (case s of b # s' \<Rightarrow> tail_byte b \<and> utf8_ok s' | _ \<Rightarrow> False)
      else if cont_byte 224 239 a then
        (case s of b # c # s' \<Rightarrow>
            cont_byte (if of_char a = (224 :: nat) then 160 else 128) (if of_char a = (237 :: nat) then 159 else 191) b
            \<and> tail_byte c \<and> utf8_ok s'
         | _ \<Rightarrow> False)
      else if cont_byte 240 244 a then
        (case s of b # c # d # s' \<Rightarrow>
            cont_byte (if of_char a = (240 :: nat) then 144 else 128) (if of_char a = (244 :: nat) then 143 else 191) b
            \<and> tail_byte c \<and> tail_byte d \<and> utf8_ok s'
         | _ \<Rightarrow> False)
      else False)"

lemma utf8_ok_ascii: "(\<forall>c \<in> set s. of_char c < (128 :: nat)) \<Longrightarrow> utf8_ok s"
  by (induction s rule: utf8_ok.induct) auto

section \<open>Fixed-width integers as bytes\<close>

fun le_digits :: "nat \<Rightarrow> nat \<Rightarrow> bytes" where
  "le_digits 0 n = []"
| "le_digits (Suc k) n = char_of n # le_digits k (n div 256)"

definition le_bytes :: "u64 \<Rightarrow> bytes" where
  "le_bytes w = le_digits 8 (unat w)"

definition be_bytes :: "u64 \<Rightarrow> bytes" where
  "be_bytes w = rev (le_bytes w)"

lemma length_le_digits [simp]: "length (le_digits k n) = k"
  by (induction k arbitrary: n) simp_all

lemma length_le_bytes [simp]: "length (le_bytes w) = 8"
  by (simp add: le_bytes_def)

lemma length_be_bytes [simp]: "length (be_bytes w) = 8"
  by (simp add: be_bytes_def)

fun le_value :: "bytes \<Rightarrow> nat" where
  "le_value [] = 0"
| "le_value (b # bs) = of_char b + 256 * le_value bs"

lemma le_value_le_digits: "le_value (le_digits k n) = n mod 256 ^ k"
  by (induction k arbitrary: n) (simp_all add: mod_mult2_eq)

lemma le_value_le_bytes: "le_value (le_bytes w) = unat w"
  using unsigned_less [of w, where ?'a = nat] by (simp add: le_bytes_def le_value_le_digits)

lemma le_bytes_inj [simp]: "le_bytes v = le_bytes w \<longleftrightarrow> v = w"
  by (metis le_value_le_bytes word_unat_eq_iff)

lemma be_bytes_inj [simp]: "be_bytes v = be_bytes w \<longleftrightarrow> v = w"
  by (simp add: be_bytes_def)

text \<open>\<open>x.len() as u64\<close>.\<close>

definition len_u64 :: "bytes \<Rightarrow> u64" where
  "len_u64 x = word_of_nat (length x)"

definition addressable :: "bytes \<Rightarrow> bool" where
  "addressable x \<longleftrightarrow> length x < 2 ^ 64"

lemma len_u64_inj: "addressable x \<Longrightarrow> addressable y \<Longrightarrow> len_u64 x = len_u64 y \<Longrightarrow> length x = length y"
  by (simp add: addressable_def len_u64_def word_unat_eq_iff unat_of_nat)

section \<open>Length-delimited fields\<close>

text \<open>
  The interface between the digests of the system and the byte streams they hash: a field
  encoding from which the field can be read back off the front of any stream. The
  components that feed fields to a hash interpret it with their own \<open>feed\<close>.
\<close>

locale field_encoding =
  fixes enc :: "bytes \<Rightarrow> bytes" and ok :: "bytes \<Rightarrow> bool"
  assumes front: "ok x \<Longrightarrow> ok y \<Longrightarrow> enc x @ r = enc y @ s \<Longrightarrow> x = y \<and> r = s"
begin

lemma enc_inj: "ok x \<Longrightarrow> ok y \<Longrightarrow> enc x = enc y \<Longrightarrow> x = y"
  using front [of x y "[]" "[]"] by simp

lemma fields_front:
  assumes "length xs = length ys" and "list_all ok xs" and "list_all ok ys"
    and "concat (map enc xs) @ r = concat (map enc ys) @ s"
  shows "xs = ys \<and> r = s"
  using assms
proof (induction xs ys arbitrary: r s rule: list_induct2)
  case (Cons x xs y ys)
  from Cons.prems have "enc x @ (concat (map enc xs) @ r) = enc y @ (concat (map enc ys) @ s)"
    by simp
  then have eq: "x = y \<and> concat (map enc xs) @ r = concat (map enc ys) @ s"
    using Cons.prems by (intro front) simp_all
  then have "xs = ys \<and> r = s"
    using Cons.prems by (intro Cons.IH) simp_all
  with eq show ?case by simp
qed simp

end

end
