(* ===== verification/Audit_Proto.thy ===== *)
theory Audit_Proto
  imports Prelude
begin

text \<open>
  The wire contract of the audit daemon (\<open>contracts/audit-proto/src/lib.rs\<close> and \<open>read.rs\<close>): the
  records of an audit event, the size caps of the always-recorded tier, and the
  length-prefixed frames of both sockets. The JSON encoding of the records (crate
  \<open>serde_json\<close>) is a parameter of the theories that use it.
\<close>

section \<open>Data\<close>

definition MAX_FRAME :: nat where "MAX_FRAME = 256 * 1024"
definition MAX_SUBJECT_LEN :: nat where "MAX_SUBJECT_LEN = 256"
definition MAX_OUTCOME_LEN :: nat where "MAX_OUTCOME_LEN = 128"
definition MAX_LABEL_LEN :: nat where "MAX_LABEL_LEN = 128"
definition MAX_LABELS :: nat where "MAX_LABELS = 64"
definition MAX_ID_LEN :: nat where "MAX_ID_LEN = 256"

datatype proto_error = ProtoIo | Frame string | Codec string | Invalid string

fun proto_error_text :: "proto_error \<Rightarrow> string" where
  "proto_error_text ProtoIo = ''io: unexpected end of file''"
| "proto_error_text (Frame s) = ''frame: '' @ s"
| "proto_error_text (Codec s) = ''codec: '' @ s"
| "proto_error_text (Invalid s) = ''invalid request: '' @ s"

datatype audit_kind =
    Query | ToolCall | Confirm | PolicyViolation | GraphAccess | AuditPermission
  | NetworkCall | AppAction | CapabilityChange

fun as_str :: "audit_kind \<Rightarrow> string" where
  "as_str Query = ''query''"
| "as_str ToolCall = ''tool_call''"
| "as_str Confirm = ''confirm''"
| "as_str PolicyViolation = ''policy_violation''"
| "as_str GraphAccess = ''graph_access''"
| "as_str AuditPermission = ''permission''"
| "as_str NetworkCall = ''network_call''"
| "as_str AppAction = ''app_action''"
| "as_str CapabilityChange = ''capability_change''"

definition from_wire :: "string \<Rightarrow> audit_kind option" where
  "from_wire s =
     (if s = ''query'' then Some Query
      else if s = ''tool_call'' then Some ToolCall
      else if s = ''confirm'' then Some Confirm
      else if s = ''policy_violation'' then Some PolicyViolation
      else if s = ''graph_access'' then Some GraphAccess
      else if s = ''permission'' then Some AuditPermission
      else if s = ''network_call'' then Some NetworkCall
      else if s = ''app_action'' then Some AppAction
      else if s = ''capability_change'' then Some CapabilityChange
      else None)"

datatype capability_reach =
    ReachRead string
  | ReachWrite string
  | ReachRelation string string string
  | InstanceAll
  | NetworkDomain string
  | ClipboardCap string
  | NotificationsOff
  | InputCap string
  | SearchCap string
  | IntentsCap string
  | FilesystemDir string
  | FilesystemPath string
  | EventBusSubscribe string
  | EventBusPublish string
  | SystemCap string

record structural_record =
  sr_subject :: string
  sr_node_types :: "string list"
  sr_relations :: "string list"
  sr_result_count :: "u64 option"
  sr_duration_ms :: "u64 option"
  sr_outcome :: string
  sr_depth :: "u8 option"
  sr_capability_change :: "capability_reach option"

record forensic_record =
  fr_query_string :: string
  fr_parameters :: string
  fr_stack_trace :: string

record ingest_request =
  ir_kind :: audit_kind
  ir_structural :: structural_record
  ir_forensic :: "forensic_record option"
  ir_call_chain_id :: "string option"
  ir_project_id :: "string option"

datatype ingest_response = Appended u64 | Unavailable string

record structural_view =
  sv_index :: u64
  sv_timestamp_micros :: u64
  sv_kind :: audit_kind
  sv_actor :: string
  sv_structural :: structural_record
  sv_call_chain_id :: "string option"
  sv_project_id :: "string option"
  sv_entry_hash_hex :: string

record read_request =
  rr_from :: u64
  rr_to :: u64
  rr_limit :: u64
  rr_project_id :: "string option"
  rr_call_chain_id :: "string option"
  rr_actor :: "string option"

datatype read_response =
    Page (page_entries: "structural_view list") (page_tampered: bool) (page_head: u64) (page_matching: u64)
  | ReadError string

section \<open>Size caps\<close>

definition validate_request :: "ingest_request \<Rightarrow> proto_error + unit" where
  "validate_request req =
     (let s = ir_structural req in
      if length (sr_subject s) > MAX_SUBJECT_LEN then
        Inl (Invalid (''subject exceeds '' @ dec MAX_SUBJECT_LEN @ '' bytes''))
      else if length (sr_outcome s) > MAX_OUTCOME_LEN then
        Inl (Invalid (''outcome exceeds '' @ dec MAX_OUTCOME_LEN @ '' bytes''))
      else if length (sr_node_types s) > MAX_LABELS \<or> length (sr_relations s) > MAX_LABELS then
        Inl (Invalid (''more than '' @ dec MAX_LABELS @ '' labels''))
      else if list_ex (\<lambda>l. length l > MAX_LABEL_LEN) (sr_node_types s @ sr_relations s) then
        Inl (Invalid (''a label exceeds '' @ dec MAX_LABEL_LEN @ '' bytes''))
      else if list_ex (\<lambda>i. length i > MAX_ID_LEN)
          (List.map_filter id [ir_call_chain_id req, ir_project_id req]) then
        Inl (Invalid (''an id exceeds '' @ dec MAX_ID_LEN @ '' bytes''))
      else Inr ())"

section \<open>Frames\<close>

text \<open>
  A frame on a byte stream: \<open>read_frame\<close> takes the bytes still to be read and returns the body
  and what is left; a stream that ends early is an I/O error. \<open>write_frame\<close> returns the bytes
  it puts on the stream. The length is four bytes, big-endian.
\<close>

definition u32_be_bytes :: "nat \<Rightarrow> bytes" where
  "u32_be_bytes n = rev (le_digits 4 n)"

definition u32_from_be_bytes :: "bytes \<Rightarrow> nat" where
  "u32_from_be_bytes b = le_value (rev b)"

definition frame_range_error :: "nat \<Rightarrow> proto_error" where
  "frame_range_error len =
     Frame (''frame length '' @ dec len @ '' out of range (1..='' @ dec MAX_FRAME @ '')'')"

definition read_frame :: "bytes \<Rightarrow> proto_error + bytes \<times> bytes" where
  "read_frame stream =
     (if length stream < 4 then Inl ProtoIo
      else let len = u32_from_be_bytes (take 4 stream); rest = drop 4 stream in
        if len = 0 \<or> len > MAX_FRAME then Inl (frame_range_error len)
        else if length rest < len then Inl ProtoIo
        else Inr (take len rest, drop len rest))"

definition write_frame :: "bytes \<Rightarrow> proto_error + bytes" where
  "write_frame body =
     (if body = [] \<or> length body > MAX_FRAME then Inl (frame_range_error (length body))
      else if length body \<ge> 2 ^ 32 then Inl (Frame ''frame exceeds u32 length'')
      else Inr (u32_be_bytes (length body) @ body))"

fun write_frames :: "bytes list \<Rightarrow> proto_error + bytes" where
  "write_frames [] = Inr []"
| "write_frames (b # bs) =
     (case write_frame b of Inl e \<Rightarrow> Inl e
      | Inr f \<Rightarrow> (case write_frames bs of Inl e \<Rightarrow> Inl e | Inr fs \<Rightarrow> Inr (f @ fs)))"

text \<open>The receive loop of a connection: the frames read until the stream ends or fails.\<close>

function read_frames :: "bytes \<Rightarrow> bytes list" where
  "read_frames stream =
     (case read_frame stream of Inl _ \<Rightarrow> [] | Inr (body, rest) \<Rightarrow> body # read_frames rest)"
  by pat_completeness auto

lemma read_frame_consumes: "read_frame stream = Inr (body, rest) \<Longrightarrow> length rest < length stream"
  by (auto simp: read_frame_def Let_def split: if_splits)

termination read_frames
  by (relation "measure length") (auto dest: read_frame_consumes)

declare read_frames.simps [simp del]

section \<open>Lemmas\<close>

lemma from_wire_as_str [simp]: "from_wire (as_str k) = Some k"
  by (cases k) (simp_all add: from_wire_def)

lemma from_wire_Some: "from_wire s = Some k \<Longrightarrow> s = as_str k"
  by (auto simp: from_wire_def split: if_splits)

lemma as_str_inj [simp]: "as_str j = as_str k \<longleftrightarrow> j = k"
  by (metis from_wire_as_str option.inject)

lemma u32_be_roundtrip: "n < 2 ^ 32 \<Longrightarrow> u32_from_be_bytes (u32_be_bytes n) = n"
  by (simp add: u32_from_be_bytes_def u32_be_bytes_def le_value_le_digits)

lemma length_u32_be_bytes [simp]: "length (u32_be_bytes n) = 4"
  by (simp add: u32_be_bytes_def)

lemma write_frame_Inr:
  "write_frame body = Inr f \<longleftrightarrow>
   body \<noteq> [] \<and> length body \<le> MAX_FRAME \<and> f = u32_be_bytes (length body) @ body"
  by (auto simp: write_frame_def MAX_FRAME_def)

lemma read_frame_write_frame:
  assumes "write_frame body = Inr f"
  shows "read_frame (f @ rest) = Inr (body, rest)"
  using assms by (auto simp: write_frame_Inr read_frame_def u32_be_roundtrip MAX_FRAME_def Let_def)

lemma validate_request_Inr: "validate_request req = Inr () \<longleftrightarrow>
    length (sr_subject (ir_structural req)) \<le> MAX_SUBJECT_LEN \<and>
    length (sr_outcome (ir_structural req)) \<le> MAX_OUTCOME_LEN \<and>
    length (sr_node_types (ir_structural req)) \<le> MAX_LABELS \<and>
    length (sr_relations (ir_structural req)) \<le> MAX_LABELS \<and>
    (\<forall>l \<in> set (sr_node_types (ir_structural req)). length l \<le> MAX_LABEL_LEN) \<and>
    (\<forall>l \<in> set (sr_relations (ir_structural req)). length l \<le> MAX_LABEL_LEN) \<and>
    (case ir_call_chain_id req of Some i \<Rightarrow> length i \<le> MAX_ID_LEN | None \<Rightarrow> True) \<and>
    (case ir_project_id req of Some i \<Rightarrow> length i \<le> MAX_ID_LEN | None \<Rightarrow> True)"
  by (simp add: validate_request_def Let_def list_ex_iff bex_Un List.map_filter_def
      linorder_not_less [symmetric] split: option.splits)

text \<open>The two ends of a socket agree on the frames: whatever sequence of bodies one end
  writes, the receive loop of the other end returns exactly these bodies, in order; and the
  writer emits no frame the reader would refuse.\<close>

theorem frames_roundtrip:
  assumes "write_frames bodies = Inr stream"
  shows "read_frames stream = bodies"
  using assms
proof (induction bodies arbitrary: stream)
  case Nil
  then show ?case by (simp add: read_frames.simps read_frame_def)
next
  case (Cons b bs)
  then obtain f fs where "write_frame b = Inr f" "write_frames bs = Inr fs" "stream = f @ fs"
    by (auto split: sum.splits)
  then show ?case
    using Cons.IH by (simp add: read_frames.simps [of "f @ fs"] read_frame_write_frame)
qed

theorem frames_roundtrip_witness:
  "read_frames (u32_be_bytes 2 @ ''ab'' @ u32_be_bytes 1 @ ''c'') = [''ab'', ''c'']"
proof (rule frames_roundtrip)
  have "write_frame ''ab'' = Inr (u32_be_bytes 2 @ ''ab'')" "write_frame ''c'' = Inr (u32_be_bytes 1 @ ''c'')"
    by (simp_all add: write_frame_Inr MAX_FRAME_def numeral_2_eq_2)
  then show "write_frames [''ab'', ''c''] = Inr (u32_be_bytes 2 @ ''ab'' @ u32_be_bytes 1 @ ''c'')"
    by simp
qed

end
