(* ===== verification/Audit_Ledger.thy ===== *)
theory Audit_Ledger
  imports Audit_Proto
begin

text \<open>
  The append-only ledger of the audit daemon (\<open>daemons/audit-daemon/src/ledger/entry.rs\<close>,
  \<open>ledger/store.rs\<close>, \<open>checkpoint.rs\<close> and \<open>tpm_anchor.rs\<close>): the HMAC hash chain over the rows of
  a SQLite table, the head checkpoint beside the database, and the read API.

  HMAC-SHA256 (\<open>hmac key message\<close>) and the JSON encoding of the two records of an entry
  (\<open>json_codec\<close>) are parameters. The database is the list of its rows in insertion order;
  the environment of an append says what the clock reads, which SQLite error the insert meets,
  whether the TPM answers and at which point, if any, the checkpoint write fails. A signed
  64-bit column is a \<open>64 word\<close> read with \<open>sint\<close>.
\<close>

section \<open>Entries and the chain hash\<close>

datatype audit_error =
    Storage string
  | LedgerFull
  | KeyUnavailable string
  | ChainBroken u64 string
  | AuditIo string

definition GENESIS_PREV_HASH :: bytes where
  "GENESIS_PREV_HASH = replicate 32 (CHR 0x00)"

record audit_entry =
  ae_index :: u64
  ae_timestamp_micros :: u64
  ae_kind :: audit_kind
  ae_actor :: string
  ae_structural :: structural_record
  ae_forensic :: "forensic_record option"
  ae_call_chain_id :: "string option"
  ae_project_id :: "string option"
  ae_prev_hash :: bytes
  ae_entry_hash :: bytes

record json_codec =
  jc_structural :: "structural_record \<Rightarrow> string"
  jc_parse_structural :: "string \<Rightarrow> string + structural_record"
  jc_forensic :: "forensic_record \<Rightarrow> string"
  jc_parse_forensic :: "string \<Rightarrow> string + forensic_record"

type_synonym mac = "bytes \<Rightarrow> bytes \<Rightarrow> bytes"

text \<open>\<open>feed\<close> returns the bytes it passes to the MAC.\<close>

definition feed :: "bytes \<Rightarrow> bytes" where
  "feed x = be_bytes (len_u64 x) @ x"

definition unwrap_or :: "'a option \<Rightarrow> 'a \<Rightarrow> 'a" where
  "unwrap_or x d = (case x of Some y \<Rightarrow> y | None \<Rightarrow> d)"

definition entry_message ::
  "json_codec \<Rightarrow> u64 \<Rightarrow> u64 \<Rightarrow> audit_kind \<Rightarrow> string \<Rightarrow> structural_record \<Rightarrow>
   forensic_record option \<Rightarrow> string option \<Rightarrow> string option \<Rightarrow> bytes \<Rightarrow> bytes" where
  "entry_message c index timestamp kind actor structural forensic call_chain_id project_id prev_hash =
     be_bytes index @ be_bytes timestamp @ feed (as_str kind) @ feed actor @
     feed (jc_structural c structural) @
     (case forensic of Some f \<Rightarrow> CHR 0x01 # feed (jc_forensic c f) | None \<Rightarrow> [CHR 0x00]) @
     feed (unwrap_or call_chain_id '''') @ feed (unwrap_or project_id '''') @ prev_hash"

definition compute_entry_hash ::
  "mac \<Rightarrow> json_codec \<Rightarrow> bytes \<Rightarrow> u64 \<Rightarrow> u64 \<Rightarrow> audit_kind \<Rightarrow> string \<Rightarrow> structural_record \<Rightarrow>
   forensic_record option \<Rightarrow> string option \<Rightarrow> string option \<Rightarrow> bytes \<Rightarrow> bytes" where
  "compute_entry_hash hmac c key index timestamp kind actor structural forensic cc p prev_hash =
     hmac key (entry_message c index timestamp kind actor structural forensic cc p prev_hash)"

section \<open>Rows\<close>

record row =
  row_idx :: u64
  row_timestamp :: u64
  row_kind :: string
  row_actor :: string
  row_structural :: string
  row_forensic :: "string option"
  row_call_chain_id :: "string option"
  row_project_id :: "string option"
  row_prev_hash :: bytes
  row_entry_hash :: bytes

datatype sqlx_error = Database "string option" string | OtherSqlx string

definition map_sqlx :: "sqlx_error \<Rightarrow> audit_error" where
  "map_sqlx e = (case e of
     Database code msg \<Rightarrow> if code = Some ''13'' then LedgerFull else Storage msg
   | OtherSqlx msg \<Rightarrow> Storage msg)"

definition to_hash :: "bytes \<Rightarrow> audit_error + bytes" where
  "to_hash b = (if length b = 32 then Inr b
     else Inl (Storage (''corrupt hash column: expected 32 bytes, found '' @ dec (length b))))"

definition bind :: "'e + 'a \<Rightarrow> ('a \<Rightarrow> 'e + 'b) \<Rightarrow> 'e + 'b" where
  "bind m f = (case m of Inl e \<Rightarrow> Inl e | Inr x \<Rightarrow> f x)"

definition decode_kind :: "string \<Rightarrow> audit_error + audit_kind" where
  "decode_kind s = (case from_wire s of Some k \<Rightarrow> Inr k
     | None \<Rightarrow> Inl (Storage (''unknown audit kind '' @ [CHR 0x27] @ s @ [CHR 0x27])))"

definition decode_structural :: "json_codec \<Rightarrow> string \<Rightarrow> audit_error + structural_record" where
  "decode_structural c s = (case jc_parse_structural c s of Inr x \<Rightarrow> Inr x
     | Inl e \<Rightarrow> Inl (Storage (''decode structural: '' @ e)))"

definition decode_forensic :: "json_codec \<Rightarrow> string option \<Rightarrow> audit_error + forensic_record option" where
  "decode_forensic c j = (case j of None \<Rightarrow> Inr None
     | Some s \<Rightarrow> (case jc_parse_forensic c s of Inr x \<Rightarrow> Inr (Some x)
         | Inl e \<Rightarrow> Inl (Storage (''decode forensic: '' @ e))))"

definition decode_row :: "json_codec \<Rightarrow> row \<Rightarrow> audit_error + audit_entry" where
  "decode_row c r =
     bind (decode_kind (row_kind r)) (\<lambda>kind.
     bind (decode_structural c (row_structural r)) (\<lambda>structural.
     bind (decode_forensic c (row_forensic r)) (\<lambda>forensic.
     bind (to_hash (row_prev_hash r)) (\<lambda>prev.
     bind (to_hash (row_entry_hash r)) (\<lambda>hash.
       Inr \<lparr>ae_index = row_idx r, ae_timestamp_micros = row_timestamp r, ae_kind = kind,
            ae_actor = row_actor r, ae_structural = structural, ae_forensic = forensic,
            ae_call_chain_id = row_call_chain_id r, ae_project_id = row_project_id r,
            ae_prev_hash = prev, ae_entry_hash = hash\<rparr>)))))"

definition decode_structural_view :: "json_codec \<Rightarrow> row \<Rightarrow> audit_error + structural_view" where
  "decode_structural_view c r =
     bind (decode_kind (row_kind r)) (\<lambda>kind.
     bind (decode_structural c (row_structural r)) (\<lambda>structural.
       Inr \<lparr>sv_index = row_idx r, sv_timestamp_micros = row_timestamp r, sv_kind = kind,
            sv_actor = row_actor r, sv_structural = structural,
            sv_call_chain_id = row_call_chain_id r, sv_project_id = row_project_id r,
            sv_entry_hash_hex = hex (row_entry_hash r)\<rparr>))"

text \<open>\<open>ORDER BY idx ASC\<close> on the signed column.\<close>

definition order_by_idx :: "row list \<Rightarrow> row list" where
  "order_by_idx rows = sort_key (\<lambda>r. sint (row_idx r)) rows"

text \<open>\<open>INSERT\<close> with \<open>idx INTEGER PRIMARY KEY\<close>.\<close>

definition insert_row :: "row \<Rightarrow> row list \<Rightarrow> sqlx_error + row list" where
  "insert_row r rows =
     (if row_idx r \<in> row_idx ` set rows
      then Inl (Database (Some ''1555'') ''UNIQUE constraint failed: audit_entries.idx'')
      else Inr (rows @ [r]))"

section \<open>The checkpoint\<close>

record checkpoint =
  cp_index :: u64
  cp_entry_hash_hex :: string
  cp_attestation_hex :: string

datatype startup_check = Consistent | Genesis | Tampered string

text \<open>What stands at the checkpoint path, and how a write to it can end: the temporary file is
  renamed over the target only when it is complete, so a failure before the rename leaves the
  old file, and one after it (the directory \<open>fsync\<close>) the new one.\<close>

datatype checkpoint_file = NoFile | Stored checkpoint | Unreadable audit_error

datatype write_outcome = WriteOk | FailsBeforeRename audit_error | FailsAfterRename audit_error

definition checkpoint_read :: "checkpoint_file \<Rightarrow> audit_error + checkpoint option" where
  "checkpoint_read f = (case f of NoFile \<Rightarrow> Inr None | Stored cp \<Rightarrow> Inr (Some cp)
     | Unreadable e \<Rightarrow> Inl e)"

definition checkpoint_write ::
  "write_outcome \<Rightarrow> checkpoint_file \<Rightarrow> checkpoint \<Rightarrow> (audit_error + unit) \<times> checkpoint_file" where
  "checkpoint_write w f cp = (case w of
     WriteOk \<Rightarrow> (Inr (), Stored cp)
   | FailsBeforeRename e \<Rightarrow> (Inl e, f)
   | FailsAfterRename e \<Rightarrow> (Inl e, Stored cp))"

fun error_text :: "audit_error \<Rightarrow> string" where
  "error_text (Storage s) = ''ledger storage: '' @ s"
| "error_text LedgerFull = ''audit ledger is full''"
| "error_text (KeyUnavailable s) = ''audit key unavailable: '' @ s"
| "error_text (ChainBroken i d) = ''audit chain broken at index '' @ dec (unat i) @ '': '' @ d"
| "error_text (AuditIo s) = ''io: '' @ s"

definition assess_startup ::
  "audit_error + checkpoint option \<Rightarrow> bool \<Rightarrow> string option \<Rightarrow> startup_check" where
  "assess_startup stored ledger_empty entry_hash_at_checkpoint =
     (case stored of
        Inr None \<Rightarrow>
          if ledger_empty then Genesis
          else Tampered ''head checkpoint missing for a non-empty ledger (the truncation witness was removed)''
      | Inr (Some cp) \<Rightarrow>
          (case entry_hash_at_checkpoint of
             None \<Rightarrow> Tampered (''ledger has no entry at checkpoint index '' @ dec (unat (cp_index cp)) @ '' (truncated)'')
           | Some hash \<Rightarrow>
               if hash \<noteq> cp_entry_hash_hex cp
               then Tampered (''ledger entry hash at checkpoint index '' @ dec (unat (cp_index cp)) @
                      '' does not match the checkpoint (checkpoint or entry mutated)'')
               else Consistent)
      | Inl e \<Rightarrow> Tampered (''head checkpoint present but unreadable: '' @ error_text e))"

section \<open>The hardware anchor\<close>

record tpm_anchor =
  ta_attest :: "u64 \<Rightarrow> string \<Rightarrow> string + bytes"
  ta_verify :: "u64 \<Rightarrow> string \<Rightarrow> bytes \<Rightarrow> string + bool"

datatype attestation_check = Valid | AttInvalid | Absent | AttUnavailable string

definition assess_with_attestation :: "startup_check \<Rightarrow> attestation_check \<Rightarrow> bool \<Rightarrow> startup_check" where
  "assess_with_attestation check att anchor_required =
     (case check of
        Consistent \<Rightarrow>
          (case att of
             Valid \<Rightarrow> Consistent
           | AttInvalid \<Rightarrow> Tampered ''ledger head attestation does not match: the TPM did not sign this head, so the log or the checkpoint was rewritten''
           | Absent \<Rightarrow> if \<not> anchor_required then Consistent
               else Tampered ''ledger head attestation is missing though the anchor is required: the checkpoint was written without hardware backing or the attestation was stripped''
           | AttUnavailable d \<Rightarrow> Tampered (''ledger head attestation could not be verified: '' @ d))
      | _ \<Rightarrow> check)"

definition check_attestation :: "tpm_anchor \<Rightarrow> u64 \<Rightarrow> string \<Rightarrow> bytes \<Rightarrow> attestation_check" where
  "check_attestation a index entry_hash_hex att =
     (if att = [] then Absent
      else case ta_verify a index entry_hash_hex att of
        Inr True \<Rightarrow> Valid | Inr False \<Rightarrow> AttInvalid | Inl e \<Rightarrow> AttUnavailable e)"

definition mock_tag :: "u64 \<Rightarrow> u64 \<Rightarrow> string \<Rightarrow> bytes" where
  "mock_tag secret index entry_hash_hex =
     ''mock:'' @ dec (unat secret) @ '':'' @ dec (unat index) @ '':'' @ entry_hash_hex"

definition mock_tpm_anchor :: "u64 \<Rightarrow> tpm_anchor" where
  "mock_tpm_anchor secret =
     \<lparr>ta_attest = (\<lambda>i h. Inr (mock_tag secret i h)),
      ta_verify = (\<lambda>i h a. Inr (a = mock_tag secret i h))\<rparr>"

section \<open>The ledger\<close>

record disk =
  dk_rows :: "row list"
  dk_checkpoint :: checkpoint_file

record ledger =
  lg_key :: bytes
  lg_next_index :: u64
  lg_prev_hash :: bytes
  lg_anchor :: "tpm_anchor option"

record append_env =
  env_now :: u64
  env_insert_error :: "sqlx_error option"
  env_tpm_error :: "string option"
  env_checkpoint_write :: write_outcome

definition load_head :: "row list \<Rightarrow> audit_error + u64 \<times> bytes" where
  "load_head rows = (case rev (order_by_idx rows) of
     [] \<Rightarrow> Inr (0, GENESIS_PREV_HASH)
   | r # _ \<Rightarrow> bind (to_hash (row_entry_hash r)) (\<lambda>h. Inr (row_idx r + 1, h)))"

definition ledger_open :: "bytes \<Rightarrow> disk \<Rightarrow> audit_error + ledger" where
  "ledger_open key d = bind (load_head (dk_rows d)) (\<lambda>(next_index, prev_hash).
     Inr \<lparr>lg_key = key, lg_next_index = next_index, lg_prev_hash = prev_hash, lg_anchor = None\<rparr>)"

definition with_anchor :: "tpm_anchor \<Rightarrow> ledger \<Rightarrow> ledger" where
  "with_anchor a l = l\<lparr>lg_anchor := Some a\<rparr>"

definition head_for_checkpoint :: "ledger \<Rightarrow> (u64 \<times> string) option" where
  "head_for_checkpoint l = (if lg_next_index l = 0 then None
     else Some (lg_next_index l - 1, hex (lg_prev_hash l)))"

definition entry_hash_hex_at :: "row list \<Rightarrow> u64 \<Rightarrow> string option" where
  "entry_hash_hex_at rows index =
     map_option (\<lambda>r. hex (row_entry_hash r)) (List.find (\<lambda>r. row_idx r = index) rows)"

text \<open>\<open>probe_has_entries\<close> on a database that can be read: \<open>None\<close> when there is no file or no
  table.\<close>

definition probe_has_entries :: "row list option \<Rightarrow> bool" where
  "probe_has_entries table = (case table of None \<Rightarrow> False | Some rows \<Rightarrow> length rows > 0)"

definition append ::
  "mac \<Rightarrow> json_codec \<Rightarrow> append_env \<Rightarrow> disk \<Rightarrow> ledger \<Rightarrow> audit_kind \<Rightarrow> string \<Rightarrow> structural_record \<Rightarrow>
   forensic_record option \<Rightarrow> string option \<Rightarrow> string option \<Rightarrow> (audit_error + u64) \<times> disk \<times> ledger" where
  "append hmac c env d l kind actor structural forensic cc p =
     (let index = lg_next_index l;
          timestamp = env_now env;
          hash = compute_entry_hash hmac c (lg_key l) index timestamp kind actor structural forensic cc p
                   (lg_prev_hash l);
          r = \<lparr>row_idx = index, row_timestamp = timestamp, row_kind = as_str kind, row_actor = actor,
               row_structural = jc_structural c structural,
               row_forensic = map_option (jc_forensic c) forensic,
               row_call_chain_id = cc, row_project_id = p,
               row_prev_hash = lg_prev_hash l, row_entry_hash = hash\<rparr>
      in case (case env_insert_error env of Some e \<Rightarrow> Inl e | None \<Rightarrow> insert_row r (dk_rows d)) of
           Inl e \<Rightarrow> (Inl (map_sqlx e), d, l)
         | Inr rows \<Rightarrow>
             (let d' = d\<lparr>dk_rows := rows\<rparr>;
                  l' = l\<lparr>lg_next_index := lg_next_index l + 1, lg_prev_hash := hash\<rparr>;
                  hash_hex = hex hash;
                  attestation = (case lg_anchor l of
                      None \<Rightarrow> Inr ''''
                    | Some a \<Rightarrow> (case env_tpm_error env of Some e \<Rightarrow> Inl e
                        | None \<Rightarrow> map_sum id hex (ta_attest a index hash_hex)))
              in case attestation of
                   Inl e \<Rightarrow> (Inl (Storage (''TPM head attestation failed: '' @ e)), d', l')
                 | Inr att \<Rightarrow>
                     (case checkpoint_write (env_checkpoint_write env) (dk_checkpoint d')
                         \<lparr>cp_index = index, cp_entry_hash_hex = hash_hex, cp_attestation_hex = att\<rparr> of
                        (Inl e, f) \<Rightarrow> (Inl e, d'\<lparr>dk_checkpoint := f\<rparr>, l')
                      | (Inr _, f) \<Rightarrow> (Inr index, d'\<lparr>dk_checkpoint := f\<rparr>, l'))))"

fun verify_loop ::
  "mac \<Rightarrow> json_codec \<Rightarrow> bytes \<Rightarrow> u64 \<Rightarrow> bytes \<Rightarrow> row list \<Rightarrow> audit_error + u64" where
  "verify_loop hmac c key expected_index expected_prev [] = Inr expected_index"
| "verify_loop hmac c key expected_index expected_prev (r # rs) =
     (case decode_row c r of
        Inl e \<Rightarrow> Inl e
      | Inr e \<Rightarrow>
          if ae_index e \<noteq> expected_index then
            Inl (ChainBroken (ae_index e) (''expected index '' @ dec (unat expected_index) @
                   '', found '' @ dec (unat (ae_index e))))
          else if ae_prev_hash e \<noteq> expected_prev then
            Inl (ChainBroken (ae_index e) ''prev_hash does not link to the previous entry'')
          else if compute_entry_hash hmac c key (ae_index e) (ae_timestamp_micros e) (ae_kind e)
                 (ae_actor e) (ae_structural e) (ae_forensic e) (ae_call_chain_id e)
                 (ae_project_id e) (ae_prev_hash e) \<noteq> ae_entry_hash e then
            Inl (ChainBroken (ae_index e) ''entry_hash does not match the recomputed HMAC'')
          else verify_loop hmac c key (expected_index + 1) (ae_entry_hash e) rs)"

definition verify_ledger :: "mac \<Rightarrow> json_codec \<Rightarrow> bytes \<Rightarrow> row list \<Rightarrow> audit_error + u64" where
  "verify_ledger hmac c key rows = verify_loop hmac c key 0 GENESIS_PREV_HASH (order_by_idx rows)"

section \<open>The read API\<close>

definition MAX_READ_LIMIT :: nat where "MAX_READ_LIMIT = 1000"

definition sql_eq :: "string option \<Rightarrow> string option \<Rightarrow> bool" where
  "sql_eq param column = (case param of None \<Rightarrow> True | Some v \<Rightarrow> column = Some v)"

definition read_filter :: "string option \<Rightarrow> string option \<Rightarrow> string option \<Rightarrow> row \<Rightarrow> bool" where
  "read_filter p cc actor r \<longleftrightarrow> sql_eq p (row_project_id r) \<and> sql_eq cc (row_call_chain_id r) \<and>
     sql_eq actor (Some (row_actor r))"

definition reader_head :: "row list \<Rightarrow> string option \<Rightarrow> string option \<Rightarrow> string option \<Rightarrow> u64" where
  "reader_head rows p cc actor =
     (case rev (order_by_idx (filter (read_filter p cc actor) rows)) of
        [] \<Rightarrow> 0 | r # _ \<Rightarrow> row_idx r + 1)"

definition reader_count :: "row list \<Rightarrow> string option \<Rightarrow> string option \<Rightarrow> string option \<Rightarrow> u64" where
  "reader_count rows p cc actor = word_of_nat (length (filter (read_filter p cc actor) rows))"

definition clamp_i64 :: "u64 \<Rightarrow> int" where
  "clamp_i64 w = (if uint w < 2 ^ 63 then uint w else 2 ^ 63 - 1)"

fun collect_results :: "('e + 'a) list \<Rightarrow> 'e + 'a list" where
  "collect_results [] = Inr []"
| "collect_results (x # xs) = (case x of Inl e \<Rightarrow> Inl e
     | Inr y \<Rightarrow> (case collect_results xs of Inl e \<Rightarrow> Inl e | Inr ys \<Rightarrow> Inr (y # ys)))"

definition read_structural ::
  "json_codec \<Rightarrow> row list \<Rightarrow> u64 \<Rightarrow> u64 \<Rightarrow> u64 \<Rightarrow> string option \<Rightarrow> string option \<Rightarrow> string option \<Rightarrow>
   audit_error + structural_view list" where
  "read_structural c rows from to limit p cc actor =
     collect_results (map (decode_structural_view c)
       (take (min (unat limit) MAX_READ_LIMIT)
         (order_by_idx (filter (\<lambda>r. clamp_i64 from \<le> sint (row_idx r) \<and> sint (row_idx r) < clamp_i64 to
            \<and> read_filter p cc actor r) rows))))"

end
