(* ===== verification/Hash_Chain.thy ===== *)
theory Hash_Chain
  imports Prelude
begin

text \<open>
  Hash-chained logs as an interface: the audit ledger (\<open>daemons/audit-daemon\<close>) and the undo log
  (\<open>ai/ai-undo-core\<close>) hash every entry together with the hash before it, each over its own encoding.
  What such a chain protects is proved here once.
\<close>

section \<open>Chained logs\<close>

text \<open>
  A log whose entries are hashed together with the previous hash, over any injective encoding.
  The MAC is an argument of the lemmas, with the absence of collisions among the messages
  that occur.
\<close>

locale chained_log =
  fixes message :: "bytes \<Rightarrow> 'c \<Rightarrow> bytes" and ok :: "'c \<Rightarrow> bool" and hash_ok :: "bytes \<Rightarrow> bool"
  assumes message_inj: "ok c \<Longrightarrow> ok d \<Longrightarrow> hash_ok p \<Longrightarrow> hash_ok q \<Longrightarrow> message p c = message q d
      \<Longrightarrow> p = q \<and> c = d"
begin

fun link :: "(bytes \<Rightarrow> bytes) \<Rightarrow> bytes \<Rightarrow> 'c list \<Rightarrow> bytes" where
  "link mac p [] = p"
| "link mac p (c # cs) = link mac (mac (message p c)) cs"

fun messages :: "(bytes \<Rightarrow> bytes) \<Rightarrow> bytes \<Rightarrow> 'c list \<Rightarrow> bytes list" where
  "messages mac p [] = []"
| "messages mac p (c # cs) = message p c # messages mac (mac (message p c)) cs"

lemma link_snoc: "link mac p (cs @ [c]) = mac (message (link mac p cs) c)"
  by (induction cs arbitrary: p) simp_all

lemma messages_snoc: "messages mac p (cs @ [c]) = messages mac p cs @ [message (link mac p cs) c]"
  by (induction cs arbitrary: p) simp_all

lemma link_hash_ok: "hash_ok p \<Longrightarrow> (\<And>m. hash_ok (mac m)) \<Longrightarrow> hash_ok (link mac p cs)"
  by (induction cs arbitrary: p) simp_all

lemma same_head_same_log:
  assumes "length cs = length ds" and "list_all ok cs" and "list_all ok ds"
    and "hash_ok p" and mac_ok: "\<And>m. hash_ok (mac m)"
    and "inj_on mac (set (messages mac p cs) \<union> set (messages mac p ds))"
    and "link mac p cs = link mac p ds"
  shows "cs = ds"
  using assms(1,2,3,6,7)
proof (induction cs arbitrary: ds rule: rev_induct)
  case (snoc c cs)
  then obtain ds' d where ds: "ds = ds' @ [d]" by (cases ds rule: rev_cases) simp_all
  let ?m = "message (link mac p cs) c" and ?n = "message (link mac p ds') d"
  have inj: "inj_on mac (insert ?m (set (messages mac p cs)) \<union> insert ?n (set (messages mac p ds')))"
    using snoc.prems(4) by (simp add: ds messages_snoc)
  have "mac ?m = mac ?n" using snoc.prems(5) by (simp add: ds link_snoc)
  then have "?m = ?n" using inj_onD [OF inj] by blast
  then have "link mac p cs = link mac p ds' \<and> c = d"
    using snoc.prems(2,3) link_hash_ok [OF \<open>hash_ok p\<close>, of mac, OF mac_ok]
    by (intro message_inj) (simp_all add: ds)
  moreover have "inj_on mac (set (messages mac p cs) \<union> set (messages mac p ds'))"
    using inj by (rule inj_on_subset) auto
  moreover have "length cs = length ds'" "list_all ok cs" "list_all ok ds'"
    using snoc.prems(1,2,3) by (simp_all add: ds)
  ultimately show ?case using snoc.IH ds by blast
qed simp

end

end
