(* ===== verification/Audit_Chain.thy ===== *)
theory Audit_Chain
  imports Audit_Ledger Hash_Chain
begin

text \<open>
  What the hash chain of the ledger is worth: the encoding of an entry is injective, so two
  ledgers that verify and end in the same hash record the same entries unless HMAC collides;
  an append extends a ledger that verifies to one that verifies, on every error path too.
\<close>

section \<open>Length-prefixed fields\<close>

lemma feed_front:
  assumes "addressable x" "addressable y" "feed x @ r = feed y @ s"
  shows "x = y \<and> r = s"
proof -
  have "len_u64 x = len_u64 y" and rest: "x @ r = y @ s"
    using assms(3) by (auto simp: feed_def append_eq_append_conv)
  then have "length x = length y" using assms(1,2) len_u64_inj by blast
  with rest show ?thesis by simp
qed

interpretation ledger_field: field_encoding feed addressable
  by unfold_locales (rule feed_front)

section \<open>The content of an entry\<close>

type_synonym entry_content =
  "u64 \<times> u64 \<times> audit_kind \<times> string \<times> structural_record \<times> forensic_record option \<times> string \<times> string"

text \<open>What the chain protects: every field of an entry, where an absent identifier counts as an
  empty one.\<close>

definition content_of :: "audit_entry \<Rightarrow> entry_content" where
  "content_of e = (ae_index e, ae_timestamp_micros e, ae_kind e, ae_actor e, ae_structural e,
     ae_forensic e, unwrap_or (ae_call_chain_id e) '''', unwrap_or (ae_project_id e) '''')"

definition content_message :: "json_codec \<Rightarrow> bytes \<Rightarrow> entry_content \<Rightarrow> bytes" where
  "content_message c prev = (\<lambda>(i, t, k, a, s, f, cc, p).
     entry_message c i t k a s f (Some cc) (Some p) prev)"

definition codec_ok :: "json_codec \<Rightarrow> structural_record \<Rightarrow> forensic_record option \<Rightarrow> bool" where
  "codec_ok c s f \<longleftrightarrow> jc_parse_structural c (jc_structural c s) = Inr s \<and>
     (case f of None \<Rightarrow> True | Some x \<Rightarrow> jc_parse_forensic c (jc_forensic c x) = Inr x)"

definition content_ok :: "json_codec \<Rightarrow> entry_content \<Rightarrow> bool" where
  "content_ok c = (\<lambda>(i, t, k, a, s, f, cc, p).
     codec_ok c s f \<and> addressable a \<and> addressable (jc_structural c s) \<and>
     (case f of None \<Rightarrow> True | Some x \<Rightarrow> addressable (jc_forensic c x)) \<and>
     addressable cc \<and> addressable p)"

lemma addressable_as_str [simp]: "addressable (as_str k)"
  by (cases k) (simp_all add: addressable_def)

lemma be_bytes_front: "be_bytes v @ r = be_bytes w @ s \<Longrightarrow> v = w \<and> r = s"
  by (simp add: append_eq_append_conv)

lemma forensic_front:
  assumes "codec_ok c s f" "codec_ok c s' f'"
    and "case f of None \<Rightarrow> True | Some x \<Rightarrow> addressable (jc_forensic c x)"
    and "case f' of None \<Rightarrow> True | Some x \<Rightarrow> addressable (jc_forensic c x)"
    and "(case f of Some x \<Rightarrow> CHR 0x01 # feed (jc_forensic c x) | None \<Rightarrow> [CHR 0x00]) @ r =
      (case f' of Some x \<Rightarrow> CHR 0x01 # feed (jc_forensic c x) | None \<Rightarrow> [CHR 0x00]) @ r'"
  shows "f = f' \<and> r = r'"
proof (cases f)
  case None
  then show ?thesis using assms by (auto split: option.splits)
next
  case (Some x)
  with assms(5) obtain y where y: "f' = Some y" by (auto split: option.splits)
  have "feed (jc_forensic c x) @ r = feed (jc_forensic c y) @ r'"
    using assms(5) Some y by simp
  then have "jc_forensic c x = jc_forensic c y \<and> r = r'"
    using assms(3,4) Some y by (intro ledger_field.front) simp_all
  moreover have "Inr x = jc_parse_forensic c (jc_forensic c x)" "Inr y = jc_parse_forensic c (jc_forensic c y)"
    using assms(1,2) Some y by (simp_all add: codec_ok_def)
  ultimately show ?thesis using Some y by (metis Inr_inject)
qed

lemma content_message_inj:
  assumes "content_ok c x" "content_ok c y"
    and "content_message c p x = content_message c q y"
  shows "p = q \<and> x = y"
proof -
  obtain i t k a s f cc pr where x: "x = (i, t, k, a, s, f, cc, pr)" by (cases x) auto
  obtain i' t' k' a' s' f' cc' pr' where y: "y = (i', t', k', a', s', f', cc', pr')" by (cases y) auto
  note eq = assms(3) [unfolded x y content_message_def prod.case entry_message_def]
  have okx: "codec_ok c s f" "addressable a" "addressable (jc_structural c s)" "addressable cc" "addressable pr"
      "case f of None \<Rightarrow> True | Some z \<Rightarrow> addressable (jc_forensic c z)"
    and oky: "codec_ok c s' f'" "addressable a'" "addressable (jc_structural c s')" "addressable cc'" "addressable pr'"
      "case f' of None \<Rightarrow> True | Some z \<Rightarrow> addressable (jc_forensic c z)"
    using assms(1,2) by (simp_all add: x y content_ok_def)
  note e1 = be_bytes_front [OF eq]
  note e2 = be_bytes_front [OF conjunct2 [OF e1]]
  note e3 = ledger_field.front [OF addressable_as_str addressable_as_str conjunct2 [OF e2]]
  note e4 = ledger_field.front [OF okx(2) oky(2) conjunct2 [OF e3]]
  note e5 = ledger_field.front [OF okx(3) oky(3) conjunct2 [OF e4]]
  note e6 = forensic_front [OF okx(1) oky(1) okx(6) oky(6) conjunct2 [OF e5]]
  have e7: "cc = cc' \<and> feed pr @ p = feed pr' @ q"
    using ledger_field.front [OF okx(4) oky(4)] conjunct2 [OF e6] by (simp add: unwrap_or_def)
  have e8: "pr = pr' \<and> p = q"
    using ledger_field.front [OF okx(5) oky(5) conjunct2 [OF e7]] .
  have "s = s'"
    using conjunct1 [OF e5] okx(1) oky(1) unfolding codec_ok_def by (metis Inr_inject)
  then show ?thesis
    using e1 e2 e3 e4 e6 e7 e8 by (simp add: x y)
qed

interpretation ledger_log: chained_log "content_message c" "content_ok c" "\<lambda>h. length h = 32" for c
  by unfold_locales (rule content_message_inj)

section \<open>What verification establishes\<close>

definition last_hash :: "bytes \<Rightarrow> row list \<Rightarrow> bytes" where
  "last_hash prev rows = (if rows = [] then prev else row_entry_hash (last rows))"

lemma last_hash_simps [simp]:
  "last_hash prev [] = prev" "last_hash prev (rs @ [r]) = row_entry_hash r"
  "last_hash prev (r # rs) = last_hash (row_entry_hash r) rs"
  by (simp_all add: last_hash_def)

lemma bind_Inr [simp]: "bind m f = Inr y \<longleftrightarrow> (\<exists>x. m = Inr x \<and> f x = Inr y)"
  by (cases m) (simp_all add: bind_def)

lemma to_hash_Inr [simp]: "to_hash b = Inr h \<longleftrightarrow> length b = 32 \<and> h = b"
  by (auto simp: to_hash_def)

lemma decode_row_fields:
  assumes "decode_row c r = Inr e"
  shows "ae_index e = row_idx r" "ae_entry_hash e = row_entry_hash r" "ae_prev_hash e = row_prev_hash r"
    "length (ae_entry_hash e) = 32" "length (ae_prev_hash e) = 32"
  using assms by (auto simp: decode_row_def)

definition entry_hash_ok :: "mac \<Rightarrow> json_codec \<Rightarrow> bytes \<Rightarrow> audit_entry \<Rightarrow> bool" where
  "entry_hash_ok hmac c key e \<longleftrightarrow>
     hmac key (content_message c (ae_prev_hash e) (content_of e)) = ae_entry_hash e"

lemma compute_entry_hash_content:
  "compute_entry_hash hmac c key (ae_index e) (ae_timestamp_micros e) (ae_kind e) (ae_actor e)
     (ae_structural e) (ae_forensic e) (ae_call_chain_id e) (ae_project_id e) prev =
   hmac key (content_message c prev (content_of e))"
  by (simp add: compute_entry_hash_def content_message_def content_of_def entry_message_def
      unwrap_or_def)

lemma verify_loop_Cons:
  "verify_loop hmac c key n prev (r # rs) = Inr m \<longleftrightarrow>
   (\<exists>e. decode_row c r = Inr e \<and> ae_index e = n \<and> ae_prev_hash e = prev \<and> entry_hash_ok hmac c key e \<and>
        verify_loop hmac c key (n + 1) (ae_entry_hash e) rs = Inr m)"
  by (auto simp: compute_entry_hash_content entry_hash_ok_def split: sum.splits)

declare verify_loop.simps(2) [simp del]

lemma verify_loop_count:
  "verify_loop hmac c key n prev rs = Inr m \<Longrightarrow> m = n + of_nat (length rs)"
proof (induction rs arbitrary: n prev)
  case (Cons r rs)
  then show ?case by (fastforce simp: verify_loop_Cons algebra_simps)
qed simp

lemma verify_loop_index:
  "verify_loop hmac c key n prev rs = Inr m \<Longrightarrow> i < length rs \<Longrightarrow> row_idx (rs ! i) = n + of_nat i"
proof (induction rs arbitrary: n prev i)
  case (Cons r rs)
  from Cons.prems(1) obtain e where e: "decode_row c r = Inr e" "ae_index e = n"
    "verify_loop hmac c key (n + 1) (ae_entry_hash e) rs = Inr m"
    by (auto simp: verify_loop_Cons)
  show ?case
  proof (cases i)
    case 0
    then show ?thesis using e decode_row_fields [OF e(1)] by simp
  next
    case (Suc j)
    then show ?thesis using Cons.IH [OF e(3), of j] Cons.prems(2) by (simp add: algebra_simps)
  qed
qed simp

lemma verify_loop_snoc:
  "verify_loop hmac c key n prev (rs @ [r]) = Inr m \<longleftrightarrow>
   (\<exists>k e. verify_loop hmac c key n prev rs = Inr k \<and> decode_row c r = Inr e \<and> ae_index e = k \<and>
      ae_prev_hash e = last_hash prev rs \<and> entry_hash_ok hmac c key e \<and> m = k + 1)"
proof (induction rs arbitrary: n prev)
  case Nil
  then show ?case by (auto simp: verify_loop_Cons)
next
  case (Cons x xs)
  show ?case
    unfolding append_Cons verify_loop_Cons Cons.IH last_hash_simps
    by (rule iffI; elim exE conjE; simp; metis decode_row_fields(2))
qed

text \<open>The decoded entries of a verified list, and their chain as an instance of the abstract one.\<close>

definition decoded :: "json_codec \<Rightarrow> row list \<Rightarrow> audit_entry list" where
  "decoded c rs = List.map_filter (\<lambda>r. case decode_row c r of Inr e \<Rightarrow> Some e | Inl _ \<Rightarrow> None) rs"

lemma verified_chain:
  assumes "verify_loop hmac c key n prev rs = Inr m"
  shows "length (decoded c rs) = length rs"
    and "ledger_log.link c (hmac key) prev (map content_of (decoded c rs)) = last_hash prev rs"
    and "map ae_index (decoded c rs) = map row_idx rs"
  using assms
proof (induction rs arbitrary: n prev)
  case Nil
  case 1 show ?case by (simp add: decoded_def map_filter_simps)
  case 2 show ?case by (simp add: decoded_def map_filter_simps)
  case 3 show ?case by (simp add: decoded_def map_filter_simps)
next
  case (Cons r rs)
  have step: "\<exists>e. decode_row c r = Inr e \<and> ae_prev_hash e = prev \<and> entry_hash_ok hmac c key e \<and>
      decoded c (r # rs) = e # decoded c rs \<and> verify_loop hmac c key (n + 1) (row_entry_hash r) rs = Inr m"
    if "verify_loop hmac c key n prev (r # rs) = Inr m" for n prev
    using that decode_row_fields by (fastforce simp: verify_loop_Cons decoded_def map_filter_simps)
  case 1 then show ?case using step Cons.IH(1) by fastforce
  case 2
  then obtain e where e: "decode_row c r = Inr e" "ae_prev_hash e = prev" "entry_hash_ok hmac c key e"
    "decoded c (r # rs) = e # decoded c rs" "verify_loop hmac c key (n + 1) (row_entry_hash r) rs = Inr m"
    using step by blast
  then show ?case
    using Cons.IH(2) [OF e(5)] decode_row_fields [OF e(1)] by (simp add: entry_hash_ok_def)
  case 3 then show ?case using step Cons.IH(3) decode_row_fields(1) by fastforce
qed

text \<open>
  The contents a ledger records, in chain order, and the messages its chain hashes.
\<close>

definition ledger_contents :: "json_codec \<Rightarrow> row list \<Rightarrow> entry_content list" where
  "ledger_contents c rows = map content_of (decoded c (order_by_idx rows))"

definition ledger_messages :: "mac \<Rightarrow> json_codec \<Rightarrow> bytes \<Rightarrow> row list \<Rightarrow> bytes list" where
  "ledger_messages hmac c key rows =
     ledger_log.messages c (hmac key) GENESIS_PREV_HASH (ledger_contents c rows)"

lemma length_GENESIS [simp]: "length GENESIS_PREV_HASH = 32"
  by (simp add: GENESIS_PREV_HASH_def)

lemma length_order_by_idx [simp]: "length (order_by_idx rows) = length rows"
  by (simp add: order_by_idx_def)

lemma order_by_idx_empty [simp]: "order_by_idx [] = []"
  by (simp add: order_by_idx_def)

lemma order_by_idx_Nil [simp]: "order_by_idx rows = [] \<longleftrightarrow> rows = []"
  by (metis length_0_conv length_order_by_idx)

lemma load_head_verified:
  assumes "verify_ledger hmac c key rows = Inr m" and "load_head rows = Inr (n, h)"
  shows "n = of_nat (length rows)" and "h = last_hash GENESIS_PREV_HASH (order_by_idx rows)"
proof -
  have "n = of_nat (length rows) \<and> h = last_hash GENESIS_PREV_HASH (order_by_idx rows)"
  proof (cases "order_by_idx rows" rule: rev_cases)
    case Nil
    moreover from this have "rows = []" by simp
    ultimately show ?thesis using assms(2) by (simp add: load_head_def)
  next
    case (snoc rs r)
    have "row_idx r = of_nat (length rs)"
      using verify_loop_index [OF assms(1) [unfolded verify_ledger_def snoc], of "length rs"] by simp
    moreover have "length rows = Suc (length rs)"
      using snoc by (metis length_append_singleton length_order_by_idx)
    ultimately show ?thesis using assms(2) snoc by (auto simp: load_head_def algebra_simps)
  qed
  then show "n = of_nat (length rows)" and "h = last_hash GENESIS_PREV_HASH (order_by_idx rows)"
    by simp_all
qed

lemma same_head_same_entries:
  assumes "verify_ledger hmac c key rows = Inr m" and "verify_ledger hmac c key rows' = Inr m'"
    and "load_head rows = Inr (n, h)" and "load_head rows' = Inr (n, h)"
    and "length rows < 2 ^ 64" and "length rows' < 2 ^ 64"
    and ok: "list_all (content_ok c) (ledger_contents c rows)"
      "list_all (content_ok c) (ledger_contents c rows')"
    and mac: "\<And>m. length (hmac key m) = 32"
    and inj: "inj_on (hmac key) (set (ledger_messages hmac c key rows) \<union> set (ledger_messages hmac c key rows'))"
  shows "ledger_contents c rows = ledger_contents c rows'"
proof -
  note v = assms(1) [unfolded verify_ledger_def] and v' = assms(2) [unfolded verify_ledger_def]
  have "(of_nat (length rows) :: u64) = of_nat (length rows')"
    using load_head_verified(1) assms(1-4) by metis
  then have "length rows = length rows'"
    using assms(5,6) by (metis len_u64_def addressable_def len_u64_inj length_replicate)
  then have "length (ledger_contents c rows) = length (ledger_contents c rows')"
    using verified_chain(1) [OF v] verified_chain(1) [OF v'] by (simp add: ledger_contents_def)
  moreover have "ledger_log.link c (hmac key) GENESIS_PREV_HASH (ledger_contents c rows) =
      ledger_log.link c (hmac key) GENESIS_PREV_HASH (ledger_contents c rows')"
    using verified_chain(2) [OF v] verified_chain(2) [OF v'] load_head_verified(2) assms(1-4)
    by (metis ledger_contents_def)
  ultimately show ?thesis
    using ok mac inj unfolding ledger_messages_def
    by (intro ledger_log.same_head_same_log [where mac = "hmac key" and p = GENESIS_PREV_HASH]) simp_all
qed

section \<open>Appending\<close>

text \<open>
  A ledger the daemon itself wrote: rows in chain order from index 0 that verify, with the
  in-memory head in step.
\<close>

definition rows_ok :: "mac \<Rightarrow> json_codec \<Rightarrow> bytes \<Rightarrow> row list \<Rightarrow> bool" where
  "rows_ok hmac c key rows \<longleftrightarrow>
     verify_loop hmac c key 0 GENESIS_PREV_HASH rows = Inr (of_nat (length rows)) \<and>
     length rows \<le> 2 ^ 63"

definition head_ok :: "bytes \<Rightarrow> row list \<Rightarrow> ledger \<Rightarrow> bool" where
  "head_ok key rows l \<longleftrightarrow> lg_key l = key \<and> lg_next_index l = of_nat (length rows) \<and>
     lg_prev_hash l = last_hash GENESIS_PREV_HASH rows"

lemma sint_of_nat_small: "i < 2 ^ 63 \<Longrightarrow> sint (of_nat i :: u64) = int i"
  by (simp add: signed_of_nat signed_take_bit_int_eq_self)

lemma rows_ok_idx: "rows_ok hmac c key rows \<Longrightarrow> i < length rows \<Longrightarrow> row_idx (rows ! i) = of_nat i"
  using verify_loop_index by (fastforce simp: rows_ok_def)

lemma rows_ok_ordered:
  assumes "rows_ok hmac c key rows"
  shows "order_by_idx rows = rows"
proof -
  have "sint (row_idx (rows ! i)) = int i" if "i < length rows" for i
    using rows_ok_idx [OF assms that] that assms by (simp add: rows_ok_def sint_of_nat_small)
  then have "sorted (map (\<lambda>r. sint (row_idx r)) rows)"
    by (simp add: sorted_iff_nth_mono)
  then show ?thesis unfolding order_by_idx_def by (rule sort_key_id_if_sorted)
qed

lemma rows_ok_verify:
  "rows_ok hmac c key rows \<Longrightarrow> verify_ledger hmac c key rows = Inr (of_nat (length rows))"
  by (simp add: verify_ledger_def rows_ok_ordered) (simp add: rows_ok_def)

lemma rows_ok_last_length: "rows_ok hmac c key rows \<Longrightarrow> length (last_hash GENESIS_PREV_HASH rows) = 32"
  by (cases rows rule: rev_cases)
     (auto simp: rows_ok_def verify_loop_snoc, metis decode_row_fields(2,4))

lemma rows_ok_open:
  assumes "rows_ok hmac c key (dk_rows d)"
  shows "\<exists>l. ledger_open key d = Inr l \<and> head_ok key (dk_rows d) l \<and> lg_anchor l = None"
proof (cases "dk_rows d" rule: rev_cases)
  case Nil
  then show ?thesis
    by (simp add: ledger_open_def load_head_def order_by_idx_def bind_def head_ok_def)
next
  case (snoc rs r)
  have "row_idx r = of_nat (length rs)"
    using rows_ok_idx [OF assms, of "length rs"] snoc by simp
  moreover have "length (row_entry_hash r) = 32"
    using rows_ok_last_length [OF assms] snoc by simp
  ultimately show ?thesis
    using rows_ok_ordered [OF assms] snoc
    by (simp add: ledger_open_def load_head_def bind_def to_hash_def head_ok_def algebra_simps)
qed

lemma rows_ok_fresh:
  assumes "rows_ok hmac c key rows" and "length rows < 2 ^ 63"
  shows "(of_nat (length rows) :: u64) \<notin> row_idx ` set rows"
proof
  assume "(of_nat (length rows) :: u64) \<in> row_idx ` set rows"
  then obtain i where i: "i < length rows" "row_idx (rows ! i) = of_nat (length rows)"
    by (auto simp: in_set_conv_nth)
  then have "(of_nat i :: u64) = of_nat (length rows)" using rows_ok_idx [OF assms(1)] by simp
  then have "sint (of_nat i :: u64) = sint (of_nat (length rows) :: u64)" by simp
  with i(1) assms(2) show False by (simp add: sint_of_nat_small)
qed

text \<open>The row an append writes.\<close>

definition new_row ::
  "mac \<Rightarrow> json_codec \<Rightarrow> append_env \<Rightarrow> ledger \<Rightarrow> audit_kind \<Rightarrow> string \<Rightarrow> structural_record \<Rightarrow>
   forensic_record option \<Rightarrow> string option \<Rightarrow> string option \<Rightarrow> row" where
  "new_row hmac c env l kind actor structural forensic cc p =
     \<lparr>row_idx = lg_next_index l, row_timestamp = env_now env, row_kind = as_str kind, row_actor = actor,
      row_structural = jc_structural c structural,
      row_forensic = map_option (jc_forensic c) forensic,
      row_call_chain_id = cc, row_project_id = p, row_prev_hash = lg_prev_hash l,
      row_entry_hash = compute_entry_hash hmac c (lg_key l) (lg_next_index l) (env_now env) kind actor
        structural forensic cc p (lg_prev_hash l)\<rparr>"

definition new_entry ::
  "mac \<Rightarrow> json_codec \<Rightarrow> append_env \<Rightarrow> ledger \<Rightarrow> audit_kind \<Rightarrow> string \<Rightarrow> structural_record \<Rightarrow>
   forensic_record option \<Rightarrow> string option \<Rightarrow> string option \<Rightarrow> audit_entry" where
  "new_entry hmac c env l k a s f cc p =
     \<lparr>ae_index = lg_next_index l, ae_timestamp_micros = env_now env, ae_kind = k, ae_actor = a,
      ae_structural = s, ae_forensic = f, ae_call_chain_id = cc, ae_project_id = p,
      ae_prev_hash = lg_prev_hash l, ae_entry_hash = row_entry_hash (new_row hmac c env l k a s f cc p)\<rparr>"

lemma decode_new_row:
  assumes "codec_ok c s f" and "length (lg_prev_hash l) = 32" and "\<And>m. length (hmac (lg_key l) m) = 32"
  shows "decode_row c (new_row hmac c env l k a s f cc p) = Inr (new_entry hmac c env l k a s f cc p)"
  using assms
  by (auto simp: decode_row_def new_row_def new_entry_def decode_kind_def decode_structural_def
      decode_forensic_def codec_ok_def bind_def to_hash_def compute_entry_hash_def split: option.splits)

lemma new_row_verifies:
  assumes rows: "rows_ok hmac c key rows" and head: "head_ok key rows l"
    and "length rows < 2 ^ 63" and "codec_ok c s f" and mac: "\<And>m. length (hmac key m) = 32"
  shows "rows_ok hmac c key (rows @ [new_row hmac c env l k a s f cc p])"
proof -
  let ?r = "new_row hmac c env l k a s f cc p"
  let ?e = "new_entry hmac c env l k a s f cc p"
  have prev_len: "length (lg_prev_hash l) = 32"
    using rows_ok_last_length [OF rows] head by (simp add: head_ok_def)
  have "decode_row c ?r = Inr ?e"
    using decode_new_row [OF assms(4) prev_len] mac head by (simp add: head_ok_def)
  moreover have "entry_hash_ok hmac c key ?e"
    using head compute_entry_hash_content [of hmac c key ?e "lg_prev_hash l"]
    by (simp add: entry_hash_ok_def new_row_def new_entry_def head_ok_def)
  ultimately have "verify_loop hmac c key 0 GENESIS_PREV_HASH (rows @ [?r]) = Inr (of_nat (length rows) + 1)"
    using rows head by (simp add: verify_loop_snoc rows_ok_def head_ok_def new_entry_def)
  then show ?thesis using assms(3) by (simp add: rows_ok_def algebra_simps)
qed

text \<open>
  Every way an append can end: nothing was written, or the row was written and the head
  moved on, with the checkpoint either still the old one or the one of this row; and the
  index is returned only in the last case.
\<close>

lemma append_cases:
  assumes "append hmac c env d l k a s f cc p = (res, d', l')"
    and fresh: "lg_next_index l \<notin> row_idx ` set (dk_rows d)"
  shows "(\<exists>e. res = Inl e) \<and> d' = d \<and> l' = l \<or>
    dk_rows d' = dk_rows d @ [new_row hmac c env l k a s f cc p] \<and>
    l' = l\<lparr>lg_next_index := lg_next_index l + 1,
          lg_prev_hash := row_entry_hash (new_row hmac c env l k a s f cc p)\<rparr> \<and>
    ((\<exists>e. res = Inl e) \<and> dk_checkpoint d' = dk_checkpoint d \<or>
     ((\<exists>e. res = Inl e) \<or> res = Inr (lg_next_index l)) \<and>
     (\<exists>att. (\<exists>b. att = hex b) \<and> (lg_anchor l = None \<longrightarrow> att = '''') \<and>
        dk_checkpoint d' = Stored \<lparr>cp_index = lg_next_index l,
          cp_entry_hash_hex = hex (row_entry_hash (new_row hmac c env l k a s f cc p)),
          cp_attestation_hex = att\<rparr>))"
proof -
  have empty: "\<exists>b. '''' = hex b" by (rule exI [of _ "[]"]) (simp add: hex_def)
  have attested: "map_sum id hex x = Inr att \<Longrightarrow> \<exists>b. att = hex b" for x :: "string + bytes" and att
    by (cases x) auto
  show ?thesis
    using assms empty
    by (auto simp: append_def Let_def insert_row_def new_row_def checkpoint_write_def
        split: option.splits sum.splits write_outcome.splits dest!: attested)
qed

end
