(* ===== verification/Audit_Daemon.thy ===== *)
theory Audit_Daemon
  imports Audit_Chain
begin

text \<open>
  The audit daemon around its ledger (\<open>daemons/audit-daemon/src/main.rs\<close>, \<open>ingest/mod.rs\<close>,
  \<open>read.rs\<close> and the key policy of \<open>key.rs\<close>): start-up with its two integrity witnesses, the
  ingest handler, the read handler, and the runs of the whole daemon over crashes and
  restarts.
\<close>

section \<open>The key\<close>

text \<open>The key file as \<open>read_key\<close> meets it.\<close>

datatype key_file =
    NoKeyFile
  | Symlink
  | NotRegular
  | KeyFile (key_mode: nat) (key_bytes: bytes)

definition KEY_LEN :: nat where "KEY_LEN = 32"

definition read_key :: "key_file \<Rightarrow> audit_error + bytes" where
  "read_key f = (case f of
     NoKeyFile \<Rightarrow> Inl (AuditIo ''No such file or directory'')
   | Symlink \<Rightarrow> Inl (KeyUnavailable ''key file is a symlink; refusing to follow it'')
   | NotRegular \<Rightarrow> Inl (KeyUnavailable ''key path is not a regular file'')
   | KeyFile mode b \<Rightarrow>
       if and mode 63 \<noteq> 0 then Inl (KeyUnavailable ''key file is reachable by group or others; expected mode 0600'')
       else if length b \<noteq> KEY_LEN then
         Inl (KeyUnavailable (''key file holds '' @ dec (length b) @ '' bytes, expected '' @ dec KEY_LEN))
       else Inr b)"

text \<open>\<open>fresh\<close> is what the CSPRNG returns; the file it is written to has mode 0600.\<close>

definition load_or_create :: "bytes \<Rightarrow> key_file \<Rightarrow> bool \<Rightarrow> (audit_error + bytes) \<times> key_file" where
  "load_or_create fresh f ledger_has_entries =
     (if f \<noteq> NoKeyFile then (read_key f, f)
      else if ledger_has_entries then
        (Inl (KeyUnavailable ''key file is missing but the ledger already holds entries; refusing to generate a new key, which would invalidate the chain''), f)
      else (Inr fresh, KeyFile 384 fresh))"

section \<open>Start-up\<close>

definition ANCHOR_REQUIRED :: bool where "ANCHOR_REQUIRED = False"

definition is_char_boundary :: "string \<Rightarrow> nat \<Rightarrow> bool" where
  "is_char_boundary s i \<longleftrightarrow> i = length s \<or> i < length s \<and>
     \<not> (128 \<le> (of_char (s ! i) :: nat) \<and> (of_char (s ! i) :: nat) < 192)"

definition hex_digit :: "char \<Rightarrow> nat option" where
  "hex_digit ch =
     (let n = of_char ch in
      if 48 \<le> n \<and> n \<le> 57 then Some (n - 48)
      else if 97 \<le> n \<and> n \<le> 102 then Some (n - 87)
      else if 65 \<le> n \<and> n \<le> 70 then Some (n - 55)
      else None)"

text \<open>\<open>u8::from_str_radix\<close> on two bytes; a leading plus sign is accepted by the library.\<close>

definition hex_pair :: "char \<Rightarrow> char \<Rightarrow> char option" where
  "hex_pair a b = (case hex_digit b of None \<Rightarrow> None
     | Some lo \<Rightarrow> if a = CHR ''+'' then Some (char_of lo)
         else (case hex_digit a of None \<Rightarrow> None | Some hi \<Rightarrow> Some (char_of (16 * hi + lo))))"

fun hex_pairs :: "string \<Rightarrow> bytes option" where
  "hex_pairs [] = Some []"
| "hex_pairs [_] = None"
| "hex_pairs (a # b # s) = (case hex_pair a b of None \<Rightarrow> None
     | Some x \<Rightarrow> map_option ((#) x) (hex_pairs s))"

text \<open>Slicing a string inside a character panics, which is the value \<open>None\<close>. The iterator stops
  at the first pair that is no number, so only the slices up to it are taken.\<close>

fun slice_panics :: "nat \<Rightarrow> string \<Rightarrow> string \<Rightarrow> bool" where
  "slice_panics i whole (a # b # s) \<longleftrightarrow>
     \<not> is_char_boundary whole i \<or> \<not> is_char_boundary whole (i + 2) \<or>
     (hex_pair a b \<noteq> None \<and> slice_panics (i + 2) whole s)"
| "slice_panics i whole s \<longleftrightarrow> False"

definition hex_to_bytes :: "string \<Rightarrow> bytes option" where
  "hex_to_bytes s =
     (if odd (length s) then Some []
      else if slice_panics 0 s s then None
      else Some (case hex_pairs s of Some b \<Rightarrow> b | None \<Rightarrow> []))"

record daemon =
  dm_ledger :: ledger
  dm_tampered :: bool

datatype startup_outcome =
    Aborted audit_error
  | Panicked
  | Stopped
  | Serving disk daemon

record startup_env =
  se_tpm_error :: "string option"
  se_checkpoint_write :: write_outcome

definition reseed ::
  "startup_env \<Rightarrow> tpm_anchor option \<Rightarrow> disk \<Rightarrow> ledger \<Rightarrow> startup_outcome" where
  "reseed env anchor d l =
     (case head_for_checkpoint l of
        None \<Rightarrow> Serving d \<lparr>dm_ledger = l, dm_tampered = False\<rparr>
      | Some (index, hash_hex) \<Rightarrow>
          (case (case anchor of None \<Rightarrow> Inr ''''
                 | Some a \<Rightarrow> (case se_tpm_error env of Some e \<Rightarrow> Inl e
                     | None \<Rightarrow> map_sum id hex (ta_attest a index hash_hex))) of
             Inl e \<Rightarrow> Stopped
           | Inr att \<Rightarrow>
               (case checkpoint_write (se_checkpoint_write env) (dk_checkpoint d)
                   \<lparr>cp_index = index, cp_entry_hash_hex = hash_hex, cp_attestation_hex = att\<rparr> of
                  (Inr _, f) \<Rightarrow> Serving (d\<lparr>dk_checkpoint := f\<rparr>) \<lparr>dm_ledger = l, dm_tampered = False\<rparr>
                | (Inl _, f) \<Rightarrow> Serving (d\<lparr>dk_checkpoint := f\<rparr>) \<lparr>dm_ledger = l, dm_tampered = True\<rparr>)))"

definition witness_check :: "tpm_anchor option \<Rightarrow> disk \<Rightarrow> ledger \<Rightarrow> startup_check option" where
  "witness_check anchor d l =
     (let stored = checkpoint_read (dk_checkpoint d);
          empty = (head_for_checkpoint l = None)
      in case stored of
           Inr (Some cp) \<Rightarrow>
             (case hex_to_bytes (cp_attestation_hex cp) of
                None \<Rightarrow> None
              | Some att \<Rightarrow>
                  (let check = assess_startup stored empty (entry_hash_hex_at (dk_rows d) (cp_index cp))
                   in Some (case anchor of
                        Some a \<Rightarrow> assess_with_attestation check
                            (check_attestation a (cp_index cp) (cp_entry_hash_hex cp) att) ANCHOR_REQUIRED
                      | None \<Rightarrow> check)))
         | _ \<Rightarrow> Some (assess_startup stored empty None))"

definition startup ::
  "mac \<Rightarrow> json_codec \<Rightarrow> startup_env \<Rightarrow> tpm_anchor option \<Rightarrow> bytes \<Rightarrow> disk \<Rightarrow> startup_outcome" where
  "startup hmac c env anchor key d =
     (case ledger_open key d of
        Inl e \<Rightarrow> Aborted e
      | Inr l0 \<Rightarrow>
          (let l = (case anchor of Some a \<Rightarrow> with_anchor a l0 | None \<Rightarrow> l0)
           in case verify_ledger hmac c key (dk_rows d) of
                Inl (ChainBroken _ _) \<Rightarrow> Serving d \<lparr>dm_ledger = l, dm_tampered = True\<rparr>
              | Inl e \<Rightarrow> Aborted e
              | Inr _ \<Rightarrow>
                  (case witness_check anchor d l of
                     None \<Rightarrow> Panicked
                   | Some Consistent \<Rightarrow> reseed env anchor d l
                   | Some Genesis \<Rightarrow> Serving d \<lparr>dm_ledger = l, dm_tampered = False\<rparr>
                   | Some (Tampered _) \<Rightarrow> Serving d \<lparr>dm_ledger = l, dm_tampered = True\<rparr>)))"

section \<open>Ingest\<close>

definition ADMITTED :: "string list" where
  "ADMITTED = [''ai-daemon'', ''ai-proxy'', ''ai-agent'', ''online-accounts'', ''notifyd'',
     ''installd'', ''knowledge'', ''consent-broker'', ''xdg-desktop-portal'', ''desktop-shell'',
     ''dev.arlen.desktop-shell'', ''bottled'', ''capsuled'', ''connections'', ''config-broker'',
     ''transferd'']"

definition DEV_ADMITTED :: "string list" where
  "DEV_ADMITTED = [''dev.arlen-ai-daemon'', ''dev.arlen-ai-proxy'', ''dev.arlen-ai-agent'',
     ''dev.arlen-ai-engine-daemon'', ''dev.arlen-graph-daemon'', ''dev.arlen-consent-broker'',
     ''dev.arlen-desktop-shell'', ''dev.arlen-connectionsd'', ''dev.arlen-capsuled'',
     ''dev.arlen-bottled'', ''dev.arlen-transferd'', ''dev.arlen-accountsd'',
     ''dev.arlen-config-broker'']"

definition dev_extra_admits :: "string option \<Rightarrow> string \<Rightarrow> bool" where
  "dev_extra_admits env_var app \<longleftrightarrow> env_var = Some app"

definition caller_is_admitted :: "bool \<Rightarrow> string option \<Rightarrow> string \<Rightarrow> bool" where
  "caller_is_admitted debug_assertions env_var app =
     (if app \<in> set ADMITTED then True
      else if debug_assertions then app \<in> set DEV_ADMITTED \<or> dev_extra_admits env_var app
      else False)"

datatype bus_event = Emit string string

text \<open>\<open>decode_request\<close> is the JSON decoder of a request, with the error text of the library.\<close>

definition record_event ::
  "mac \<Rightarrow> json_codec \<Rightarrow> (bytes \<Rightarrow> string + ingest_request) \<Rightarrow> append_env \<Rightarrow> disk \<Rightarrow> daemon \<Rightarrow>
   string \<Rightarrow> bytes \<Rightarrow> ingest_response \<times> bus_event list \<times> disk \<times> daemon" where
  "record_event hmac c decode_request env d dm actor body =
     (if dm_tampered dm then
        (Unavailable ''audit ledger failed integrity verification; refusing new entries'', [], d, dm)
      else case decode_request body of
        Inl e \<Rightarrow> (Unavailable (proto_error_text (Codec (''decode request: '' @ e))), [], d, dm)
      | Inr req \<Rightarrow>
          (case validate_request req of
             Inl e \<Rightarrow> (Unavailable (proto_error_text e), [], d, dm)
           | Inr _ \<Rightarrow>
               (case append hmac c env d (dm_ledger dm) (ir_kind req) actor (ir_structural req)
                   (ir_forensic req) (ir_call_chain_id req) (ir_project_id req) of
                  (Inr index, d', l') \<Rightarrow>
                    (Appended index,
                     [Emit (''audit.ai.'' @ as_str (ir_kind req)) (''{'' @ [CHR 0x22] @ ''index'' @
                        [CHR 0x22] @ '':'' @ dec (unat index) @ ''}'')],
                     d', dm\<lparr>dm_ledger := l'\<rparr>)
                | (Inl e, d', l') \<Rightarrow>
                    (Unavailable (error_text e), [], d', dm\<lparr>dm_ledger := l'\<rparr>))))"

text \<open>One connection: the frames of the peer, each with the environment it is served in.\<close>

fun serve_connection ::
  "mac \<Rightarrow> json_codec \<Rightarrow> (bytes \<Rightarrow> string + ingest_request) \<Rightarrow> disk \<Rightarrow> daemon \<Rightarrow> string \<Rightarrow>
   (append_env \<times> bytes) list \<Rightarrow> ingest_response list \<times> disk \<times> daemon" where
  "serve_connection hmac c dec_req d dm actor [] = ([], d, dm)"
| "serve_connection hmac c dec_req d dm actor ((env, body) # rest) =
     (case record_event hmac c dec_req env d dm actor body of
        (resp, _, d', dm') \<Rightarrow>
          (case serve_connection hmac c dec_req d' dm' actor rest of
             (resps, d'', dm'') \<Rightarrow> (resp # resps, d'', dm'')))"

text \<open>\<open>auth\<close> is the peer identity \<open>ConnectionAuth\<close> resolved, or its error.\<close>

definition handle_ingest ::
  "mac \<Rightarrow> json_codec \<Rightarrow> (bytes \<Rightarrow> string + ingest_request) \<Rightarrow> bool \<Rightarrow> string option \<Rightarrow> disk \<Rightarrow> daemon \<Rightarrow>
   string + string \<Rightarrow> append_env list \<Rightarrow> bytes \<Rightarrow> ingest_response list \<times> disk \<times> daemon" where
  "handle_ingest hmac c dec_req debug env_var d dm auth envs stream =
     (case auth of
        Inl _ \<Rightarrow> ([], d, dm)
      | Inr app \<Rightarrow>
          if \<not> caller_is_admitted debug env_var app then ([], d, dm)
          else serve_connection hmac c dec_req d dm app (zip envs (read_frames stream)))"

section \<open>The read handler\<close>

definition serve_read ::
  "json_codec \<Rightarrow> (bytes \<Rightarrow> string + read_request) \<Rightarrow> bool \<Rightarrow> bool \<Rightarrow> disk \<Rightarrow> daemon \<Rightarrow> bytes \<Rightarrow> read_response" where
  "serve_read c from_slice head_fails count_fails d dm body =
     (case from_slice body of
        Inl e \<Rightarrow> ReadError (''malformed read request: '' @ e)
      | Inr req \<Rightarrow>
          (let p = rr_project_id req; cc = rr_call_chain_id req; actor = rr_actor req; rows = dk_rows d
           in case read_structural c rows (rr_from req) (rr_to req) (rr_limit req) p cc actor of
                Inl e \<Rightarrow> ReadError (error_text e)
              | Inr entries \<Rightarrow>
                  (let fallback_head = (case rev entries of [] \<Rightarrow> 0 | e # _ \<Rightarrow> sv_index e + 1);
                       head = (if head_fails then fallback_head
                               else max (reader_head rows p cc actor) fallback_head);
                       matching = (if count_fails then word_of_nat (length entries)
                                   else reader_count rows p cc actor)
                   in Page entries (dm_tampered dm) head matching)))"

end
