(* ===== verification/Audit_Runs.thy ===== *)
theory Audit_Runs
  imports Audit_Daemon
begin

text \<open>
  The runs of the audit daemon: starts, ingested events, failures of the disk, the database and
  the TPM at any point, and crashes. The invariant of all runs, and what follows from it for the
  integrity of the log.
\<close>

section \<open>Hexadecimal attestations\<close>

lemma hex_digit_digit_char: "d < 16 \<Longrightarrow> hex_digit (digit_char d) = Some d"
  by (drule nat_below_16, elim insertE emptyE; simp add: digit_char_def hex_digit_def)

lemma digit_char_no_plus: "d < 16 \<Longrightarrow> digit_char d \<noteq> CHR ''+''"
  by (drule nat_below_16, elim insertE emptyE; simp add: digit_char_def)

lemma digit_char_ascii: "d < 16 \<Longrightarrow> of_char (digit_char d) < (128::nat)"
  by (drule nat_below_16, elim insertE emptyE; simp add: digit_char_def)

lemma of_char_div_16: "(of_char b :: nat) div 16 < 16"
  using nat_of_char_less_256 [of b] by linarith

lemma hex_pair_byte: "hex_pair (digit_char (of_char b div 16)) (digit_char (of_char b mod 16)) = Some b"
  by (simp add: hex_pair_def hex_digit_digit_char of_char_div_16 digit_char_no_plus)

lemma hex_pairs_hex: "hex_pairs (hex b) = Some b"
  by (induction b) (simp_all add: hex_def hex_pair_byte)

lemma hex_ascii: "ch \<in> set (hex b) \<Longrightarrow> of_char ch < (128::nat)"
  by (auto simp: hex_def digit_char_ascii of_char_div_16)

lemma ascii_boundary: "\<forall>ch \<in> set s. of_char ch < (128::nat) \<Longrightarrow> i \<le> length s \<Longrightarrow> is_char_boundary s i"
  using nth_mem [of i s] by (fastforce simp: is_char_boundary_def)

lemma ascii_no_panic:
  assumes "\<forall>ch \<in> set whole. of_char ch < (128::nat)" and "i + length s = length whole"
  shows "\<not> slice_panics i whole s"
  using assms
proof (induction i whole s rule: slice_panics.induct)
  case (1 i whole a b s)
  then show ?case by (simp add: ascii_boundary)
qed simp_all

lemma hex_to_bytes_hex: "hex_to_bytes (hex b) = Some b"
proof -
  have "even (length (hex b))" by (induction b) (simp_all add: hex_def)
  moreover have "\<not> slice_panics 0 (hex b) (hex b)"
    using hex_ascii by (intro ascii_no_panic) auto
  ultimately show ?thesis by (simp add: hex_to_bytes_def hex_pairs_hex)
qed

text \<open>An attestation that is not hexadecimal text stops the start-up: the slice falls inside a
  character.\<close>

lemma hex_to_bytes_panics: "hex_to_bytes [CHR ''a'', CHR 0xC3, CHR 0xA9, CHR ''b''] = None"
  by (simp add: hex_to_bytes_def is_char_boundary_def)

section \<open>Runs\<close>

record sys =
  sy_disk :: disk
  sy_daemon :: "daemon option"
  sy_acked :: "u64 list"

definition empty_disk :: disk where
  "empty_disk = \<lparr>dk_rows = [], dk_checkpoint = NoFile\<rparr>"

inductive run ::
  "mac \<Rightarrow> json_codec \<Rightarrow> (bytes \<Rightarrow> string + ingest_request) \<Rightarrow> tpm_anchor option \<Rightarrow> bytes \<Rightarrow> sys \<Rightarrow> bool"
  for hmac c decode anchor key where
  genesis: "run hmac c decode anchor key \<lparr>sy_disk = empty_disk, sy_daemon = None, sy_acked = []\<rparr>"
| start: "run hmac c decode anchor key s \<Longrightarrow>
    startup hmac c env anchor key (sy_disk s) = Serving d dm \<Longrightarrow>
    run hmac c decode anchor key (s\<lparr>sy_disk := d, sy_daemon := Some dm\<rparr>)"
| ingest: "run hmac c decode anchor key s \<Longrightarrow> sy_daemon s = Some dm \<Longrightarrow>
    length (dk_rows (sy_disk s)) < 2 ^ 63 \<Longrightarrow>
    (\<And>req. decode body = Inr req \<Longrightarrow> codec_ok c (ir_structural req) (ir_forensic req)) \<Longrightarrow>
    record_event hmac c decode env (sy_disk s) dm actor body = (resp, events, d, dm') \<Longrightarrow>
    run hmac c decode anchor key (s\<lparr>sy_disk := d, sy_daemon := Some dm',
      sy_acked := (case resp of Appended i \<Rightarrow> i # sy_acked s | Unavailable _ \<Rightarrow> sy_acked s)\<rparr>)"
| crash: "run hmac c decode anchor key s \<Longrightarrow> run hmac c decode anchor key (s\<lparr>sy_daemon := None\<rparr>)"

text \<open>A checkpoint that witnesses the acknowledged entries.\<close>

definition witness_ok :: "tpm_anchor option \<Rightarrow> row list \<Rightarrow> u64 list \<Rightarrow> checkpoint_file \<Rightarrow> bool" where
  "witness_ok anchor rows acked f = (case f of
     NoFile \<Rightarrow> acked = []
   | Unreadable _ \<Rightarrow> False
   | Stored cp \<Rightarrow> unat (cp_index cp) < length rows \<and>
       cp_entry_hash_hex cp = hex (row_entry_hash (rows ! unat (cp_index cp))) \<and>
       (\<exists>b. cp_attestation_hex cp = hex b) \<and>
       (anchor = None \<longrightarrow> cp_attestation_hex cp = '''') \<and>
       (\<forall>i \<in> set acked. unat i \<le> unat (cp_index cp)))"

definition sys_ok :: "mac \<Rightarrow> json_codec \<Rightarrow> tpm_anchor option \<Rightarrow> bytes \<Rightarrow> sys \<Rightarrow> bool" where
  "sys_ok hmac c anchor key s \<longleftrightarrow>
     rows_ok hmac c key (dk_rows (sy_disk s)) \<and>
     witness_ok anchor (dk_rows (sy_disk s)) (sy_acked s) (dk_checkpoint (sy_disk s)) \<and>
     (case sy_daemon s of None \<Rightarrow> True
      | Some dm \<Rightarrow> head_ok key (dk_rows (sy_disk s)) (dm_ledger dm) \<and> lg_anchor (dm_ledger dm) = anchor)"

lemma witness_ok_grow:
  "witness_ok anchor rows acked f \<Longrightarrow> witness_ok anchor (rows @ [r]) acked f"
  by (auto simp: witness_ok_def nth_append split: checkpoint_file.splits)

lemma witness_ok_acked: "witness_ok anchor rows acked f \<Longrightarrow> i \<in> set acked \<Longrightarrow> unat i < length rows"
  by (auto simp: witness_ok_def split: checkpoint_file.splits)

lemma witness_ok_new:
  assumes "\<forall>i \<in> set acked. unat i \<le> length rows" and "unat n = length rows"
    and "\<exists>b. att = hex b" and "anchor = None \<longrightarrow> att = ''''"
  shows "witness_ok anchor (rows @ [r]) acked
    (Stored \<lparr>cp_index = n, cp_entry_hash_hex = hex (row_entry_hash r), cp_attestation_hex = att\<rparr>)"
  using assms by (simp add: witness_ok_def)

lemma unat_small: "n < 2 ^ 63 \<Longrightarrow> unat (of_nat n :: u64) = n"
  by (simp add: unat_of_nat)

lemma head_ok_snoc:
  "head_ok key rows l \<Longrightarrow>
   head_ok key (rows @ [r]) (l\<lparr>lg_next_index := lg_next_index l + 1, lg_prev_hash := row_entry_hash r\<rparr>)"
  by (simp add: head_ok_def algebra_simps)

text \<open>One append, on every path it can take.\<close>

lemma append_preserves:
  assumes rows: "rows_ok hmac c key (dk_rows d)" and head: "head_ok key (dk_rows d) l"
    and wit: "witness_ok (lg_anchor l) (dk_rows d) acked (dk_checkpoint d)"
    and small: "length (dk_rows d) < 2 ^ 63" and codec: "codec_ok c st f"
    and mac: "\<And>m. length (hmac key m) = 32"
    and app: "append hmac c env d l k a st f cc p = (res, d', l')"
  shows "rows_ok hmac c key (dk_rows d') \<and> head_ok key (dk_rows d') l' \<and> lg_anchor l' = lg_anchor l \<and>
    witness_ok (lg_anchor l) (dk_rows d')
      (case res of Inr i \<Rightarrow> i # acked | Inl _ \<Rightarrow> acked) (dk_checkpoint d')"
proof -
  let ?r = "new_row hmac c env l k a st f cc p"
  have idx: "lg_next_index l = of_nat (length (dk_rows d))" using head by (simp add: head_ok_def)
  have fresh: "lg_next_index l \<notin> row_idx ` set (dk_rows d)"
    using rows_ok_fresh [OF rows small] idx by simp
  have unat_idx: "unat (lg_next_index l) = length (dk_rows d)"
    using idx small by (simp add: unat_small)
  have old: "\<forall>i \<in> set acked. unat i \<le> length (dk_rows d)"
    using witness_ok_acked [OF wit] by (auto intro: less_imp_le)
  have rows': "rows_ok hmac c key (dk_rows d @ [?r])"
    using new_row_verifies [OF rows head small codec] mac by blast
  have new: "witness_ok (lg_anchor l) (dk_rows d @ [?r]) ack
      (Stored \<lparr>cp_index = lg_next_index l, cp_entry_hash_hex = hex (row_entry_hash ?r), cp_attestation_hex = att\<rparr>)"
    if "ack = acked \<or> ack = lg_next_index l # acked" "\<exists>b. att = hex b" "lg_anchor l = None \<longrightarrow> att = ''''"
    for ack att
    using that old unat_idx by (intro witness_ok_new) auto
  from append_cases [OF app fresh] show ?thesis
  proof (elim disjE conjE exE)
    fix e assume "res = Inl e" "d' = d" "l' = l"
    then show ?thesis using rows head wit by simp
  next
    fix e assume "dk_rows d' = dk_rows d @ [?r]" "res = Inl e" "dk_checkpoint d' = dk_checkpoint d"
      "l' = l\<lparr>lg_next_index := lg_next_index l + 1, lg_prev_hash := row_entry_hash ?r\<rparr>"
    then show ?thesis using rows' head_ok_snoc [OF head] witness_ok_grow [OF wit] by simp
  qed (use rows' head_ok_snoc [OF head] in \<open>auto intro!: new\<close>)
qed

text \<open>An ingested event changes the state through one append only.\<close>

lemma record_event_cases:
  assumes "record_event hmac c decode env d dm actor body = (resp, events, d', dm')"
  obtains (refused) t where "d' = d" "dm' = dm" "resp = Unavailable t"
  | (appended) req res l' where "\<not> dm_tampered dm" "decode body = Inr req" "validate_request req = Inr ()"
      "append hmac c env d (dm_ledger dm) (ir_kind req) actor (ir_structural req) (ir_forensic req)
         (ir_call_chain_id req) (ir_project_id req) = (res, d', l')"
      "dm' = dm\<lparr>dm_ledger := l'\<rparr>"
      "resp = (case res of Inr i \<Rightarrow> Appended i | Inl e \<Rightarrow> Unavailable (error_text e))"
proof (cases "dm_tampered dm")
  case True
  then show ?thesis using assms refused by (auto simp: record_event_def)
next
  case fit: False
  show ?thesis
  proof (cases "decode body")
    case (Inl e)
    then show ?thesis using assms fit refused by (auto simp: record_event_def)
  next
    case req: (Inr req)
    obtain res d1 l1 where app: "append hmac c env d (dm_ledger dm) (ir_kind req) actor (ir_structural req)
        (ir_forensic req) (ir_call_chain_id req) (ir_project_id req) = (res, d1, l1)"
      by (metis prod_cases3)
    show ?thesis
    proof (cases "validate_request req")
      case (Inl e)
      then show ?thesis using assms fit req refused by (auto simp: record_event_def)
    next
      case (Inr u)
      then show ?thesis
        using assms fit req app appended [of req res l1]
        by (cases res) (auto simp: record_event_def)
    qed
  qed
qed

lemma record_preserves:
  assumes ok: "sys_ok hmac c anchor key s" and dm: "sy_daemon s = Some dm"
    and small: "length (dk_rows (sy_disk s)) < 2 ^ 63"
    and codec: "\<And>req. decode body = Inr req \<Longrightarrow> codec_ok c (ir_structural req) (ir_forensic req)"
    and mac: "\<And>m. length (hmac key m) = 32"
    and rec: "record_event hmac c decode env (sy_disk s) dm actor body = (resp, events, d, dm')"
  shows "sys_ok hmac c anchor key (s\<lparr>sy_disk := d, sy_daemon := Some dm',
      sy_acked := (case resp of Appended i \<Rightarrow> i # sy_acked s | Unavailable _ \<Rightarrow> sy_acked s)\<rparr>)"
  using rec
proof (cases rule: record_event_cases)
  case refused
  then show ?thesis using ok dm by (simp add: sys_ok_def)
next
  case (appended req res l')
  have "rows_ok hmac c key (dk_rows d) \<and> head_ok key (dk_rows d) l' \<and> lg_anchor l' = anchor \<and>
      witness_ok anchor (dk_rows d) (case res of Inr i \<Rightarrow> i # sy_acked s | Inl _ \<Rightarrow> sy_acked s) (dk_checkpoint d)"
    using append_preserves [where acked = "sy_acked s", OF _ _ _ small codec [OF appended(2)] mac appended(4)] ok dm
    by (simp add: sys_ok_def)
  then show ?thesis using appended(5,6) by (cases res) (simp_all add: sys_ok_def)
qed

text \<open>Starting, with whatever verdict.\<close>

lemma hex_hash_at: "rows_ok hmac c key rows \<Longrightarrow> unat n < length rows \<Longrightarrow>
    entry_hash_hex_at rows n = Some (hex (row_entry_hash (rows ! unat n)))"
proof -
  assume ok: "rows_ok hmac c key rows" and n: "unat n < length rows"
  have idx: "row_idx (rows ! i) = n \<longleftrightarrow> i = unat n" if "i < length rows" for i
  proof -
    have "i < 2 ^ 63" using that ok by (simp add: rows_ok_def)
    then show ?thesis
      using rows_ok_idx [OF ok that] by (metis unat_small word_unat_eq_iff)
  qed
  have "List.find (\<lambda>r. row_idx r = n) rows = Some (rows ! unat n)"
    unfolding find_Some_iff using n idx by (intro exI [of _ "unat n"]) auto
  then show ?thesis by (simp add: entry_hash_hex_at_def)
qed

lemma reseed_preserves:
  assumes rows: "rows_ok hmac c key (dk_rows d)" and head: "head_ok key (dk_rows d) l"
    and wit: "witness_ok anchor (dk_rows d) acked (dk_checkpoint d)" and anchor: "lg_anchor l = anchor"
    and out: "reseed env anchor d l = Serving d' dm"
  shows "dk_rows d' = dk_rows d \<and> dm_ledger dm = l \<and> witness_ok anchor (dk_rows d) acked (dk_checkpoint d')"
proof (cases "dk_rows d" rule: rev_cases)
  case Nil
  then show ?thesis using out head wit
    by (auto simp: reseed_def head_for_checkpoint_def head_ok_def)
next
  case (snoc rs r)
  have small: "length rs < 2 ^ 63" using rows snoc by (simp add: rows_ok_def)
  have next_index: "lg_next_index l = of_nat (Suc (length rs))"
    using head snoc by (simp add: head_ok_def)
  have "unat (of_nat (Suc (length rs)) :: u64) = Suc (length rs)"
    using small by (simp add: unat_of_nat del: of_nat_Suc)
  then have idx: "lg_next_index l - 1 = of_nat (length rs)" "lg_next_index l \<noteq> 0"
    using next_index by (auto simp del: of_nat_Suc) simp
  have new: "witness_ok anchor (dk_rows d) acked (Stored \<lparr>cp_index = of_nat (length rs),
      cp_entry_hash_hex = hex (lg_prev_hash l), cp_attestation_hex = att\<rparr>)"
    if "\<exists>b. att = hex b" "anchor = None \<longrightarrow> att = ''''" for att
  proof -
    have "\<forall>i \<in> set acked. unat i \<le> length rs"
      using witness_ok_acked [OF wit] snoc by (simp add: less_Suc_eq_le)
    moreover have "lg_prev_hash l = row_entry_hash r" using head snoc by (simp add: head_ok_def)
    ultimately show ?thesis
      using that small unfolding snoc by (simp add: witness_ok_new unat_small)
  qed
  have empty: "\<exists>b. '''' = hex b" by (rule exI [of _ "[]"]) (simp add: hex_def)
  have attested: "map_sum id hex x = Inr att \<Longrightarrow> \<exists>b. att = hex b" for x :: "string + bytes" and att
    by (cases x) auto
  note defs = reseed_def head_for_checkpoint_def checkpoint_write_def
  show ?thesis
  proof (cases anchor)
    case None
    have "witness_ok None (dk_rows d) acked (Stored \<lparr>cp_index = of_nat (length rs),
        cp_entry_hash_hex = hex (lg_prev_hash l), cp_attestation_hex = ''''\<rparr>)"
      using new [OF empty] None by simp
    then show ?thesis
      using out wit idx None by (auto simp: defs split: write_outcome.splits)
  next
    case (Some a)
    have "witness_ok (Some a) (dk_rows d) acked (Stored \<lparr>cp_index = of_nat (length rs),
        cp_entry_hash_hex = hex (lg_prev_hash l), cp_attestation_hex = hex b\<rparr>)" for b
      using new [of "hex b"] Some by auto
    then show ?thesis
      using out wit idx Some
      by (auto simp: defs split: option.splits sum.splits write_outcome.splits dest!: attested)
  qed
qed

lemma startup_preserves:
  assumes ok: "sys_ok hmac c anchor key s"
    and out: "startup hmac c env anchor key (sy_disk s) = Serving d dm"
  shows "sys_ok hmac c anchor key (s\<lparr>sy_disk := d, sy_daemon := Some dm\<rparr>)"
proof -
  let ?rows = "dk_rows (sy_disk s)"
  have rows: "rows_ok hmac c key ?rows" using ok by (simp add: sys_ok_def)
  have wit: "witness_ok anchor ?rows (sy_acked s) (dk_checkpoint (sy_disk s))"
    using ok by (simp add: sys_ok_def)
  obtain l0 where l0: "ledger_open key (sy_disk s) = Inr l0" "head_ok key ?rows l0" "lg_anchor l0 = None"
    using rows_ok_open [OF rows] by blast
  define l where "l = (case anchor of Some a \<Rightarrow> with_anchor a l0 | None \<Rightarrow> l0)"
  have l: "head_ok key ?rows l" "lg_anchor l = anchor"
    using l0 by (auto simp: l_def with_anchor_def head_ok_def split: option.splits)
  have start: "(case witness_check anchor (sy_disk s) l of
      None \<Rightarrow> Panicked
    | Some Consistent \<Rightarrow> reseed env anchor (sy_disk s) l
    | Some Genesis \<Rightarrow> Serving (sy_disk s) \<lparr>dm_ledger = l, dm_tampered = False\<rparr>
    | Some (Tampered _) \<Rightarrow> Serving (sy_disk s) \<lparr>dm_ledger = l, dm_tampered = True\<rparr>) = Serving d dm"
    using out l0(1) rows_ok_verify [OF rows] by (simp add: startup_def Let_def flip: l_def)
  then consider "d = sy_disk s" "dm_ledger dm = l" | "reseed env anchor (sy_disk s) l = Serving d dm"
    by (auto split: option.splits startup_check.splits)
  then show ?thesis
  proof cases
    case 1
    then show ?thesis using rows wit l by (simp add: sys_ok_def)
  next
    case 2
    then show ?thesis
      using reseed_preserves [OF rows l(1) wit l(2)] rows l by (simp add: sys_ok_def)
  qed
qed

lemma run_ok:
  assumes "run hmac c decode anchor key s" and mac: "\<And>m. length (hmac key m) = 32"
  shows "sys_ok hmac c anchor key s"
  using assms(1)
proof (induction rule: run.induct)
  case genesis
  then show ?case by (simp add: sys_ok_def empty_disk_def rows_ok_def witness_ok_def)
next
  case (start s env d dm)
  then show ?case using startup_preserves by blast
next
  case (ingest s dm body env actor resp events d dm')
  then show ?case using record_preserves [OF ingest.IH] mac by blast
next
  case (crash s)
  then show ?case by (simp add: sys_ok_def)
qed

section \<open>Properties\<close>

text \<open>C1. Whatever the daemon goes through (failed inserts, a full disk, a failing TPM, checkpoint
  writes that fail before or after the rename, crashes and restarts), the ledger it leaves on disk
  verifies with every row counted, and every index it acknowledged to a caller is a row of it.\<close>

theorem every_run_leaves_a_verified_ledger:
  assumes "run hmac c decode anchor key s" and "\<And>m. length (hmac key m) = 32"
  shows "verify_ledger hmac c key (dk_rows (sy_disk s)) = Inr (of_nat (length (dk_rows (sy_disk s)))) \<and>
    (\<forall>i \<in> set (sy_acked s). unat i < length (dk_rows (sy_disk s)) \<and>
       row_idx (dk_rows (sy_disk s) ! unat i) = i)"
proof -
  have ok: "sys_ok hmac c anchor key s" by (rule run_ok [OF assms])
  then have rows: "rows_ok hmac c key (dk_rows (sy_disk s))" by (simp add: sys_ok_def)
  have "unat i < length (dk_rows (sy_disk s)) \<and> row_idx (dk_rows (sy_disk s) ! unat i) = i"
    if "i \<in> set (sy_acked s)" for i
    using witness_ok_acked that ok rows_ok_idx [OF rows] by (auto simp: sys_ok_def)
  then show ?thesis using rows_ok_verify [OF rows] by blast
qed

lemma rows_ok_take: "rows_ok hmac c key rows \<Longrightarrow> rows_ok hmac c key (take k rows)"
proof (induction rows rule: rev_induct)
  case (snoc r rs)
  then have "rows_ok hmac c key rs"
    using verify_loop_count by (fastforce simp: rows_ok_def verify_loop_snoc)
  with snoc show ?case by (cases "k \<le> length rs") simp_all
qed (simp add: rows_ok_def)

text \<open>C12. An acknowledged entry cannot be truncated away silently: if the rows of an
  acknowledged index and after it are deleted (up to deleting the whole table), the next start
  finds the ledger tampered and serves with ingest frozen.\<close>

theorem acknowledged_truncation_is_detected:
  assumes "run hmac c decode anchor key s" and "\<And>m. length (hmac key m) = 32"
    and "i \<in> set (sy_acked s)" and "k \<le> unat i"
    and d: "d = (sy_disk s)\<lparr>dk_rows := take k (dk_rows (sy_disk s))\<rparr>"
  shows "\<exists>dm. startup hmac c env anchor key d = Serving d dm \<and> dm_tampered dm"
proof -
  have ok: "sys_ok hmac c anchor key s" by (rule run_ok [OF assms(1,2)])
  then obtain cp where cp: "dk_checkpoint (sy_disk s) = Stored cp" "unat i \<le> unat (cp_index cp)"
    "\<exists>b. cp_attestation_hex cp = hex b"
    using assms(3) by (auto simp: sys_ok_def witness_ok_def split: checkpoint_file.splits)
  have rows: "rows_ok hmac c key (dk_rows d)" using ok rows_ok_take by (simp add: sys_ok_def d)
  obtain l0 where l0: "ledger_open key d = Inr l0" using rows_ok_open [OF rows] by blast
  have "row_idx r \<noteq> cp_index cp" if r: "r \<in> set (dk_rows d)" for r
  proof -
    obtain j where j: "j < length (dk_rows d)" "r = dk_rows d ! j"
      using r by (auto simp: in_set_conv_nth)
    have "j < k" using j(1) by (simp add: d)
    have "j < 2 ^ 63" using j(1) rows by (simp add: rows_ok_def)
    then have "unat (row_idx r) = j" using rows_ok_idx [OF rows j(1)] j(2) unat_small by simp
    then show ?thesis using \<open>j < k\<close> assms(4) cp(2) by auto
  qed
  then have gone: "entry_hash_hex_at (dk_rows d) (cp_index cp) = None"
    by (auto simp: entry_hash_hex_at_def find_None_iff)
  obtain att where att: "hex_to_bytes (cp_attestation_hex cp) = Some att"
    using cp(3) hex_to_bytes_hex by metis
  have "\<exists>t. witness_check anchor d l = Some (Tampered t)" for l
    using gone cp(1) att
    by (auto simp: witness_check_def d checkpoint_read_def assess_startup_def assess_with_attestation_def
        Let_def split: option.splits)
  then obtain t where "witness_check anchor d (case anchor of Some a \<Rightarrow> with_anchor a l0 | None \<Rightarrow> l0) =
      Some (Tampered t)" by blast
  then show ?thesis
    using l0 rows_ok_verify [OF rows] by (simp add: startup_def Let_def)
qed

text \<open>A daemon that runs without a TPM and restarts after the witness was once written raises no
  false alarm: it serves with ingest open and its checkpoint on the last row, including rows
  that were written but never acknowledged.\<close>

theorem restart_is_clean:
  assumes "run hmac c decode None key s" and "\<And>m. length (hmac key m) = 32"
    and "dk_checkpoint (sy_disk s) \<noteq> NoFile" and "se_checkpoint_write env = WriteOk"
  shows "\<exists>d dm cp. startup hmac c env None key (sy_disk s) = Serving d dm \<and> \<not> dm_tampered dm \<and>
    dk_rows d = dk_rows (sy_disk s) \<and> dk_checkpoint d = Stored cp \<and>
    unat (cp_index cp) + 1 = length (dk_rows d)"
proof -
  have ok: "sys_ok hmac c None key s" by (rule run_ok [OF assms(1,2)])
  then have rows: "rows_ok hmac c key (dk_rows (sy_disk s))" by (simp add: sys_ok_def)
  from ok assms(3) obtain cp where cp: "dk_checkpoint (sy_disk s) = Stored cp"
    "unat (cp_index cp) < length (dk_rows (sy_disk s))" "cp_attestation_hex cp = ''''"
    "cp_entry_hash_hex cp = hex (row_entry_hash (dk_rows (sy_disk s) ! unat (cp_index cp)))"
    by (auto simp: sys_ok_def witness_ok_def split: checkpoint_file.splits)
  obtain l where l: "ledger_open key (sy_disk s) = Inr l" "head_ok key (dk_rows (sy_disk s)) l"
    using rows_ok_open [OF rows] by blast
  have check: "witness_check None (sy_disk s) l = Some Consistent"
    using cp hex_hash_at [OF rows cp(2)] hex_to_bytes_hex [of "[]"]
    by (simp add: witness_check_def checkpoint_read_def assess_startup_def hex_def)
  obtain rs r where snoc: "dk_rows (sy_disk s) = rs @ [r]"
    using cp(2) by (cases "dk_rows (sy_disk s)" rule: rev_cases) auto
  have small: "length rs < 2 ^ 63" using rows snoc by (simp add: rows_ok_def)
  have next_index: "lg_next_index l = of_nat (length rs) + 1"
    using l(2) snoc by (simp add: head_ok_def algebra_simps)
  have nonzero: "lg_next_index l \<noteq> 0"
  proof
    assume "lg_next_index l = 0"
    then have "(of_nat (Suc (length rs)) :: u64) = 0" using next_index by (simp add: algebra_simps)
    then have "unat (of_nat (Suc (length rs)) :: u64) = 0" by (simp only: unsigned_0)
    then show False using small by (simp add: unat_of_nat del: of_nat_Suc)
  qed
  show ?thesis
    using l(1) rows_ok_verify [OF rows] check nonzero next_index assms(4) small snoc
    by (simp add: startup_def reseed_def head_for_checkpoint_def checkpoint_write_def unat_small)
qed

text \<open>Tamper evidence: two ledgers that both verify under the key and end at the same index
  with the same hash record the same entries, field by field. So no retroactive edit,
  insertion, deletion or reordering that keeps the witnessed head verifies, short of an HMAC
  collision among the messages of the two chains.\<close>

theorem verified_head_determines_the_log:
  assumes "verify_ledger hmac c key rows = Inr m" and "verify_ledger hmac c key rows' = Inr m'"
    and "load_head rows = Inr (n, h)" and "load_head rows' = Inr (n, h)"
    and "length rows < 2 ^ 64" and "length rows' < 2 ^ 64"
    and "list_all (content_ok c) (ledger_contents c rows)"
    and "list_all (content_ok c) (ledger_contents c rows')"
    and "\<And>m. length (hmac key m) = 32"
    and "inj_on (hmac key) (set (ledger_messages hmac c key rows) \<union> set (ledger_messages hmac c key rows'))"
  shows "ledger_contents c rows = ledger_contents c rows'"
  using assms by (rule same_head_same_entries)

lemma append_rows:
  assumes "append hmac c env d l k a s f cc p = (res, d', l')"
  shows "dk_rows d' = dk_rows d \<or> dk_rows d' = dk_rows d @ [new_row hmac c env l k a s f cc p]"
  using assms
  by (auto simp: append_def Let_def insert_row_def new_row_def checkpoint_write_def
      split: option.splits sum.splits write_outcome.splits if_splits)

lemma record_rows:
  assumes "record_event hmac c decode env d dm actor body = (resp, events, d', dm')"
  shows "\<exists>new. dk_rows d' = dk_rows d @ new \<and> (\<forall>r \<in> set new. row_actor r = actor) \<and>
    dm_tampered dm' = dm_tampered dm \<and> (dm_tampered dm \<longrightarrow> new = [] \<and> d' = d \<and> dm' = dm \<and> (\<exists>t. resp = Unavailable t))"
  using assms
proof (cases rule: record_event_cases)
  case refused
  then show ?thesis by auto
next
  case (appended req res l')
  then show ?thesis using append_rows [OF appended(4)] by (auto simp: new_row_def)
qed

lemma serve_connection_rows:
  "serve_connection hmac c decode d dm actor reqs = (resps, d', dm') \<Longrightarrow>
   \<exists>new. dk_rows d' = dk_rows d @ new \<and> (\<forall>r \<in> set new. row_actor r = actor) \<and>
     (dm_tampered dm \<longrightarrow> new = [] \<and> d' = d \<and> (\<forall>x \<in> set resps. \<exists>t. x = Unavailable t))"
proof (induction reqs arbitrary: d dm resps)
  case (Cons req reqs)
  obtain env body where req: "req = (env, body)" by (cases req)
  obtain resp events d1 dm1 where one: "record_event hmac c decode env d dm actor body = (resp, events, d1, dm1)"
    by (metis prod_cases4)
  obtain resps' where rest: "serve_connection hmac c decode d1 dm1 actor reqs = (resps', d', dm')"
    and resps: "resps = resp # resps'"
    using Cons.prems one by (auto simp: req split: prod.splits)
  from record_rows [OF one] Cons.IH [OF rest] show ?case
    unfolding resps by (elim exE conjE) (rule exI, auto)
qed simp

text \<open>The ingest socket appends and does nothing else: whatever a peer sends, the old rows stay
  as they are, every new row carries the peer's attested identity as its actor, and rows are
  added only for an admitted peer while the ledger is not frozen.\<close>

theorem ingest_only_appends_in_the_callers_name:
  assumes "handle_ingest hmac c decode debug env_var d dm auth envs stream = (resps, d', dm')"
  shows "\<exists>new. dk_rows d' = dk_rows d @ new \<and>
    (new \<noteq> [] \<longrightarrow> \<not> dm_tampered dm \<and>
      (\<exists>app. auth = Inr app \<and> caller_is_admitted debug env_var app \<and> (\<forall>r \<in> set new. row_actor r = app)))"
proof (cases "\<exists>app. auth = Inr app \<and> caller_is_admitted debug env_var app")
  case False
  then show ?thesis using assms by (auto simp: handle_ingest_def split: sum.splits if_splits)
next
  case True
  then obtain app where app: "auth = Inr app" "caller_is_admitted debug env_var app" by blast
  then have "serve_connection hmac c decode d dm app (zip envs (read_frames stream)) = (resps, d', dm')"
    using assms by (simp add: handle_ingest_def)
  from serve_connection_rows [OF this] show ?thesis using app by blast
qed

text \<open>The first append has no witness to fall back on: when its row is committed but the
  checkpoint is not written (the write fails, or the daemon dies in between), the next start
  reports tampering and freezes ingest, although nothing was tampered with.\<close>

theorem first_append_leaves_a_false_alarm:
  assumes "append hmac c env empty_disk l k a s f cc p = (Inl e, d, l')"
    and "head_ok key [] l" and "codec_ok c s f" and "\<And>m. length (hmac key m) = 32"
    and "env_insert_error env = None" and "env_checkpoint_write env = FailsBeforeRename e"
    and "lg_anchor l = None"
  shows "\<exists>dm. startup hmac c se None key d = Serving d dm \<and> dm_tampered dm"
proof -
  have no_row: "lg_next_index l \<notin> row_idx ` set (dk_rows empty_disk)" by (simp add: empty_disk_def)
  have d: "dk_rows d = [new_row hmac c env l k a s f cc p]" "dk_checkpoint d = NoFile"
    using assms(1,5,6,7)
    by (auto simp: append_def Let_def insert_row_def new_row_def checkpoint_write_def empty_disk_def)
  have rows: "rows_ok hmac c key (dk_rows d)"
    using new_row_verifies [of hmac c key "[]" l s f env k a cc p] assms(2,3,4) d
    by (simp add: rows_ok_def)
  obtain l1 where l1: "ledger_open key d = Inr l1" "head_ok key (dk_rows d) l1"
    using rows_ok_open [OF rows] by blast
  have "head_for_checkpoint l1 \<noteq> None"
    using l1(2) d by (simp add: head_for_checkpoint_def head_ok_def)
  then have "\<exists>t. witness_check None d l1 = Some (Tampered t)"
    using d by (simp add: witness_check_def checkpoint_read_def assess_startup_def)
  then show ?thesis
    using l1(1) rows_ok_verify [OF rows] by (auto simp: startup_def)
qed

section \<open>Witnesses\<close>

definition demo_hmac :: mac where
  "demo_hmac key m = take 32 (m @ replicate 32 (CHR 0x00))"

definition demo_record :: structural_record where
  "demo_record = \<lparr>sr_subject = ''graph'', sr_node_types = [], sr_relations = [], sr_result_count = None,
     sr_duration_ms = None, sr_outcome = ''ok'', sr_depth = None, sr_capability_change = None\<rparr>"

definition demo_codec :: json_codec where
  "demo_codec = \<lparr>jc_structural = (\<lambda>_. ''{}''), jc_parse_structural = (\<lambda>_. Inr demo_record),
     jc_forensic = (\<lambda>_. ''{}''), jc_parse_forensic = (\<lambda>_. Inl ''no'')\<rparr>"

definition demo_decode :: "bytes \<Rightarrow> string + ingest_request" where
  "demo_decode _ = Inr \<lparr>ir_kind = Query, ir_structural = demo_record, ir_forensic = None,
     ir_call_chain_id = None, ir_project_id = None\<rparr>"

definition demo_env :: "write_outcome \<Rightarrow> append_env" where
  "demo_env w = \<lparr>env_now = 5, env_insert_error = None, env_tpm_error = None, env_checkpoint_write = w\<rparr>"

definition demo_se :: startup_env where
  "demo_se = \<lparr>se_tpm_error = None, se_checkpoint_write = WriteOk\<rparr>"

lemma demo_se_ok: "se_checkpoint_write demo_se = WriteOk"
  by (simp add: demo_se_def)

definition demo_ledger :: ledger where
  "demo_ledger = \<lparr>lg_key = ''k'', lg_next_index = 0, lg_prev_hash = GENESIS_PREV_HASH, lg_anchor = None\<rparr>"

lemma length_demo_hmac: "length (demo_hmac key m) = 32"
  by (simp add: demo_hmac_def)

lemma demo_codec_ok: "codec_ok demo_codec demo_record None"
  by (simp add: codec_ok_def demo_codec_def)

lemma demo_start: "startup demo_hmac demo_codec se None ''k'' empty_disk =
    Serving empty_disk \<lparr>dm_ledger = demo_ledger, dm_tampered = False\<rparr>"
  by (simp add: startup_def ledger_open_def load_head_def verify_ledger_def empty_disk_def bind_def
      witness_check_def checkpoint_read_def assess_startup_def head_for_checkpoint_def demo_ledger_def)

lemma demo_append: "\<exists>d l. append demo_hmac demo_codec (demo_env WriteOk) empty_disk demo_ledger Query a
    demo_record None None None = (Inr 0, d, l) \<and> dk_checkpoint d \<noteq> NoFile"
  by (simp add: append_def Let_def demo_env_def demo_ledger_def insert_row_def empty_disk_def
      checkpoint_write_def)

lemma demo_run: "\<exists>s. run demo_hmac demo_codec demo_decode None ''k'' s \<and> sy_acked s = [0] \<and>
    dk_checkpoint (sy_disk s) \<noteq> NoFile"
proof -
  let ?dm = "\<lparr>dm_ledger = demo_ledger, dm_tampered = False\<rparr>"
  let ?s = "\<lparr>sy_disk = empty_disk, sy_daemon = Some ?dm, sy_acked = []\<rparr>"
  have "run demo_hmac demo_codec demo_decode None ''k'' (\<lparr>sy_disk = empty_disk, sy_daemon = None,
      sy_acked = []\<rparr>\<lparr>sy_disk := empty_disk, sy_daemon := Some ?dm\<rparr>)"
    by (rule run.start [OF run.genesis, where env = demo_se]) (simp add: demo_start)
  then have started: "run demo_hmac demo_codec demo_decode None ''k'' ?s" by simp
  obtain d l where d: "append demo_hmac demo_codec (demo_env WriteOk) empty_disk demo_ledger Query
      ''knowledge'' demo_record None None None = (Inr 0, d, l)" "dk_checkpoint d \<noteq> NoFile"
    using demo_append by blast
  have "\<exists>ev. record_event demo_hmac demo_codec demo_decode (demo_env WriteOk) empty_disk ?dm ''knowledge'' ''''
      = (Appended 0, ev, d, ?dm\<lparr>dm_ledger := l\<rparr>)"
    using d by (simp add: record_event_def demo_decode_def validate_request_def demo_record_def
        MAX_SUBJECT_LEN_def MAX_OUTCOME_LEN_def List.map_filter_def)
  then obtain ev where ev: "record_event demo_hmac demo_codec demo_decode (demo_env WriteOk) (sy_disk ?s) ?dm
      ''knowledge'' '''' = (Appended 0, ev, d, ?dm\<lparr>dm_ledger := l\<rparr>)" by auto
  have "run demo_hmac demo_codec demo_decode None ''k'' (?s\<lparr>sy_disk := d, sy_daemon := Some (?dm\<lparr>dm_ledger := l\<rparr>),
      sy_acked := (case Appended 0 of Appended i \<Rightarrow> i # sy_acked ?s | Unavailable _ \<Rightarrow> sy_acked ?s)\<rparr>)"
    by (rule run.ingest [OF started _ _ _ ev])
       (auto simp: demo_decode_def demo_codec_ok empty_disk_def)
  then show ?thesis using d(2) by (intro exI conjI) (assumption, simp_all)
qed

theorem every_run_leaves_a_verified_ledger_witness:
  "\<exists>s. run demo_hmac demo_codec demo_decode None ''k'' s \<and> sy_acked s = [0] \<and>
     verify_ledger demo_hmac demo_codec ''k'' (dk_rows (sy_disk s)) = Inr (of_nat (length (dk_rows (sy_disk s))))"
  using demo_run every_run_leaves_a_verified_ledger [of demo_hmac demo_codec demo_decode None "''k''"]
    length_demo_hmac by meson

theorem acknowledged_truncation_is_detected_witness:
  "\<exists>(s :: sys) dm. sy_acked s = [0] \<and>
     startup demo_hmac demo_codec demo_se None ''k'' ((sy_disk s)\<lparr>dk_rows := []\<rparr>) = Serving ((sy_disk s)\<lparr>dk_rows := []\<rparr>) dm
     \<and> dm_tampered dm"
proof -
  obtain s where s: "run demo_hmac demo_codec demo_decode None ''k'' s" "sy_acked s = [0]"
    using demo_run by blast
  have "\<exists>dm. startup demo_hmac demo_codec demo_se None ''k'' ((sy_disk s)\<lparr>dk_rows := []\<rparr>) =
      Serving ((sy_disk s)\<lparr>dk_rows := []\<rparr>) dm \<and> dm_tampered dm"
    by (rule acknowledged_truncation_is_detected [OF s(1) length_demo_hmac, of 0 0]) (simp_all add: s(2))
  with s(2) show ?thesis by blast
qed

theorem restart_is_clean_witness:
  "\<exists>(s :: sys) d dm. sy_acked s = [0] \<and> startup demo_hmac demo_codec demo_se None ''k'' (sy_disk s) = Serving d dm \<and>
     \<not> dm_tampered dm"
proof -
  obtain s where s: "run demo_hmac demo_codec demo_decode None ''k'' s" "sy_acked s = [0]"
    "dk_checkpoint (sy_disk s) \<noteq> NoFile"
    using demo_run by blast
  then show ?thesis
    using restart_is_clean [OF s(1) length_demo_hmac s(3) demo_se_ok] by blast
qed

text \<open>Two different one-row tables with the same content: an absent project against an empty one.\<close>

definition demo_row :: "string option \<Rightarrow> row" where
  "demo_row p = new_row demo_hmac demo_codec (demo_env WriteOk) demo_ledger Query ''knowledge'' demo_record None None p"

lemma demo_rows_ok: "rows_ok demo_hmac demo_codec ''k'' [demo_row p]"
  using new_row_verifies [of demo_hmac demo_codec "''k''" "[]" demo_ledger demo_record None]
  by (simp add: demo_row_def rows_ok_def head_ok_def demo_ledger_def demo_codec_ok length_demo_hmac)

lemma demo_row_hash: "row_entry_hash (demo_row None) = row_entry_hash (demo_row (Some ''''))"
  by (simp add: demo_row_def new_row_def compute_entry_hash_def entry_message_def unwrap_or_def)

lemma demo_load_head: "load_head [demo_row p] = Inr (1, row_entry_hash (demo_row p))"
proof -
  have "length (row_entry_hash (demo_row p)) = 32"
    using rows_ok_last_length [OF demo_rows_ok] by simp
  then show ?thesis
    by (simp add: load_head_def order_by_idx_def bind_def to_hash_def)
       (simp add: demo_row_def new_row_def demo_ledger_def)
qed

lemma demo_contents: "p = None \<or> p = Some '''' \<Longrightarrow>
    ledger_contents demo_codec [demo_row p] = [(0, 5, Query, ''knowledge'', demo_record, None, '''', '''')]"
proof -
  assume p: "p = None \<or> p = Some ''''"
  have "decode_row demo_codec (demo_row p) =
      Inr (new_entry demo_hmac demo_codec (demo_env WriteOk) demo_ledger Query ''knowledge'' demo_record None None p)"
    unfolding demo_row_def
    by (rule decode_new_row [OF demo_codec_ok]) (simp_all add: demo_ledger_def length_demo_hmac)
  then show ?thesis
    using p by (auto simp: ledger_contents_def order_by_idx_def decoded_def map_filter_simps
        new_entry_def content_of_def unwrap_or_def demo_ledger_def demo_env_def)
qed

lemma demo_addressable: "addressable (jc_structural demo_codec demo_record)" "addressable ''knowledge''"
  "addressable ''''"
  by (simp_all add: addressable_def demo_codec_def)

theorem verified_head_determines_the_log_witness:
  "[demo_row None] \<noteq> [demo_row (Some '''')] \<and>
   ledger_contents demo_codec [demo_row None] = ledger_contents demo_codec [demo_row (Some '''')]"
proof
  show "[demo_row None] \<noteq> [demo_row (Some '''')]" by (simp add: demo_row_def new_row_def)
  show "ledger_contents demo_codec [demo_row None] = ledger_contents demo_codec [demo_row (Some '''')]"
    by (rule verified_head_determines_the_log [OF rows_ok_verify [OF demo_rows_ok]
          rows_ok_verify [OF demo_rows_ok] demo_load_head demo_load_head [of "Some ''''", folded demo_row_hash]])
       (simp_all add: length_demo_hmac ledger_messages_def demo_contents content_ok_def demo_codec_ok
          demo_addressable)
qed

theorem ingest_only_appends_in_the_callers_name_witness:
  "\<exists>new. dk_rows (fst (snd (handle_ingest demo_hmac demo_codec demo_decode False None empty_disk
       \<lparr>dm_ledger = demo_ledger, dm_tampered = False\<rparr> (Inr ''knowledge'') [demo_env WriteOk]
       (u32_be_bytes 1 @ ''x'')))) = new \<and> (\<forall>r \<in> set new. row_actor r = ''knowledge'')"
proof -
  obtain resps d' dm' where out: "handle_ingest demo_hmac demo_codec demo_decode False None empty_disk
       \<lparr>dm_ledger = demo_ledger, dm_tampered = False\<rparr> (Inr ''knowledge'') [demo_env WriteOk]
       (u32_be_bytes 1 @ ''x'') = (resps, d', dm')" by (metis prod_cases3)
  obtain new where "dk_rows d' = dk_rows empty_disk @ new"
    "new \<noteq> [] \<longrightarrow> (\<exists>app. Inr ''knowledge'' = (Inr app :: string + string) \<and> (\<forall>r \<in> set new. row_actor r = app))"
    using ingest_only_appends_in_the_callers_name [OF out] by blast
  then show ?thesis
    unfolding out by (cases "new = []") (auto simp: empty_disk_def)
qed

theorem first_append_leaves_a_false_alarm_witness:
  "\<exists>d dm. startup demo_hmac demo_codec demo_se None ''k'' d = Serving d dm \<and> dm_tampered dm"
proof -
  let ?w = "FailsBeforeRename (Storage ''rename checkpoint'')"
  obtain d l where "append demo_hmac demo_codec (demo_env ?w) empty_disk demo_ledger Query ''knowledge''
      demo_record None None None = (Inl (Storage ''rename checkpoint''), d, l)"
    by (simp add: append_def Let_def demo_env_def demo_ledger_def insert_row_def empty_disk_def
        checkpoint_write_def)
  then have "\<exists>dm. startup demo_hmac demo_codec demo_se None ''k'' d = Serving d dm \<and> dm_tampered dm"
    by (rule first_append_leaves_a_false_alarm)
       (simp_all add: head_ok_def demo_ledger_def demo_codec_ok length_demo_hmac demo_env_def)
  then show ?thesis by blast
qed

end
