(* ===== verification/Capability_Token.thy ===== *)
theory Capability_Token
  imports Prelude
begin

text \<open>
  The capability token of the graph daemon (\<open>daemons/knowledge/src/token.rs\<close>): its data, the
  scope checks the request handlers ask of it, and the HMAC signer. HMAC-SHA256
  (\<open>hmac key message\<close>) and the MessagePack encoding of a token (\<open>to_vec\<close>) are code of other
  crates and stay parameters; the wall clock is the argument \<open>now\<close>, and the random identifier
  of a token the argument \<open>uuid\<close>.
\<close>

section \<open>Data\<close>

type_synonym date_time = int
type_synonym uuid = "128 word"

definition TOKEN_VERSION :: u8 where
  "TOKEN_VERSION = 1"

record entity_scope =
  es_entity_type :: string
  es_fields :: "string list option"
  es_exclude_fields :: "string list"

record relation_scope =
  rs_from :: string
  rs_to :: string
  rs_relation_type :: string

datatype instance_scope = Own | All

record capability_token =
  ct_id :: uuid
  ct_version :: u8
  ct_issued_at :: date_time
  ct_expires_at :: "date_time option"
  ct_app_id :: string
  ct_pid :: u32
  ct_read_scopes :: "entity_scope list"
  ct_write_scopes :: "entity_scope list"
  ct_relation_scopes :: "relation_scope list"
  ct_instance_scope :: instance_scope
  ct_delegated_namespaces :: "string list"
  ct_signature :: bytes

definition zero_signature :: bytes where
  "zero_signature = replicate 32 (CHR 0x00)"

section \<open>Construction and scope checks\<close>

definition token_new ::
  "uuid \<Rightarrow> date_time \<Rightarrow> string \<Rightarrow> u32 \<Rightarrow> entity_scope list \<Rightarrow> entity_scope list \<Rightarrow>
   relation_scope list \<Rightarrow> instance_scope \<Rightarrow> capability_token" where
  "token_new uuid now app p reads writes rels inst =
     \<lparr>ct_id = uuid, ct_version = TOKEN_VERSION, ct_issued_at = now, ct_expires_at = None,
      ct_app_id = app, ct_pid = p, ct_read_scopes = reads, ct_write_scopes = writes,
      ct_relation_scopes = rels, ct_instance_scope = inst, ct_delegated_namespaces = [],
      ct_signature = zero_signature\<rparr>"

definition with_delegated_namespaces :: "capability_token \<Rightarrow> string list \<Rightarrow> capability_token" where
  "with_delegated_namespaces t delegated = t\<lparr>ct_delegated_namespaces := delegated\<rparr>"

definition is_expired :: "date_time \<Rightarrow> capability_token \<Rightarrow> bool" where
  "is_expired now t = (case ct_expires_at t of Some exp \<Rightarrow> exp < now | None \<Rightarrow> False)"

definition type_matches :: "string \<Rightarrow> string \<Rightarrow> bool" where
  "type_matches pattern ty =
     (case strip_suffix pattern ''.*'' of
        Some prefix \<Rightarrow> starts_with ty prefix \<and> starts_with (drop (length prefix) ty) ''.''
      | None \<Rightarrow> pattern = ty)"

definition scope_matches :: "entity_scope list \<Rightarrow> string \<Rightarrow> bool" where
  "scope_matches scopes ty = list_ex (\<lambda>s. type_matches (es_entity_type s) ty) scopes"

definition can_read :: "capability_token \<Rightarrow> string \<Rightarrow> bool" where
  "can_read t ty = scope_matches (ct_read_scopes t) ty"

definition can_write :: "capability_token \<Rightarrow> string \<Rightarrow> bool" where
  "can_write t ty = scope_matches (ct_write_scopes t) ty"

definition can_create_relation :: "capability_token \<Rightarrow> string \<Rightarrow> string \<Rightarrow> string \<Rightarrow> bool" where
  "can_create_relation t from to rel =
     list_ex (\<lambda>s. rs_from s = from \<and> rs_to s = to \<and> rs_relation_type s = rel) (ct_relation_scopes t)"

definition readable_fields :: "capability_token \<Rightarrow> string \<Rightarrow> string list option option" where
  "readable_fields t ty =
     map_option es_fields (List.find (\<lambda>s. type_matches (es_entity_type s) ty) (ct_read_scopes t))"

section \<open>Signing\<close>

record token_signer =
  ts_key :: bytes

definition signable_bytes :: "(capability_token \<Rightarrow> bytes) \<Rightarrow> capability_token \<Rightarrow> bytes" where
  "signable_bytes to_vec t = to_vec (t\<lparr>ct_signature := zero_signature\<rparr>)"

definition sign ::
  "(bytes \<Rightarrow> bytes \<Rightarrow> bytes) \<Rightarrow> (capability_token \<Rightarrow> bytes) \<Rightarrow> token_signer \<Rightarrow>
   capability_token \<Rightarrow> capability_token" where
  "sign hmac to_vec s t = t\<lparr>ct_signature := hmac (ts_key s) (signable_bytes to_vec t)\<rparr>"

definition verify ::
  "(bytes \<Rightarrow> bytes \<Rightarrow> bytes) \<Rightarrow> (capability_token \<Rightarrow> bytes) \<Rightarrow> token_signer \<Rightarrow>
   capability_token \<Rightarrow> bool" where
  "verify hmac to_vec s t \<longleftrightarrow> hmac (ts_key s) (signable_bytes to_vec t) = ct_signature t"

section \<open>Pattern matching\<close>

lemma type_matches_wildcard [gate_dest]:
  "type_matches (prefix @ ''.*'') ty \<longleftrightarrow> (\<exists>rest. ty = prefix @ ''.'' @ rest)"
proof -
  have "strip_suffix (prefix @ ''.*'') ''.*'' = Some prefix"
    by (simp add: strip_suffix_Some)
  then show ?thesis
    by (auto simp: type_matches_def starts_with_iff)
qed

lemma type_matches_exact [gate_dest]:
  "\<not> ends_with pattern ''.*'' \<Longrightarrow> type_matches pattern ty \<longleftrightarrow> pattern = ty"
  by (auto simp: type_matches_def strip_suffix_def)

lemma scope_matches_iff: "scope_matches scopes ty \<longleftrightarrow>
    (\<exists>s \<in> set scopes. type_matches (es_entity_type s) ty)"
  by (simp add: scope_matches_def list_ex_iff)

lemma readable_fields_defined: "readable_fields t ty \<noteq> None \<longleftrightarrow> can_read t ty"
  by (auto simp: readable_fields_def can_read_def scope_matches_iff find_None_iff)

section \<open>The sealing interface\<close>

text \<open>
  What the authenticator needs of a signer: a seal over a body, which covers every part of the
  value but the seal itself.
\<close>

locale sealing =
  fixes seal :: "'a \<Rightarrow> 'a" and checks :: "'a \<Rightarrow> bool" and body :: "'a \<Rightarrow> 'b"
  assumes checks_seal: "checks (seal x)"
    and body_seal: "body (seal x) = body x"
    and checked_determined: "checks x \<Longrightarrow> body x = body y \<Longrightarrow> x = seal y"
begin

lemma checks_iff_fixed: "checks x \<longleftrightarrow> seal x = x"
  using checks_seal checked_determined by metis

lemma seal_idem: "seal (seal x) = seal x"
  using checks_seal checks_iff_fixed by blast

lemma seal_determined_by_body: "body x = body y \<Longrightarrow> seal x = seal y"
  using checks_seal body_seal checked_determined by metis

lemma resealed_tampering_detected:
  "checks x \<Longrightarrow> body y = body x \<Longrightarrow> y \<noteq> x \<Longrightarrow> \<not> checks y"
  using checked_determined checks_iff_fixed by metis

end

definition unsigned_token :: "capability_token \<Rightarrow> capability_token" where
  "unsigned_token t = t\<lparr>ct_signature := zero_signature\<rparr>"

lemma unsigned_token_eqD:
  assumes "unsigned_token t = unsigned_token u"
  shows "t\<lparr>ct_signature := x\<rparr> = u\<lparr>ct_signature := x\<rparr>"
proof -
  have "(unsigned_token t)\<lparr>ct_signature := x\<rparr> = (unsigned_token u)\<lparr>ct_signature := x\<rparr>"
    using assms by simp
  then show ?thesis by (simp add: unsigned_token_def)
qed

interpretation token_seal:
  sealing "sign hmac to_vec s" "verify hmac to_vec s" unsigned_token
  for hmac :: "bytes \<Rightarrow> bytes \<Rightarrow> bytes" and to_vec s
proof unfold_locales
  fix x y :: capability_token
  show "verify hmac to_vec s (sign hmac to_vec s x)"
    by (simp add: verify_def sign_def signable_bytes_def)
  show "unsigned_token (sign hmac to_vec s x) = unsigned_token x"
    by (simp add: sign_def unsigned_token_def)
  assume "verify hmac to_vec s x" and "unsigned_token x = unsigned_token y"
  then have "x = x\<lparr>ct_signature := hmac (ts_key s) (signable_bytes to_vec y)\<rparr>"
    by (simp add: verify_def signable_bytes_def unsigned_token_def)
  also have "\<dots> = sign hmac to_vec s y"
    using unsigned_token_eqD [OF \<open>unsigned_token x = unsigned_token y\<close>] by (simp add: sign_def)
  finally show "x = sign hmac to_vec s y" .
qed

text \<open>
  With the message recoverable from the HMAC and the token from its encoding, a signature fits
  one token only.
\<close>

lemma verify_same_signature:
  assumes "verify hmac to_vec s t" and "verify hmac to_vec s u"
    and "ct_signature t = ct_signature u"
    and "\<And>m m'. hmac (ts_key s) m = hmac (ts_key s) m' \<Longrightarrow> m = m'"
    and "\<And>x y. to_vec x = to_vec y \<Longrightarrow> x = y"
  shows "t = u"
proof -
  have "unsigned_token t = unsigned_token u"
    using assms unfolding verify_def signable_bytes_def unsigned_token_def by metis
  then show ?thesis
    using assms(1,2) token_seal.checked_determined token_seal.checks_iff_fixed by metis
qed

end
