(* ===== verification/Schema.thy ===== *)
theory Schema
  imports Prelude
begin

text \<open>
  The schema registry of the graph daemon (\<open>daemons/knowledge/src/schema/parser.rs\<close>,
  \<open>validator.rs\<close>, \<open>registry.rs\<close> and \<open>shared/schemas.rs\<close>): the data of an \<open>entities.toml\<close>
  file, its validation, and the registry of loaded schemas with the compiled-in shared types.
  The TOML parser is the crate \<open>toml\<close>; a schema file is given as its parsed value, or the
  error text of the parser.

  The letter classes of \<open>is_pascal_case\<close> and \<open>is_snake_case\<close> are the Unicode ones in the code
  and the ASCII ones here: names are taken to be ASCII, and a byte from 128 on is in no class.
\<close>

section \<open>Data\<close>

text \<open>A floating-point literal is kept as the text it is printed with.\<close>

datatype toml_value =
    TString string | TInteger int | TFloat string | TBoolean bool | TArray "toml_value list"
  | TDatetime string | TTable "(string \<times> toml_value) list"

datatype field_type =
    FString | FText | FInt | FFloat | FBool | FDatetime | FDate | FDuration | FUrl | FEmail | FPath
  | FJson | FMarkdown | FColor | FBytes | FUuid | FStringList | FIntList | FFloatList | FBoolList
  | FReference string

datatype on_delete = Nullify | Cascade | Restrict | NoAction

datatype display_class = Notes | Documents | Messages | Media | Other

datatype cardinality = OneToOne | OneToMany | ManyToOne | ManyToMany

record field_definition =
  fd_field_type :: field_type
  fd_required :: bool
  fd_default :: "toml_value option"
  fd_description :: string
  fd_indexed :: bool
  fd_unique :: bool
  fd_immutable :: bool
  fd_sensitive :: bool
  fd_on_delete :: "on_delete option"

record lifecycle_config =
  lc_trash_retention_days :: nat
  lc_history_enabled :: bool

record entity_definition =
  ed_version :: nat
  ed_description :: string
  ed_icon :: string
  ed_fields :: "(string, field_definition) hash_map"
  ed_lifecycle :: lifecycle_config
  ed_display_name :: string
  ed_display_class :: display_class
  ed_title_field :: "string option"
  ed_subtitle_field :: "string option"

record relation_definition =
  rd_from :: string
  rd_to :: string
  rd_cardinality :: cardinality
  rd_symmetric :: bool
  rd_description :: string
  rd_properties :: "(string, field_definition) hash_map"

record schema_meta =
  sm_schema_version :: nat
  sm_namespace :: string
  sm_description :: string

record schema_file =
  sf_meta :: schema_meta
  sf_entities :: "(string, entity_definition) hash_map"
  sf_relations :: "(string, relation_definition) hash_map"

fun display_class_as_str :: "display_class \<Rightarrow> string" where
  "display_class_as_str Notes = ''notes''"
| "display_class_as_str Documents = ''documents''"
| "display_class_as_str Messages = ''messages''"
| "display_class_as_str Media = ''media''"
| "display_class_as_str Other = ''other''"

definition display_label :: "entity_definition \<Rightarrow> string \<Rightarrow> string" where
  "display_label def qualified_type =
     (let declared = trim (ed_display_name def)
      in if declared = [] then qualified_type else declared)"

definition default_lifecycle :: lifecycle_config where
  "default_lifecycle = \<lparr>lc_trash_retention_days = 30, lc_history_enabled = False\<rparr>"

definition default_field :: field_definition where
  "default_field = \<lparr>fd_field_type = FString, fd_required = False, fd_default = None, fd_description = '''',
     fd_indexed = False, fd_unique = False, fd_immutable = False, fd_sensitive = False,
     fd_on_delete = None\<rparr>"

text \<open>\<open>EntityDefinition::default()\<close>: the derived one, so version 0.\<close>

definition default_entity :: entity_definition where
  "default_entity = \<lparr>ed_version = 0, ed_description = '''', ed_icon = '''', ed_fields = [],
     ed_lifecycle = default_lifecycle, ed_display_name = '''', ed_display_class = Other,
     ed_title_field = None, ed_subtitle_field = None\<rparr>"

definition full_type :: "schema_file \<Rightarrow> string \<Rightarrow> string" where
  "full_type schema name = sm_namespace (sf_meta schema) @ ''.'' @ name"

section \<open>Validation\<close>

definition RESERVED_FIELDS :: "string list" where
  "RESERVED_FIELDS = [''id'', ''_version'', ''_owner'', ''_created_at'', ''_modified_at'', ''_deleted'',
     ''_deleted_at'', ''_pending_delete'', ''_run_id'', ''_origin_ref'']"

definition RESERVED_ENTITY_NAMES :: "string list" where
  "RESERVED_ENTITY_NAMES = [''File'', ''App'', ''Session'', ''Project'', ''UserAction'', ''Notification'',
     ''Person'', ''Organization'', ''Event'', ''Location'', ''Tag'',
     ''Entity'', ''Node'', ''Edge'', ''Relation'', ''Schema'']"

datatype validation_error =
    ReservedField string
  | ReservedEntityName string
  | SystemSchemaImmutable string
  | SharedSchemaRestricted string
  | InvalidRelationTarget string string
  | InvalidEntityName string
  | InvalidFieldName string
  | UnknownDisplayField string string string

record schema_validator =
  va_existing_types :: "string list"
  va_first_party_apps :: "string list"

definition is_pascal_case :: "string \<Rightarrow> bool" where
  "is_pascal_case s \<longleftrightarrow> s \<noteq> [] \<and> is_ascii_uppercase (hd s) \<and> CHR ''_'' \<notin> set s \<and>
     list_all is_ascii_alphanumeric s"

definition is_snake_case :: "string \<Rightarrow> bool" where
  "is_snake_case s \<longleftrightarrow> s \<noteq> [] \<and>
     list_all (\<lambda>c. is_ascii_lowercase c \<or> is_ascii_digit c \<or> c = CHR ''_'') s \<and> \<not> starts_with s ''_''"

definition type_exists :: "schema_validator \<Rightarrow> string \<Rightarrow> schema_file \<Rightarrow> bool" where
  "type_exists v name schema \<longleftrightarrow> contains_key (sf_entities schema) name \<or>
     name \<in> set (va_existing_types v) \<or> full_type schema name \<in> set (va_existing_types v)"

fun first_error :: "('a \<Rightarrow> 'e option) \<Rightarrow> 'a list \<Rightarrow> 'e option" where
  "first_error f [] = None"
| "first_error f (x # xs) = (case f x of Some e \<Rightarrow> Some e | None \<Rightarrow> first_error f xs)"

definition field_name_error :: "string \<Rightarrow> validation_error option" where
  "field_name_error name =
     (if name \<in> set RESERVED_FIELDS then Some (ReservedField name)
      else if \<not> is_snake_case name then Some (InvalidFieldName name)
      else None)"

definition display_field_error ::
  "string \<Rightarrow> entity_definition \<Rightarrow> string \<times> string option \<Rightarrow> validation_error option" where
  "display_field_error entity def = (\<lambda>(role, declared).
     case declared of
       Some field \<Rightarrow> if contains_key (ed_fields def) field then None
                     else Some (UnknownDisplayField entity role field)
     | None \<Rightarrow> None)"

definition entity_error :: "string \<times> entity_definition \<Rightarrow> validation_error option" where
  "entity_error = (\<lambda>(name, def).
     if name \<in> set RESERVED_ENTITY_NAMES then Some (ReservedEntityName name)
     else if \<not> is_pascal_case name then Some (InvalidEntityName name)
     else case first_error field_name_error (map fst (ed_fields def)) of
       Some e \<Rightarrow> Some e
     | None \<Rightarrow> first_error (display_field_error name def)
         [(''title'', ed_title_field def), (''subtitle'', ed_subtitle_field def)])"

definition relation_error ::
  "schema_validator \<Rightarrow> schema_file \<Rightarrow> string \<times> relation_definition \<Rightarrow> validation_error option" where
  "relation_error v schema = (\<lambda>(name, def).
     if \<not> type_exists v (rd_from def) schema then Some (InvalidRelationTarget name (rd_from def))
     else if \<not> type_exists v (rd_to def) schema then Some (InvalidRelationTarget name (rd_to def))
     else None)"

definition validate_schema :: "schema_validator \<Rightarrow> schema_file \<Rightarrow> validation_error + unit" where
  "validate_schema v schema =
     (let ns = sm_namespace (sf_meta schema) in
      if ns = ''system'' then Inl (SystemSchemaImmutable ns)
      else if ns = ''shared'' \<and> ns \<notin> set (va_first_party_apps v) then Inl (SharedSchemaRestricted ns)
      else case first_error entity_error (sf_entities schema) of
        Some e \<Rightarrow> Inl e
      | None \<Rightarrow> (case first_error (relation_error v schema) (sf_relations schema) of
          Some e \<Rightarrow> Inl e | None \<Rightarrow> Inr ()))"

definition register_type :: "string \<Rightarrow> schema_validator \<Rightarrow> schema_validator" where
  "register_type t v = (if t \<in> set (va_existing_types v) then v
     else v\<lparr>va_existing_types := va_existing_types v @ [t]\<rparr>)"

section \<open>The shared types\<close>

definition shared_entity_types :: "string list" where
  "shared_entity_types = [''shared.Person'', ''shared.Organization'', ''shared.Event'',
     ''shared.Location'', ''shared.Tag'']"

definition shared_owner :: "string \<Rightarrow> string option" where
  "shared_owner ty =
     (if ty = ''shared.Person'' \<or> ty = ''shared.Organization'' then Some ''org.arlen.contacts''
      else if ty = ''shared.Event'' then Some ''org.arlen.calendar''
      else if ty = ''shared.Location'' then Some ''org.arlen.places''
      else if ty = ''shared.Tag'' then Some ''org.arlen.core''
      else None)"

definition field_of :: "field_type \<Rightarrow> field_definition" where
  "field_of ft = default_field\<lparr>fd_field_type := ft\<rparr>"

definition person_schema :: entity_definition where
  "person_schema = default_entity\<lparr>
     ed_fields := [
       (''name'', (field_of FString)\<lparr>fd_required := True, fd_indexed := True\<rparr>),
       (''email'', (field_of FEmail)\<lparr>fd_indexed := True, fd_unique := True, fd_sensitive := True\<rparr>),
       (''phone'', (field_of FString)\<lparr>fd_sensitive := True\<rparr>),
       (''avatar_url'', field_of FUrl),
       (''notes'', field_of FText),
       (''normalized_name'', (field_of FString)\<lparr>fd_indexed := True\<rparr>)],
     ed_lifecycle := \<lparr>lc_trash_retention_days = 90, lc_history_enabled = True\<rparr>\<rparr>"

definition organization_schema :: entity_definition where
  "organization_schema = default_entity\<lparr>
     ed_fields := [
       (''name'', (field_of FString)\<lparr>fd_required := True, fd_indexed := True\<rparr>),
       (''domain'', (field_of FString)\<lparr>fd_indexed := True, fd_unique := True\<rparr>),
       (''website'', field_of FUrl),
       (''industry'', (field_of FString)\<lparr>fd_indexed := True\<rparr>),
       (''normalized_name'', (field_of FString)\<lparr>fd_indexed := True\<rparr>)],
     ed_lifecycle := \<lparr>lc_trash_retention_days = 90, lc_history_enabled = True\<rparr>\<rparr>"

definition event_schema :: entity_definition where
  "event_schema = default_entity\<lparr>
     ed_fields := [
       (''title'', (field_of FString)\<lparr>fd_required := True, fd_indexed := True\<rparr>),
       (''description'', field_of FText),
       (''start_time'', (field_of FDatetime)\<lparr>fd_required := True, fd_indexed := True\<rparr>),
       (''end_time'', field_of FDatetime),
       (''all_day'', (field_of FBool)\<lparr>fd_default := Some (TBoolean False)\<rparr>),
       (''recurrence'', field_of FString)]\<rparr>"

definition location_schema :: entity_definition where
  "location_schema = default_entity\<lparr>
     ed_fields := [
       (''name'', (field_of FString)\<lparr>fd_required := True, fd_indexed := True\<rparr>),
       (''address'', field_of FString),
       (''latitude'', field_of FFloat),
       (''longitude'', field_of FFloat),
       (''place_id'', (field_of FString)\<lparr>fd_indexed := True, fd_unique := True\<rparr>)]\<rparr>"

definition tag_schema :: entity_definition where
  "tag_schema = default_entity\<lparr>
     ed_fields := [
       (''name'', (field_of FString)\<lparr>fd_required := True, fd_indexed := True, fd_unique := True\<rparr>),
       (''color'', field_of FColor),
       (''icon'', field_of FString)],
     ed_lifecycle := \<lparr>lc_trash_retention_days = 7, lc_history_enabled = False\<rparr>\<rparr>"

definition shared_schemas :: "(string, entity_definition) hash_map" where
  "shared_schemas = [(''shared.Person'', person_schema), (''shared.Organization'', organization_schema),
     (''shared.Event'', event_schema), (''shared.Location'', location_schema), (''shared.Tag'', tag_schema)]"

section \<open>The registry\<close>

definition system_entity_types :: "string list" where
  "system_entity_types = [''system.File'', ''system.App'', ''system.Session'', ''system.Event'',
     ''system.UserAction'', ''system.Summary'', ''system.Project'', ''system.Directory'',
     ''system.Annotation'', ''system.PinnedMarker'']"

record schema_registry =
  sg_schemas :: "(string, schema_file) hash_map"
  sg_validator :: schema_validator

datatype schema_error = SchemaParse string | SchemaIo string | SchemaInvalid validation_error

definition register_types :: "schema_file \<Rightarrow> schema_validator \<Rightarrow> schema_validator" where
  "register_types schema v = fold (\<lambda>name. register_type (full_type schema name)) (map fst (sf_entities schema)) v"

definition shared_file :: schema_file where
  "shared_file = \<lparr>sf_meta = \<lparr>sm_schema_version = 1, sm_namespace = ''shared'',
       sm_description = ''Cross-app shared entity types''\<rparr>,
     sf_entities = List.map_filter (\<lambda>(full, def). map_option (\<lambda>local. (local, def)) (strip_prefix full ''shared.''))
       shared_schemas,
     sf_relations = []\<rparr>"

definition registry_with_dir :: "string list \<Rightarrow> schema_registry" where
  "registry_with_dir first_party =
     \<lparr>sg_schemas = [(''shared'', shared_file)],
      sg_validator = register_types shared_file
        \<lparr>va_existing_types = system_entity_types, va_first_party_apps = first_party\<rparr>\<rparr>"

text \<open>\<open>file\<close> is what reading and parsing the schema file gave.\<close>

definition load_schema :: "schema_error + schema_file \<Rightarrow> schema_registry \<Rightarrow>
    (schema_error + string) \<times> schema_registry" where
  "load_schema file r =
     (case file of
        Inl e \<Rightarrow> (Inl e, r)
      | Inr schema \<Rightarrow>
          (case validate_schema (sg_validator r) schema of
             Inl e \<Rightarrow> (Inl (SchemaInvalid e), r)
           | Inr _ \<Rightarrow>
               (let ns = sm_namespace (sf_meta schema) in
                (Inr ns, r\<lparr>sg_validator := register_types schema (sg_validator r),
                           sg_schemas := AList.update ns schema (sg_schemas r)\<rparr>))))"

text \<open>The files of the schema directory with the extension \<open>toml\<close>, in directory order.\<close>

definition load_all :: "(schema_error + schema_file) list \<Rightarrow> schema_registry \<Rightarrow> schema_registry" where
  "load_all files r = fold (\<lambda>f r. snd (load_schema f r)) files r"

definition on_schema_registered ::
  "(string \<Rightarrow> schema_error + schema_file) \<Rightarrow> string \<Rightarrow> schema_registry \<Rightarrow> (schema_error + unit) \<times> schema_registry" where
  "on_schema_registered read_file app r =
     (case load_schema (read_file (app @ ''.toml'')) r of
        (Inl e, r') \<Rightarrow> (Inl e, r') | (Inr _, r') \<Rightarrow> (Inr (), r'))"

definition on_schema_removed :: "string \<Rightarrow> schema_registry \<Rightarrow> schema_registry" where
  "on_schema_removed app r = r\<lparr>sg_schemas := AList.delete app (sg_schemas r)\<rparr>"

definition parse_full_type :: "string \<Rightarrow> (string \<times> string) option" where
  "parse_full_type full = (case rsplit_once (CHR ''.'') full of
     None \<Rightarrow> None
   | Some (ns, name) \<Rightarrow> if ns = [] \<or> name = [] then None else Some (ns, name))"

definition registry_get :: "schema_registry \<Rightarrow> string \<Rightarrow> schema_file option" where
  "registry_get r ns = map_of (sg_schemas r) ns"

definition get_entity :: "schema_registry \<Rightarrow> string \<Rightarrow> entity_definition option" where
  "get_entity r full = (case parse_full_type full of
     None \<Rightarrow> None
   | Some (ns, name) \<Rightarrow> (case map_of (sg_schemas r) ns of
       None \<Rightarrow> None | Some schema \<Rightarrow> map_of (sf_entities schema) name))"

definition entity_exists :: "schema_registry \<Rightarrow> string \<Rightarrow> bool" where
  "entity_exists r full = (if full \<in> set system_entity_types then True else get_entity r full \<noteq> None)"

definition all_entity_types :: "schema_registry \<Rightarrow> string list" where
  "all_entity_types r = sort (system_entity_types @
     concat (map (\<lambda>(_, schema). map (full_type schema) (map fst (sf_entities schema))) (sg_schemas r)))"

section \<open>What the registry holds\<close>

text \<open>Every registry the daemon can have: the compiled-in one, after any loads and removals.\<close>

inductive registry_reachable :: "string list \<Rightarrow> schema_registry \<Rightarrow> bool" for first_party where
  fresh: "registry_reachable first_party (registry_with_dir first_party)"
| load: "registry_reachable first_party r \<Longrightarrow> registry_reachable first_party (snd (load_schema file r))"
| remove: "registry_reachable first_party r \<Longrightarrow> registry_reachable first_party (on_schema_removed app r)"

definition fields_ok :: "entity_definition \<Rightarrow> bool" where
  "fields_ok def \<longleftrightarrow> (\<forall>name \<in> fst ` set (ed_fields def). name \<notin> set RESERVED_FIELDS \<and> is_snake_case name)"

definition schema_ok :: "schema_file \<Rightarrow> bool" where
  "schema_ok schema \<longleftrightarrow> sm_namespace (sf_meta schema) \<noteq> ''system'' \<and>
     (\<forall>def \<in> snd ` set (sf_entities schema). fields_ok def)"

definition registry_ok :: "schema_registry \<Rightarrow> bool" where
  "registry_ok r \<longleftrightarrow> (\<forall>(ns, schema) \<in> set (sg_schemas r). sm_namespace (sf_meta schema) = ns \<and> schema_ok schema)"

lemma first_error_None: "first_error f xs = None \<longleftrightarrow> (\<forall>x \<in> set xs. f x = None)"
  by (induction xs) (auto split: option.splits)

lemma entity_error_None_fields:
  "entity_error (name, def) = None \<Longrightarrow> fields_ok def"
  by (auto simp: entity_error_def fields_ok_def first_error_None field_name_error_def
      split: if_splits option.splits)

lemma validate_schema_ok: "validate_schema v schema = Inr () \<Longrightarrow> schema_ok schema"
  by (auto simp: validate_schema_def schema_ok_def Let_def first_error_None
      split: if_splits option.splits dest!: bspec entity_error_None_fields)

lemma registry_ok_fresh: "registry_ok (registry_with_dir first_party)"
proof -
  have "\<forall>def \<in> snd ` set (sf_entities shared_file). fields_ok def"
    by code_simp
  then show ?thesis
    by (simp add: registry_ok_def registry_with_dir_def schema_ok_def) (simp add: shared_file_def)
qed

lemma registry_ok_load: "registry_ok r \<Longrightarrow> registry_ok (snd (load_schema file r))"
proof (cases "\<exists>schema. file = Inr schema \<and> validate_schema (sg_validator r) schema = Inr ()")
  case True
  assume r: "registry_ok r"
  from True obtain schema where parsed: "file = Inr schema"
    and valid: "validate_schema (sg_validator r) schema = Inr ()" by blast
  have "set (AList.update (sm_namespace (sf_meta schema)) schema (sg_schemas r)) \<subseteq>
      insert (sm_namespace (sf_meta schema), schema) (set (sg_schemas r))"
    by (rule set_AList_update)
  then show ?thesis
    using r validate_schema_ok [OF valid] parsed valid
    by (auto simp: registry_ok_def load_schema_def Let_def)
qed (auto simp: load_schema_def split: sum.splits)

lemma registry_ok_remove: "registry_ok r \<Longrightarrow> registry_ok (on_schema_removed app r)"
  by (auto simp: registry_ok_def on_schema_removed_def AList.delete_eq)

lemma registry_reachable_ok: "registry_reachable first_party r \<Longrightarrow> registry_ok r"
  by (induction rule: registry_reachable.induct)
     (simp_all add: registry_ok_fresh registry_ok_load registry_ok_remove)

lemma get_entity_ok:
  assumes "registry_ok r" and "get_entity r full = Some def"
  shows "fields_ok def"
  using assms by (force simp: get_entity_def registry_ok_def schema_ok_def split: option.splits dest!: map_of_SomeD)

end
