(* ===== verification/Write_Path.thy ===== *)
theory Write_Path
  imports Capability_Token Schema
begin

text \<open>
  The guarded writes of the graph daemon (\<open>daemons/knowledge/src/write/validation.rs\<close>,
  \<open>create.rs\<close>, \<open>update.rs\<close>, \<open>delete.rs\<close>, \<open>lifecycle/restore.rs\<close>, and the read filter of
  \<open>shared/access.rs\<close>): field validation against the registry, entity and relation creation,
  update, deletion and restore. Each operation authorises, validates and returns what is to be
  persisted. The time (as RFC 3339 text) and the fresh identifier are arguments.
\<close>

section \<open>JSON values\<close>

text \<open>Numbers as \<open>serde_json\<close> keeps them: a non-negative integer, a negative one, or a float,
  which is given by its text.\<close>

datatype json_number = PosInt u64 | NegInt int | Float string

datatype json =
    JNull | JBool bool | JNumber json_number | JString string | JArray "json list"
  | JObject "(string \<times> json) list"

fun is_i64 :: "json_number \<Rightarrow> bool" where
  "is_i64 (PosInt n) = (unat n < 2 ^ 63)"
| "is_i64 (NegInt i) = True"
| "is_i64 (Float t) = False"

definition json_int :: "int \<Rightarrow> json" where
  "json_int i = JNumber (if 0 \<le> i then PosInt (word_of_int i) else NegInt i)"

fun toml_to_json :: "toml_value \<Rightarrow> json" where
  "toml_to_json (TString s) = JString s"
| "toml_to_json (TInteger i) = json_int i"
| "toml_to_json (TFloat f) = (if f \<in> {''NaN'', ''inf'', ''-inf''} then JNull else JNumber (Float f))"
| "toml_to_json (TBoolean b) = JBool b"
| "toml_to_json (TArray a) = JArray (map toml_to_json a)"
| "toml_to_json (TDatetime d) = JNull"
| "toml_to_json (TTable t) = JNull"

type_synonym json_map = "(string, json) hash_map"

section \<open>Field validation\<close>

datatype write_validation_error =
    EntityTypeNotFound string
  | RequiredFieldMissing string
  | UnknownField string
  | TypeMismatch string field_type string
  | ImmutableField string

fun json_type_name :: "json \<Rightarrow> string" where
  "json_type_name JNull = ''null''"
| "json_type_name (JBool _) = ''bool''"
| "json_type_name (JNumber _) = ''number''"
| "json_type_name (JString _) = ''string''"
| "json_type_name (JArray _) = ''array''"
| "json_type_name (JObject _) = ''object''"

definition string_like :: "field_type \<Rightarrow> bool" where
  "string_like ft \<longleftrightarrow> ft \<in> {FString, FText, FUrl, FEmail, FPath, FMarkdown, FColor, FUuid}"

definition temporal :: "field_type \<Rightarrow> bool" where
  "temporal ft \<longleftrightarrow> ft \<in> {FDatetime, FDate, FDuration}"

definition value_matches :: "field_definition \<Rightarrow> json \<Rightarrow> bool" where
  "value_matches def v =
     (case v of
        JString _ \<Rightarrow> string_like (fd_field_type def) \<or> temporal (fd_field_type def) \<or>
          (case fd_field_type def of FBytes \<Rightarrow> True | FJson \<Rightarrow> True | FReference _ \<Rightarrow> True | _ \<Rightarrow> False)
      | JNumber n \<Rightarrow> (case fd_field_type def of FInt \<Rightarrow> is_i64 n | FFloat \<Rightarrow> True | FJson \<Rightarrow> True | _ \<Rightarrow> False)
      | JBool _ \<Rightarrow> (case fd_field_type def of FBool \<Rightarrow> True | FJson \<Rightarrow> True | _ \<Rightarrow> False)
      | JArray arr \<Rightarrow> (case fd_field_type def of
            FStringList \<Rightarrow> list_all (\<lambda>x. case x of JString _ \<Rightarrow> True | _ \<Rightarrow> False) arr
          | FIntList \<Rightarrow> list_all (\<lambda>x. case x of JNumber n \<Rightarrow> is_i64 n | _ \<Rightarrow> False) arr
          | FFloatList \<Rightarrow> list_all (\<lambda>x. case x of JNumber _ \<Rightarrow> True | _ \<Rightarrow> False) arr
          | FBoolList \<Rightarrow> list_all (\<lambda>x. case x of JBool _ \<Rightarrow> True | _ \<Rightarrow> False) arr
          | FJson \<Rightarrow> True
          | _ \<Rightarrow> False)
      | JObject _ \<Rightarrow> fd_field_type def = FJson
      | JNull \<Rightarrow> fd_field_type def = FJson \<or> \<not> fd_required def)"

definition validate_field_type ::
  "string \<Rightarrow> json \<Rightarrow> field_definition \<Rightarrow> write_validation_error option" where
  "validate_field_type name v def =
     (if value_matches def v then None else Some (TypeMismatch name (fd_field_type def) (json_type_name v)))"

definition required_error ::
  "json_map \<Rightarrow> string \<times> field_definition \<Rightarrow> write_validation_error option" where
  "required_error data = (\<lambda>(name, def).
     if fd_required def \<and> \<not> contains_key data name \<and> fd_default def = None
     then Some (RequiredFieldMissing name) else None)"

definition provided_error ::
  "entity_definition \<Rightarrow> string \<times> json \<Rightarrow> write_validation_error option" where
  "provided_error edef = (\<lambda>(name, v).
     case map_of (ed_fields edef) name of
       None \<Rightarrow> Some (UnknownField name)
     | Some def \<Rightarrow> validate_field_type name v def)"

definition update_field_error ::
  "entity_definition \<Rightarrow> string \<times> json \<Rightarrow> write_validation_error option" where
  "update_field_error edef = (\<lambda>(name, v).
     case map_of (ed_fields edef) name of
       None \<Rightarrow> Some (UnknownField name)
     | Some def \<Rightarrow> if fd_immutable def then Some (ImmutableField name) else validate_field_type name v def)"

definition validate_create ::
  "schema_registry \<Rightarrow> string \<Rightarrow> json_map \<Rightarrow> write_validation_error + unit" where
  "validate_create r ty data =
     (case get_entity r ty of
        None \<Rightarrow> Inl (EntityTypeNotFound ty)
      | Some edef \<Rightarrow>
          (case first_error (required_error data) (ed_fields edef) of
             Some e \<Rightarrow> Inl e
           | None \<Rightarrow> (case first_error (provided_error edef) data of Some e \<Rightarrow> Inl e | None \<Rightarrow> Inr ())))"

definition validate_update ::
  "schema_registry \<Rightarrow> string \<Rightarrow> json_map \<Rightarrow> write_validation_error + unit" where
  "validate_update r ty data =
     (case get_entity r ty of
        None \<Rightarrow> Inl (EntityTypeNotFound ty)
      | Some edef \<Rightarrow> (case first_error (update_field_error edef) data of Some e \<Rightarrow> Inl e | None \<Rightarrow> Inr ()))"

section \<open>Creation\<close>

datatype create_error =
    CreateValidation write_validation_error
  | CreatePermissionDenied string
  | NamespaceViolation string string
  | RelationDenied string string string
  | UnknownEntityType string
  | EmptyEndpointId
  | EmptyOpId
  | UnanchoredRelationRequiresPrivilege string string string
  | UndeclaredRelation string string string

definition BUILTIN_RELATIONS :: "(string \<times> string \<times> string) list" where
  "BUILTIN_RELATIONS = [
     (''system.File'', ''system.App'', ''ACCESSED_BY''),
     (''system.App'', ''system.Session'', ''ACTIVE_IN''),
     (''system.Event'', ''system.App'', ''EMITTED_BY''),
     (''system.UserAction'', ''system.Event'', ''DERIVED_FROM''),
     (''system.File'', ''system.Project'', ''FILE_PART_OF''),
     (''system.Directory'', ''system.Project'', ''DIR_PART_OF''),
     (''system.Summary'', ''system.App'', ''SUMMARIZES'')]"

record create_result =
  cr_id :: string
  cr_entity_type :: string
  cr_data :: json_map

record relation_result =
  rel_from_type :: string
  rel_from_id :: string
  rel_to_type :: string
  rel_to_id :: string
  rel_relation_type :: string

definition check_namespace :: "string \<Rightarrow> string \<Rightarrow> create_error + unit" where
  "check_namespace ty app =
     (if app = ''system'' \<and> starts_with ty ''system.'' then Inr ()
      else if \<not> starts_with ty (app @ ''.'') then Inl (NamespaceViolation app ty)
      else Inr ())"

definition apply_default :: "string \<times> field_definition \<Rightarrow> json_map \<Rightarrow> json_map" where
  "apply_default = (\<lambda>(name, def) entity.
     if \<not> contains_key entity name then
       (case fd_default def of Some d \<Rightarrow> AList.update name (toml_to_json d) entity | None \<Rightarrow> entity)
     else entity)"

definition inject_reserved :: "string \<Rightarrow> string \<Rightarrow> string \<Rightarrow> json_map \<Rightarrow> json_map" where
  "inject_reserved uuid now owner data =
     AList.update ''_deleted'' (JBool False)
     (AList.update ''_modified_at'' (JString now)
     (AList.update ''_created_at'' (JString now)
     (AList.update ''_owner'' (JString owner)
     (AList.update ''_version'' (json_int 1)
     (AList.update ''id'' (JString uuid) data)))))"

definition create_entity ::
  "string \<Rightarrow> string \<Rightarrow> schema_registry \<Rightarrow> string \<Rightarrow> json_map \<Rightarrow> capability_token \<Rightarrow> create_error + create_result" where
  "create_entity uuid now r ty data t =
     (if \<not> can_write t ty then Inl (CreatePermissionDenied ty)
      else case check_namespace ty (ct_app_id t) of
        Inl e \<Rightarrow> Inl e
      | Inr _ \<Rightarrow>
          (case validate_create r ty data of
             Inl e \<Rightarrow> Inl (CreateValidation e)
           | Inr _ \<Rightarrow>
               (let entity = inject_reserved uuid now (ct_app_id t) data;
                    entity' = (case get_entity r ty of
                        Some edef \<Rightarrow> fold apply_default (ed_fields edef) entity
                      | None \<Rightarrow> entity)
                in Inr \<lparr>cr_id = uuid, cr_entity_type = ty, cr_data = entity'\<rparr>)))"

definition authorise_relation ::
  "schema_registry \<Rightarrow> string \<Rightarrow> string \<Rightarrow> string \<Rightarrow> string \<Rightarrow> string \<Rightarrow> capability_token \<Rightarrow>
   create_error + relation_result" where
  "authorise_relation r from_type from_id to_type to_id rel t =
     (if \<not> can_create_relation t from_type to_type rel then Inl (RelationDenied from_type to_type rel)
      else let owns = (\<lambda>ty. starts_with ty (ct_app_id t @ ''.''));
               has_anchor = (owns from_type \<or> owns to_type)
      in if \<not> has_anchor \<and> ct_instance_scope t \<noteq> All then
           Inl (UnanchoredRelationRequiresPrivilege from_type to_type rel)
         else if \<not> list_ex (\<lambda>(f, t, r). f = from_type \<and> t = to_type \<and> r = rel) BUILTIN_RELATIONS then
           Inl (UndeclaredRelation from_type to_type rel)
         else if \<not> entity_exists r from_type then Inl (UnknownEntityType from_type)
         else if \<not> entity_exists r to_type then Inl (UnknownEntityType to_type)
         else if from_id = [] \<or> to_id = [] then Inl EmptyEndpointId
         else Inr \<lparr>rel_from_type = from_type, rel_from_id = from_id, rel_to_type = to_type,
                   rel_to_id = to_id, rel_relation_type = rel\<rparr>)"

definition create_relation where
  "create_relation r from_type from_id to_type to_id rel t =
     authorise_relation r from_type from_id to_type to_id rel t"

definition retract_relation ::
  "schema_registry \<Rightarrow> string \<Rightarrow> string \<Rightarrow> string \<Rightarrow> string \<Rightarrow> string \<Rightarrow> string \<Rightarrow> capability_token \<Rightarrow>
   create_error + relation_result" where
  "retract_relation r from_type from_id to_type to_id rel op_id t =
     (if op_id = [] then Inl EmptyOpId
      else authorise_relation r from_type from_id to_type to_id rel t)"

section \<open>Update, deletion, restore\<close>

record existing_entity =
  ex_id :: string
  ex_owner :: string
  ex_version :: int
  ex_deleted :: bool

datatype update_error =
    UpdateValidation write_validation_error
  | UpdatePermissionDenied string
  | UpdateNotFound string
  | VersionConflict int int
  | UpdateNotOwner string string

record update_result =
  ur_entity_id :: string
  ur_entity_type :: string
  ur_updates :: json_map
  ur_new_version :: int

definition update_entity ::
  "string \<Rightarrow> schema_registry \<Rightarrow> string \<Rightarrow> string \<Rightarrow> json_map \<Rightarrow> int \<Rightarrow> capability_token \<Rightarrow> existing_entity \<Rightarrow>
   update_error + update_result" where
  "update_entity now r ty eid data expected t ex =
     (if \<not> can_write t ty then Inl (UpdatePermissionDenied ty)
      else if ct_instance_scope t = Own \<and> ex_owner ex \<noteq> ct_app_id t then
        Inl (UpdateNotOwner (ex_owner ex) (ct_app_id t))
      else if ex_version ex \<noteq> expected then Inl (VersionConflict expected (ex_version ex))
      else case validate_update r ty data of
        Inl e \<Rightarrow> Inl (UpdateValidation e)
      | Inr _ \<Rightarrow>
          (let new_version = ex_version ex + 1 in
           Inr \<lparr>ur_entity_id = eid, ur_entity_type = ty,
                ur_updates = AList.update ''_modified_at'' (JString now)
                  (AList.update ''_version'' (json_int new_version) data),
                ur_new_version = new_version\<rparr>))"

datatype delete_error =
    DeletePermissionDenied string
  | DeleteNotOwner string string
  | AlreadyDeleted

record delete_result =
  dr_entity_id :: string
  dr_entity_type :: string
  dr_soft :: bool
  dr_deleted_at :: string

definition check_delete_permissions ::
  "string \<Rightarrow> capability_token \<Rightarrow> existing_entity \<Rightarrow> delete_error + unit" where
  "check_delete_permissions ty t ex =
     (if \<not> can_write t ty then Inl (DeletePermissionDenied ty)
      else if ct_instance_scope t = Own \<and> ex_owner ex \<noteq> ct_app_id t then
        Inl (DeleteNotOwner (ex_owner ex) (ct_app_id t))
      else Inr ())"

definition soft_delete ::
  "string \<Rightarrow> string \<Rightarrow> string \<Rightarrow> capability_token \<Rightarrow> existing_entity \<Rightarrow> delete_error + delete_result" where
  "soft_delete now ty eid t ex =
     (case check_delete_permissions ty t ex of
        Inl e \<Rightarrow> Inl e
      | Inr _ \<Rightarrow> if ex_deleted ex then Inl AlreadyDeleted
          else Inr \<lparr>dr_entity_id = eid, dr_entity_type = ty, dr_soft = True, dr_deleted_at = now\<rparr>)"

definition permanent_delete ::
  "string \<Rightarrow> string \<Rightarrow> string \<Rightarrow> capability_token \<Rightarrow> existing_entity \<Rightarrow> delete_error + delete_result" where
  "permanent_delete now ty eid t ex =
     (case check_delete_permissions ty t ex of
        Inl e \<Rightarrow> Inl e
      | Inr _ \<Rightarrow> Inr \<lparr>dr_entity_id = eid, dr_entity_type = ty, dr_soft = False, dr_deleted_at = now\<rparr>)"

datatype restore_error =
    NotDeleted
  | RestorePermissionDenied string
  | RestoreNotOwner string

record restore_result =
  re_entity_id :: string
  re_entity_type :: string
  re_restored_at :: string
  re_new_version :: int

definition restore_entity ::
  "string \<Rightarrow> string \<Rightarrow> string \<Rightarrow> capability_token \<Rightarrow> existing_entity \<Rightarrow> restore_error + restore_result" where
  "restore_entity now ty eid t ex =
     (if \<not> ex_deleted ex then Inl NotDeleted
      else if \<not> can_write t ty then Inl (RestorePermissionDenied ty)
      else if ct_instance_scope t = Own \<and> ex_owner ex \<noteq> ct_app_id t then Inl (RestoreNotOwner (ex_owner ex))
      else Inr \<lparr>re_entity_id = eid, re_entity_type = ty, re_restored_at = now,
                re_new_version = ex_version ex + 1\<rparr>)"

section \<open>Reading shared entities\<close>

definition SHARED_WRITERS :: "string list" where
  "SHARED_WRITERS = [''org.arlen.contacts'', ''org.arlen.calendar'', ''org.arlen.places'', ''system'']"

definition can_write_shared :: "string \<Rightarrow> bool" where
  "can_write_shared app \<longleftrightarrow> app \<in> set SHARED_WRITERS \<or> starts_with app ''org.arlen.''"

definition can_read_shared :: "capability_token \<Rightarrow> string \<Rightarrow> bool" where
  "can_read_shared t ty = can_read t ty"

definition can_read_sensitive :: "capability_token \<Rightarrow> string \<Rightarrow> bool" where
  "can_read_sensitive t ty =
     (if can_write_shared (ct_app_id t) then True
      else list_ex (\<lambda>s. es_entity_type s = ty \<or> es_entity_type s = ''shared.*'') (ct_read_scopes t))"

definition sensitive_fields_for_type :: "string \<Rightarrow> string list" where
  "sensitive_fields_for_type ty = (if ty = ''shared.Person'' then [''email'', ''phone''] else [])"

definition all_sensitive_field_names :: "string list" where
  "all_sensitive_field_names = [''email'', ''phone'']"

definition filter_sensitive_fields :: "string \<Rightarrow> capability_token \<Rightarrow> json_map \<Rightarrow> json_map" where
  "filter_sensitive_fields ty t data =
     (if can_read_sensitive t ty then data
      else fold (\<lambda>f d. if contains_key d f then AList.update f JNull d else d) (sensitive_fields_for_type ty) data)"

definition can_relate_to_shared :: "capability_token \<Rightarrow> string \<Rightarrow> string \<Rightarrow> bool" where
  "can_relate_to_shared t shared_type rel =
     list_ex (\<lambda>s. rs_to s = shared_type \<and> rs_relation_type s = rel) (ct_relation_scopes t)"

section \<open>Guarded operations\<close>

text \<open>
  The contract every operation on an existing entity shares: it succeeds only under a write
  scope for the type, and a token confined to its own instances only on those.
\<close>

locale ownership_guarded =
  fixes succeeds :: "capability_token \<Rightarrow> string \<Rightarrow> existing_entity \<Rightarrow> bool"
  assumes scoped: "succeeds t ty ex \<Longrightarrow> can_write t ty"
    and owned: "succeeds t ty ex \<Longrightarrow> ct_instance_scope t = Own \<Longrightarrow> ex_owner ex = ct_app_id t"
begin

lemma foreign_refused: "ct_instance_scope t = Own \<Longrightarrow> ex_owner ex \<noteq> ct_app_id t \<Longrightarrow> \<not> succeeds t ty ex"
  using owned by blast

lemma unscoped_refused: "ct_write_scopes t = [] \<Longrightarrow> \<not> succeeds t ty ex"
  using scoped [of t ty ex] by (auto simp: can_write_def scope_matches_def)

end

interpretation guarded_update:
  ownership_guarded "\<lambda>t ty ex. \<not> isl (update_entity now r ty eid data expected t ex)"
  for now r eid data expected
  by unfold_locales (auto simp: update_entity_def Let_def split: if_splits sum.splits)

interpretation guarded_soft_delete: ownership_guarded "\<lambda>t ty ex. \<not> isl (soft_delete now ty eid t ex)"
  for now eid
  by unfold_locales (auto simp: soft_delete_def check_delete_permissions_def split: if_splits sum.splits)

interpretation guarded_permanent_delete:
  ownership_guarded "\<lambda>t ty ex. \<not> isl (permanent_delete now ty eid t ex)" for now eid
  by unfold_locales (auto simp: permanent_delete_def check_delete_permissions_def split: if_splits sum.splits)

interpretation guarded_restore: ownership_guarded "\<lambda>t ty ex. \<not> isl (restore_entity now ty eid t ex)"
  for now eid
  by unfold_locales (auto simp: restore_entity_def split: if_splits)

section \<open>Lemmas\<close>

lemma validate_create_Inr:
  "validate_create r ty data = Inr () \<longleftrightarrow> (\<exists>edef. get_entity r ty = Some edef \<and>
     (\<forall>(name, def) \<in> set (ed_fields edef). fd_required def \<longrightarrow> contains_key data name \<or> fd_default def \<noteq> None) \<and>
     (\<forall>(name, v) \<in> set data. \<exists>def. map_of (ed_fields edef) name = Some def \<and> value_matches def v))"
proof -
  have req: "required_error data (name, def) = None \<longleftrightarrow>
      (fd_required def \<longrightarrow> contains_key data name \<or> fd_default def \<noteq> None)" for name def
    by (simp add: required_error_def)
  have prov: "provided_error edef (name, v) = None \<longleftrightarrow>
      (\<exists>def. map_of (ed_fields edef) name = Some def \<and> value_matches def v)" for edef name v
    by (simp add: provided_error_def validate_field_type_def split: option.splits)
  have "validate_create r ty data = Inr () \<longleftrightarrow> (\<exists>edef. get_entity r ty = Some edef \<and>
      (\<forall>p \<in> set (ed_fields edef). required_error data p = None) \<and> (\<forall>p \<in> set data. provided_error edef p = None))"
    by (simp add: validate_create_def flip: first_error_None split: option.splits)
  then show ?thesis
    by (simp only: split_paired_Ball_Sigma Ball_def split_paired_all split_paired_All prod.case req prov)
qed

lemma apply_default_keeps: "contains_key m k \<Longrightarrow> map_of (apply_default d m) k = map_of m k"
  by (auto simp: apply_default_def contains_key_def update_conv' split: prod.splits option.splits)

lemma apply_default_contains: "contains_key m k \<Longrightarrow> contains_key (apply_default d m) k"
  using apply_default_keeps by (metis contains_key_def)

lemma fold_default_keeps: "contains_key m k \<Longrightarrow> map_of (fold apply_default ds m) k = map_of m k"
  by (induction ds arbitrary: m) (simp_all add: apply_default_contains apply_default_keeps)

lemma fold_default_fills:
  "(k, def) \<in> set ds \<Longrightarrow> fd_default def \<noteq> None \<Longrightarrow> contains_key (fold apply_default ds m) k"
proof (induction ds arbitrary: m)
  case (Cons d ds)
  show ?case
  proof (cases "d = (k, def)")
    case True
    then have "contains_key (apply_default d m) k"
      using Cons.prems(2) by (auto simp: apply_default_def)
    then show ?thesis using fold_default_keeps by (simp add: contains_key_def)
  qed (use Cons in simp)
qed simp

lemma map_of_reserved:
  "map_of (inject_reserved uuid now owner data) k =
     (if k = ''_deleted'' then Some (JBool False) else if k = ''_modified_at'' then Some (JString now)
      else if k = ''_created_at'' then Some (JString now) else if k = ''_owner'' then Some (JString owner)
      else if k = ''_version'' then Some (json_int 1) else if k = ''id'' then Some (JString uuid)
      else map_of data k)"
  by (simp add: inject_reserved_def update_conv')

lemma valid_data_not_reserved:
  assumes "validate_create r ty data = Inr ()" and "registry_ok r" and "contains_key data k"
  shows "k \<notin> set RESERVED_FIELDS"
proof -
  obtain edef where edef: "get_entity r ty = Some edef"
    and known: "\<forall>(name, v) \<in> set data. \<exists>def. map_of (ed_fields edef) name = Some def \<and> value_matches def v"
    using assms(1) unfolding validate_create_Inr by blast
  obtain v where "(k, v) \<in> set data" using assms(3) by (auto simp: contains_key_iff)
  then have "k \<in> fst ` set (ed_fields edef)" using known by (force dest: map_of_SomeD)
  then show ?thesis using get_entity_ok [OF assms(2) edef] by (auto simp: fields_ok_def)
qed

section \<open>Properties\<close>


text \<open>A created entity carries the daemon's stamps and the caller's data: on every registry
  the daemon can have, a successful create is of a type in the caller's namespace and write
  scope, its owner, version, identifier and times are the daemon's own, every field the caller
  gave is kept as given, and every required field is present.\<close>

theorem created_entity_is_stamped:
  assumes "registry_reachable first_party r" and "create_entity uuid now r ty data t = Inr res"
  shows "can_write t ty \<and> starts_with ty (ct_app_id t @ ''.'') \<and>
    map_of (cr_data res) ''_owner'' = Some (JString (ct_app_id t)) \<and>
    map_of (cr_data res) ''id'' = Some (JString uuid) \<and>
    map_of (cr_data res) ''_version'' = Some (json_int 1) \<and>
    map_of (cr_data res) ''_deleted'' = Some (JBool False) \<and>
    (\<forall>k v. map_of data k = Some v \<longrightarrow> map_of (cr_data res) k = Some v) \<and>
    (\<forall>edef. get_entity r ty = Some edef \<longrightarrow>
       (\<forall>(k, def) \<in> set (ed_fields edef). fd_required def \<longrightarrow> contains_key (cr_data res) k))"
proof -
  have ok: "registry_ok r" by (rule registry_reachable_ok [OF assms(1)])
  have gate: "can_write t ty" "check_namespace ty (ct_app_id t) = Inr ()" "validate_create r ty data = Inr ()"
    using assms(2) by (auto simp: create_entity_def split: if_splits sum.splits)
  obtain edef where edef: "get_entity r ty = Some edef"
    and required: "\<forall>(k, def) \<in> set (ed_fields edef). fd_required def \<longrightarrow> contains_key data k \<or> fd_default def \<noteq> None"
    using gate(3) unfolding validate_create_Inr by blast
  let ?e = "inject_reserved uuid now (ct_app_id t) data"
  have data: "cr_data res = fold apply_default (ed_fields edef) ?e"
    using assms(2) gate edef by (auto simp: create_entity_def Let_def)
  have kept: "map_of (cr_data res) k = map_of ?e k" if "map_of ?e k \<noteq> None" for k
    using that by (simp add: data fold_default_keeps contains_key_def)
  have given: "map_of (cr_data res) k = Some v" if "map_of data k = Some v" for k v
  proof -
    have "k \<notin> set RESERVED_FIELDS"
      using valid_data_not_reserved [OF gate(3) ok] that by (simp add: contains_key_def)
    then have "map_of ?e k = Some v" using that by (auto simp: map_of_reserved RESERVED_FIELDS_def)
    then show ?thesis using kept [of k] by simp
  qed
  have "contains_key (cr_data res) k" if "(k, def) \<in> set (ed_fields edef)" "fd_required def" for k def
  proof (cases "contains_key data k")
    case True
    then show ?thesis using given by (force simp: contains_key_def)
  next
    case False
    then show ?thesis using required that fold_default_fills data by fastforce
  qed
  moreover have "starts_with ty (ct_app_id t @ ''.'')"
    using gate(2) by (auto simp: check_namespace_def split: if_splits)
  moreover have "map_of (cr_data res) ''_owner'' = Some (JString (ct_app_id t)) \<and>
      map_of (cr_data res) ''id'' = Some (JString uuid) \<and>
      map_of (cr_data res) ''_version'' = Some (json_int 1) \<and>
      map_of (cr_data res) ''_deleted'' = Some (JBool False)"
    using kept by (simp add: map_of_reserved)
  ultimately show ?thesis using gate(1) given edef by auto
qed

lemma starts_with_dotted:
  assumes "CHR ''.'' \<notin> set s" and "CHR ''.'' \<notin> set n"
  shows "starts_with (s @ CHR ''.'' # n) (a @ ''.'') \<longleftrightarrow> a = s"
proof
  assume "starts_with (s @ CHR ''.'' # n) (a @ ''.'')"
  then obtain r where "s @ CHR ''.'' # n = a @ CHR ''.'' # r" by (auto simp: starts_with_iff)
  then show "a = s"
    using assms by (auto simp: append_eq_append_conv2 append_eq_Cons_conv Cons_eq_append_conv)
qed (auto simp: starts_with_iff)

lemmas system_type_prefix =
  starts_with_dotted [of "''system''" "''File''", simplified]
  starts_with_dotted [of "''system''" "''App''", simplified]
  starts_with_dotted [of "''system''" "''Event''", simplified]
  starts_with_dotted [of "''system''" "''UserAction''", simplified]
  starts_with_dotted [of "''system''" "''Directory''", simplified]
  starts_with_dotted [of "''system''" "''Summary''", simplified]
  starts_with_dotted [of "''system''" "''Session''", simplified]
  starts_with_dotted [of "''system''" "''Project''", simplified]

lemma builtin_relation_types:
  assumes "(from_type, to_type, rel) \<in> set BUILTIN_RELATIONS"
  shows "entity_exists r from_type" "entity_exists r to_type"
    "starts_with from_type (a @ ''.'') \<longleftrightarrow> a = ''system''" "starts_with to_type (a @ ''.'') \<longleftrightarrow> a = ''system''"
  using assms unfolding BUILTIN_RELATIONS_def
  by (auto simp: entity_exists_def system_entity_types_def system_type_prefix)
     (simp_all add: starts_with_def)

text \<open>Relations are closed and privileged: a relation write succeeds exactly for a granted
  triple that is one of the built-in relations, between two named nodes, under the privileged
  instance scope; only the app \<open>system\<close> itself does without it. No other app has a type in a
  built-in relation, so no other app can relate its own entities at all.\<close>

theorem relation_write_is_closed_and_privileged:
  "(\<exists>res. create_relation r from_type from_id to_type to_id rel t = Inr res) \<longleftrightarrow>
     can_create_relation t from_type to_type rel \<and> (from_type, to_type, rel) \<in> set BUILTIN_RELATIONS \<and>
     from_id \<noteq> [] \<and> to_id \<noteq> [] \<and> (ct_instance_scope t = All \<or> ct_app_id t = ''system'')"
proof (cases "(from_type, to_type, rel) \<in> set BUILTIN_RELATIONS")
  case True
  then have "list_ex (\<lambda>(f, t, r). f = from_type \<and> t = to_type \<and> r = rel) BUILTIN_RELATIONS"
    by (force simp: list_ex_iff)
  then show ?thesis
    using True builtin_relation_types(1,2) [OF True, of r] builtin_relation_types(3,4) [OF True, of "ct_app_id t"]
    by (auto simp: create_relation_def authorise_relation_def Let_def)
next
  case False
  then have "\<not> list_ex (\<lambda>(f, t, r). f = from_type \<and> t = to_type \<and> r = rel) BUILTIN_RELATIONS"
    by (auto simp: list_ex_iff)
  then show ?thesis using False by (auto simp: create_relation_def authorise_relation_def Let_def)
qed

section \<open>Witnesses\<close>

definition demo_writer :: "instance_scope \<Rightarrow> capability_token" where
  "demo_writer i = \<lparr>ct_id = 0, ct_version = 1, ct_issued_at = 0, ct_expires_at = None, ct_app_id = ''com.anki'',
     ct_pid = 7, ct_read_scopes = [],
     ct_write_scopes = [\<lparr>es_entity_type = ''com.anki.*'', es_fields = None, es_exclude_fields = []\<rparr>],
     ct_relation_scopes = [], ct_instance_scope = i, ct_delegated_namespaces = [],
     ct_signature = zero_signature\<rparr>"


definition demo_card :: schema_file where
  "demo_card = \<lparr>sf_meta = \<lparr>sm_schema_version = 1, sm_namespace = ''com.anki'', sm_description = ''''\<rparr>,
     sf_entities = [(''Card'', default_entity\<lparr>ed_fields := [(''front'', (field_of FString)\<lparr>fd_required := True\<rparr>)]\<rparr>)],
     sf_relations = []\<rparr>"

definition demo_registry :: schema_registry where
  "demo_registry = snd (load_schema (Inr demo_card) (registry_with_dir []))"

theorem created_entity_is_stamped_witness:
  "\<exists>res. create_entity ''u'' ''now'' demo_registry ''com.anki.Card'' [(''front'', JString ''x'')] (demo_writer Own) = Inr res \<and>
     map_of (cr_data res) ''_owner'' = Some (JString ''com.anki'') \<and>
     map_of (cr_data res) ''front'' = Some (JString ''x'')"
proof -
  have reach: "registry_reachable [] demo_registry"
    unfolding demo_registry_def by (intro registry_reachable.load registry_reachable.fresh)
  have ok: "\<not> isl (create_entity ''u'' ''now'' demo_registry ''com.anki.Card'' [(''front'', JString ''x'')] (demo_writer Own))"
    by code_simp
  obtain res where res: "create_entity ''u'' ''now'' demo_registry ''com.anki.Card''
      [(''front'', JString ''x'')] (demo_writer Own) = Inr res"
    using ok by (cases "create_entity ''u'' ''now'' demo_registry ''com.anki.Card''
      [(''front'', JString ''x'')] (demo_writer Own)") simp_all
  show ?thesis
    using res created_entity_is_stamped [OF reach res] by (simp add: demo_writer_def)
qed

end
