(* ===== verification/Namespace_Grant.thy ===== *)
theory Namespace_Grant
  imports Prelude
begin

text \<open>
  Delegated namespaces (\<open>daemons/knowledge/src/write/namespace_grant.rs\<close>): the grant a
  foreign-app bridge writes under, its construction and check, and the filter that keeps the
  namespaces of installed apps out of a token.
\<close>

definition RESERVED_NAMESPACES :: "string list" where
  "RESERVED_NAMESPACES = [''system'', ''shared'']"

record namespace_grant =
  ng_prefix :: string

definition is_reserved :: "string \<Rightarrow> bool" where
  "is_reserved ns = list_ex (\<lambda>r. ns = r \<or>
     (case strip_prefix ns r of Some rest \<Rightarrow> starts_with rest ''.'' | None \<Rightarrow> False))
     RESERVED_NAMESPACES"

definition is_valid_namespace :: "string \<Rightarrow> bool" where
  "is_valid_namespace ns =
     (if ns = [] then False
      else list_all (\<lambda>seg. seg \<noteq> [] \<and>
             list_all (\<lambda>b. is_ascii_lowercase b \<or> is_ascii_digit b \<or> b = CHR ''-'') seg)
           (split_on (CHR ''.'') ns))"

definition grant_new :: "string \<Rightarrow> namespace_grant option" where
  "grant_new p = (if \<not> is_valid_namespace p \<or> is_reserved p then None else Some \<lparr>ng_prefix = p\<rparr>)"

definition permits :: "namespace_grant \<Rightarrow> string \<Rightarrow> bool" where
  "permits g ty =
     (case strip_prefix ty (ng_prefix g) of
        Some (d # b # _) \<Rightarrow> d = CHR ''.'' \<and> is_ascii_alphanumeric b
      | _ \<Rightarrow> False)"

definition permits_any :: "string list \<Rightarrow> string \<Rightarrow> bool" where
  "permits_any delegated ty =
     list_ex (\<lambda>ns. case grant_new ns of Some g \<Rightarrow> permits g ty | None \<Rightarrow> False) delegated"

definition is_dotted_ancestor_or_self :: "string \<Rightarrow> string \<Rightarrow> bool" where
  "is_dotted_ancestor_or_self anc desc \<longleftrightarrow> anc = desc \<or>
     (case strip_prefix desc anc of Some rest \<Rightarrow> starts_with rest ''.'' | None \<Rightarrow> False)"

definition delegation_is_owned :: "string \<Rightarrow> string list \<Rightarrow> bool" where
  "delegation_is_owned ns installed =
     list_ex (\<lambda>app. is_dotted_ancestor_or_self ns app \<or> is_dotted_ancestor_or_self app ns) installed"

definition unowned_delegations :: "string list \<Rightarrow> string list \<Rightarrow> string list" where
  "unowned_delegations delegated installed =
     filter (\<lambda>ns. \<not> delegation_is_owned ns installed) delegated"

section \<open>What the checks mean\<close>

text \<open>The types strictly under a namespace.\<close>

definition in_namespace :: "string \<Rightarrow> string \<Rightarrow> bool" where
  "in_namespace ns ty \<longleftrightarrow> starts_with ty (ns @ ''.'')"

lemma under_iff: "in_namespace ns ty \<longleftrightarrow> (\<exists>rest. ty = ns @ ''.'' @ rest)"
  by (auto simp: in_namespace_def starts_with_iff)

lemma strip_prefix_dot:
  "(case strip_prefix s p of Some rest \<Rightarrow> starts_with rest ''.'' | None \<Rightarrow> False) \<longleftrightarrow> in_namespace p s"
proof (cases "strip_prefix s p")
  case None
  then have "\<not> starts_with s p" by (simp add: strip_prefix_None)
  then show ?thesis using None starts_with_trans by (auto simp: in_namespace_def)
next
  case (Some r)
  then have "s = p @ r" by (simp add: strip_prefix_Some)
  then show ?thesis using Some by (auto simp: under_iff starts_with_iff)
qed

lemma ancestor_iff: "is_dotted_ancestor_or_self a d \<longleftrightarrow> a = d \<or> in_namespace a d"
  by (simp add: is_dotted_ancestor_or_self_def strip_prefix_dot)

lemma is_reserved_iff: "is_reserved ns \<longleftrightarrow>
    ns = ''system'' \<or> ns = ''shared'' \<or> in_namespace ''system'' ns \<or> in_namespace ''shared'' ns"
  by (auto simp: is_reserved_def RESERVED_NAMESPACES_def strip_prefix_dot)

lemma permits_iff [gate_dest]: "permits g ty \<longleftrightarrow>
    (\<exists>b rest. ty = ng_prefix g @ ''.'' @ b # rest \<and> is_ascii_alphanumeric b)"
  by (auto simp: permits_def strip_prefix_Some split: option.splits list.splits)
     (metis append_eq_conv_conj starts_with_append strip_prefix_None strip_prefix_def)+

lemma permits_under: "permits g ty \<Longrightarrow> in_namespace (ng_prefix g) ty"
  by (auto simp: permits_iff under_iff)

lemma permits_any_iff [gate_dest]: "permits_any delegated ty \<longleftrightarrow>
    (\<exists>ns \<in> set delegated. is_valid_namespace ns \<and> \<not> is_reserved ns \<and> permits \<lparr>ng_prefix = ns\<rparr> ty)"
  by (auto simp: permits_any_def list_ex_iff grant_new_def)

text \<open>Two namespaces with a type in common are in line with each other.\<close>

lemma under_common:
  assumes "in_namespace a ty" and "in_namespace b ty"
  shows "is_dotted_ancestor_or_self a b \<or> is_dotted_ancestor_or_self b a"
proof -
  obtain r s where "a @ CHR ''.'' # r = b @ CHR ''.'' # s"
    using assms by (auto simp: under_iff)
  then obtain us where "a = b @ us \<and> us @ CHR ''.'' # r = CHR ''.'' # s \<or>
      b = a @ us \<and> us @ CHR ''.'' # s = CHR ''.'' # r"
    unfolding append_eq_append_conv2 by metis
  then show ?thesis
    by (cases us) (auto simp: ancestor_iff under_iff)
qed

lemma valid_namespace_Cons: "is_valid_namespace ns \<Longrightarrow> ns \<noteq> []"
  by (auto simp: is_valid_namespace_def)

lemma permits_any_not_reserved:
  assumes "permits_any delegated ty"
  shows "\<not> in_namespace ''system'' ty \<and> \<not> in_namespace ''shared'' ty"
proof -
  from assms obtain ns where ns: "is_valid_namespace ns" "\<not> is_reserved ns" "in_namespace ns ty"
    using permits_under by (fastforce simp: permits_any_iff)
  have "\<not> in_namespace r ty" if r: "r = ''system'' \<or> r = ''shared''" for r
  proof
    assume "in_namespace r ty"
    with ns have "is_dotted_ancestor_or_self ns r \<or> is_dotted_ancestor_or_self r ns"
      using under_common by blast
    moreover have "\<not> in_namespace ns r"
      using r by (auto simp: under_iff append_eq_Cons_conv Cons_eq_append_conv)
    ultimately show False
      using ns(2) r by (auto simp: ancestor_iff is_reserved_iff)
  qed
  then show ?thesis by blast
qed

lemma unowned_no_overlap:
  assumes "ns \<in> set (unowned_delegations delegated installed)" and "app \<in> set installed"
    and "in_namespace ns ty"
  shows "\<not> in_namespace app ty"
  using assms under_common
  by (auto simp: unowned_delegations_def delegation_is_owned_def list_ex_iff)

end
