(* ===== verification/Cypher.thy ===== *)
theory Cypher
  imports Prelude
begin

text \<open>
  The query texts of the graph daemon (\<open>daemons/knowledge/src/utils.rs\<close>, \<open>cypher.rs\<close>):
  escaping of values, the statement builders, the content key of a relation and the resolution
  of socket and data paths.

  What the escaping promises is stated with a reader of the query language's single-quoted
  literals: it splits a statement into its skeleton, in which every literal is left as two
  quotes, and the values of the literals in order.
\<close>

section \<open>Escaping\<close>

text \<open>\<open>s.replace(c, r)\<close> for a character.\<close>

definition replace_char :: "char \<Rightarrow> string \<Rightarrow> string \<Rightarrow> string" where
  "replace_char c r s = concat (map (\<lambda>x. if x = c then r else [x]) s)"

abbreviation quote :: char where "quote \<equiv> CHR 0x27"
abbreviation backslash :: char where "backslash \<equiv> CHR 0x5C"

definition escape_cypher :: "string \<Rightarrow> string" where
  "escape_cypher s = replace_char quote [backslash, quote] (replace_char backslash [backslash, backslash] s)"

definition quoted :: "string \<Rightarrow> string" where
  "quoted s = [quote] @ escape_cypher s @ [quote]"

section \<open>Statement builders\<close>

definition node_pattern :: "string \<Rightarrow> string \<Rightarrow> string \<Rightarrow> string" where
  "node_pattern var label nid = ''('' @ var @ '':'' @ label @ '' {id: '' @ quoted nid @ ''})''"

definition merge_node :: "string \<Rightarrow> string \<Rightarrow> string \<Rightarrow> string" where
  "merge_node var label nid = ''MERGE '' @ node_pattern var label nid"

definition match_node :: "string \<Rightarrow> string \<Rightarrow> string \<Rightarrow> string" where
  "match_node var label nid = ''MATCH '' @ node_pattern var label nid"

definition match_two_nodes ::
  "string \<Rightarrow> string \<Rightarrow> string \<Rightarrow> string \<Rightarrow> string \<Rightarrow> string \<Rightarrow> string" where
  "match_two_nodes va la ida vb lb idb =
     ''MATCH '' @ node_pattern va la ida @ '', '' @ node_pattern vb lb idb"

definition node_pattern_by_field :: "string \<Rightarrow> string \<Rightarrow> string \<Rightarrow> string \<Rightarrow> string" where
  "node_pattern_by_field var label fld v =
     ''('' @ var @ '':'' @ label @ '' {'' @ fld @ '': '' @ quoted v @ ''})''"

definition match_node_by_field :: "string \<Rightarrow> string \<Rightarrow> string \<Rightarrow> string \<Rightarrow> string" where
  "match_node_by_field var label fld v = ''MATCH '' @ node_pattern_by_field var label fld v"

definition id_list :: "string list \<Rightarrow> string" where
  "id_list ids = join '', '' (map quoted ids)"

definition bool_text :: "bool \<Rightarrow> string" where
  "bool_text b = (if b then ''true'' else ''false'')"

datatype set_value = SetText string | SetInt int | SetBool bool

fun render :: "set_value \<Rightarrow> string" where
  "render (SetText s) = quoted s"
| "render (SetInt n) = dec_int n"
| "render (SetBool b) = bool_text b"

definition merge_node_set ::
  "string \<Rightarrow> string \<Rightarrow> string \<Rightarrow> (string \<times> set_value) list \<Rightarrow> string" where
  "merge_node_set var label nid sets =
     merge_node var label nid @ '' SET '' @
       join '', '' (map (\<lambda>(fld, v). var @ ''.'' @ fld @ '' = '' @ render v) sets)"

section \<open>Content key and paths\<close>

definition key_part :: "bytes \<Rightarrow> bytes" where
  "key_part part = le_bytes (len_u64 part) @ part"

definition content_message :: "string list \<Rightarrow> bytes" where
  "content_message parts = concat (map key_part parts)"

definition content_merge_key ::
  "(bytes \<Rightarrow> bytes) \<Rightarrow> string \<Rightarrow> string \<Rightarrow> string \<Rightarrow> string \<Rightarrow> string \<Rightarrow> string" where
  "content_merge_key sha256 from_label from_id rel to_label to_id =
     hex (sha256 (content_message [from_label, from_id, rel, to_label, to_id]))"

definition non_empty :: "string option \<Rightarrow> string option" where
  "non_empty v = (case v of Some s \<Rightarrow> if s = [] then None else Some s | None \<Rightarrow> None)"

definition resolve_socket :: "string option \<Rightarrow> string option \<Rightarrow> string \<Rightarrow> string" where
  "resolve_socket env_val xdg file_name =
     (case non_empty env_val of
        Some p \<Rightarrow> p
      | None \<Rightarrow> (case non_empty xdg of
          Some dir \<Rightarrow> dir @ ''/arlen/'' @ file_name
        | None \<Rightarrow> ''/run/arlen/'' @ file_name))"

definition resolve_data_path ::
  "string option \<Rightarrow> string option \<Rightarrow> string option \<Rightarrow> string \<Rightarrow> string \<Rightarrow> string" where
  "resolve_data_path pinned xdg home name system_default =
     (case non_empty pinned of
        Some p \<Rightarrow> p
      | None \<Rightarrow> (case non_empty xdg of
          Some dir \<Rightarrow> dir @ ''/arlen/'' @ name
        | None \<Rightarrow> (case non_empty home of
            Some h \<Rightarrow> h @ ''/.local/share/arlen/'' @ name
          | None \<Rightarrow> system_default)))"

section \<open>Reading literals back\<close>

text \<open>
  The reader: outside a literal every character belongs to the skeleton; a quote opens a literal,
  in which a backslash takes the next character literally and a quote closes it. A statement
  that ends inside a literal has no reading.
\<close>

fun lex_out :: "string \<Rightarrow> (string \<times> string list) option"
and lex_in :: "string \<Rightarrow> string \<Rightarrow> (string \<times> string list) option"
and lex_esc :: "string \<Rightarrow> string \<Rightarrow> (string \<times> string list) option" where
  "lex_out [] = Some ([], [])"
| "lex_out (c # cs) = (if c = quote then lex_in [] cs
     else map_option (\<lambda>(sk, ls). (c # sk, ls)) (lex_out cs))"
| "lex_in acc [] = None"
| "lex_in acc (c # cs) = (if c = backslash then lex_esc acc cs
     else if c = quote then map_option (\<lambda>(sk, ls). (quote # quote # sk, acc # ls)) (lex_out cs)
     else lex_in (acc @ [c]) cs)"
| "lex_esc acc [] = None"
| "lex_esc acc (c # cs) = lex_in (acc @ [c]) cs"

text \<open>A fragment that contributes a skeleton and literals wherever it stands outside a literal.\<close>

definition renders :: "string \<Rightarrow> string \<Rightarrow> string list \<Rightarrow> bool" where
  "renders f sk ls \<longleftrightarrow>
     (\<forall>rest. lex_out (f @ rest) = map_option (\<lambda>(sk', ls'). (sk @ sk', ls @ ls')) (lex_out rest))"

definition plain :: "string \<Rightarrow> bool" where
  "plain s \<longleftrightarrow> quote \<notin> set s"

named_theorems renders_intro \<open>how a fragment is composed\<close>

lemma rendersD: "renders f sk ls \<Longrightarrow> lex_out f = Some (sk, ls)"
  by (simp add: renders_def) (drule spec [of _ "[]"], simp)

lemma renders_append [renders_intro]:
  "renders f sk ls \<Longrightarrow> renders g sk' ls' \<Longrightarrow> renders (f @ g) (sk @ sk') (ls @ ls')"
  by (auto simp: renders_def option.map_comp intro!: option.map_cong0)

lemma renders_Nil: "renders [] [] []"
  by (simp add: renders_def case_prod_beta option.map_id flip: id_def)

lemma renders_plain [renders_intro]: "plain s \<Longrightarrow> renders s s []"
proof (induction s)
  case (Cons c s)
  then have "renders s s []" and "c \<noteq> quote" by (auto simp: plain_def)
  then show ?case
    by (auto simp: renders_def option.map_comp intro!: option.map_cong0)
qed (simp add: renders_Nil)

lemma escape_cypher_Cons:
  "escape_cypher (c # s) = (if c = quote \<or> c = backslash then [backslash, c] else [c]) @ escape_cypher s"
  by (simp add: escape_cypher_def replace_char_def)

lemma escape_cypher_Nil [simp]: "escape_cypher [] = []"
  by (simp add: escape_cypher_def replace_char_def)

lemma lex_in_escaped: "lex_in acc (escape_cypher s @ quote # rest) =
    map_option (\<lambda>(sk, ls). (quote # quote # sk, (acc @ s) # ls)) (lex_out rest)"
  by (induction s arbitrary: acc) (simp_all add: escape_cypher_Cons)

lemma renders_quoted [renders_intro]: "renders (quoted s) [quote, quote] [s]"
  by (simp add: renders_def quoted_def lex_in_escaped)

lemma renders_join [renders_intro]:
  assumes "list_all2 (\<lambda>f (sk, ls). renders f sk ls) fs ps" and "plain sep"
  shows "renders (join sep fs) (join sep (map fst ps)) (concat (map snd ps))"
  using assms(1)
proof (induction fs arbitrary: ps rule: induct_list012)
  case 1
  then show ?case by (simp add: renders_Nil)
next
  case (2 f)
  then obtain sk ls where "ps = [(sk, ls)]" "renders f sk ls"
    by (auto simp: list_all2_Cons1)
  then show ?case by simp
next
  case (3 f g fs)
  then obtain sk ls p ps' where ps: "ps = (sk, ls) # p # ps'" and f: "renders f sk ls"
    and rest: "list_all2 (\<lambda>f (sk, ls). renders f sk ls) (g # fs) (p # ps')"
    by (auto simp: list_all2_Cons1)
  have "renders (f @ sep @ join sep (g # fs))
      (sk @ sep @ join sep (map fst (p # ps'))) (ls @ [] @ concat (map snd (p # ps')))"
    by (intro renders_append f renders_plain assms(2) "3.IH"(2) rest)
  then show ?case using ps by simp
qed

lemma renders_concat [renders_intro]:
  "list_all2 (\<lambda>f (sk, ls). renders f sk ls) fs ps \<Longrightarrow>
     renders (concat fs) (concat (map fst ps)) (concat (map snd ps))"
  by (induction fs ps rule: list_all2_induct) (auto simp: renders_Nil intro: renders_append)

lemma plain_append [simp]: "plain (s @ t) \<longleftrightarrow> plain s \<and> plain t"
  by (auto simp: plain_def)

lemma plain_Cons [simp]: "plain (c # s) \<longleftrightarrow> c \<noteq> quote \<and> plain s"
  by (auto simp: plain_def)

lemma plain_Nil [simp]: "plain []"
  by (simp add: plain_def)

lemma plain_dec [simp]: "plain (dec n)"
  using dec_digits [of quote n] by (auto simp: plain_def is_ascii_digit_def less_eq_char_def)

lemma plain_dec_int [simp]: "plain (dec_int i)"
  by (simp add: dec_int_def)

lemma plain_bool_text [simp]: "plain (bool_text b)"
  by (simp add: bool_text_def)

lemma renders_trusted: "plain s \<Longrightarrow> renders g sk ls \<Longrightarrow> renders (s @ g) (s @ sk) ls"
  using renders_append [OF renders_plain] by fastforce

lemma renders_value: "renders g sk ls \<Longrightarrow> renders (quoted s @ g) (quote # quote # sk) (s # ls)"
  using renders_append [OF renders_quoted] by fastforce

lemma renders_node_pattern:
  "plain var \<Longrightarrow> plain label \<Longrightarrow>
     renders (node_pattern var label nid) (''('' @ var @ '':'' @ label @ '' {id: '' @ [quote, quote] @ ''})'') [nid]"
  unfolding node_pattern_def using renders_plain [of "''})''"]
  by (intro renders_trusted) (simp_all add: renders_value)

text \<open>The skeleton and the literal of one assigned value.\<close>

fun set_value_reading :: "set_value \<Rightarrow> string \<times> string list" where
  "set_value_reading (SetText s) = ([quote, quote], [s])"
| "set_value_reading (SetInt n) = (dec_int n, [])"
| "set_value_reading (SetBool b) = (bool_text b, [])"

lemma renders_set_value: "renders (render v) (fst (set_value_reading v)) (snd (set_value_reading v))"
  by (cases v) (auto intro: renders_intro)

section \<open>Length-delimited parts\<close>

lemma key_part_front:
  assumes "addressable x" and "addressable y" and "key_part x @ r = key_part y @ s"
  shows "x = y \<and> r = s"
proof -
  have "le_bytes (len_u64 x) = le_bytes (len_u64 y) \<and> x @ r = y @ s"
    using assms(3) by (simp add: key_part_def)
  then show ?thesis
    using assms len_u64_inj [of x y] by (auto simp: append_eq_append_conv)
qed

interpretation key_field: field_encoding key_part addressable
  by unfold_locales (rule key_part_front)

section \<open>Properties\<close>

text \<open>Values cannot change a statement: the node upsert the builders produce reads as a
  skeleton in which only the trusted identifiers and the numbers and truth values occur, and its
  string literals are the identifier and the text values themselves, whatever characters they hold.\<close>

theorem merge_node_set_reads_back:
  assumes "plain var" and "plain label" and "\<forall>(fld, v) \<in> set sets. plain fld"
  shows "lex_out (merge_node_set var label nid sets) =
    Some (''MERGE ('' @ var @ '':'' @ label @ '' {id: '' @ [quote, quote] @ ''}) SET '' @
        join '', '' (map (\<lambda>(fld, v). var @ ''.'' @ fld @ '' = '' @ fst (set_value_reading v)) sets),
      nid # concat (map (\<lambda>(fld, v). snd (set_value_reading v)) sets))"
proof -
  let ?ps = "map (\<lambda>(fld, v). (var @ ''.'' @ fld @ '' = '' @ fst (set_value_reading v), snd (set_value_reading v))) sets"
  have "renders (var @ ''.'' @ fld @ '' = '' @ render v) (var @ ''.'' @ fld @ '' = '' @ fst (set_value_reading v))
      (snd (set_value_reading v))" if "(fld, v) \<in> set sets" for fld v
    using assms that by (intro renders_trusted renders_set_value) auto
  then have "list_all2 (\<lambda>f (sk, ls). renders f sk ls)
      (map (\<lambda>(fld, v). var @ ''.'' @ fld @ '' = '' @ render v) sets) ?ps"
    by (auto simp: list_all2_conv_all_nth all_set_conv_all_nth split: prod.splits) (metis nth_mem)
  then have "renders (join '', '' (map (\<lambda>(fld, v). var @ ''.'' @ fld @ '' = '' @ render v) sets))
      (join '', '' (map fst ?ps)) (concat (map snd ?ps))"
    by (rule renders_join) simp
  then have "renders (''MERGE '' @ (node_pattern var label nid @ '' SET '' @
        join '', '' (map (\<lambda>(fld, v). var @ ''.'' @ fld @ '' = '' @ render v) sets)))
      (''MERGE '' @ ((''('' @ var @ '':'' @ label @ '' {id: '' @ [quote, quote] @ ''})'') @ '' SET '' @ join '', '' (map fst ?ps)))
      ([nid] @ concat (map snd ?ps))"
    by (intro renders_trusted renders_append renders_node_pattern assms) simp_all
  from rendersD [OF this]
  have "lex_out (merge_node_set var label nid sets) =
      Some (''MERGE ('' @ var @ '':'' @ label @ '' {id: '' @ [quote, quote] @ ''}) SET '' @ join '', '' (map fst ?ps),
        nid # concat (map snd ?ps))"
    by (simp add: merge_node_set_def merge_node_def del: map_map)
  then show ?thesis by (simp only: map_map comp_def case_prod_unfold fst_conv snd_conv)
qed

text \<open>The content key identifies the fact: two relation facts have the same key exactly when
  their five parts agree, unless the hash function collides on the two messages.\<close>

theorem content_merge_key_identifies:
  assumes "list_all addressable parts" and "list_all addressable parts'"
    and "parts = [from_label, from_id, rel, to_label, to_id]"
    and "parts' = [from_label', from_id', rel', to_label', to_id']"
    and no_collision: "sha256 (content_message parts) = sha256 (content_message parts') \<Longrightarrow>
      content_message parts = content_message parts'"
  shows "content_merge_key sha256 from_label from_id rel to_label to_id =
      content_merge_key sha256 from_label' from_id' rel' to_label' to_id' \<longleftrightarrow> parts = parts'"
proof
  assume "content_merge_key sha256 from_label from_id rel to_label to_id =
      content_merge_key sha256 from_label' from_id' rel' to_label' to_id'"
  then have "content_message parts = content_message parts'"
    using hex_inj no_collision assms(3,4) by (auto simp: content_merge_key_def)
  then show "parts = parts'"
    using key_field.fields_front [of parts parts' "[]" "[]"] assms by (simp add: content_message_def)
qed (use assms in simp)

section \<open>Witnesses\<close>

text \<open>An identifier that tries to close its literal and add a clause.\<close>

theorem merge_node_set_reads_back_witness:
  "lex_out (merge_node_set ''n'' ''File'' ([quote] @ ''}) DETACH DELETE n //'') [(''path'', SetText [backslash]), (''size'', SetInt 3)]) =
     Some (''MERGE (n:File {id: '' @ [quote, quote] @ ''}) SET n.path = '' @ [quote, quote] @ '', n.size = 3'',
       [[quote] @ ''}) DETACH DELETE n //'', [backslash]])"
  using merge_node_set_reads_back [of "''n''" "''File''" "[(''path'', SetText [backslash]), (''size'', SetInt 3)]"
      "[quote] @ ''}) DETACH DELETE n //''"]
  by (simp add: dec_int_def dec.simps digit_char_def)

theorem content_merge_key_identifies_witness:
  "content_merge_key rev ''ab'' ''c'' ''r'' ''t'' ''u'' \<noteq> content_merge_key rev ''a'' ''bc'' ''r'' ''t'' ''u''"
  using content_merge_key_identifies [of "[''ab'', ''c'', ''r'', ''t'', ''u'']" "[''a'', ''bc'', ''r'', ''t'', ''u'']"
      "''ab''" "''c''" "''r''" "''t''" "''u''" "''a''" "''bc''" "''r''" "''t''" "''u''" rev]
  by (simp add: addressable_def)

end
