(* ===== verification/Entity_Store.thy ===== *)
theory Entity_Store
  imports Write_Path Namespace_Grant Cypher
begin

text \<open>
  How app-declared entities are stored and removed
  (\<open>daemons/knowledge/src/write/entity.rs\<close> and \<open>purge.rs\<close>): table names, table
  definitions, the upsert, link and merge plans with the gate in front of them, and the purge of
  a namespace. The texts of floats and of serialised arrays and objects are those of the crate
  \<open>serde_json\<close>: the first come with the value, the second are the argument \<open>to_json\<close>. The
  graph engine is an argument of the purge.
\<close>

section \<open>Names\<close>

definition RESERVED_COLUMNS :: "(string \<times> string) list" where
  "RESERVED_COLUMNS = [(''id'', ''STRING''), (''_type'', ''STRING''), (''_external_key'', ''STRING''),
     (''_owner'', ''STRING''), (''_version'', ''INT64''), (''_created_at'', ''STRING''),
     (''_modified_at'', ''STRING''), (''_deleted'', ''BOOL''), (''_run_id'', ''STRING''),
     (''_origin_ref'', ''STRING'')]"

definition MAX_ORIGIN_LEN :: nat where "MAX_ORIGIN_LEN = 512"

record write_origin =
  wo_run_id :: string
  wo_origin_ref :: string

datatype origin_error = OriginEmpty string | OriginTooLong string

fun origin_half_error :: "string \<times> string \<Rightarrow> origin_error option" where
  "origin_half_error (label, v) =
     (if trim v = [] then Some (OriginEmpty label)
      else if length v > MAX_ORIGIN_LEN then Some (OriginTooLong label)
      else None)"

definition origin_new :: "string \<Rightarrow> string \<Rightarrow> origin_error + write_origin" where
  "origin_new run_id origin_ref =
     (case first_error origin_half_error [(''run_id'', run_id), (''origin_ref'', origin_ref)] of
        Some e \<Rightarrow> Inl e
      | None \<Rightarrow> Inr \<lparr>wo_run_id = run_id, wo_origin_ref = origin_ref\<rparr>)"

definition set_fragment :: "write_origin \<Rightarrow> string" where
  "set_fragment w = '', n._run_id='' @ quoted (wo_run_id w) @ '', n._origin_ref='' @ quoted (wo_origin_ref w)"

datatype entity_table_error = UnsafeFieldName string | ReservedFieldName string

definition fnv1a64_step :: "u64 \<Rightarrow> char \<Rightarrow> u64" where
  "fnv1a64_step hash b = xor hash (of_char b) * 0x100000001b3"

definition fnv1a64 :: "string \<Rightarrow> u64" where
  "fnv1a64 s = foldl fnv1a64_step 0xcbf29ce484222325 s"

definition sanitised :: "string \<Rightarrow> string" where
  "sanitised s = map (\<lambda>c. if is_ascii_alphanumeric c then c else CHR ''_'') s"

definition entity_table_name :: "string \<Rightarrow> string" where
  "entity_table_name ty = ''e_'' @ sanitised ty @ ''_'' @ hex (be_bytes (fnv1a64 ty))"

definition entity_rel_table_name :: "string \<Rightarrow> string \<Rightarrow> string \<Rightarrow> string" where
  "entity_rel_table_name edge_type from_type to_type =
     ''r_'' @ sanitised edge_type @ ''_'' @
       hex (be_bytes (fnv1a64 (edge_type @ [CHR 0x00] @ from_type @ [CHR 0x00] @ to_type)))"

definition column_type :: "field_type \<Rightarrow> string" where
  "column_type ft = (case ft of
     FInt \<Rightarrow> ''INT64'' | FDuration \<Rightarrow> ''INT64'' | FFloat \<Rightarrow> ''DOUBLE'' | FBool \<Rightarrow> ''BOOL'' | _ \<Rightarrow> ''STRING'')"

definition is_safe_identifier :: "string \<Rightarrow> bool" where
  "is_safe_identifier name \<longleftrightarrow> name \<noteq> [] \<and> length name \<le> 64 \<and>
     (is_ascii_alphabetic (hd name) \<or> hd name = CHR ''_'') \<and>
     list_all (\<lambda>c. is_ascii_alphanumeric c \<or> c = CHR ''_'') name"

definition column_error :: "string \<Rightarrow> entity_table_error option" where
  "column_error name =
     (if \<not> is_safe_identifier name then Some (UnsafeFieldName name)
      else if name \<in> fst ` set RESERVED_COLUMNS then Some (ReservedFieldName name)
      else None)"

definition entity_table_ddl :: "string \<Rightarrow> entity_definition \<Rightarrow> entity_table_error + string" where
  "entity_table_ddl ty def =
     (let names = sort (map fst (ed_fields def)) in
      case first_error column_error names of
        Some e \<Rightarrow> Inl e
      | None \<Rightarrow> Inr (''CREATE NODE TABLE IF NOT EXISTS '' @ entity_table_name ty @ ''('' @
          join '', '' (map (\<lambda>(name, t). name @ '' '' @ t) RESERVED_COLUMNS @
            map (\<lambda>name. name @ '' '' @ (case map_of (ed_fields def) name of
                Some fd \<Rightarrow> column_type (fd_field_type fd) | None \<Rightarrow> [])) names) @
          '', PRIMARY KEY(id))''))"

definition entity_node_id :: "string \<Rightarrow> string \<Rightarrow> string" where
  "entity_node_id ty external_key = ty @ '':'' @ external_key"

section \<open>Plans\<close>

fun number_text :: "json_number \<Rightarrow> string" where
  "number_text (PosInt n) = dec (unat n)"
| "number_text (NegInt i) = dec_int i"
| "number_text (Float t) = t"

fun field_literal :: "(json \<Rightarrow> string) \<Rightarrow> json \<Rightarrow> string" where
  "field_literal to_json (JString s) = quoted s"
| "field_literal to_json (JBool b) = bool_text b"
| "field_literal to_json (JNumber n) = number_text n"
| "field_literal to_json JNull = ''null''"
| "field_literal to_json (JArray a) = quoted (to_json (JArray a))"
| "field_literal to_json (JObject m) = quoted (to_json (JObject m))"

definition build_upsert_cypher ::
  "(json \<Rightarrow> string) \<Rightarrow> string \<Rightarrow> string \<Rightarrow> string \<Rightarrow> json_map \<Rightarrow> string \<Rightarrow> write_origin option \<Rightarrow> string" where
  "build_upsert_cypher to_json ty external_key owner data now origin =
     (let field_sets = concat (map (\<lambda>(name, v). '', n.'' @ name @ ''='' @ field_literal to_json v) data);
          origin_sets = (case origin of Some w \<Rightarrow> set_fragment w | None \<Rightarrow> [])
      in ''MERGE (n:'' @ entity_table_name ty @ '' {id: '' @ quoted (entity_node_id ty external_key) @
         ''}) ON CREATE SET n._type='' @ quoted ty @ '', n._external_key='' @ quoted external_key @
         '', n._owner='' @ quoted owner @ '', n._created_at='' @ quoted now @ '', n._modified_at='' @ quoted now @
         '', n._version=1, n._deleted=false'' @ field_sets @ origin_sets @
         '' ON MATCH SET n._modified_at='' @ quoted now @ '', n._version=n._version+1'' @ field_sets @ origin_sets @
         '' RETURN n._version AS version'')"

datatype plan_error =
    EmptyExternalKey
  | NamespaceNotWritable string
  | SharedOwnerOnly string
  | PlanPermissionDenied string
  | PlanNamespaceViolation string string
  | TypeNotRegistered string
  | PlanValidation write_validation_error
  | PlanSchema entity_table_error
  | EmptyEndpointKeys
  | InvalidEdgeType string
  | NotLinkable string

definition in_own_or_delegated :: "capability_token \<Rightarrow> string \<Rightarrow> bool" where
  "in_own_or_delegated t ty \<longleftrightarrow> starts_with ty (ct_app_id t @ ''.'') \<or> permits_any (ct_delegated_namespaces t) ty"

text \<open>A \<open>BTreeMap\<close> of the fields is their list in the order of the names.\<close>

definition plan_entity_upsert ::
  "(json \<Rightarrow> string) \<Rightarrow> string \<Rightarrow> schema_registry \<Rightarrow> capability_token \<Rightarrow> string \<Rightarrow> string \<Rightarrow> json_map \<Rightarrow>
   write_origin option \<Rightarrow> plan_error + string \<times> string" where
  "plan_entity_upsert to_json now r t ty external_key data origin =
     (if trim external_key = [] then Inl EmptyExternalKey
      else if starts_with ty ''system.'' then Inl (NamespaceNotWritable ty)
      else
        (let is_shared = starts_with ty ''shared.'' in
         if is_shared \<and> shared_owner ty \<noteq> Some (ct_app_id t) then Inl (SharedOwnerOnly ty)
         else if \<not> can_write t ty then Inl (PlanPermissionDenied ty)
         else if \<not> is_shared \<and> \<not> in_own_or_delegated t ty then Inl (PlanNamespaceViolation (ct_app_id t) ty)
         else case get_entity r ty of
           None \<Rightarrow> Inl (TypeNotRegistered ty)
         | Some def \<Rightarrow>
             (case validate_create r ty data of
                Inl e \<Rightarrow> Inl (PlanValidation e)
              | Inr _ \<Rightarrow>
                  (case entity_table_ddl ty def of
                     Inl e \<Rightarrow> Inl (PlanSchema e)
                   | Inr ddl \<Rightarrow> Inr (ddl, build_upsert_cypher to_json ty external_key (ct_app_id t)
                       (sort_key fst data) now origin)))))"

definition build_link_cypher :: "string \<Rightarrow> string \<Rightarrow> string \<Rightarrow> string \<Rightarrow> string \<Rightarrow> string" where
  "build_link_cypher rel_table from_table to_table from_id to_id =
     ''MATCH (a:'' @ from_table @ '' {id: '' @ quoted from_id @ ''}), (b:'' @ to_table @ '' {id: '' @ quoted to_id @
     ''}) MERGE (a)-[:'' @ rel_table @ '']->(b) RETURN count(*) AS linked''"

definition endpoint_error :: "schema_registry \<Rightarrow> capability_token \<Rightarrow> string \<Rightarrow> plan_error option" where
  "endpoint_error r t ty =
     (if starts_with ty ''system.'' \<or> starts_with ty ''shared.'' then Some (NotLinkable ty)
      else if \<not> can_write t ty then Some (PlanPermissionDenied ty)
      else if \<not> in_own_or_delegated t ty then Some (PlanNamespaceViolation (ct_app_id t) ty)
      else if get_entity r ty = None then Some (TypeNotRegistered ty)
      else None)"

definition plan_entity_link ::
  "schema_registry \<Rightarrow> capability_token \<Rightarrow> string \<Rightarrow> string \<Rightarrow> string \<Rightarrow> string \<Rightarrow> string \<Rightarrow>
   plan_error + string \<times> string" where
  "plan_entity_link r t edge_type from_type from_key to_type to_key =
     (if trim from_key = [] \<or> trim to_key = [] then Inl EmptyEndpointKeys
      else if \<not> is_safe_identifier edge_type then Inl (InvalidEdgeType edge_type)
      else case first_error (endpoint_error r t) [from_type, to_type] of
        Some e \<Rightarrow> Inl e
      | None \<Rightarrow>
          (let from_table = entity_table_name from_type; to_table = entity_table_name to_type;
               rel_table = entity_rel_table_name edge_type from_type to_type
           in Inr (''CREATE REL TABLE IF NOT EXISTS '' @ rel_table @ ''(FROM '' @ from_table @ '' TO '' @ to_table @ '')'',
                build_link_cypher rel_table from_table to_table
                  (entity_node_id from_type from_key) (entity_node_id to_type to_key))))"

definition authorise_entity_merge :: "capability_token \<Rightarrow> string \<Rightarrow> plan_error + unit" where
  "authorise_entity_merge t ty =
     (if starts_with ty ''system.'' then Inl (NamespaceNotWritable ty)
      else if starts_with ty ''shared.'' \<and> shared_owner ty \<noteq> Some (ct_app_id t) then Inl (SharedOwnerOnly ty)
      else if \<not> starts_with ty ''shared.'' \<and> \<not> in_own_or_delegated t ty
        then Inl (PlanNamespaceViolation (ct_app_id t) ty)
      else if \<not> can_write t ty then Inl (PlanPermissionDenied ty)
      else Inr ())"

section \<open>Purging a namespace\<close>

record purge_plan =
  pp_rel_tables :: "string list"
  pp_node_tables :: "string list"

definition drop_statement :: "string \<Rightarrow> string" where
  "drop_statement t = ''DROP TABLE '' @ t"

definition statements :: "purge_plan \<Rightarrow> string list" where
  "statements p = map drop_statement (pp_rel_tables p @ pp_node_tables p)"

definition plan_is_empty :: "purge_plan \<Rightarrow> bool" where
  "plan_is_empty p \<longleftrightarrow> pp_rel_tables p = [] \<and> pp_node_tables p = []"

definition is_under :: "string \<Rightarrow> string \<Rightarrow> bool" where
  "is_under ty ns =
     (case strip_prefix ty ns of
        None \<Rightarrow> False
      | Some rest \<Rightarrow> (case strip_prefix rest ''.'' of None \<Rightarrow> False | Some tail \<Rightarrow> tail \<noteq> []))"

text \<open>\<open>Vec::dedup\<close> removes consecutive repetitions.\<close>

definition plan_purge :: "string \<Rightarrow> string list \<Rightarrow> (string \<times> string \<times> string) list \<Rightarrow> purge_plan" where
  "plan_purge ns all_types catalog =
     (let nodes = remdups_adj (sort (map entity_table_name (filter (\<lambda>ty. is_under ty ns) all_types)));
          rels = remdups_adj (sort (map fst (filter (\<lambda>(rel, src, dst). src \<in> set nodes \<or> dst \<in> set nodes) catalog)))
      in \<lparr>pp_rel_tables = rels, pp_node_tables = nodes\<rparr>)"

record purged =
  pu_dropped :: "string list"
  pu_failed :: "(string \<times> string) list"

function trim_start_matches :: "string \<Rightarrow> string \<Rightarrow> string" where
  "trim_start_matches s p = (if p \<noteq> [] \<and> starts_with s p then trim_start_matches (drop (length p) s) p else s)"
  by auto
termination
  by (relation "measure (length \<circ> fst)") (auto simp: starts_with_iff)

declare trim_start_matches.simps [simp del]

datatype cell_value = CellNull | CellString string | CellInt64 int | CellBool bool | CellFloat string

text \<open>The engine answers a query with rows or an error; a write also changes its state.\<close>

fun read_connections ::
  "(string \<Rightarrow> string + cell_value list list) \<Rightarrow> cell_value list list \<Rightarrow> string + (string \<times> string \<times> string) list" where
  "read_connections query [] = Inr []"
| "read_connections query (row # rows) =
     (case row of
        CellString name # CellString kind # _ \<Rightarrow>
          if kind \<noteq> ''REL'' then read_connections query rows
          else if quote \<in> set name \<or> CHR 0x22 \<in> set name then read_connections query rows
          else (case query (''CALL show_connection('' @ [quote] @ name @ [quote] @ '') RETURN *'') of
            Inl e \<Rightarrow> Inl e
          | Inr found \<Rightarrow>
              (case read_connections query rows of
                 Inl e \<Rightarrow> Inl e
               | Inr rest \<Rightarrow> Inr (case found of
                     (CellString src # CellString dst # _) # _ \<Rightarrow> (name, src, dst) # rest
                   | _ \<Rightarrow> rest)))
      | _ \<Rightarrow> read_connections query rows)"

definition read_rel_catalog ::
  "(string \<Rightarrow> string + cell_value list list) \<Rightarrow> string + (string \<times> string \<times> string) list" where
  "read_rel_catalog query =
     (case query ''CALL show_tables() RETURN name, type'' of
        Inl e \<Rightarrow> Inl e | Inr rows \<Rightarrow> read_connections query rows)"

fun run_statements ::
  "('g \<Rightarrow> string \<Rightarrow> (string + unit) \<times> 'g) \<Rightarrow> string list \<Rightarrow> purged \<Rightarrow> 'g \<Rightarrow> purged \<times> 'g" where
  "run_statements write [] p g = (p, g)"
| "run_statements write (s # ss) p g =
     (let table = trim_start_matches s ''DROP TABLE '' in
      case write g s of
        (Inr _, g') \<Rightarrow> run_statements write ss (p\<lparr>pu_dropped := pu_dropped p @ [table]\<rparr>) g'
      | (Inl e, g') \<Rightarrow> run_statements write ss (p\<lparr>pu_failed := pu_failed p @ [(table, e)]\<rparr>) g')"

definition purge_namespace ::
  "('g \<Rightarrow> string \<Rightarrow> string + cell_value list list) \<Rightarrow> ('g \<Rightarrow> string \<Rightarrow> (string + unit) \<times> 'g) \<Rightarrow>
   string \<Rightarrow> string list \<Rightarrow> 'g \<Rightarrow> (string + purged) \<times> 'g" where
  "purge_namespace query write ns all_types g =
     (case read_rel_catalog (query g) of
        Inl e \<Rightarrow> (Inl e, g)
      | Inr catalog \<Rightarrow>
          (case run_statements write (statements (plan_purge ns all_types catalog)) \<lparr>pu_dropped = [], pu_failed = []\<rparr> g of
             (p, g') \<Rightarrow> (Inr p, g')))"

section \<open>The gate in front of every entity write\<close>

text \<open>
  What the three entry points promise about the types they let through: never observation data,
  a shared type only to its owner, otherwise only the caller's own or a delegated namespace, and
  always within the token's write scope.
\<close>

locale write_gate =
  fixes admits :: "capability_token \<Rightarrow> string \<Rightarrow> bool"
  assumes scoped: "admits t ty \<Longrightarrow> can_write t ty"
    and not_system: "admits t ty \<Longrightarrow> \<not> in_namespace ''system'' ty"
    and shared_by_owner: "admits t ty \<Longrightarrow> in_namespace ''shared'' ty \<Longrightarrow> shared_owner ty = Some (ct_app_id t)"
    and confined: "admits t ty \<Longrightarrow> \<not> in_namespace ''shared'' ty \<Longrightarrow> in_own_or_delegated t ty"
begin

lemma reach:
  "admits t ty \<Longrightarrow> shared_owner ty = Some (ct_app_id t) \<or> in_namespace (ct_app_id t) ty \<or>
     permits_any (ct_delegated_namespaces t) ty"
  using shared_by_owner confined by (auto simp: in_own_or_delegated_def in_namespace_def)

lemma spares_installed_apps:
  assumes "admits t ty" and "set (ct_delegated_namespaces t) \<subseteq> set (unowned_delegations declared installed)"
    and "app \<in> set installed" and "in_namespace app ty"
  shows "in_namespace (ct_app_id t) ty \<or> shared_owner ty = Some (ct_app_id t)"
proof -
  have "\<not> permits_any (ct_delegated_namespaces t) ty"
    using assms unowned_no_overlap permits_under by (fastforce simp: permits_any_iff)
  then show ?thesis using reach [OF assms(1)] by blast
qed

lemma stays_home:
  assumes "admits t ty" and "set (ct_delegated_namespaces t) \<subseteq> set (unowned_delegations declared installed)"
  shows "can_write t ty \<and> \<not> in_namespace ''system'' ty \<and>
    (\<forall>owner \<in> set installed. in_namespace owner ty \<longrightarrow>
       in_namespace (ct_app_id t) ty \<or> shared_owner ty = Some (ct_app_id t))"
  using scoped [OF assms(1)] not_system [OF assms(1)] spares_installed_apps [OF assms] by blast

end

lemma starts_with_reserved:
  "starts_with ty ''system.'' \<longleftrightarrow> in_namespace ''system'' ty" "starts_with ty ''shared.'' \<longleftrightarrow> in_namespace ''shared'' ty"
  by (simp_all add: in_namespace_def)

lemma endpoint_error_None:
  "endpoint_error r t ty = None \<longleftrightarrow> \<not> in_namespace ''system'' ty \<and> \<not> in_namespace ''shared'' ty \<and>
     can_write t ty \<and> in_own_or_delegated t ty \<and> get_entity r ty \<noteq> None"
  by (auto simp: endpoint_error_def starts_with_reserved)

lemma plan_entity_link_Inr:
  "\<not> isl (plan_entity_link r t edge_type from_type from_key to_type to_key) \<longleftrightarrow>
     trim from_key \<noteq> [] \<and> trim to_key \<noteq> [] \<and> is_safe_identifier edge_type \<and>
     endpoint_error r t from_type = None \<and> endpoint_error r t to_type = None"
  by (auto simp: plan_entity_link_def Let_def split: option.splits)

interpretation upsert_gate: write_gate
  "\<lambda>t ty. \<not> isl (plan_entity_upsert to_json now r t ty external_key data origin)"
  for to_json now r external_key data origin
  by unfold_locales (auto simp: plan_entity_upsert_def starts_with_reserved Let_def split: if_splits)

interpretation link_from_gate: write_gate
  "\<lambda>t ty. \<not> isl (plan_entity_link r t edge_type ty from_key to_type to_key)" for r edge_type from_key to_type to_key
  by unfold_locales (auto simp: plan_entity_link_Inr endpoint_error_None)

interpretation link_to_gate: write_gate
  "\<lambda>t ty. \<not> isl (plan_entity_link r t edge_type from_type from_key ty to_key)" for r edge_type from_type from_key to_key
  by unfold_locales (auto simp: plan_entity_link_Inr endpoint_error_None)

interpretation merge_gate: write_gate "\<lambda>t ty. \<not> isl (authorise_entity_merge t ty)"
  by unfold_locales (auto simp: authorise_entity_merge_def starts_with_reserved split: if_splits)

section \<open>Table definitions\<close>

lemma snake_case_identifier:
  assumes "is_snake_case name"
  shows "is_safe_identifier name \<longleftrightarrow> length name \<le> 64 \<and> \<not> is_ascii_digit (hd name)"
proof -
  obtain c cs where name: "name = c # cs" using assms by (cases name) (auto simp: is_snake_case_def)
  then show ?thesis
    using assms by (auto simp: is_snake_case_def is_safe_identifier_def is_ascii_alphabetic_def
        is_ascii_alphanumeric_def starts_with_def list_all_iff is_ascii_digit_def is_ascii_lowercase_def
        is_ascii_uppercase_def less_eq_char_def)
qed

lemma declared_not_reserved_column:
  assumes "name \<notin> set RESERVED_FIELDS" and "is_snake_case name"
  shows "name \<notin> fst ` set RESERVED_COLUMNS"
proof -
  have "\<forall>n \<in> fst ` set RESERVED_COLUMNS. n \<in> set RESERVED_FIELDS \<or> starts_with n ''_''"
    by code_simp
  then show ?thesis using assms by (auto simp: is_snake_case_def)
qed

lemma column_error_declared:
  assumes "fields_ok def" and "name \<in> fst ` set (ed_fields def)"
  shows "column_error name = (if length name \<le> 64 \<and> \<not> is_ascii_digit (hd name) then None
    else Some (UnsafeFieldName name))"
  using assms snake_case_identifier [of name] declared_not_reserved_column [of name]
  by (auto simp: fields_ok_def column_error_def)

lemma entity_table_ddl_ok:
  assumes "fields_ok def"
  shows "\<not> isl (entity_table_ddl ty def) \<longleftrightarrow>
    (\<forall>name \<in> fst ` set (ed_fields def). length name \<le> 64 \<and> \<not> is_ascii_digit (hd name))"
proof -
  have "\<not> isl (entity_table_ddl ty def) \<longleftrightarrow> (\<forall>name \<in> fst ` set (ed_fields def). column_error name = None)"
    using first_error_None [of column_error "sort (map fst (ed_fields def))"]
    by (cases "first_error column_error (sort (map fst (ed_fields def)))")
       (auto simp: entity_table_ddl_def Let_def)
  then show ?thesis using column_error_declared [OF assms] by (simp split: if_splits)
qed

section \<open>Table names\<close>

lemma fnv_prime_inverse: "(0x100000001b3 :: u64) * 0xce965057aff6957b = 1"
  by simp

lemma fnv_prime_cancel: "x * (0x100000001b3 :: u64) = y * 0x100000001b3 \<Longrightarrow> x = y"
proof -
  assume "x * (0x100000001b3 :: u64) = y * 0x100000001b3"
  then have "x * ((0x100000001b3 :: u64) * 0xce965057aff6957b) = y * (0x100000001b3 * 0xce965057aff6957b)"
    by (simp only: mult.assoc [symmetric])
  then show "x = y" by (simp only: fnv_prime_inverse mult_1_right)
qed

lemma xor_cancel: "xor (x :: u64) z = xor y z \<Longrightarrow> x = y" "xor z (x :: u64) = xor z y \<Longrightarrow> x = y"
proof -
  assume "xor x z = xor y z"
  then have "xor (xor x z) z = xor (xor y z) z" by (rule arg_cong)
  then show "x = y" by (simp add: xor.assoc)
next
  assume "xor z x = xor z y"
  then have "xor z (xor z x) = xor z (xor z y)" by (rule arg_cong)
  then show "x = y" by (simp flip: xor.assoc)
qed

lemma of_char_u64_inj: "(of_char a :: u64) = of_char b \<Longrightarrow> a = b"
proof -
  assume "(of_char a :: u64) = of_char b"
  then have "unat (word_of_nat (of_char a) :: u64) = unat (word_of_nat (of_char b) :: u64)"
    by (simp only: of_nat_of_char)
  then have "(of_char a :: nat) = of_char b"
    using nat_of_char_less_256 [of a] nat_of_char_less_256 [of b] by (simp add: unat_of_nat)
  then show "a = b" by simp
qed

lemma foldl_fnv_inj: "foldl fnv1a64_step h v = foldl fnv1a64_step h' v \<Longrightarrow> h = h'"
proof (induction v arbitrary: h h')
  case (Cons c v)
  then have "fnv1a64_step h c = fnv1a64_step h' c" by simp
  then show ?case unfolding fnv1a64_step_def by (rule xor_cancel(1) [OF fnv_prime_cancel])
qed simp

lemma fnv1a64_one_byte:
  assumes "fnv1a64 (u @ a # v) = fnv1a64 (u @ b # v)"
  shows "a = b"
proof -
  have "fnv1a64_step (foldl fnv1a64_step 0xcbf29ce484222325 u) a = fnv1a64_step (foldl fnv1a64_step 0xcbf29ce484222325 u) b"
    by (rule foldl_fnv_inj [of _ v]) (use assms in \<open>simp add: fnv1a64_def\<close>)
  then show "a = b" unfolding fnv1a64_step_def by (rule of_char_u64_inj [OF xor_cancel(2) [OF fnv_prime_cancel]])
qed

lemma entity_table_name_eq:
  assumes "entity_table_name ty = entity_table_name ty'" and "length ty = length ty'"
  shows "fnv1a64 ty = fnv1a64 ty'"
proof -
  have "sanitised ty @ ''_'' @ hex (be_bytes (fnv1a64 ty)) = sanitised ty' @ ''_'' @ hex (be_bytes (fnv1a64 ty'))"
    using assms(1) by (simp add: entity_table_name_def)
  then have "hex (be_bytes (fnv1a64 ty)) = hex (be_bytes (fnv1a64 ty'))"
    using assms(2) by (simp add: sanitised_def)
  then show ?thesis using hex_inj [of "be_bytes (fnv1a64 ty)" "be_bytes (fnv1a64 ty')"] by simp
qed

section \<open>Reading the statements back\<close>

fun literal_reading :: "(json \<Rightarrow> string) \<Rightarrow> json \<Rightarrow> string \<times> string list" where
  "literal_reading to_json (JString s) = ([quote, quote], [s])"
| "literal_reading to_json (JArray a) = ([quote, quote], [to_json (JArray a)])"
| "literal_reading to_json (JObject m) = ([quote, quote], [to_json (JObject m)])"
| "literal_reading to_json v = (field_literal to_json v, [])"

definition number_plain :: "json \<Rightarrow> bool" where
  "number_plain v = (case v of JNumber n \<Rightarrow> plain (number_text n) | _ \<Rightarrow> True)"

lemma renders_field_literal:
  "number_plain v \<Longrightarrow> renders (field_literal to_json v) (fst (literal_reading to_json v)) (snd (literal_reading to_json v))"
  by (cases v) (auto simp: number_plain_def intro: renders_intro)



lemma plain_safe: "is_safe_identifier name \<Longrightarrow> plain name"
  by (auto simp: is_safe_identifier_def plain_def list_all_iff is_ascii_alphanumeric_def is_ascii_alphabetic_def
      is_ascii_lowercase_def is_ascii_uppercase_def is_ascii_digit_def less_eq_char_def)

lemma plain_sanitised: "plain (sanitised s)"
  by (auto simp: sanitised_def plain_def is_ascii_alphanumeric_def is_ascii_alphabetic_def
      is_ascii_lowercase_def is_ascii_uppercase_def is_ascii_digit_def less_eq_char_def split: if_splits)

lemma digit_char_plain: "digit_char d \<noteq> quote"
  using nat_below_16 [of "d mod 16"] by (auto simp: digit_char_def)

lemma plain_hex: "plain (hex bs)"
  by (induction bs) (simp_all add: hex_Cons digit_char_plain, simp add: hex_def)

lemma plain_table_names [simp]: "plain (entity_table_name ty)" "plain (entity_rel_table_name e f t)"
  by (simp_all add: entity_table_name_def entity_rel_table_name_def plain_sanitised plain_hex)

text \<open>What is left of an upsert when the values are taken out, and these values.\<close>

definition upsert_skeleton :: "string \<Rightarrow> (string \<times> string) list \<Rightarrow> bool \<Rightarrow> string" where
  "upsert_skeleton ty data has_origin =
     (let field_sets = concat (map (\<lambda>(name, v). '', n.'' @ name @ ''='' @ v) data);
          origin_sets = (if has_origin then '', n._run_id='' @ [quote, quote] @ '', n._origin_ref='' @ [quote, quote] else [])
      in ''MERGE (n:'' @ entity_table_name ty @ '' {id: '' @ [quote, quote] @
         ''}) ON CREATE SET n._type='' @ [quote, quote] @ '', n._external_key='' @ [quote, quote] @
         '', n._owner='' @ [quote, quote] @ '', n._created_at='' @ [quote, quote] @ '', n._modified_at='' @ [quote, quote] @
         '', n._version=1, n._deleted=false'' @ field_sets @ origin_sets @
         '' ON MATCH SET n._modified_at='' @ [quote, quote] @ '', n._version=n._version+1'' @ field_sets @ origin_sets @
         '' RETURN n._version AS version'')"

definition upsert_literals ::
  "string \<Rightarrow> string \<Rightarrow> string \<Rightarrow> string \<Rightarrow> string list \<Rightarrow> write_origin option \<Rightarrow> string list" where
  "upsert_literals ty external_key owner now field_values origin =
     (let origin_values = (case origin of Some w \<Rightarrow> [wo_run_id w] @ [wo_origin_ref w] | None \<Rightarrow> [])
      in [entity_node_id ty external_key] @ [ty] @ [external_key] @ [owner] @ [now] @ [now] @
         field_values @ origin_values @ [now] @ field_values @ origin_values)"

lemma renders_quoted_append:
  "renders g sk ls \<Longrightarrow> renders (quoted s @ g) ([quote, quote] @ sk) ([s] @ ls)"
  by (intro renders_append renders_quoted)

lemma renders_last: "renders f sk ls \<Longrightarrow> plain s \<Longrightarrow> renders (f @ s) (sk @ s) ls"
  using renders_append [OF _ renders_plain] by fastforce

lemma renders_origin:
  "renders (case origin of Some w \<Rightarrow> set_fragment w | None \<Rightarrow> [])
     (if origin \<noteq> None then '', n._run_id='' @ [quote, quote] @ '', n._origin_ref='' @ [quote, quote] else [])
     (case origin of Some w \<Rightarrow> [wo_run_id w] @ [wo_origin_ref w] | None \<Rightarrow> [])"
proof (cases origin)
  case (Some w)
  have "renders (set_fragment w) ('', n._run_id='' @ [quote, quote] @ '', n._origin_ref='' @ [quote, quote])
      ([wo_run_id w] @ [wo_origin_ref w])"
    unfolding set_fragment_def by (intro renders_trusted renders_quoted_append renders_quoted) simp_all
  then show ?thesis using Some by simp
qed (simp add: renders_Nil)

lemma renders_field_sets:
  assumes "\<forall>(name, v) \<in> set data. plain name \<and> number_plain v"
  shows "renders (concat (map (\<lambda>(name, v). '', n.'' @ name @ ''='' @ field_literal to_json v) data))
    (concat (map (\<lambda>(name, v). '', n.'' @ name @ ''='' @ v) (map (\<lambda>(name, v). (name, fst (literal_reading to_json v))) data)))
    (concat (map (\<lambda>(name, v). snd (literal_reading to_json v)) data))"
  using assms
proof (induction data)
  case (Cons d data)
  obtain name v where d: "d = (name, v)" by (cases d)
  have "renders ('', n.'' @ name @ ''='' @ field_literal to_json v)
      ('', n.'' @ name @ ''='' @ fst (literal_reading to_json v)) (snd (literal_reading to_json v))"
    using Cons.prems d by (intro renders_trusted renders_field_literal) auto
  from renders_append [OF this Cons.IH] show ?case using Cons.prems d by simp
qed (simp add: renders_Nil)

lemma build_upsert_cypher_reads:
  assumes "\<forall>(name, v) \<in> set data. plain name \<and> number_plain v"
  shows "lex_out (build_upsert_cypher to_json ty external_key owner data now origin) =
    Some (upsert_skeleton ty (map (\<lambda>(name, v). (name, fst (literal_reading to_json v))) data) (origin \<noteq> None),
      upsert_literals ty external_key owner now (concat (map (\<lambda>(name, v). snd (literal_reading to_json v)) data)) origin)"
  unfolding build_upsert_cypher_def upsert_skeleton_def upsert_literals_def Let_def
  by (rule rendersD, intro renders_trusted renders_quoted_append renders_append [OF renders_field_sets [OF assms]]
      renders_append [OF renders_origin] renders_last [OF renders_origin]) simp_all

lemma plan_entity_upsert_InrD:
  assumes "plan_entity_upsert to_json now r t ty external_key data origin = Inr (ddl, cypher)"
  obtains edef where "get_entity r ty = Some edef" "validate_create r ty data = Inr ()" "entity_table_ddl ty edef = Inr ddl"
    "cypher = build_upsert_cypher to_json ty external_key (ct_app_id t) (sort_key fst data) now origin"
  using assms by (auto simp: plan_entity_upsert_def Let_def split: if_splits option.splits sum.splits)

lemma plan_entity_upsert_Inr:
  "(\<exists>plan. plan_entity_upsert to_json now r t ty external_key data origin = Inr plan) \<longleftrightarrow>
    trim external_key \<noteq> [] \<and> \<not> in_namespace ''system'' ty \<and>
    (if in_namespace ''shared'' ty then shared_owner ty = Some (ct_app_id t) else in_own_or_delegated t ty) \<and>
    can_write t ty \<and> validate_create r ty data = Inr () \<and>
    (\<exists>def. get_entity r ty = Some def \<and> \<not> isl (entity_table_ddl ty def))"
proof (cases "get_entity r ty")
  case (Some def)
  then show ?thesis
    by (cases "validate_create r ty data"; cases "entity_table_ddl ty def")
       (simp_all add: plan_entity_upsert_def starts_with_reserved Let_def)
qed (simp add: plan_entity_upsert_def Let_def)

lemma ddl_safe_names: "entity_table_ddl ty def = Inr ddl \<Longrightarrow> name \<in> fst ` set (ed_fields def) \<Longrightarrow> is_safe_identifier name"
  using first_error_None [of column_error "sort (map fst (ed_fields def))"]
  by (auto simp: entity_table_ddl_def Let_def column_error_def split: option.splits if_splits)

lemma upsert_names_plain:
  assumes "plan_entity_upsert to_json now r t ty external_key data origin = Inr (ddl, cypher)" and "(name, v) \<in> set data"
  shows "plain name"
proof -
  obtain edef where edef: "get_entity r ty = Some edef" "validate_create r ty data = Inr ()" "entity_table_ddl ty edef = Inr ddl"
    using assms(1) by (rule plan_entity_upsert_InrD)
  then have "\<exists>def. map_of (ed_fields edef) name = Some def"
    using assms(2) unfolding validate_create_Inr by fastforce
  then have "name \<in> fst ` set (ed_fields edef)" by (force dest: map_of_SomeD)
  then show ?thesis using ddl_safe_names [OF edef(3)] plain_safe by blast
qed

section \<open>Purging\<close>

lemma is_under_iff: "is_under ty ns \<longleftrightarrow> (\<exists>tail. tail \<noteq> [] \<and> ty = ns @ ''.'' @ tail)"
proof -
  have "is_under ty ns \<longleftrightarrow> (\<exists>rest tail. strip_prefix ty ns = Some rest \<and> strip_prefix rest ''.'' = Some tail \<and> tail \<noteq> [])"
    by (simp add: is_under_def split: option.splits)
  then show ?thesis by (auto simp: strip_prefix_Some)
qed

lemma plan_purge_nodes: "set (pp_node_tables (plan_purge ns all_types catalog)) = entity_table_name ` {ty \<in> set all_types. is_under ty ns}"
  by (simp add: plan_purge_def Let_def)

lemma plan_purge_rels: "set (pp_rel_tables (plan_purge ns all_types catalog)) =
    {rel. \<exists>src dst. (rel, src, dst) \<in> set catalog \<and>
      (src \<in> set (pp_node_tables (plan_purge ns all_types catalog)) \<or> dst \<in> set (pp_node_tables (plan_purge ns all_types catalog)))}"
  by (force simp: plan_purge_def Let_def)

text \<open>
  What the engine documents of \<open>DROP TABLE\<close>, for a reading of its state as node tables and
  connections: a rel table can always be dropped, a node table only while no rel table refers to
  it, and any other name is an error that changes nothing.
\<close>

definition engine_law ::
  "('g \<Rightarrow> string set) \<Rightarrow> ('g \<Rightarrow> (string \<times> string \<times> string) set) \<Rightarrow> ('g \<Rightarrow> string \<Rightarrow> (string + unit) \<times> 'g) \<Rightarrow> bool" where
  "engine_law nodes rels write \<longleftrightarrow>
     (\<forall>g t. let (res, g') = write g (drop_statement t) in
        if t \<in> fst ` rels g then res = Inr () \<and> nodes g' = nodes g \<and> rels g' = {x \<in> rels g. fst x \<noteq> t}
        else if t \<in> nodes g \<and> (\<forall>(r, src, dst) \<in> rels g. src \<noteq> t \<and> dst \<noteq> t)
          then res = Inr () \<and> nodes g' = nodes g - {t} \<and> rels g' = rels g
        else isl res \<and> nodes g' = nodes g \<and> rels g' = rels g)"

lemma engine_drop:
  assumes "engine_law nodes rels write" and "write g (drop_statement t) = (res, g')"
  shows "t \<in> fst ` rels g \<Longrightarrow> res = Inr () \<and> nodes g' = nodes g \<and> rels g' = {x \<in> rels g. fst x \<noteq> t}"
    and "t \<notin> fst ` rels g \<Longrightarrow> \<forall>(r, src, dst) \<in> rels g. src \<noteq> t \<and> dst \<noteq> t \<Longrightarrow>
      isl res = (t \<notin> nodes g) \<and> nodes g' = nodes g - {t} \<and> rels g' = rels g"
proof -
  have law: "let (res, g') = (res, g') in
      if t \<in> fst ` rels g then res = Inr () \<and> nodes g' = nodes g \<and> rels g' = {x \<in> rels g. fst x \<noteq> t}
      else if t \<in> nodes g \<and> (\<forall>(r, src, dst) \<in> rels g. src \<noteq> t \<and> dst \<noteq> t)
        then res = Inr () \<and> nodes g' = nodes g - {t} \<and> rels g' = rels g
      else isl res \<and> nodes g' = nodes g \<and> rels g' = rels g"
    using spec [OF spec [OF assms(1) [unfolded engine_law_def], of g], of t] by (simp only: assms(2))
  show "res = Inr () \<and> nodes g' = nodes g \<and> rels g' = {x \<in> rels g. fst x \<noteq> t}" if "t \<in> fst ` rels g"
    using law that by simp
  show "isl res = (t \<notin> nodes g) \<and> nodes g' = nodes g - {t} \<and> rels g' = rels g"
    if "t \<notin> fst ` rels g" and "\<forall>(r, src, dst) \<in> rels g. src \<noteq> t \<and> dst \<noteq> t"
    using law that by (cases "t \<in> nodes g") simp_all
qed

lemma run_statements_append:
  "run_statements write (xs @ ys) p g = (let (p', g') = run_statements write xs p g in run_statements write ys p' g')"
  by (induction xs arbitrary: p g) (auto simp: Let_def split: sum.splits prod.splits)

lemma run_drops_rels:
  assumes law: "engine_law nodes rels write" and "distinct ts" and "set ts \<subseteq> fst ` rels g"
    and "run_statements write (map drop_statement ts) p g = (p', g')"
  shows "nodes g' = nodes g \<and> rels g' = {x \<in> rels g. fst x \<notin> set ts} \<and> pu_failed p' = pu_failed p"
  using assms(2-4)
proof (induction ts arbitrary: p g)
  case (Cons t ts)
  obtain res g1 where w: "write g (drop_statement t) = (res, g1)" by force
  have g1: "res = Inr () \<and> nodes g1 = nodes g \<and> rels g1 = {x \<in> rels g. fst x \<noteq> t}"
    using engine_drop(1) [OF law w] Cons.prems(2) by simp
  have "set ts \<subseteq> fst ` rels g1" using Cons.prems(1,2) g1 by force
  moreover have "run_statements write (map drop_statement ts)
      (p\<lparr>pu_dropped := pu_dropped p @ [trim_start_matches (drop_statement t) ''DROP TABLE '']\<rparr>) g1 = (p', g')"
    using Cons.prems(3) w g1 by (simp add: Let_def)
  ultimately have "nodes g' = nodes g1 \<and> rels g' = {x \<in> rels g1. fst x \<notin> set ts} \<and> pu_failed p' = pu_failed p"
    using Cons.IH Cons.prems(1) by fastforce
  then show ?case using g1 by auto
qed simp

lemma drop_statement_table: "trim_start_matches (drop_statement (entity_table_name ty)) ''DROP TABLE '' = entity_table_name ty"
  by (simp add: drop_statement_def trim_start_matches.simps starts_with_def entity_table_name_def)

lemma run_drops_nodes:
  assumes law: "engine_law nodes rels write" and "distinct ts" and "set ts \<subseteq> range entity_table_name"
    and "set ts \<inter> fst ` rels g = {}" and "\<forall>(r, src, dst) \<in> rels g. src \<notin> set ts \<and> dst \<notin> set ts"
    and "run_statements write (map drop_statement ts) p g = (p', g')"
  shows "nodes g' = nodes g - set ts \<and> rels g' = rels g \<and>
    fst ` set (pu_failed p') = fst ` set (pu_failed p) \<union> (set ts - nodes g)"
  using assms(2-6)
proof (induction ts arbitrary: p g)
  case (Cons t ts)
  obtain res g1 where w: "write g (drop_statement t) = (res, g1)" by force
  have trimmed: "trim_start_matches (drop_statement t) ''DROP TABLE '' = t"
    using Cons.prems(2) drop_statement_table by auto
  have "t \<notin> fst ` rels g" "\<forall>(r, src, dst) \<in> rels g. src \<noteq> t \<and> dst \<noteq> t"
    using Cons.prems(3,4) by auto
  then have g1: "isl res = (t \<notin> nodes g) \<and> nodes g1 = nodes g - {t} \<and> rels g1 = rels g"
    using engine_drop(2) [OF law w] by blast
  define p1 where "p1 = (case res of Inl e \<Rightarrow> p\<lparr>pu_failed := pu_failed p @ [(t, e)]\<rparr>
    | Inr _ \<Rightarrow> p\<lparr>pu_dropped := pu_dropped p @ [t]\<rparr>)"
  have p1: "run_statements write (map drop_statement ts) p1 g1 = (p', g')"
    using Cons.prems(5) w trimmed by (auto simp: p1_def Let_def split: sum.splits)
  have failed: "fst ` set (pu_failed p1) = fst ` set (pu_failed p) \<union> ({t} - nodes g)"
    using g1 by (cases res) (auto simp: p1_def)
  have "nodes g' = nodes g1 - set ts \<and> rels g' = rels g1 \<and>
      fst ` set (pu_failed p') = fst ` set (pu_failed p1) \<union> (set ts - nodes g1)"
    by (rule Cons.IH [OF _ _ _ _ p1]) (use Cons.prems g1 in auto)
  then show ?case using g1 failed Cons.prems(1) by auto
qed simp

section \<open>Properties\<close>

text \<open>The exact gate of an entity write: on every registry the daemon can have, an upsert is
  planned exactly when the external key is not blank, the type is no observation data, a shared
  type belongs to the caller and any other lies in its own or a delegated namespace, the write
  scope covers the type, the fields validate, and every declared field name fits a column. No
  declared name collides with a reserved column; a name that starts with a digit passes the
  schema validation but makes its type unwritable.\<close>

theorem upsert_planned_iff:
  assumes "registry_reachable first_party r"
  shows "(\<exists>plan. plan_entity_upsert to_json now r t ty external_key data origin = Inr plan) \<longleftrightarrow>
    trim external_key \<noteq> [] \<and> \<not> in_namespace ''system'' ty \<and>
    (if in_namespace ''shared'' ty then shared_owner ty = Some (ct_app_id t)
     else in_namespace (ct_app_id t) ty \<or> permits_any (ct_delegated_namespaces t) ty) \<and>
    can_write t ty \<and> validate_create r ty data = Inr () \<and>
    (\<exists>def. get_entity r ty = Some def \<and>
       (\<forall>name \<in> fst ` set (ed_fields def). length name \<le> 64 \<and> \<not> is_ascii_digit (hd name)))"
proof -
  have ddl: "\<not> isl (entity_table_ddl ty def) \<longleftrightarrow>
      (\<forall>name \<in> fst ` set (ed_fields def). length name \<le> 64 \<and> \<not> is_ascii_digit (hd name))"
    if "get_entity r ty = Some def" for def
    by (rule entity_table_ddl_ok [OF get_entity_ok [OF registry_reachable_ok [OF assms] that]])
  have own: "in_own_or_delegated t ty \<longleftrightarrow> in_namespace (ct_app_id t) ty \<or> permits_any (ct_delegated_namespaces t) ty"
    by (simp add: in_own_or_delegated_def in_namespace_def)
  show ?thesis unfolding plan_entity_upsert_Inr own by (simp only: ddl cong: conj_cong)
qed

text \<open>C26. A planned upsert cannot be broken out of: whatever the external key, the field values,
  the owner and the origin hold, the statement reads as the fixed skeleton over the type's table and
  the declared names, with exactly these values as its string literals. (A number is printed by
  the JSON library; its text is taken to hold no quote.)\<close>

theorem upsert_plan_reads_back:
  assumes "plan_entity_upsert to_json now r t ty external_key data origin = Inr (ddl, cypher)"
    and "\<forall>(name, v) \<in> set data. number_plain v"
  shows "lex_out cypher = Some
    (upsert_skeleton ty (map (\<lambda>(name, v). (name, fst (literal_reading to_json v))) (sort_key fst data)) (origin \<noteq> None),
     upsert_literals ty external_key (ct_app_id t) now
       (concat (map (\<lambda>(name, v). snd (literal_reading to_json v)) (sort_key fst data))) origin)"
proof -
  have "cypher = build_upsert_cypher to_json ty external_key (ct_app_id t) (sort_key fst data) now origin"
    using assms(1) by (rule plan_entity_upsert_InrD)
  moreover have "\<forall>(name, v) \<in> set (sort_key fst data). plain name \<and> number_plain v"
    using assms(2) upsert_names_plain [OF assms(1)] by auto
  ultimately show ?thesis using build_upsert_cypher_reads by simp
qed

text \<open>A purge removes the namespace and nothing else: with an engine that drops tables as
  documented, the tables of the types under the namespace and every rel table touching one of
  them are gone, all other node and rel tables are as before, and only a table that did not
  exist is reported as failed. In particular no drop is refused for the order it comes in.\<close>

theorem purge_removes_the_namespace:
  fixes all_types :: "string list" and ns :: string
  defines "T \<equiv> entity_table_name ` {ty \<in> set all_types. is_under ty ns}"
  assumes law: "engine_law nodes rels write"
    and catalog: "read_rel_catalog (query g) = Inr catalog" "set catalog = rels g"
    and kinds: "fst ` rels g \<inter> range entity_table_name = {}"
    and unique: "inj_on fst (rels g)"
  shows "\<exists>p g'. purge_namespace query write ns all_types g = (Inr p, g') \<and>
    nodes g' = nodes g - T \<and> rels g' = {(r, src, dst) \<in> rels g. src \<notin> T \<and> dst \<notin> T} \<and>
    fst ` set (pu_failed p) = T - nodes g"
proof -
  let ?plan = "plan_purge ns all_types catalog"
  let ?rels = "pp_rel_tables ?plan" and ?nodes = "pp_node_tables ?plan"
  have T: "set ?nodes = T" by (simp add: plan_purge_nodes T_def)
  have R: "set ?rels = {rel. \<exists>src dst. (rel, src, dst) \<in> rels g \<and> (src \<in> T \<or> dst \<in> T)}"
    by (simp add: plan_purge_rels T catalog(2))
  have distinct: "distinct ?rels" "distinct ?nodes"
    by (simp_all add: plan_purge_def Let_def distinct_remdups_adj_sorted)
  obtain p1 g1 where run1: "run_statements write (map drop_statement ?rels) \<lparr>pu_dropped = [], pu_failed = []\<rparr> g = (p1, g1)"
    by force
  have g1: "nodes g1 = nodes g \<and> rels g1 = {x \<in> rels g. fst x \<notin> set ?rels} \<and> pu_failed p1 = []"
    by (rule run_drops_rels [OF law distinct(1) _ run1, simplified]) (auto simp: R intro!: image_eqI)
  have touched: "r \<in> set ?rels \<longleftrightarrow> src \<in> T \<or> dst \<in> T" if "(r, src, dst) \<in> rels g" for r src dst
    unfolding R using that by (auto dest!: inj_onD [OF unique _ that, rotated]; blast)
  have left: "rels g1 = {(r, src, dst) \<in> rels g. src \<notin> T \<and> dst \<notin> T}"
    unfolding g1 [THEN conjunct2, THEN conjunct1] using touched by auto
  obtain p2 g2 where run2: "run_statements write (map drop_statement ?nodes) p1 g1 = (p2, g2)" by force
  have "fst ` rels g1 \<subseteq> fst ` rels g" using g1 by auto
  then have disjoint: "set ?nodes \<inter> fst ` rels g1 = {}" using kinds T by (auto simp: T_def)
  have "nodes g2 = nodes g1 - set ?nodes \<and> rels g2 = rels g1 \<and>
      fst ` set (pu_failed p2) = fst ` set (pu_failed p1) \<union> (set ?nodes - nodes g1)"
    by (rule run_drops_nodes [OF law distinct(2) _ disjoint _ run2]) (use T left in \<open>auto simp: T_def\<close>)
  moreover have "purge_namespace query write ns all_types g = (Inr p2, g2)"
    using run1 run2 by (simp add: purge_namespace_def catalog(1) statements_def run_statements_append)
  ultimately show ?thesis using g1 left T by auto
qed

text \<open>Two types of which one byte differs, such as two spellings that sanitise to the same
  identifier, never share a table: the hash in the table name separates them.\<close>

lemma table_name_separates_one_byte:
  assumes "a \<noteq> b"
  shows "entity_table_name (u @ a # v) \<noteq> entity_table_name (u @ b # v)"
  using assms entity_table_name_eq [of "u @ a # v" "u @ b # v"] fnv1a64_one_byte by auto

section \<open>Witnesses\<close>

abbreviation demo_upsert :: "string \<Rightarrow> plan_error + string \<times> string" where
  "demo_upsert key \<equiv> plan_entity_upsert (\<lambda>_. []) ''now'' demo_registry (demo_writer Own) ''com.anki.Card'' key
     [(''front'', JString ''x'')] None"

lemma demo_registry_reachable: "registry_reachable [] demo_registry"
  unfolding demo_registry_def by (intro registry_reachable.load registry_reachable.fresh)

lemma demo_conditions:
  "\<not> in_namespace ''system'' ''com.anki.Card''" "\<not> in_namespace ''shared'' ''com.anki.Card''"
  "in_namespace (ct_app_id (demo_writer Own)) ''com.anki.Card''" "can_write (demo_writer Own) ''com.anki.Card''"
  "validate_create demo_registry ''com.anki.Card'' [(''front'', JString ''x'')] = Inr ()"
  "case get_entity demo_registry ''com.anki.Card'' of Some def \<Rightarrow> fields_ok def \<and>
     (\<forall>name \<in> fst ` set (ed_fields def). length name \<le> 64 \<and> \<not> is_ascii_digit (hd name)) | None \<Rightarrow> False"
  by code_simp+

theorem upsert_planned_iff_witness: "\<exists>plan. demo_upsert ''k'' = Inr plan"
proof -
  have "trim ''k'' \<noteq> []" by code_simp
  then show ?thesis
    unfolding upsert_planned_iff [OF demo_registry_reachable]
    using demo_conditions by (simp split: option.splits)
qed

theorem upsert_plan_reads_back_witness:
  "\<exists>ddl cypher. demo_upsert ([quote] @ ''}) DETACH DELETE n //'') = Inr (ddl, cypher) \<and>
     (\<exists>sk ls. lex_out cypher = Some (sk, ls) \<and> [quote] @ ''}) DETACH DELETE n //'' \<in> set ls)"
proof -
  let ?key = "[quote] @ ''}) DETACH DELETE n //''"
  have "trim ?key \<noteq> []" by code_simp
  then have "\<exists>plan. demo_upsert ?key = Inr plan"
    unfolding plan_entity_upsert_Inr using demo_conditions
    by (simp add: in_own_or_delegated_def in_namespace_def entity_table_ddl_ok split: option.splits)
  then obtain ddl cypher where plan: "demo_upsert ?key = Inr (ddl, cypher)" by force
  have "?key \<in> set (upsert_literals ''com.anki.Card'' ?key app now vs None)" for app now vs
    by (simp add: upsert_literals_def)
  then show ?thesis
    using plan upsert_plan_reads_back [OF plan] by (auto simp: number_plain_def)
qed

lemma table_name_separates_one_byte_witness:
  "entity_table_name ''md.obsidian.x.Note'' \<noteq> entity_table_name ''md.obsidian-x.Note'' \<and>
   sanitised ''md.obsidian.x.Note'' = sanitised ''md.obsidian-x.Note''"
proof
  show "entity_table_name ''md.obsidian.x.Note'' \<noteq> entity_table_name ''md.obsidian-x.Note''"
    using table_name_separates_one_byte [of "CHR ''.''" "CHR ''-''" "''md.obsidian''" "''x.Note''"] by simp
  show "sanitised ''md.obsidian.x.Note'' = sanitised ''md.obsidian-x.Note''" by code_simp
qed

text \<open>An engine on lists of node and rel tables.\<close>

type_synonym demo_graph = "string list \<times> (string \<times> string \<times> string) list"

definition demo_write :: "demo_graph \<Rightarrow> string \<Rightarrow> (string + unit) \<times> demo_graph" where
  "demo_write g s =
     (let t = drop 11 s in
      if t \<in> fst ` set (snd g) then (Inr (), (fst g, filter (\<lambda>x. fst x \<noteq> t) (snd g)))
      else if t \<in> set (fst g) \<and> (\<forall>(r, src, dst) \<in> set (snd g). src \<noteq> t \<and> dst \<noteq> t)
        then (Inr (), (filter (\<lambda>x. x \<noteq> t) (fst g), snd g))
      else (Inl ''refused'', g))"

definition demo_query :: "demo_graph \<Rightarrow> string \<Rightarrow> string + cell_value list list" where
  "demo_query g s = Inr (if s = ''CALL show_tables() RETURN name, type''
     then map (\<lambda>(r, _, _). [CellString r, CellString ''REL'']) (snd g)
     else map (\<lambda>(_, src, dst). [CellString src, CellString dst]) (snd g))"

definition demo_graph :: demo_graph where
  "demo_graph = ([entity_table_name ''md.obsidian.Note'', ''File''],
     [(''r_links'', entity_table_name ''md.obsidian.Note'', ''File'')])"

lemma demo_law: "engine_law (set \<circ> fst) (set \<circ> snd) demo_write"
  unfolding engine_law_def
proof (intro allI)
  fix g :: demo_graph and t
  have "drop 11 (drop_statement t) = t" by (simp add: drop_statement_def)
  then show "let (res, g') = demo_write g (drop_statement t) in
        if t \<in> fst ` (set \<circ> snd) g then res = Inr () \<and> (set \<circ> fst) g' = (set \<circ> fst) g \<and> (set \<circ> snd) g' = {x \<in> (set \<circ> snd) g. fst x \<noteq> t}
        else if t \<in> (set \<circ> fst) g \<and> (\<forall>(r, src, dst) \<in> (set \<circ> snd) g. src \<noteq> t \<and> dst \<noteq> t)
          then res = Inr () \<and> (set \<circ> fst) g' = (set \<circ> fst) g - {t} \<and> (set \<circ> snd) g' = (set \<circ> snd) g
        else isl res \<and> (set \<circ> fst) g' = (set \<circ> fst) g \<and> (set \<circ> snd) g' = (set \<circ> snd) g"
    by (simp add: demo_write_def Let_def set_diff_eq)
qed

lemma demo_catalog: "read_rel_catalog (demo_query demo_graph) = Inr (snd demo_graph)"
    by (simp add: read_rel_catalog_def demo_query_def demo_graph_def)

lemma demo_kinds: "fst ` (set \<circ> snd) demo_graph \<inter> range entity_table_name = {}"
proof -
  have "''r_links'' \<noteq> entity_table_name ty" for ty by (simp add: entity_table_name_def)
  then show ?thesis by (simp add: image_iff demo_graph_def del: list.inject)
qed

lemma demo_under: "{ty \<in> set [''md.obsidian.Note'']. is_under ty ''md.obsidian''} = {''md.obsidian.Note''}"
proof -
  have "is_under ''md.obsidian.Note'' ''md.obsidian''" by code_simp
  then show ?thesis by auto
qed

theorem purge_removes_the_namespace_witness:
  "\<exists>p g'. purge_namespace demo_query demo_write ''md.obsidian'' [''md.obsidian.Note''] demo_graph = (Inr p, g') \<and>
     set (fst g') = {''File''} - {entity_table_name ''md.obsidian.Note''} \<and> snd g' = []"
proof -
  let ?T = "entity_table_name ` {''md.obsidian.Note''}"
  have unique: "inj_on fst ((set \<circ> snd) demo_graph)" and all: "set (snd demo_graph) = (set \<circ> snd) demo_graph"
    by (simp_all add: demo_graph_def)
  obtain p g' where purge: "purge_namespace demo_query demo_write ''md.obsidian'' [''md.obsidian.Note''] demo_graph = (Inr p, g') \<and>
      (set \<circ> fst) g' = (set \<circ> fst) demo_graph - ?T \<and>
      (set \<circ> snd) g' = {(r, src, dst) \<in> (set \<circ> snd) demo_graph. src \<notin> ?T \<and> dst \<notin> ?T} \<and>
      fst ` set (pu_failed p) = ?T - (set \<circ> fst) demo_graph"
    using purge_removes_the_namespace [where query = demo_query and g = demo_graph and all_types = "[''md.obsidian.Note'']"
        and ns = "''md.obsidian''", OF demo_law demo_catalog all demo_kinds unique, unfolded demo_under]
    by (elim exE)
  have "set (snd g') = {}" "set (fst g') = {''File''} - ?T"
    using purge by (auto simp: demo_graph_def)
  then show ?thesis using purge by (intro exI [of _ p] exI [of _ g']) simp
qed

end
