(* ===== verification/AI_Capability.thy ===== *)
theory AI_Capability
  imports Prelude
begin

text \<open>
  The action model of the AI core (\<open>ai/ai-core/src/capability.rs\<close>): modes, baselines,
  per-application autonomy, the kinds of action and the decision what gate an action must pass.
  The modes are ordered by the authority they give, which makes the narrowing of a grant by a
  behaviour's ceiling a minimum.
\<close>

section \<open>Modes\<close>

datatype action_mode = Suggest | Supervised | Autonomous

datatype baseline_mode = BaseSuggest | BaseSupervised

fun as_action_mode :: "baseline_mode \<Rightarrow> action_mode" where
  "as_action_mode BaseSuggest = Suggest"
| "as_action_mode BaseSupervised = Supervised"

definition baseline_parse :: "string \<Rightarrow> baseline_mode" where
  "baseline_parse s = (if map to_ascii_lowercase (trim s) = ''supervised'' then BaseSupervised else BaseSuggest)"

fun baseline_as_str :: "baseline_mode \<Rightarrow> string" where
  "baseline_as_str BaseSuggest = ''suggest''"
| "baseline_as_str BaseSupervised = ''supervised''"

text \<open>A \<open>BTreeSet\<close> of application identifiers is their sorted list without repetitions.\<close>

record action_permissions =
  ap_default_mode :: baseline_mode
  ap_autonomous_apps :: "string list"

definition permissions_new :: "baseline_mode \<Rightarrow> string list \<Rightarrow> action_permissions" where
  "permissions_new mode apps = \<lparr>ap_default_mode = mode, ap_autonomous_apps = sorted_list_of_set (set apps)\<rparr>"

definition suggest_only :: action_permissions where
  "suggest_only = permissions_new BaseSuggest []"

definition mode_for :: "action_permissions \<Rightarrow> string \<Rightarrow> action_mode" where
  "mode_for p app = (if app \<in> set (ap_autonomous_apps p) then Autonomous else as_action_mode (ap_default_mode p))"

definition is_autonomous :: "action_permissions \<Rightarrow> string \<Rightarrow> bool" where
  "is_autonomous p app \<longleftrightarrow> app \<in> set (ap_autonomous_apps p)"

section \<open>Decisions\<close>

datatype action_kind =
    PermanentDelete | SendExternalMessage | PackageChange | SystemConfigChange | UndeclaredNetwork
  | ElevatedPrivilege | Irreversible | KindReversibleWithCost | Ordinary

definition always_requires_confirmation :: "action_kind \<Rightarrow> bool" where
  "always_requires_confirmation k \<longleftrightarrow> k \<noteq> Ordinary"

datatype action_decision = Propose | PreviewThenExecute | RequireConfirmation | Proceed

datatype access_tier = Minimal | SessionScoped | ProjectScoped | TimeScoped | Full

record capability =
  ca_read_tier :: access_tier
  ca_actions :: action_permissions

definition capability_minimal :: capability where
  "capability_minimal = \<lparr>ca_read_tier = Minimal, ca_actions = suggest_only\<rparr>"

definition decide :: "capability \<Rightarrow> string \<Rightarrow> action_kind \<Rightarrow> bool \<Rightarrow> action_decision" where
  "decide c app kind triggered =
     (if always_requires_confirmation kind \<or> triggered then RequireConfirmation
      else case mode_for (ca_actions c) app of
        Suggest \<Rightarrow> Propose | Supervised \<Rightarrow> PreviewThenExecute | Autonomous \<Rightarrow> Proceed)"

fun narrow :: "action_mode \<Rightarrow> baseline_mode \<Rightarrow> action_mode" where
  "narrow granted BaseSuggest = Suggest"
| "narrow granted BaseSupervised = (case granted of
     Suggest \<Rightarrow> Suggest | Supervised \<Rightarrow> Supervised | Autonomous \<Rightarrow> Supervised)"

definition decide_for_behaviour ::
  "capability \<Rightarrow> string \<Rightarrow> action_kind \<Rightarrow> bool \<Rightarrow> baseline_mode \<Rightarrow> action_decision" where
  "decide_for_behaviour c app kind triggered ceiling =
     (if always_requires_confirmation kind \<or> triggered then RequireConfirmation
      else case narrow (mode_for (ca_actions c) app) ceiling of
        Suggest \<Rightarrow> Propose | Supervised \<Rightarrow> PreviewThenExecute | Autonomous \<Rightarrow> Proceed)"

definition access_tier_from_level :: "u8 \<Rightarrow> access_tier" where
  "access_tier_from_level level =
     (if level = 0 then Minimal else if level = 1 then SessionScoped else if level = 2 then ProjectScoped
      else if level = 3 then TimeScoped else if level = 4 then Full else Minimal)"

section \<open>Modes and decisions in order\<close>

fun mode_rank :: "action_mode \<Rightarrow> nat" where
  "mode_rank Suggest = 0"
| "mode_rank Supervised = 1"
| "mode_rank Autonomous = 2"

instantiation action_mode :: linorder
begin

definition less_eq_action_mode :: "action_mode \<Rightarrow> action_mode \<Rightarrow> bool" where
  "less_eq_action_mode a b \<longleftrightarrow> mode_rank a \<le> mode_rank b"

definition less_action_mode :: "action_mode \<Rightarrow> action_mode \<Rightarrow> bool" where
  "less_action_mode a b \<longleftrightarrow> mode_rank a < mode_rank b"

instance
proof
  fix a b :: action_mode
  show "a \<le> b \<Longrightarrow> b \<le> a \<Longrightarrow> a = b"
    by (cases a; cases b) (simp_all add: less_eq_action_mode_def)
qed (auto simp: less_eq_action_mode_def less_action_mode_def)

end

lemmas mode_order = less_eq_action_mode_def less_action_mode_def

lemma narrow_is_min: "narrow granted ceiling = min granted (as_action_mode ceiling)"
  by (cases granted; cases ceiling) (simp_all add: min_def mode_order)

lemma baseline_never_autonomous: "as_action_mode b < Autonomous"
  by (cases b) (simp_all add: mode_order)

section \<open>Properties\<close>

text \<open>A behaviour only ever narrows: what it may do is decided as if the application were
  granted the lesser of its own mode and the behaviour's ceiling; so it never acts without the
  user, it needs a confirmation exactly when a direct action would, and it only previews where
  the direct action previews or proceeds.\<close>

theorem behaviour_only_narrows:
  "decide_for_behaviour c app kind triggered ceiling \<noteq> Proceed \<and>
   (decide_for_behaviour c app kind triggered ceiling = RequireConfirmation \<longleftrightarrow>
      decide c app kind triggered = RequireConfirmation) \<and>
   (decide_for_behaviour c app kind triggered ceiling = PreviewThenExecute \<longleftrightarrow>
      decide c app kind triggered \<in> {PreviewThenExecute, Proceed} \<and> ceiling = BaseSupervised) \<and>
   narrow (mode_for (ca_actions c) app) ceiling = min (mode_for (ca_actions c) app) (as_action_mode ceiling)"
  by (cases "mode_for (ca_actions c) app"; cases ceiling)
     (auto simp: decide_for_behaviour_def decide_def min_def mode_order)

text \<open>Acting without the user is opt-in per application: an action proceeds unseen exactly
  when it is an ordinary one, not triggered by external content, for an application on the
  autonomous list; no baseline, whatever the configuration says, gives that.\<close>

lemma proceeds_iff_opted_in:
  "decide \<lparr>ca_read_tier = tier, ca_actions = permissions_new (baseline_parse config) apps\<rparr> app kind triggered = Proceed \<longleftrightarrow>
     kind = Ordinary \<and> \<not> triggered \<and> app \<in> set apps"
proof -
  have "as_action_mode (baseline_parse config) \<noteq> Autonomous"
    using baseline_never_autonomous by (metis less_irrefl)
  then show ?thesis
    by (auto simp: decide_def always_requires_confirmation_def mode_for_def permissions_new_def
        split: action_mode.splits)
qed

end
