(* ===== verification/Consent_Broker.thy ===== *)
theory Consent_Broker
  imports AI_Capability Audit_Proto
begin

text \<open>
  The consent broker (\<open>contracts/consent-contract/src/lib.rs\<close> and
  \<open>daemons/consent-broker/src/lib.rs\<close>, \<open>queue.rs\<close>, \<open>grant.rs\<close>, \<open>service.rs\<close>,
  \<open>control.rs\<close>, \<open>daemon.rs\<close>): requests and their severity, the queue of dialogs, the
  grants and the shared state with its operations.

  The clock is an argument, as is whether the audit ledger took an entry. A requester that waits
  for a decision is a value of a type \<open>'w\<close>; sending on its channel is an answer in the result.
  The operation \<open>resolve\<close> releases the lock while the ledger is written, so it is two
  steps, between which other operations may run. Writing a grant through to the graph is best
  effort and changes nothing here; it is not modelled.
\<close>

section \<open>The wire contract\<close>

datatype consent_class =
    CapabilityGrant | AppData | Install | Destructive | ExternalSend | NetworkAccess | ExecConfined
  | ClassElevatedPrivilege | Portal | Camera | Microphone | ScreenCast | NotificationAction | AgentAction

fun as_key :: "consent_class \<Rightarrow> string" where
  "as_key CapabilityGrant = ''capability_grant''"
| "as_key AppData = ''app_data''"
| "as_key Install = ''install''"
| "as_key Destructive = ''destructive''"
| "as_key ExternalSend = ''external_send''"
| "as_key NetworkAccess = ''network_access''"
| "as_key ExecConfined = ''exec_confined''"
| "as_key ClassElevatedPrivilege = ''elevated_privilege''"
| "as_key Portal = ''portal''"
| "as_key Camera = ''camera''"
| "as_key Microphone = ''microphone''"
| "as_key ScreenCast = ''screencast''"
| "as_key NotificationAction = ''notification_action''"
| "as_key AgentAction = ''agent_action''"

record consent_target =
  tg_name :: string
  tg_size :: string

record request_body =
  rb_class :: consent_class
  rb_kind :: action_kind
  rb_triggered :: bool
  rb_summary :: string
  rb_scope :: "string option"
  rb_recipient :: "string option"
  rb_preview :: "string option"
  rb_targets :: "consent_target list"
  rb_total :: "string option"
  rb_on_behalf_of :: "string option"
  rb_check_only :: bool

datatype consent_outcome = AllowedOnce | AllowedRemembered | AllowedForWindow | Denied

definition mints_grant :: "consent_outcome \<Rightarrow> bool" where
  "mints_grant o' \<longleftrightarrow> o' \<in> {AllowedRemembered, AllowedForWindow}"

definition allowed :: "consent_outcome \<Rightarrow> bool" where
  "allowed o' \<longleftrightarrow> o' \<in> {AllowedOnce, AllowedRemembered, AllowedForWindow}"

section \<open>Requests and severity\<close>

record attested_requester =
  aq_app_id :: string
  aq_mediator :: "string option"

definition requester_new :: "string \<Rightarrow> attested_requester" where
  "requester_new app = \<lparr>aq_app_id = app, aq_mediator = None\<rparr>"

definition requester_on_behalf_of :: "string \<Rightarrow> string \<Rightarrow> attested_requester" where
  "requester_on_behalf_of subject mediator = \<lparr>aq_app_id = subject, aq_mediator = Some mediator\<rparr>"

definition display_id :: "attested_requester \<Rightarrow> string" where
  "display_id r = aq_app_id r"

definition grant_recipient :: "attested_requester \<Rightarrow> string" where
  "grant_recipient r = aq_app_id r"

record consent_request =
  cq_requester :: attested_requester
  cq_class :: consent_class
  cq_kind :: action_kind
  cq_triggered :: bool
  cq_summary :: string
  cq_scope :: "string option"
  cq_recipient :: "string option"
  cq_preview :: "string option"
  cq_targets :: "consent_target list"
  cq_total :: "string option"

datatype severity_tier = Silent | Standard | HighStakes

fun from_decision :: "action_decision \<Rightarrow> severity_tier" where
  "from_decision Proceed = Silent"
| "from_decision Propose = Standard"
| "from_decision PreviewThenExecute = Standard"
| "from_decision RequireConfirmation = HighStakes"

definition shows_dialog :: "severity_tier \<Rightarrow> bool" where
  "shows_dialog t \<longleftrightarrow> t \<noteq> Silent"

datatype reversibility = Reversible | ReversibleWithCost | NotReversible

fun reversibility_of :: "action_kind \<Rightarrow> reversibility" where
  "reversibility_of PermanentDelete = NotReversible"
| "reversibility_of SendExternalMessage = NotReversible"
| "reversibility_of UndeclaredNetwork = NotReversible"
| "reversibility_of Irreversible = NotReversible"
| "reversibility_of PackageChange = ReversibleWithCost"
| "reversibility_of SystemConfigChange = ReversibleWithCost"
| "reversibility_of ElevatedPrivilege = ReversibleWithCost"
| "reversibility_of KindReversibleWithCost = ReversibleWithCost"
| "reversibility_of Ordinary = Reversible"

definition classify :: "consent_request \<Rightarrow> capability \<Rightarrow> severity_tier" where
  "classify request c =
     from_decision (decide c (grant_recipient (cq_requester request)) (cq_kind request) (cq_triggered request))"

section \<open>The queue\<close>

type_synonym request_id = u64

record pending_request =
  pr_id :: request_id
  pr_request :: consent_request
  pr_tier :: severity_tier
  pr_seq :: u64

fun tier_rank :: "severity_tier \<Rightarrow> nat" where
  "tier_rank Silent = 0"
| "tier_rank Standard = 1"
| "tier_rank HighStakes = 2"

record consent_queue =
  qu_pending :: "pending_request list"
  qu_next_id :: u64
  qu_next_seq :: u64

definition queue_new :: consent_queue where
  "queue_new = \<lparr>qu_pending = [], qu_next_id = 0, qu_next_seq = 0\<rparr>"

datatype enqueued = Queued request_id | AlreadyPending request_id | SilentGrant

definition same_question :: "consent_request \<Rightarrow> consent_request \<Rightarrow> bool" where
  "same_question a b \<longleftrightarrow> \<not> cq_triggered a \<and> \<not> cq_triggered b \<and>
     display_id (cq_requester a) = display_id (cq_requester b) \<and>
     cq_class a = cq_class b \<and> cq_scope a = cq_scope b"

definition enqueue :: "consent_request \<Rightarrow> capability \<Rightarrow> consent_queue \<Rightarrow> enqueued \<times> consent_queue" where
  "enqueue request c q =
     (let tier = classify request c in
      if tier = Silent then (SilentGrant, q)
      else case find (\<lambda>p. same_question (pr_request p) request) (qu_pending q) of
        Some p \<Rightarrow> (AlreadyPending (pr_id p), q)
      | None \<Rightarrow>
          (Queued (qu_next_id q),
           q\<lparr>qu_next_id := qu_next_id q + 1, qu_next_seq := qu_next_seq q + 1,
             qu_pending := qu_pending q @ [\<lparr>pr_id = qu_next_id q, pr_request = request, pr_tier = tier,
               pr_seq = qu_next_seq q\<rparr>]\<rparr>))"

text \<open>\<open>Iterator::max_by\<close> keeps the last of several maximal elements; \<open>at_most\<close> is the comparison
  of \<open>front\<close> not being \<open>Greater\<close>.\<close>

definition at_most :: "pending_request \<Rightarrow> pending_request \<Rightarrow> bool" where
  "at_most a b \<longleftrightarrow> tier_rank (pr_tier a) < tier_rank (pr_tier b) \<or>
     tier_rank (pr_tier a) = tier_rank (pr_tier b) \<and> pr_seq b \<le> pr_seq a"

fun max_by :: "('a \<Rightarrow> 'a \<Rightarrow> bool) \<Rightarrow> 'a list \<Rightarrow> 'a option" where
  "max_by le [] = None"
| "max_by le (x # xs) = Some (foldl (\<lambda>best y. if le best y then y else best) x xs)"

definition front :: "consent_queue \<Rightarrow> pending_request option" where
  "front q = max_by at_most (qu_pending q)"

text \<open>Removing at the first position with the identifier.\<close>

fun remove_id :: "request_id \<Rightarrow> pending_request list \<Rightarrow> (pending_request \<times> pending_request list) option" where
  "remove_id i [] = None"
| "remove_id i (p # ps) = (if pr_id p = i then Some (p, ps)
     else map_option (\<lambda>(r, rest). (r, p # rest)) (remove_id i ps))"

definition resolve :: "request_id \<Rightarrow> consent_outcome \<Rightarrow> consent_queue \<Rightarrow>
    (pending_request \<times> consent_outcome) option \<times> consent_queue" where
  "resolve i o' q =
     (case remove_id i (qu_pending q) of
        None \<Rightarrow> (None, q)
      | Some (removed, rest) \<Rightarrow> (Some (removed, o'), q\<lparr>qu_pending := rest\<rparr>))"

section \<open>Grants\<close>

datatype grant_lifetime = Until int | Persistent | Session

record consent_grant =
  cg_recipient :: string
  cg_class :: consent_class
  cg_scope :: "string option"
  cg_summary :: string
  cg_revocation_handle :: string
  cg_lifetime :: grant_lifetime

fun expires_at_micros :: "grant_lifetime \<Rightarrow> int option" where
  "expires_at_micros (Until at) = Some at"
| "expires_at_micros Persistent = None"
| "expires_at_micros Session = None"

definition GESTURE_WINDOW_MICROS :: int where
  "GESTURE_WINDOW_MICROS = 5 * 60 * 1000000"

definition saturating_add :: "int \<Rightarrow> int \<Rightarrow> int" where
  "saturating_add a b = max (- (2 ^ 63)) (min (2 ^ 63 - 1) (a + b))"

definition revocation_handle :: "string \<Rightarrow> consent_class \<Rightarrow> string option \<Rightarrow> string" where
  "revocation_handle recipient class scope =
     (let scope = (case scope of Some s \<Rightarrow> s | None \<Rightarrow> [])
      in recipient @ ''|'' @ as_key class @ ''|'' @ dec (length scope) @ '':'' @ scope)"

definition mint_grant :: "pending_request \<Rightarrow> consent_outcome \<Rightarrow> int \<Rightarrow> consent_grant option" where
  "mint_grant p o' now =
     (if \<not> mints_grant o' then None
      else
        (let recipient = grant_recipient (cq_requester (pr_request p));
             class = cq_class (pr_request p); scope = cq_scope (pr_request p)
         in Some \<lparr>cg_recipient = recipient, cg_class = class, cg_scope = scope,
              cg_summary = cq_summary (pr_request p),
              cg_revocation_handle = revocation_handle recipient class scope,
              cg_lifetime = (case o' of AllowedForWindow \<Rightarrow> Until (saturating_add now GESTURE_WINDOW_MICROS)
                | _ \<Rightarrow> Persistent)\<rparr>))"

definition grant_from_gesture :: "string \<Rightarrow> string \<Rightarrow> consent_grant" where
  "grant_from_gesture recipient path =
     \<lparr>cg_recipient = recipient, cg_class = CapabilityGrant, cg_scope = Some path,
      cg_summary = ''you opened '' @ path @ '' with this app'',
      cg_revocation_handle = revocation_handle recipient CapabilityGrant (Some path),
      cg_lifetime = Session\<rparr>"

section \<open>Intake\<close>

definition assemble :: "request_body \<Rightarrow> attested_requester \<Rightarrow> consent_request" where
  "assemble body requester =
     \<lparr>cq_requester = requester, cq_class = rb_class body, cq_kind = rb_kind body, cq_triggered = rb_triggered body,
      cq_summary = rb_summary body, cq_scope = rb_scope body, cq_recipient = rb_recipient body,
      cq_preview = rb_preview body, cq_targets = rb_targets body, cq_total = rb_total body\<rparr>"

definition TRUSTED_INTERMEDIARIES :: "string list" where
  "TRUSTED_INTERMEDIARIES = [''xdg-desktop-portal'', ''modulesd'']"

definition is_trusted_intermediary :: "string \<Rightarrow> bool" where
  "is_trusted_intermediary peer \<longleftrightarrow> peer \<in> set TRUSTED_INTERMEDIARIES"

definition is_plausible_app_id :: "string \<Rightarrow> bool" where
  "is_plausible_app_id app \<longleftrightarrow> app \<noteq> [] \<and> length app \<le> 255 \<and>
     list_all (\<lambda>b. is_ascii_alphanumeric b \<or> b = CHR ''.'' \<or> b = CHR ''-'' \<or> b = CHR ''_'') app"

definition resolve_requester :: "string \<Rightarrow> string option \<Rightarrow> attested_requester" where
  "resolve_requester peer on_behalf_of =
     (case on_behalf_of of
        Some subject \<Rightarrow>
          if is_trusted_intermediary peer \<and> is_plausible_app_id subject \<and> subject \<noteq> peer
          then requester_on_behalf_of subject peer else requester_new peer
      | None \<Rightarrow> requester_new peer)"

datatype intake_reply = ReplyQueued u64 | ReplySilentGranted

definition handle_intake ::
  "request_body \<Rightarrow> string \<Rightarrow> capability \<Rightarrow> consent_queue \<Rightarrow> intake_reply \<times> consent_queue" where
  "handle_intake body peer c q =
     (case enqueue (assemble body (resolve_requester peer (rb_on_behalf_of body))) c q of
        (Queued i, q') \<Rightarrow> (ReplyQueued i, q')
      | (AlreadyPending i, q') \<Rightarrow> (ReplyQueued i, q')
      | (SilentGrant, q') \<Rightarrow> (ReplySilentGranted, q'))"

section \<open>The decision channel\<close>

record pending_view =
  pv_id :: u64
  pv_requester :: string
  pv_class :: consent_class
  pv_tier :: severity_tier
  pv_summary :: string
  pv_scope :: "string option"
  pv_reversibility :: reversibility
  pv_triggered_externally :: bool
  pv_recipient :: "string option"
  pv_preview :: "string option"
  pv_targets :: "consent_target list"
  pv_total :: "string option"

definition view_of :: "pending_request \<Rightarrow> pending_view" where
  "view_of p =
     \<lparr>pv_id = pr_id p, pv_requester = display_id (cq_requester (pr_request p)), pv_class = cq_class (pr_request p),
      pv_tier = pr_tier p, pv_summary = cq_summary (pr_request p), pv_scope = cq_scope (pr_request p),
      pv_reversibility = reversibility_of (cq_kind (pr_request p)),
      pv_triggered_externally = cq_triggered (pr_request p), pv_recipient = cq_recipient (pr_request p),
      pv_preview = cq_preview (pr_request p), pv_targets = cq_targets (pr_request p),
      pv_total = cq_total (pr_request p)\<rparr>"

definition front_view :: "consent_queue \<Rightarrow> pending_view option" where
  "front_view q = map_option view_of (front q)"

record resolved_decision =
  rd_recipient :: string
  rd_reply :: consent_outcome
  rd_mediated_by :: "string option"
  rd_grant :: "consent_grant option"

definition gate_remember :: "action_kind \<Rightarrow> consent_outcome \<Rightarrow> consent_outcome" where
  "gate_remember kind o' =
     (if o' \<in> {AllowedRemembered, AllowedForWindow} \<and> reversibility_of kind \<noteq> Reversible
      then AllowedOnce else o')"

definition resolve_decision ::
  "request_id \<Rightarrow> consent_outcome \<Rightarrow> int \<Rightarrow> consent_queue \<Rightarrow> resolved_decision option \<times> consent_queue" where
  "resolve_decision i o' now q =
     (case resolve i o' q of
        (None, q') \<Rightarrow> (None, q')
      | (Some (p, o''), q') \<Rightarrow>
          (let o''' = gate_remember (cq_kind (pr_request p)) o''
           in (Some \<lparr>rd_recipient = grant_recipient (cq_requester (pr_request p)), rd_reply = o''',
                 rd_mediated_by = aq_mediator (cq_requester (pr_request p)), rd_grant = mint_grant p o''' now\<rparr>, q')))"

end
