(* ===== verification/Consent_State.thy ===== *)
theory Consent_State
  imports Consent_Broker "HOL-Library.Multiset"
begin

text \<open>
  The running consent broker (\<open>daemons/consent-broker/src/daemon.rs\<close> and the control gate of
  \<open>main.rs\<close>): the grant store, the shared state with the waiting requesters, and the two
  sockets' operations. A debug build admits further callers to the control socket; whether it is
  one, and the identifier of its test variable, are arguments.
\<close>

section \<open>The grant store\<close>

definition record_grant :: "consent_grant \<Rightarrow> consent_grant list \<Rightarrow> consent_grant list" where
  "record_grant g gs =
     (case List.extract (\<lambda>x. cg_revocation_handle x = cg_revocation_handle g) gs of
        Some (xs, _, ys) \<Rightarrow> xs @ g # ys
      | None \<Rightarrow> gs @ [g])"

definition live_at :: "int \<Rightarrow> grant_lifetime \<Rightarrow> bool" where
  "live_at now l = (case expires_at_micros l of Some e \<Rightarrow> now < e | None \<Rightarrow> True)"

definition covers :: "consent_grant list \<Rightarrow> consent_request \<Rightarrow> int \<Rightarrow> bool" where
  "covers gs request now =
     list_ex (\<lambda>g. cg_recipient g = grant_recipient (cq_requester request) \<and> cg_class g = cq_class request \<and>
       cg_scope g = cq_scope request \<and> live_at now (cg_lifetime g)) gs"

definition revoke :: "string \<Rightarrow> consent_grant list \<Rightarrow> consent_grant option \<times> consent_grant list" where
  "revoke handle gs =
     (case List.extract (\<lambda>x. cg_revocation_handle x = handle) gs of
        Some (xs, g, ys) \<Rightarrow> (Some g, xs @ ys)
      | None \<Rightarrow> (None, gs))"

section \<open>The shared state\<close>

record 'w shared_state =
  ss_capability :: capability
  ss_queue :: consent_queue
  ss_waiters :: "(request_id, 'w list) hash_map"
  ss_grants :: "consent_grant list"

definition state_new :: "capability \<Rightarrow> 'w shared_state" where
  "state_new c = \<lparr>ss_capability = c, ss_queue = queue_new, ss_waiters = [], ss_grants = []\<rparr>"

datatype intake_outcome = SilentGranted | Pending request_id bool | Coverage bool

definition park :: "request_id \<Rightarrow> 'w \<Rightarrow> (request_id, 'w list) hash_map \<Rightarrow> (request_id, 'w list) hash_map" where
  "park i w m = AList.update i ((case map_of m i of Some ws \<Rightarrow> ws | None \<Rightarrow> []) @ [w]) m"

definition intake ::
  "int \<Rightarrow> request_body \<Rightarrow> string \<Rightarrow> 'w \<Rightarrow> 'w shared_state \<Rightarrow> intake_outcome \<times> 'w shared_state" where
  "intake now body peer w s =
     (let request = assemble body (resolve_requester peer (rb_on_behalf_of body)) in
      if rb_check_only body then (Coverage (covers (ss_grants s) request now), s)
      else if classify request (ss_capability s) = Standard \<and> \<not> cq_triggered request \<and>
        covers (ss_grants s) request now then (SilentGranted, s)
      else case enqueue request (ss_capability s) (ss_queue s) of
        (SilentGrant, q) \<Rightarrow> (SilentGranted, s\<lparr>ss_queue := q\<rparr>)
      | (Queued i, q) \<Rightarrow> (Pending i False, s\<lparr>ss_queue := q, ss_waiters := park i w (ss_waiters s)\<rparr>)
      | (AlreadyPending i, q) \<Rightarrow> (Pending i True, s\<lparr>ss_queue := q, ss_waiters := park i w (ss_waiters s)\<rparr>))"

text \<open>The first half of \<open>resolve\<close>, under the lock: the decision and who waits for it.\<close>

definition resolve_begin ::
  "int \<Rightarrow> request_id \<Rightarrow> consent_outcome \<Rightarrow> 'w shared_state \<Rightarrow> (resolved_decision \<times> 'w list) option \<times> 'w shared_state" where
  "resolve_begin now i o' s =
     (case resolve_decision i o' now (ss_queue s) of
        (None, q) \<Rightarrow> (None, s\<lparr>ss_queue := q\<rparr>)
      | (Some d, q) \<Rightarrow>
          (Some (d, case map_of (ss_waiters s) i of Some ws \<Rightarrow> ws | None \<Rightarrow> []),
           s\<lparr>ss_queue := q, ss_waiters := AList.delete i (ss_waiters s)\<rparr>))"

definition permission_entry :: "string \<Rightarrow> string list \<Rightarrow> string \<Rightarrow> ingest_request" where
  "permission_entry subject node_types outcome =
     \<lparr>ir_kind = AuditPermission,
      ir_structural = \<lparr>sr_subject = subject, sr_node_types = node_types, sr_relations = [], sr_result_count = None,
        sr_duration_ms = None, sr_outcome = outcome, sr_depth = None, sr_capability_change = None\<rparr>,
      ir_forensic = None, ir_call_chain_id = None, ir_project_id = None\<rparr>"

fun outcome_text :: "consent_outcome \<Rightarrow> string" where
  "outcome_text AllowedOnce = ''granted-once''"
| "outcome_text AllowedRemembered = ''granted-remembered''"
| "outcome_text AllowedForWindow = ''granted-for-window''"
| "outcome_text Denied = ''denied''"

definition consent_decision_entry :: "resolved_decision \<Rightarrow> ingest_request" where
  "consent_decision_entry d = permission_entry (rd_recipient d)
     (case rd_mediated_by d of Some m \<Rightarrow> [m] | None \<Rightarrow> []) (outcome_text (rd_reply d))"

definition gesture_conferral_entry :: "string \<Rightarrow> string \<Rightarrow> ingest_request" where
  "gesture_conferral_entry recipient conferrer = permission_entry recipient [conferrer] ''conferred-by-gesture''"

definition consent_revoke_entry :: "string \<Rightarrow> ingest_request" where
  "consent_revoke_entry recipient = permission_entry recipient [] ''revoked''"

record resolve_result =
  rr_audited :: bool
  rr_reply :: consent_outcome
  rr_grant :: "consent_grant option"

text \<open>The second half, once the ledger has answered: the result, the answers sent, the new state.\<close>

definition resolve_finish ::
  "bool \<Rightarrow> resolved_decision \<times> 'w list \<Rightarrow> 'w shared_state \<Rightarrow>
   resolve_result \<times> ('w \<times> consent_outcome) list \<times> 'w shared_state" where
  "resolve_finish audited taken s =
     (let (d, waiting) = taken;
          reply = (if audited then rd_reply d else Denied);
          grant = (if audited then rd_grant d else None);
          s' = (case grant of Some g \<Rightarrow> s\<lparr>ss_grants := record_grant g (ss_grants s)\<rparr> | None \<Rightarrow> s)
      in (\<lparr>rr_audited = audited, rr_reply = reply, rr_grant = grant\<rparr>, map (\<lambda>w. (w, reply)) waiting, s'))"

definition revoke_grant :: "string \<Rightarrow> 'w shared_state \<Rightarrow> consent_grant option \<times> 'w shared_state" where
  "revoke_grant handle s =
     (case revoke handle (ss_grants s) of (removed, gs) \<Rightarrow> (removed, s\<lparr>ss_grants := gs\<rparr>))"

definition confer_from_gesture :: "bool \<Rightarrow> string \<Rightarrow> string \<Rightarrow> 'w shared_state \<Rightarrow> bool \<times> 'w shared_state" where
  "confer_from_gesture audited recipient path s =
     (if \<not> audited then (False, s)
      else (True, s\<lparr>ss_grants := record_grant (grant_from_gesture recipient path) (ss_grants s)\<rparr>))"

section \<open>The control gate\<close>

datatype control_request =
    Fetch
  | Resolve u64 consent_outcome
  | ListGrants
  | RevokeGrant string
  | ConferFromGesture string string

definition CONTROL_ADMITTED :: "string list" where
  "CONTROL_ADMITTED = [''dev.arlen.desktop-shell'']"

definition GRANT_MGMT_ADMITTED :: "string list" where
  "GRANT_MGMT_ADMITTED = [''dev.arlen.settings'']"

definition CONTROL_ADMITTED_DEV :: "string list" where
  "CONTROL_ADMITTED_DEV = [''dev.arlen-desktop-shell'']"

definition GRANT_MGMT_ADMITTED_DEV :: "string list" where
  "GRANT_MGMT_ADMITTED_DEV = [''dev.arlen-settings'']"

definition GESTURE_ADMITTED :: "string list" where
  "GESTURE_ADMITTED = []"

record build =
  bu_debug :: bool
  bu_extra_admit :: "string option"

definition dev_extra_admits :: "build \<Rightarrow> string \<Rightarrow> bool" where
  "dev_extra_admits b app \<longleftrightarrow> bu_extra_admit b = Some app"

definition control_caller_admitted :: "build \<Rightarrow> string \<Rightarrow> bool" where
  "control_caller_admitted b app =
     (if app \<in> set CONTROL_ADMITTED \<or> app \<in> set GRANT_MGMT_ADMITTED \<or> app \<in> set GESTURE_ADMITTED then True
      else if bu_debug b \<and> (app \<in> set CONTROL_ADMITTED_DEV \<or> app \<in> set GRANT_MGMT_ADMITTED_DEV \<or> dev_extra_admits b app)
      then True else False)"

definition is_confer :: "control_request \<Rightarrow> bool" where
  "is_confer r = (case r of ConferFromGesture _ _ \<Rightarrow> True | _ \<Rightarrow> False)"

definition is_grant_op :: "control_request \<Rightarrow> bool" where
  "is_grant_op r = (case r of ListGrants \<Rightarrow> True | RevokeGrant _ \<Rightarrow> True | _ \<Rightarrow> False)"

definition control_op_admitted :: "build \<Rightarrow> string \<Rightarrow> control_request \<Rightarrow> bool" where
  "control_op_admitted b app r =
     (if app \<in> set CONTROL_ADMITTED then True
      else if app \<in> set GESTURE_ADMITTED then is_confer r
      else if bu_debug b \<and> (app \<in> set CONTROL_ADMITTED_DEV \<or> dev_extra_admits b app) then True
      else if bu_debug b \<and> app \<in> set GRANT_MGMT_ADMITTED_DEV then is_grant_op r
      else if app \<in> set GRANT_MGMT_ADMITTED then is_grant_op r
      else False)"

section \<open>The control socket\<close>

datatype control_reply =
    PendingReply "pending_view option"
  | ResolvedReply bool
  | GrantsReply "consent_grant list"
  | RevokedReply bool
  | ConferredReply bool

text \<open>
  One request on the control socket, from the gate to the reply, with no other operation in
  between: \<open>None\<close> when the connection is dropped, otherwise the reply, the answers sent to waiting
  requesters and the new state.
\<close>

definition handle_control ::
  "build \<Rightarrow> int \<Rightarrow> bool \<Rightarrow> string \<Rightarrow> control_request \<Rightarrow> 'w shared_state \<Rightarrow>
   (control_reply \<times> ('w \<times> consent_outcome) list \<times> 'w shared_state) option" where
  "handle_control b now audited app request s =
     (if \<not> control_caller_admitted b app then None
      else if \<not> control_op_admitted b app request then None
      else Some (case request of
        Fetch \<Rightarrow> (PendingReply (front_view (ss_queue s)), [], s)
      | Resolve i o' \<Rightarrow>
          (case resolve_begin now i o' s of
             (None, s') \<Rightarrow> (ResolvedReply False, [], s')
           | (Some taken, s') \<Rightarrow>
               (case resolve_finish audited taken s' of (_, answers, s'') \<Rightarrow> (ResolvedReply True, answers, s'')))
      | ListGrants \<Rightarrow> (GrantsReply (ss_grants s), [], s)
      | RevokeGrant handle \<Rightarrow>
          (case revoke_grant handle s of (removed, s') \<Rightarrow> (RevokedReply (removed \<noteq> None), [], s'))
      | ConferFromGesture recipient path \<Rightarrow>
          (case confer_from_gesture audited recipient path s of (ok, s') \<Rightarrow> (ConferredReply ok, [], s'))))"

end
