(* ===== verification/Consent_Runs.thy ===== *)
theory Consent_Runs
  imports Consent_State "HOL-Library.Product_Lexorder"
begin

text \<open>
  What the consent broker guarantees over every run: the order in which dialogs are shown, that
  nobody who waits is lost, that an answer that allows was in the audit ledger first, that a
  remembered grant comes from an answered dialog or a witnessed gesture and stops with its
  revocation, and what can be granted without asking.
\<close>

section \<open>The queue\<close>

definition queue_ok :: "capability \<Rightarrow> consent_queue \<Rightarrow> bool" where
  "queue_ok c q \<longleftrightarrow> qu_next_seq q = qu_next_id q \<and>
     sorted_wrt (\<lambda>a b. pr_seq a < pr_seq b) (qu_pending q) \<and>
     (\<forall>p \<in> set (qu_pending q). pr_id p = pr_seq p \<and> pr_seq p < qu_next_seq q \<and>
        pr_tier p = classify (pr_request p) c \<and> pr_tier p \<noteq> Silent)"

lemma queue_ok_new: "queue_ok c queue_new"
  by (simp add: queue_ok_def queue_new_def)

lemma word_less_Suc: "(n :: u64) \<noteq> - 1 \<Longrightarrow> n < n + 1"
  using inc_less_eq_self_iff_eq [of n] not_le by blast

lemma queue_ok_enqueue:
  assumes "queue_ok c q" and "qu_next_id q \<noteq> - 1" and "enqueue request c q = (e, q')"
  shows "queue_ok c q'"
proof -
  have next_id: "qu_next_id q < qu_next_id q + 1" using assms(2) by (rule word_less_Suc)
  then have "\<forall>p \<in> set (qu_pending q). pr_seq p < qu_next_id q + 1"
    using assms(1) unfolding queue_ok_def by (metis order.strict_trans)
  with next_id show ?thesis
    using assms by (auto simp: enqueue_def queue_ok_def Let_def sorted_wrt_append split: if_splits option.splits)
qed

lemma remove_id_Some:
  "remove_id i ps = Some (r, rest) \<Longrightarrow> pr_id r = i \<and> (\<exists>xs ys. ps = xs @ r # ys \<and> rest = xs @ ys)"
proof (induction ps arbitrary: rest)
  case (Cons p ps)
  show ?case
  proof (cases "pr_id p = i")
    case True
    then show ?thesis using Cons.prems by (auto intro: exI [of _ "[]"])
  next
    case False
    then obtain rest' where "remove_id i ps = Some (r, rest')" "rest = p # rest'" using Cons.prems by auto
    then show ?thesis using Cons.IH by (metis append_Cons)
  qed
qed simp

lemma remove_id_None: "remove_id i ps = None \<longleftrightarrow> i \<notin> pr_id ` set ps"
  by (induction ps) auto

lemma queue_ok_remove:
  assumes "queue_ok c q" and "remove_id i (qu_pending q) = Some (r, rest)"
  shows "queue_ok c (q\<lparr>qu_pending := rest\<rparr>)"
  using assms remove_id_Some [OF assms(2)] by (auto simp: queue_ok_def sorted_wrt_append)

section \<open>Every run\<close>

text \<open>
  The broker with what it has put outside: the decisions whose ledger entry is being written, the
  ledger, the answers sent, and, for the statements, who was left waiting with which request. A
  requester waits at most once (its channel is made for the request).
\<close>

record 'w world =
  wd_state :: "'w shared_state"
  wd_inflight :: "(resolved_decision \<times> 'w list) list"
  wd_ledger :: "ingest_request list"
  wd_answers :: "('w \<times> consent_outcome) list"
  wd_asked :: "('w \<times> consent_request) list"

definition request_from :: "request_body \<Rightarrow> string \<Rightarrow> consent_request" where
  "request_from body peer = assemble body (resolve_requester peer (rb_on_behalf_of body))"

definition note_asked :: "'w \<Rightarrow> consent_request \<Rightarrow> intake_outcome \<Rightarrow> ('w \<times> consent_request) list \<Rightarrow> ('w \<times> consent_request) list" where
  "note_asked w r res asked = (case res of Pending _ _ \<Rightarrow> asked @ [(w, r)] | _ \<Rightarrow> asked)"

inductive broker_run :: "capability \<Rightarrow> 'w world \<Rightarrow> bool" for c where
  boot: "broker_run c \<lparr>wd_state = state_new c, wd_inflight = [], wd_ledger = [], wd_answers = [], wd_asked = []\<rparr>"
| intake: "broker_run c x \<Longrightarrow> qu_next_id (ss_queue (wd_state x)) \<noteq> - 1 \<Longrightarrow> intake now body peer w (wd_state x) = (res, s) \<Longrightarrow>
    broker_run c (x\<lparr>wd_state := s, wd_asked := note_asked w (request_from body peer) res (wd_asked x)\<rparr>)"
| decide: "broker_run c x \<Longrightarrow> resolve_begin now i o' (wd_state x) = (Some taken, s) \<Longrightarrow>
    broker_run c (x\<lparr>wd_state := s, wd_inflight := wd_inflight x @ [taken]\<rparr>)"
| finish: "broker_run c x \<Longrightarrow> wd_inflight x = before @ taken # after \<Longrightarrow>
    resolve_finish audited taken (wd_state x) = (res, answers, s) \<Longrightarrow>
    broker_run c (x\<lparr>wd_state := s, wd_inflight := before @ after,
      wd_ledger := (if audited then wd_ledger x @ [consent_decision_entry (fst taken)] else wd_ledger x),
      wd_answers := wd_answers x @ answers\<rparr>)"
| revoke: "broker_run c x \<Longrightarrow> revoke_grant handle (wd_state x) = (removed, s) \<Longrightarrow>
    broker_run c (x\<lparr>wd_state := s,
      wd_ledger := (case removed of Some g \<Rightarrow> if audited then wd_ledger x @ [consent_revoke_entry (cg_recipient g)] else wd_ledger x
        | None \<Rightarrow> wd_ledger x)\<rparr>)"
| confer: "broker_run c x \<Longrightarrow> confer_from_gesture audited recipient path (wd_state x) = (ok, s) \<Longrightarrow>
    broker_run c (x\<lparr>wd_state := s,
      wd_ledger := (if audited then wd_ledger x @ [gesture_conferral_entry recipient conferrer] else wd_ledger x)\<rparr>)"

section \<open>The order of the dialogs\<close>

text \<open>What the user is shown when every dialog is answered and nothing new arrives.\<close>

definition order_key :: "pending_request \<Rightarrow> nat \<times> u64" where
  "order_key p = (2 - tier_rank (pr_tier p), pr_seq p)"

lemma tier_rank_le: "tier_rank t \<le> 2"
  by (cases t) simp_all

lemma at_most_iff: "at_most a b \<longleftrightarrow> order_key b \<le> order_key a"
  using tier_rank_le [of "pr_tier a"] tier_rank_le [of "pr_tier b"]
  by (auto simp: at_most_def order_key_def less_eq_prod_def)

lemma foldl_best:
  "foldl (\<lambda>best y. if at_most best y then y else best) x xs \<in> set (x # xs) \<and>
   (\<forall>y \<in> set (x # xs). order_key (foldl (\<lambda>best y. if at_most best y then y else best) x xs) \<le> order_key y)"
proof (induction xs arbitrary: x)
  case (Cons y ys)
  show ?case
    using Cons.IH [of "if at_most x y then y else x"]
    by (auto simp: at_most_iff intro: order_trans)
qed simp

lemma front_Some:
  assumes "front q = Some p"
  shows "p \<in> set (qu_pending q)" and "\<forall>y \<in> set (qu_pending q). order_key p \<le> order_key y"
  using assms foldl_best by (cases "qu_pending q"; auto simp: front_def)+

lemma front_None: "front q = None \<longleftrightarrow> qu_pending q = []"
  by (cases "qu_pending q") (auto simp: front_def)

lemma resolve_front_shrinks:
  "front q = Some p \<Longrightarrow> length (qu_pending (snd (resolve (pr_id p) o' q))) < length (qu_pending q)"
proof -
  assume "front q = Some p"
  then obtain r rest where r: "remove_id (pr_id p) (qu_pending q) = Some (r, rest)"
    using front_Some(1) [of q p] remove_id_None [of "pr_id p" "qu_pending q"] by force
  then have "length rest < length (qu_pending q)" using remove_id_Some by fastforce
  then show ?thesis using r by (simp add: resolve_def)
qed

function drain :: "(pending_request \<Rightarrow> consent_outcome) \<Rightarrow> consent_queue \<Rightarrow> pending_request list" where
  "drain answer q = (case front q of
     None \<Rightarrow> []
   | Some p \<Rightarrow> p # drain answer (snd (resolve (pr_id p) (answer p) q)))"
  by auto
termination
  by (relation "measure (\<lambda>(_, q). length (qu_pending q))") (auto simp: resolve_front_shrinks)

declare drain.simps [simp del]

lemma queue_ok_distinct: "queue_ok c q \<Longrightarrow> distinct (map pr_id (qu_pending q)) \<and> inj_on order_key (set (qu_pending q))"
proof -
  assume ok: "queue_ok c q"
  then have "sorted_wrt (<) (map pr_seq (qu_pending q))" by (simp add: queue_ok_def sorted_wrt_map)
  then have "distinct (map pr_seq (qu_pending q))" by (simp add: strict_sorted_iff)
  moreover have "map pr_id (qu_pending q) = map pr_seq (qu_pending q)" using ok by (simp add: queue_ok_def)
  ultimately show ?thesis by (auto simp: distinct_map inj_on_def order_key_def)
qed

lemma resolve_front:
  assumes "queue_ok c q" and "front q = Some p"
  shows "queue_ok c (snd (resolve (pr_id p) o' q)) \<and>
    mset (qu_pending q) = add_mset p (mset (qu_pending (snd (resolve (pr_id p) o' q))))"
proof -
  obtain r rest where r: "remove_id (pr_id p) (qu_pending q) = Some (r, rest)"
    using front_Some(1) [OF assms(2)] remove_id_None [of "pr_id p" "qu_pending q"] by force
  then have "pr_id r = pr_id p" "r \<in> set (qu_pending q)" using remove_id_Some by fastforce+
  then have "r = p"
    using queue_ok_distinct [OF assms(1)] front_Some(1) [OF assms(2)] by (auto simp: distinct_map dest: inj_onD)
  then show ?thesis
    using r queue_ok_remove [OF assms(1) r] remove_id_Some [OF r] by (auto simp: resolve_def)
qed

lemma drain_sorted:
  "queue_ok c q \<Longrightarrow> mset (drain answer q) = mset (qu_pending q) \<and> sorted (map order_key (drain answer q))"
proof (induction answer q rule: drain.induct)
  case (1 answer q)
  show ?case
  proof (cases "front q")
    case None
    then have "qu_pending q = []" by (simp add: front_None)
    then show ?thesis using None by (simp add: drain.simps [of answer q])
  next
    case (Some p)
    let ?q = "snd (resolve (pr_id p) (answer p) q)"
    have step: "queue_ok c ?q" "mset (qu_pending q) = add_mset p (mset (qu_pending ?q))"
      using resolve_front [OF "1.prems" Some] by blast+
    then have rest: "mset (drain answer ?q) = mset (qu_pending ?q)" "sorted (map order_key (drain answer ?q))"
      using "1.IH" [OF Some] by blast+
    have "\<forall>y \<in> set (drain answer ?q). order_key p \<le> order_key y"
      using front_Some(2) [OF Some] rest(1) step(2) by (metis mset_eq_setD set_mset_add_mset_insert set_mset_mset insertCI)
    then show ?thesis using Some step rest by (simp add: drain.simps [of answer q])
  qed
qed

section \<open>The parts of the invariant\<close>

definition queue_inv :: "capability \<Rightarrow> 'w world \<Rightarrow> bool" where
  "queue_inv c x \<longleftrightarrow> ss_capability (wd_state x) = c \<and> queue_ok c (ss_queue (wd_state x))"

definition waiting :: "'w shared_state \<Rightarrow> 'w list" where
  "waiting s = concat (map snd (ss_waiters s))"

definition account_inv :: "'w world \<Rightarrow> bool" where
  "account_inv x \<longleftrightarrow>
     distinct (map fst (ss_waiters (wd_state x))) \<and>
     fst ` set (ss_waiters (wd_state x)) = pr_id ` set (qu_pending (ss_queue (wd_state x))) \<and>
     mset (map fst (wd_asked x)) =
       mset (waiting (wd_state x)) + mset (concat (map snd (wd_inflight x))) + mset (map fst (wd_answers x))"

text \<open>Who waits has asked in the name of the given app.\<close>

definition asked_as :: "'w world \<Rightarrow> string \<Rightarrow> 'w \<Rightarrow> bool" where
  "asked_as x app w \<longleftrightarrow> (\<exists>r. (w, r) \<in> set (wd_asked x) \<and> grant_recipient (cq_requester r) = app)"

definition decision_ok :: "resolved_decision \<Rightarrow> bool" where
  "decision_ok d \<longleftrightarrow> (\<forall>g. rd_grant d = Some g \<longrightarrow>
     cg_recipient g = rd_recipient d \<and> mints_grant (rd_reply d) \<and>
     cg_revocation_handle g = revocation_handle (cg_recipient g) (cg_class g) (cg_scope g))"

definition owner_inv :: "'w world \<Rightarrow> bool" where
  "owner_inv x \<longleftrightarrow>
     (\<forall>p \<in> set (qu_pending (ss_queue (wd_state x))). \<forall>ws. map_of (ss_waiters (wd_state x)) (pr_id p) = Some ws \<longrightarrow>
        (\<forall>w \<in> set ws. asked_as x (grant_recipient (cq_requester (pr_request p))) w)) \<and>
     (\<forall>(d, ws) \<in> set (wd_inflight x). decision_ok d \<and> (\<forall>w \<in> set ws. asked_as x (rd_recipient d) w)) \<and>
     (\<forall>(w, o') \<in> set (wd_answers x). allowed o' \<longrightarrow>
        (\<exists>d. consent_decision_entry d \<in> set (wd_ledger x) \<and> rd_reply d = o' \<and> asked_as x (rd_recipient d) w))"

definition standing_outcomes :: "string list" where
  "standing_outcomes = [''granted-remembered'', ''granted-for-window'', ''conferred-by-gesture'']"

definition on_record :: "'w world \<Rightarrow> consent_grant \<Rightarrow> bool" where
  "on_record x g \<longleftrightarrow> (\<exists>e \<in> set (wd_ledger x). sr_subject (ir_structural e) = cg_recipient g \<and>
     sr_outcome (ir_structural e) \<in> set standing_outcomes)"

definition grants_inv :: "'w world \<Rightarrow> bool" where
  "grants_inv x \<longleftrightarrow> distinct (map cg_revocation_handle (ss_grants (wd_state x))) \<and>
     (\<forall>g \<in> set (ss_grants (wd_state x)). on_record x g \<and>
        cg_revocation_handle g = revocation_handle (cg_recipient g) (cg_class g) (cg_scope g))"

section \<open>Operations on the parts\<close>

lemma enqueue_cases:
  assumes "enqueue request c q = (e, q')"
  obtains "e = SilentGrant" "q' = q" "classify request c = Silent"
  | p where "e = AlreadyPending (pr_id p)" "q' = q" "p \<in> set (qu_pending q)" "same_question (pr_request p) request"
  | "e = Queued (qu_next_id q)" "qu_pending q' = qu_pending q @ [\<lparr>pr_id = qu_next_id q, pr_request = request,
       pr_tier = classify request c, pr_seq = qu_next_seq q\<rparr>]"
  using assms by (auto simp: enqueue_def Let_def find_Some_iff split: if_splits option.splits)

lemma keys_park [simp]: "fst ` set (park i w m) = insert i (fst ` set m)"
  by (simp add: park_def dom_update)

lemma distinct_park: "distinct (map fst m) \<Longrightarrow> distinct (map fst (park i w m))"
  by (simp add: park_def distinct_update)

lemma mset_update:
  "distinct (map fst m) \<Longrightarrow> mset (concat (map snd (AList.update i (ws @ [w]) m))) + mset (case map_of m i of Some v \<Rightarrow> v | None \<Rightarrow> []) =
     mset (concat (map snd m)) + mset ws + {#w#}"
  by (induction m) (auto simp: map_of_eq_None_iff image_iff ac_simps)

lemma mset_park: "distinct (map fst m) \<Longrightarrow>
    mset (concat (map snd (park i w m))) = add_mset w (mset (concat (map snd m)))"
  using mset_update [of m i "case map_of m i of Some v \<Rightarrow> v | None \<Rightarrow> []" w] by (simp add: park_def)

lemma mset_delete: "distinct (map fst m) \<Longrightarrow>
    mset (concat (map snd m)) = mset (case map_of m i of Some v \<Rightarrow> v | None \<Rightarrow> []) + mset (concat (map snd (AList.delete i m)))"
proof (induction m)
  case (Cons kv m)
  show ?case
  proof (cases "fst kv = i")
    case True
    then have "AList.delete i m = m" and "map_of m i = None"
      using Cons.prems by (auto simp: delete_id map_of_eq_None_iff)
    then show ?thesis using True by (cases kv) simp
  next
    case False
    then show ?thesis using Cons by (cases kv) simp
  qed
qed simp

lemma record_grant_cases:
  obtains xs old ys where "gs = xs @ old # ys" "cg_revocation_handle old = cg_revocation_handle g" "record_grant g gs = xs @ g # ys"
  | "cg_revocation_handle g \<notin> cg_revocation_handle ` set gs" "record_grant g gs = gs @ [g]"
proof (cases "List.extract (\<lambda>x. cg_revocation_handle x = cg_revocation_handle g) gs")
  case None
  then have "cg_revocation_handle g \<notin> cg_revocation_handle ` set gs" by (auto simp: extract_None_iff)
  then show ?thesis using None that(2) by (simp add: record_grant_def)
next
  case (Some r)
  then obtain xs old ys where r: "r = (xs, old, ys)" by (cases r)
  have "gs = xs @ old # ys" "cg_revocation_handle old = cg_revocation_handle g"
    using Some r by (simp_all add: extract_Some_iff)
  moreover have "record_grant g gs = xs @ g # ys" using Some r by (simp add: record_grant_def)
  ultimately show ?thesis by (rule that(1))
qed

lemma record_grant_distinct:
  "distinct (map cg_revocation_handle gs) \<Longrightarrow> distinct (map cg_revocation_handle (record_grant g gs))"
  by (rule record_grant_cases [of gs g]) auto

lemma record_grant_set: "set (record_grant g gs) \<subseteq> insert g (set gs)"
  by (rule record_grant_cases [of gs g]) auto

lemma record_grant_member: "g \<in> set (record_grant g gs)"
  by (rule record_grant_cases [of gs g]) auto

lemma revoke_set:
  assumes "distinct (map cg_revocation_handle gs)" and "revoke handle gs = (removed, gs')"
  shows "set gs' = {g \<in> set gs. cg_revocation_handle g \<noteq> handle}" and "distinct (map cg_revocation_handle gs')"
  using assms by (auto simp: revoke_def extract_None_iff extract_Some_iff image_iff split: option.splits)

section \<open>The invariant holds\<close>

lemma asked_as_mono: "asked_as x app w \<Longrightarrow> set (wd_asked x) \<subseteq> set (wd_asked y) \<Longrightarrow> asked_as y app w"
  by (auto simp: asked_as_def)

lemma queue_inv_run: "broker_run c x \<Longrightarrow> queue_inv c x"
proof (induction rule: broker_run.induct)
  case boot
  then show ?case by (simp add: queue_inv_def state_new_def queue_ok_new)
next
  case (intake x now body peer w res s)
  then show ?case
    by (auto simp: queue_inv_def Let_def intake_def split: if_splits prod.splits enqueued.splits dest: queue_ok_enqueue)
next
  case (decide x now i o' taken s)
  then show ?case
    by (auto simp: queue_inv_def resolve_begin_def resolve_decision_def resolve_def Let_def
        split: option.splits prod.splits dest: queue_ok_remove)
qed (auto simp: queue_inv_def resolve_finish_def revoke_grant_def confer_from_gesture_def Let_def
      split: prod.splits option.splits if_splits)

lemma resolve_begin_Some:
  assumes "resolve_begin now i o' s = (Some taken, s')"
  obtains p xs ys where "qu_pending (ss_queue s) = xs @ p # ys" "pr_id p = i" "qu_pending (ss_queue s') = xs @ ys"
    "ss_waiters s' = AList.delete i (ss_waiters s)" "ss_grants s' = ss_grants s"
    "snd taken = (case map_of (ss_waiters s) i of Some ws \<Rightarrow> ws | None \<Rightarrow> [])"
    "rd_recipient (fst taken) = grant_recipient (cq_requester (pr_request p))"
    "rd_reply (fst taken) = gate_remember (cq_kind (pr_request p)) o'"
    "rd_grant (fst taken) = mint_grant p (rd_reply (fst taken)) now"
proof -
  obtain p rest where r: "remove_id i (qu_pending (ss_queue s)) = Some (p, rest)"
    using assms by (auto simp: resolve_begin_def resolve_decision_def resolve_def split: option.splits)
  then obtain xs ys where "qu_pending (ss_queue s) = xs @ p # ys" "rest = xs @ ys" "pr_id p = i"
    using remove_id_Some by blast
  then show ?thesis
    using that assms r by (auto simp: resolve_begin_def resolve_decision_def resolve_def Let_def)
qed

lemma mint_grant_ok:
  "mint_grant p o' now = Some g \<Longrightarrow> cg_recipient g = grant_recipient (cq_requester (pr_request p)) \<and> mints_grant o' \<and>
     cg_class g = cq_class (pr_request p) \<and> cg_scope g = cq_scope (pr_request p) \<and>
     cg_revocation_handle g = revocation_handle (cg_recipient g) (cg_class g) (cg_scope g)"
  by (auto simp: mint_grant_def Let_def split: if_splits)

lemma intake_cases:
  assumes "intake now body peer w s = (res, s')"
  obtains (at_once) "s' = s" "\<And>r asked. note_asked w r res asked = asked"
  | (parked) p b where "res = Pending (pr_id p) b" "ss_waiters s' = park (pr_id p) w (ss_waiters s)" "ss_grants s' = ss_grants s"
      "p \<in> set (qu_pending (ss_queue s'))" "set (qu_pending (ss_queue s')) = insert p (set (qu_pending (ss_queue s)))"
      "grant_recipient (cq_requester (pr_request p)) = grant_recipient (cq_requester (request_from body peer))"
      "b \<or> pr_id p = qu_next_id (ss_queue s)"
proof -
  let ?r = "request_from body peer"
  obtain e q' where e: "enqueue ?r (ss_capability s) (ss_queue s) = (e, q')" by force
  note unfolded = assms [unfolded intake_def, folded request_from_def]
  show ?thesis
  proof (cases "rb_check_only body \<or> classify ?r (ss_capability s) = Standard \<and> \<not> cq_triggered ?r \<and> covers (ss_grants s) ?r now")
    case True
    then show ?thesis using unfolded at_once by (auto simp: Let_def note_asked_def split: if_splits)
  next
    case False
    from e show ?thesis
    proof (cases rule: enqueue_cases)
      case 1
      then show ?thesis using unfolded e False at_once by (auto simp: Let_def note_asked_def)
    next
      case (2 p)
      then have "set (qu_pending (ss_queue s)) = insert p (set (qu_pending (ss_queue s)))" by (simp add: insert_absorb)
      then show ?thesis using unfolded e False 2 parked [of p True]
        by (auto simp: Let_def same_question_def display_id_def grant_recipient_def)
    next
      case 3
      let ?p = "\<lparr>pr_id = qu_next_id (ss_queue s), pr_request = ?r, pr_tier = classify ?r (ss_capability s),
        pr_seq = qu_next_seq (ss_queue s)\<rparr>"
      show ?thesis using unfolded e False 3 parked [of ?p False] by (auto simp: Let_def)
    qed
  qed
qed

lemma resolve_finish_facts:
  assumes "resolve_finish audited taken s = (res, answers, s')"
  shows "ss_queue s' = ss_queue s" "ss_waiters s' = ss_waiters s" "map fst answers = snd taken"
    "set answers \<subseteq> set (snd taken) \<times> {if audited then rd_reply (fst taken) else Denied}"
    "ss_grants s' = (case if audited then rd_grant (fst taken) else None of
       Some g \<Rightarrow> record_grant g (ss_grants s) | None \<Rightarrow> ss_grants s)"
  using assms by (cases audited; cases taken; auto simp: resolve_finish_def Let_def comp_def split: option.splits)+

lemma account_inv_intake:
  assumes "account_inv x" and "intake now body peer w (wd_state x) = (res, s)"
  shows "account_inv (x\<lparr>wd_state := s, wd_asked := note_asked w (request_from body peer) res (wd_asked x)\<rparr>)"
  using assms(2)
proof (cases rule: intake_cases)
  case at_once
  then show ?thesis using assms(1) by (simp add: account_inv_def)
next
  case (parked p b)
  then show ?thesis using assms(1)
    by (simp add: account_inv_def waiting_def note_asked_def distinct_park mset_park)
qed

lemma account_inv_decide:
  assumes "queue_inv c x" and "account_inv x" and "resolve_begin now i o' (wd_state x) = (Some taken, s)"
  shows "account_inv (x\<lparr>wd_state := s, wd_inflight := wd_inflight x @ [taken]\<rparr>)"
  using assms(3)
proof (rule resolve_begin_Some)
  fix p xs ys
  assume p: "qu_pending (ss_queue (wd_state x)) = xs @ p # ys" "pr_id p = i" "qu_pending (ss_queue s) = xs @ ys"
    and w: "ss_waiters s = AList.delete i (ss_waiters (wd_state x))"
    and taken: "snd taken = (case map_of (ss_waiters (wd_state x)) i of Some ws \<Rightarrow> ws | None \<Rightarrow> [])"
  have acc: "distinct (map fst (ss_waiters (wd_state x)))"
    "fst ` set (ss_waiters (wd_state x)) = pr_id ` set (xs @ p # ys)"
    using assms(2) p(1) by (simp_all add: account_inv_def)
  have "queue_ok c (ss_queue (wd_state x))" using assms(1) by (simp add: queue_inv_def)
  then have "distinct (map pr_id (xs @ p # ys))" using queue_ok_distinct p(1) by metis
  then have "i \<notin> pr_id ` set (xs @ ys)" using p(2) by auto
  moreover have "pr_id ` set (xs @ p # ys) = insert i (pr_id ` set (xs @ ys))" using p(2) by auto
  ultimately have "pr_id ` set (xs @ ys) = pr_id ` set (xs @ p # ys) - {i}" by simp
  moreover have "fst ` set (ss_waiters s) = fst ` set (ss_waiters (wd_state x)) - {i}"
    unfolding w by (auto simp: AList.delete_eq)
  ultimately have "fst ` set (ss_waiters s) = pr_id ` set (qu_pending (ss_queue s))" using acc(2) p(3) by simp
  moreover have "distinct (map fst (ss_waiters s))" unfolding w using acc(1) by (rule distinct_delete)
  moreover have "mset (waiting (wd_state x)) = mset (snd taken) + mset (waiting s)"
    unfolding waiting_def taken w by (rule mset_delete [OF acc(1)])
  ultimately show ?thesis using assms(2) by (simp add: account_inv_def ac_simps)
qed

lemma account_inv_run: "broker_run c x \<Longrightarrow> account_inv x"
proof (induction rule: broker_run.induct)
  case boot
  then show ?case by (simp add: account_inv_def waiting_def state_new_def queue_new_def)
next
  case (intake x now body peer w res s)
  then show ?case by (blast intro: account_inv_intake)
next
  case (decide x now i o' taken s)
  then show ?case by (blast intro: account_inv_decide queue_inv_run)
next
  case (finish x before taken after audited res answers s)
  then show ?case
    using resolve_finish_facts [OF finish.hyps(3)]
    by (simp add: account_inv_def waiting_def ac_simps flip: mset_map)
next
  case (revoke x handle removed s audited)
  have "ss_waiters s = ss_waiters (wd_state x)" "ss_queue s = ss_queue (wd_state x)"
    using revoke.hyps(2) by (auto simp: revoke_grant_def split: prod.splits)
  then show ?case using revoke.IH by (simp add: account_inv_def waiting_def)
next
  case (confer x audited recipient path ok s conferrer)
  have "ss_waiters s = ss_waiters (wd_state x)" "ss_queue s = ss_queue (wd_state x)"
    using confer.hyps(2) by (auto simp: confer_from_gesture_def split: if_splits)
  then show ?case using confer.IH by (simp add: account_inv_def waiting_def)
qed

lemma map_of_park: "map_of (park i w m) j =
    (if j = i then Some ((case map_of m i of Some ws \<Rightarrow> ws | None \<Rightarrow> []) @ [w]) else map_of m j)"
  by (simp add: park_def update_conv')

lemma asked_mono: "set (wd_asked x) \<subseteq> set (note_asked w r res (wd_asked x))"
  by (auto simp: note_asked_def split: intake_outcome.splits)

lemma pending_unique:
  assumes "queue_inv c x" and "p \<in> set (qu_pending (ss_queue (wd_state x)))" and "q \<in> set (qu_pending (ss_queue (wd_state x)))"
    and "pr_id p = pr_id q"
  shows "p = q"
  using assms queue_ok_distinct [of c "ss_queue (wd_state x)"] by (auto simp: queue_inv_def distinct_map dest: inj_onD)

lemma owner_inv_intake:
  assumes "account_inv x" and "owner_inv x" and "intake now body peer w (wd_state x) = (res, s)"
    and "queue_inv c (x\<lparr>wd_state := s, wd_asked := note_asked w (request_from body peer) res (wd_asked x)\<rparr>)"
  shows "owner_inv (x\<lparr>wd_state := s, wd_asked := note_asked w (request_from body peer) res (wd_asked x)\<rparr>)"
    (is "owner_inv ?y")
proof -
  have mono: "asked_as ?y app v" if "asked_as x app v" for app v
    using that by (rule asked_as_mono) (simp add: asked_mono)
  have pending: "asked_as ?y (grant_recipient (cq_requester (pr_request q))) v"
    if q: "q \<in> set (qu_pending (ss_queue s))" "map_of (ss_waiters s) (pr_id q) = Some ws" "v \<in> set ws" for q ws v
    using assms(3)
  proof (cases rule: intake_cases)
    case at_once
    then show ?thesis using q assms(2) mono by (auto simp: owner_inv_def)
  next
    case (parked p b)
    have old: "asked_as x (grant_recipient (cq_requester (pr_request q))) v"
      if "map_of (ss_waiters (wd_state x)) (pr_id q) = Some us" "v \<in> set us" for us
    proof -
      have "pr_id q \<in> fst ` set (ss_waiters (wd_state x))" using that(1) by (force dest: map_of_SomeD)
      then have "pr_id q \<in> pr_id ` set (qu_pending (ss_queue (wd_state x)))" using assms(1) by (simp add: account_inv_def)
      then obtain q' where q': "q' \<in> set (qu_pending (ss_queue (wd_state x)))" "pr_id q' = pr_id q" by auto
      then have "q' = q" using pending_unique [OF assms(4), of q' q] parked q(1) by simp
      then show ?thesis using q' that assms(2) by (auto simp: owner_inv_def)
    qed
    show ?thesis
    proof (cases "pr_id q = pr_id p")
      case True
      then have "q = p" using pending_unique [OF assms(4), of q p] parked q(1) by simp
      then have "asked_as ?y (grant_recipient (cq_requester (pr_request q))) w"
        using parked by (auto simp: asked_as_def note_asked_def)
      then show ?thesis
        using q parked True old mono by (auto simp: map_of_park split: option.splits)
    next
      case False
      then show ?thesis using q parked old mono by (auto simp: map_of_park)
    qed
  qed
  then show ?thesis using assms(2) mono unfolding owner_inv_def by fastforce
qed

lemma decision_ok_begin:
  assumes "rd_recipient d = grant_recipient (cq_requester (pr_request p))" and "rd_grant d = mint_grant p (rd_reply d) now"
  shows "decision_ok d"
  using assms by (auto simp: decision_ok_def dest!: mint_grant_ok)

lemma owner_inv_decide:
  assumes "owner_inv x" and "resolve_begin now i o' (wd_state x) = (Some taken, s)"
  shows "owner_inv (x\<lparr>wd_state := s, wd_inflight := wd_inflight x @ [taken]\<rparr>)" (is "owner_inv ?y")
  using assms(2)
proof (rule resolve_begin_Some)
  fix p xs ys
  assume p: "qu_pending (ss_queue (wd_state x)) = xs @ p # ys" "pr_id p = i" "qu_pending (ss_queue s) = xs @ ys"
    and w: "ss_waiters s = AList.delete i (ss_waiters (wd_state x))"
    and taken: "snd taken = (case map_of (ss_waiters (wd_state x)) i of Some ws \<Rightarrow> ws | None \<Rightarrow> [])"
    and d: "rd_recipient (fst taken) = grant_recipient (cq_requester (pr_request p))"
      "rd_grant (fst taken) = mint_grant p (rd_reply (fst taken)) now"
  have same: "asked_as ?y = asked_as x" by (simp add: asked_as_def fun_eq_iff)
  have "\<forall>q \<in> set (qu_pending (ss_queue s)). \<forall>ws. map_of (ss_waiters s) (pr_id q) = Some ws \<longrightarrow>
      (\<forall>w \<in> set ws. asked_as x (grant_recipient (cq_requester (pr_request q))) w)"
    using assms(1) p unfolding owner_inv_def w by (auto simp: delete_conv' split: if_splits)
  moreover have "\<forall>w \<in> set (snd taken). asked_as x (rd_recipient (fst taken)) w"
    using assms(1) p taken d(1) unfolding owner_inv_def by (auto split: option.splits)
  ultimately show ?thesis
    using assms(1) decision_ok_begin [OF d] unfolding owner_inv_def same by (auto simp: case_prod_beta)
qed

lemma owner_inv_finish:
  assumes "owner_inv x" and "wd_inflight x = before @ taken # after"
    and "resolve_finish audited taken (wd_state x) = (res, answers, s)"
  shows "owner_inv (x\<lparr>wd_state := s, wd_inflight := before @ after,
      wd_ledger := (if audited then wd_ledger x @ [consent_decision_entry (fst taken)] else wd_ledger x),
      wd_answers := wd_answers x @ answers\<rparr>)" (is "owner_inv ?y")
proof -
  note s = resolve_finish_facts [OF assms(3)]
  have same: "asked_as ?y = asked_as x" by (simp add: asked_as_def fun_eq_iff)
  have owned: "\<forall>w \<in> set (snd taken). asked_as x (rd_recipient (fst taken)) w"
    using assms(1,2) by (cases taken) (auto simp: owner_inv_def)
  have new: "\<exists>d. consent_decision_entry d \<in> set (wd_ledger ?y) \<and> rd_reply d = o' \<and> asked_as x (rd_recipient d) w"
    if "(w, o') \<in> set answers" "allowed o'" for w o'
    using s(4) that owned by (cases audited) (auto simp: allowed_def intro!: exI [of _ "fst taken"])
  have old: "\<exists>d. consent_decision_entry d \<in> set (wd_ledger ?y) \<and> rd_reply d = o' \<and> asked_as x (rd_recipient d) w"
    if "(w, o') \<in> set (wd_answers x)" "allowed o'" for w o'
    using assms(1) that by (fastforce simp: owner_inv_def)
  show ?thesis
    using assms(1,2) new old s(1,2) unfolding owner_inv_def same by auto
qed

lemma owner_inv_run: "broker_run c x \<Longrightarrow> owner_inv x"
proof (induction rule: broker_run.induct)
  case boot
  then show ?case by (simp add: owner_inv_def state_new_def queue_new_def)
next
  case (intake x now body peer w res s)
  then show ?case
    by (intro owner_inv_intake queue_inv_run broker_run.intake account_inv_run)
next
  case (decide x now i o' taken s)
  then show ?case by (blast intro: owner_inv_decide)
next
  case (finish x before taken after audited res answers s)
  then show ?case by (blast intro: owner_inv_finish)
next
  case (revoke x handle removed s audited)
  have "ss_waiters s = ss_waiters (wd_state x)" "ss_queue s = ss_queue (wd_state x)"
    using revoke.hyps(2) by (auto simp: revoke_grant_def split: prod.splits)
  then show ?case using revoke.IH by (fastforce simp: owner_inv_def asked_as_def split: option.splits)
next
  case (confer x audited recipient path ok s conferrer)
  have "ss_waiters s = ss_waiters (wd_state x)" "ss_queue s = ss_queue (wd_state x)"
    using confer.hyps(2) by (auto simp: confer_from_gesture_def split: if_splits)
  then show ?case using confer.IH by (fastforce simp: owner_inv_def asked_as_def)
qed

lemma grants_inv_run: "broker_run c x \<Longrightarrow> grants_inv x"
proof (induction rule: broker_run.induct)
  case boot
  then show ?case by (simp add: grants_inv_def state_new_def)
next
  case (intake x now body peer w res s)
  from intake.hyps(3) have "ss_grants s = ss_grants (wd_state x)" by (rule intake_cases) simp_all
  then show ?case using intake.IH by (simp add: grants_inv_def on_record_def)
next
  case (decide x now i o' taken s)
  from decide.hyps(2) have "ss_grants s = ss_grants (wd_state x)" by (rule resolve_begin_Some)
  then show ?case using decide.IH by (simp add: grants_inv_def on_record_def)
next
  case (finish x before taken after audited res answers s)
  note s = resolve_finish_facts(5) [OF finish.hyps(3)]
  have "decision_ok (fst taken)"
    using owner_inv_run [OF finish.hyps(1)] finish.hyps(2) by (cases taken) (auto simp: owner_inv_def)
  then have new: "on_record (x\<lparr>wd_ledger := wd_ledger x @ [consent_decision_entry (fst taken)]\<rparr>) g \<and>
      cg_revocation_handle g = revocation_handle (cg_recipient g) (cg_class g) (cg_scope g)"
    if "rd_grant (fst taken) = Some g" for g
    using that by (auto simp: decision_ok_def on_record_def standing_outcomes_def consent_decision_entry_def
        permission_entry_def mints_grant_def)
  show ?case
  proof (cases "if audited then rd_grant (fst taken) else None")
    case None
    then show ?thesis using finish.IH s by (auto simp: grants_inv_def on_record_def)
  next
    case (Some g)
    then have "audited" "rd_grant (fst taken) = Some g" by (auto split: if_splits)
    then show ?thesis
      using finish.IH s new [of g] record_grant_set [of g "ss_grants (wd_state x)"]
      by (auto simp: grants_inv_def on_record_def record_grant_distinct)
  qed
next
  case (revoke x handle removed s audited)
  obtain gs where gs: "revoke handle (ss_grants (wd_state x)) = (removed, gs)" "s = (wd_state x)\<lparr>ss_grants := gs\<rparr>"
    using revoke.hyps(2) by (auto simp: revoke_grant_def split: prod.splits)
  have "distinct (map cg_revocation_handle (ss_grants (wd_state x)))" using revoke.IH by (simp add: grants_inv_def)
  from revoke_set [OF this gs(1)] show ?case
    using revoke.IH gs(2) by (fastforce simp: grants_inv_def on_record_def split: option.splits)
next
  case (confer x audited recipient path ok s conferrer)
  show ?case
  proof (cases audited)
    case True
    then have "ss_grants s = record_grant (grant_from_gesture recipient path) (ss_grants (wd_state x))"
      using confer.hyps(2) by (auto simp: confer_from_gesture_def)
    then show ?thesis
      using confer.IH True record_grant_set [of "grant_from_gesture recipient path" "ss_grants (wd_state x)"]
      by (auto simp: grants_inv_def on_record_def record_grant_distinct grant_from_gesture_def standing_outcomes_def
          gesture_conferral_entry_def permission_entry_def)
  next
    case False
    then show ?thesis using confer by (simp add: confer_from_gesture_def grants_inv_def on_record_def)
  qed
qed

section \<open>Answering everything\<close>

text \<open>The dialogs answered one after the other, each with its ledger write, until none is left.\<close>

lemma resolve_begin_front:
  assumes "front (ss_queue s) = Some p"
  obtains taken s' where "resolve_begin now (pr_id p) o' s = (Some taken, s')"
    "length (qu_pending (ss_queue s')) < length (qu_pending (ss_queue s))"
proof -
  obtain r rest where r: "remove_id (pr_id p) (qu_pending (ss_queue s)) = Some (r, rest)"
    using front_Some(1) [OF assms] remove_id_None [of "pr_id p" "qu_pending (ss_queue s)"] by force
  then have "length rest < length (qu_pending (ss_queue s))" using remove_id_Some by fastforce
  then show ?thesis
    using r that by (auto simp: resolve_begin_def resolve_decision_def resolve_def Let_def)
qed

lemma settle_shrinks:
  assumes "front (ss_queue s) = Some p" and "resolve_begin now (pr_id p) o' s = (Some taken, s')"
    and "resolve_finish audited taken s' = (res, answers, s'')"
  shows "length (qu_pending (ss_queue s'')) < length (qu_pending (ss_queue s))"
proof -
  obtain taken' t where "resolve_begin now (pr_id p) o' s = (Some taken', t)"
    "length (qu_pending (ss_queue t)) < length (qu_pending (ss_queue s))"
    using assms(1) by (rule resolve_begin_front)
  then show ?thesis using assms(2) resolve_finish_facts(1) [OF assms(3)] by simp
qed

function settle ::
  "(pending_request \<Rightarrow> consent_outcome) \<Rightarrow> (pending_request \<Rightarrow> bool) \<Rightarrow> int \<Rightarrow> 'w shared_state \<Rightarrow> ('w \<times> consent_outcome) list" where
  "settle answer audit now s =
     (case front (ss_queue s) of
        None \<Rightarrow> []
      | Some p \<Rightarrow>
          (case resolve_begin now (pr_id p) (answer p) s of
             (None, _) \<Rightarrow> []
           | (Some taken, s') \<Rightarrow>
               (case resolve_finish (audit p) taken s' of
                  (_, answers, s'') \<Rightarrow> answers @ settle answer audit now s'')))"
  by pat_completeness auto
termination
  by (relation "measure (\<lambda>(_, _, _, s). length (qu_pending (ss_queue s)))")
     (auto intro: settle_shrinks [OF _ sym sym])

declare settle.simps [simp del]

definition state_ok :: "capability \<Rightarrow> 'w shared_state \<Rightarrow> bool" where
  "state_ok c s \<longleftrightarrow> ss_capability s = c \<and> queue_ok c (ss_queue s) \<and> distinct (map fst (ss_waiters s)) \<and>
     fst ` set (ss_waiters s) = pr_id ` set (qu_pending (ss_queue s))"

definition quiet :: "'w shared_state \<Rightarrow> consent_request \<Rightarrow> 'w world" where
  "quiet s r = \<lparr>wd_state = s, wd_inflight = [], wd_ledger = [], wd_answers = [], wd_asked = map (\<lambda>w. (w, r)) (waiting s)\<rparr>"

lemma begin_accounts:
  assumes "state_ok c s" and "resolve_begin now i o' s = (Some taken, s')"
  shows "state_ok c s' \<and> mset (waiting s) = mset (snd taken) + mset (waiting s')"
proof -
  obtain r :: consent_request where "True" by simp
  have inv: "queue_inv c (quiet s r)" "account_inv (quiet s r)"
    using assms(1) by (simp_all add: state_ok_def queue_inv_def account_inv_def quiet_def comp_def)
  have "resolve_begin now i o' (wd_state (quiet s r)) = (Some taken, s')" using assms(2) by (simp add: quiet_def)
  from account_inv_decide [OF inv this]
  have acc: "account_inv \<lparr>wd_state = s', wd_inflight = [taken], wd_ledger = [], wd_answers = [], wd_asked = map (\<lambda>w. (w, r)) (waiting s)\<rparr>"
    by (simp add: quiet_def)
  have "ss_capability s' = c \<and> queue_ok c (ss_queue s')"
    using assms by (auto simp: state_ok_def resolve_begin_def resolve_decision_def resolve_def Let_def
        split: option.splits prod.splits dest: queue_ok_remove)
  then show ?thesis using acc by (simp add: state_ok_def account_inv_def comp_def ac_simps)
qed

lemma state_ok_finish:
  assumes "state_ok c s" and "resolve_finish audited taken s = (res, answers, s')"
  shows "state_ok c s'" and "waiting s' = waiting s"
proof -
  have "ss_capability s' = ss_capability s"
    using assms(2) by (auto simp: resolve_finish_def Let_def split: prod.splits option.splits if_splits)
  then show "state_ok c s'" and "waiting s' = waiting s"
    using assms(1) resolve_finish_facts [OF assms(2)] by (simp_all add: state_ok_def waiting_def)
qed

lemma settle_answers_all:
  "state_ok c s \<Longrightarrow> mset (map fst (settle answer audit now s)) = mset (waiting s)"
proof (induction answer audit now s rule: settle.induct)
  case (1 answer audit now s)
  show ?case
  proof (cases "front (ss_queue s)")
    case None
    then have "fst ` set (ss_waiters s) = {}" using "1.prems" by (simp add: front_None state_ok_def)
    then show ?thesis using None by (simp add: settle.simps [of answer] waiting_def)
  next
    case (Some p)
    obtain taken s1 where b: "resolve_begin now (pr_id p) (answer p) s = (Some taken, s1)"
      using Some by (rule resolve_begin_front)
    obtain res answers s2 where f: "resolve_finish (audit p) taken s1 = (res, answers, s2)" by (metis prod_cases3)
    have s1: "state_ok c s1" "mset (waiting s) = mset (snd taken) + mset (waiting s1)"
      using begin_accounts [OF "1.prems" b] by blast+
    have s2: "state_ok c s2" "waiting s2 = waiting s1" using state_ok_finish [OF s1(1) f] by blast+
    have "mset (map fst (settle answer audit now s2)) = mset (waiting s2)"
      by (rule "1.IH" [OF Some b [symmetric] refl f [symmetric] refl s2(1)])
    moreover have "settle answer audit now s = answers @ settle answer audit now s2"
      using Some b f by (simp add: settle.simps [of answer audit now s])
    ultimately show ?thesis
      using s1(2) s2(2) resolve_finish_facts(3) [OF f] by (metis map_append mset_append)
  qed
qed

lemma state_ok_run: "broker_run c x \<Longrightarrow> state_ok c (wd_state x)"
  using queue_inv_run [of c x] account_inv_run [of c x] by (simp add: state_ok_def queue_inv_def account_inv_def)

section \<open>Properties\<close>

text \<open>C21. Nobody who waits is lost: at every moment everyone left waiting is exactly once at a pending dialog,
  in a decision being recorded or among those answered, and answering the dialogs one after the
  other, whatever the answers and whether or not the ledger can be written, gives everyone at
  a pending dialog exactly one answer.\<close>

theorem nobody_waits_in_vain:
  assumes "broker_run c x"
  shows "mset (map fst (wd_asked x)) =
      mset (waiting (wd_state x)) + mset (concat (map snd (wd_inflight x))) + mset (map fst (wd_answers x)) \<and>
    mset (map fst (settle answer audit now (wd_state x))) = mset (waiting (wd_state x))"
  using account_inv_run [OF assms] settle_answers_all [OF state_ok_run [OF assms]] by (simp add: account_inv_def)

text \<open>C6. Audit before act: in every run, an answer that allows was preceded by the ledger entry of
  a decision with that outcome, in the name of the app the answered request was made for.\<close>

theorem allowing_answers_are_audited:
  assumes "broker_run c x" and "(w, o') \<in> set (wd_answers x)" and "allowed o'"
  shows "\<exists>r d. (w, r) \<in> set (wd_asked x) \<and> rd_recipient d = grant_recipient (cq_requester r) \<and> rd_reply d = o' \<and>
    consent_decision_entry d \<in> set (wd_ledger x)"
proof -
  obtain d where "consent_decision_entry d \<in> set (wd_ledger x)" "rd_reply d = o'" "asked_as x (rd_recipient d) w"
    using owner_inv_run [OF assms(1)] assms(2,3) by (fastforce simp: owner_inv_def)
  then show ?thesis unfolding asked_as_def by metis
qed

text \<open>C29. Standing authority is on record: in every run each remembered grant is in the ledger as
  remembered, given for a window or conferred by a gesture in the name of its recipient, no two
  grants have the same revocation handle, and after revoking the handle of an app, class and scope no
  request of that app, class and scope is covered at any time, while every other grant stays.\<close>

theorem standing_grants_on_record_and_revocable:
  assumes "broker_run c x" and "revoke_grant (revocation_handle app class scope) (wd_state x) = (removed, s)"
  shows "(\<forall>g \<in> set (ss_grants (wd_state x)). on_record x g) \<and>
    distinct (map cg_revocation_handle (ss_grants (wd_state x))) \<and>
    (\<forall>r now. grant_recipient (cq_requester r) = app \<and> cq_class r = class \<and> cq_scope r = scope \<longrightarrow>
       \<not> covers (ss_grants s) r now) \<and>
    set (ss_grants s) = {g \<in> set (ss_grants (wd_state x)). cg_revocation_handle g \<noteq> revocation_handle app class scope}"
proof -
  note inv = grants_inv_run [OF assms(1)]
  obtain gs where gs: "revoke (revocation_handle app class scope) (ss_grants (wd_state x)) = (removed, gs)" "ss_grants s = gs"
    using assms(2) by (auto simp: revoke_grant_def split: prod.splits)
  have left: "set (ss_grants s) = {g \<in> set (ss_grants (wd_state x)). cg_revocation_handle g \<noteq> revocation_handle app class scope}"
    using revoke_set(1) [OF _ gs(1)] inv gs(2) by (simp add: grants_inv_def)
  moreover have "\<not> covers (ss_grants s) r now"
    if r: "grant_recipient (cq_requester r) = app \<and> cq_class r = class \<and> cq_scope r = scope" for r now
  proof
    assume "covers (ss_grants s) r now"
    then obtain g where g: "g \<in> set (ss_grants s)" "cg_recipient g = app" "cg_class g = class" "cg_scope g = scope"
      using r by (auto simp: covers_def list_ex_iff)
    then have "cg_revocation_handle g = revocation_handle app class scope"
      using inv left by (auto simp: grants_inv_def)
    then show False using g(1) left by simp
  qed
  ultimately show ?thesis using inv by (auto simp: grants_inv_def)
qed

lemma classify_cases:
  "classify r c = Silent \<longleftrightarrow> cq_kind r = Ordinary \<and> \<not> cq_triggered r \<and> is_autonomous (ca_actions c) (grant_recipient (cq_requester r))"
  "classify r c = HighStakes \<longleftrightarrow> cq_kind r \<noteq> Ordinary \<or> cq_triggered r"
  by (cases "ap_default_mode (ca_actions c)";
      auto simp: classify_def decide_def always_requires_confirmation_def mode_for_def is_autonomous_def)+

lemma tier_cases: "classify r c = Standard \<longleftrightarrow> classify r c \<noteq> Silent \<and> classify r c \<noteq> HighStakes"
  by (cases "classify r c") simp_all

text \<open>The exact condition of a grant without a dialog: a request is granted silently exactly
  when it is no mere check, its action is an ordinary one, it was not triggered by external content, and
  its app is individually enabled for autonomy or a live grant covers the same app, class and scope.\<close>

theorem silently_granted_iff:
  "fst (intake now body peer w s) = SilentGranted \<longleftrightarrow>
     \<not> rb_check_only body \<and> rb_kind body = Ordinary \<and> \<not> rb_triggered body \<and>
     (is_autonomous (ca_actions (ss_capability s)) (grant_recipient (cq_requester (request_from body peer))) \<or>
      covers (ss_grants s) (request_from body peer) now)"
proof -
  let ?r = "request_from body peer" and ?c = "ss_capability s"
  have r: "cq_kind ?r = rb_kind body" "cq_triggered ?r = rb_triggered body"
    by (simp_all add: request_from_def assemble_def)
  obtain e q' where e: "enqueue ?r ?c (ss_queue s) = (e, q')" by force
  have silent: "e = SilentGrant \<longleftrightarrow> classify ?r ?c = Silent"
    using e by (auto simp: enqueue_def Let_def split: if_splits option.splits)
  have "fst (intake now body peer w s) = SilentGranted \<longleftrightarrow> \<not> rb_check_only body \<and>
      (classify ?r ?c = Standard \<and> \<not> cq_triggered ?r \<and> covers (ss_grants s) ?r now \<or> e = SilentGrant)"
    using e unfolding intake_def request_from_def [symmetric] by (auto simp: Let_def split: enqueued.splits)
  then show ?thesis unfolding silent tier_cases classify_cases r by blast
qed

text \<open>The dialogs come in the order of their stakes: when every pending dialog is answered in turn
  they are shown exactly in the order of a sort by severity, high stakes first, and by arrival
  within one severity.\<close>

theorem dialogs_by_severity_then_arrival:
  assumes "broker_run c x"
  shows "drain answer (ss_queue (wd_state x)) = sort_key order_key (qu_pending (ss_queue (wd_state x)))"
proof -
  have ok: "queue_ok c (ss_queue (wd_state x))" using queue_inv_run [OF assms] by (simp add: queue_inv_def)
  then have "sort_key order_key (qu_pending (ss_queue (wd_state x))) = drain answer (ss_queue (wd_state x))"
    using drain_sorted [OF ok, of answer] queue_ok_distinct [OF ok] by (intro sort_key_inj_key_eq) simp_all
  then show ?thesis by simp
qed

text \<open>An answer decides the dialog that was shown and no more: it removes exactly the pending
  request with that identifier, the reply is the user's outcome except that an allowance beyond this one
  occurrence becomes a single one unless the action is fully reversible, and a grant is minted
  exactly for such a lasting allowance, in the name of the app that was displayed.\<close>

theorem decision_follows_the_dialog:
  assumes "queue_ok c q" and "p \<in> set (qu_pending q)"
  shows "\<exists>d q'. resolve_decision (pr_id p) o' now q = (Some d, q') \<and>
    mset (qu_pending q) = add_mset p (mset (qu_pending q')) \<and>
    rd_reply d = (if mints_grant o' \<and> cq_kind (pr_request p) \<noteq> Ordinary then AllowedOnce else o') \<and>
    rd_recipient d = pv_requester (view_of p) \<and>
    (case rd_grant d of
       None \<Rightarrow> \<not> (mints_grant o' \<and> cq_kind (pr_request p) = Ordinary)
     | Some g \<Rightarrow> mints_grant o' \<and> cq_kind (pr_request p) = Ordinary \<and> cg_recipient g = pv_requester (view_of p) \<and>
         cg_class g = pv_class (view_of p) \<and> cg_scope g = pv_scope (view_of p))"
proof -
  obtain r rest where r: "remove_id (pr_id p) (qu_pending q) = Some (r, rest)"
    using assms(2) remove_id_None [of "pr_id p" "qu_pending q"] by force
  then have "pr_id r = pr_id p" "r \<in> set (qu_pending q)" using remove_id_Some by fastforce+
  then have "r = p" using queue_ok_distinct [OF assms(1)] assms(2) by (auto simp: distinct_map dest: inj_onD)
  let ?o = "if mints_grant o' \<and> cq_kind (pr_request p) \<noteq> Ordinary then AllowedOnce else o'"
  have "reversibility_of k = Reversible \<longleftrightarrow> k = Ordinary" for k by (cases k) simp_all
  then have gate: "gate_remember (cq_kind (pr_request p)) o' = ?o"
    by (simp add: gate_remember_def mints_grant_def)
  let ?d = "\<lparr>rd_recipient = grant_recipient (cq_requester (pr_request p)), rd_reply = ?o,
    rd_mediated_by = aq_mediator (cq_requester (pr_request p)), rd_grant = mint_grant p ?o now\<rparr>"
  have "resolve_decision (pr_id p) o' now q = (Some ?d, q\<lparr>qu_pending := rest\<rparr>)"
    using r \<open>r = p\<close> gate by (simp add: resolve_decision_def resolve_def Let_def)
  moreover have "mset (qu_pending q) = add_mset p (mset rest)"
    using remove_id_Some [OF r] \<open>r = p\<close> by auto
  moreover have "case mint_grant p ?o now of None \<Rightarrow> \<not> (mints_grant o' \<and> cq_kind (pr_request p) = Ordinary)
     | Some g \<Rightarrow> mints_grant o' \<and> cq_kind (pr_request p) = Ordinary \<and> cg_recipient g = pv_requester (view_of p) \<and>
         cg_class g = pv_class (view_of p) \<and> cg_scope g = pv_scope (view_of p)"
  proof (cases "mint_grant p ?o now")
    case None
    then show ?thesis by (auto simp: mint_grant_def Let_def split: if_splits)
  next
    case (Some g)
    then show ?thesis using mint_grant_ok [OF Some]
      by (simp add: view_of_def display_id_def grant_recipient_def mints_grant_def split: if_splits)
  qed
  ultimately show ?thesis
    by (intro exI [of _ ?d] exI [of _ "q\<lparr>qu_pending := rest\<rparr>"])
       (simp add: view_of_def display_id_def grant_recipient_def)
qed

text \<open>A weak dialog can answer for a strong request: if an ordinary question of an app is
  pending, a later request of the same app, class and scope for an action that always needs a
  confirmation opens no dialog of its own. It joins the pending one, so the one answer, given to a standard
  dialog that shows a reversible action, is also sent to whoever asked for the irreversible one.\<close>

theorem strong_request_joins_weak_dialog:
  assumes "find (\<lambda>p. same_question (pr_request p) (request_from body peer)) (qu_pending (ss_queue s)) = Some p"
    and "pr_tier p = Standard" and "rb_kind body \<noteq> Ordinary" and "\<not> rb_check_only body"
  shows "\<exists>s'. intake now body peer w s = (Pending (pr_id p) True, s') \<and> ss_queue s' = ss_queue s \<and>
    pv_tier (view_of p) = Standard \<and>
    (\<exists>ws. map_of (ss_waiters s') (pr_id p) = Some ws \<and> w \<in> set ws)"
proof -
  let ?r = "request_from body peer"
  have "cq_kind ?r \<noteq> Ordinary" using assms(3) by (simp add: request_from_def assemble_def)
  then have high: "classify ?r (ss_capability s) = HighStakes" by (simp add: classify_cases(2))
  then have "enqueue ?r (ss_capability s) (ss_queue s) = (AlreadyPending (pr_id p), ss_queue s)"
    using assms(1) by (simp add: enqueue_def Let_def)
  then show ?thesis
    using assms(2,4) high unfolding intake_def request_from_def [symmetric]
    by (simp add: Let_def map_of_park view_of_def)
qed

text \<open>Only the trusted shell answers and confers: in a release build a control request of any
  other caller is dropped or leaves queue and waiting requesters as they are and answers nobody; at
  most the settings app takes grants away.\<close>

theorem only_the_shell_decides:
  assumes "handle_control b now audited app request s = Some (reply, answers, s')" and "\<not> bu_debug b"
    and "app \<noteq> ''dev.arlen.desktop-shell''"
  shows "app = ''dev.arlen.settings'' \<and> answers = [] \<and> ss_queue s' = ss_queue s \<and> ss_waiters s' = ss_waiters s \<and>
    set (ss_grants s') \<subseteq> set (ss_grants s)"
proof -
  have gate: "control_op_admitted b app request"
    using assms(1) by (auto simp: handle_control_def split: if_splits)
  then have app: "app = ''dev.arlen.settings''" "is_grant_op request"
    using assms(2,3) by (auto simp: control_op_admitted_def CONTROL_ADMITTED_def GESTURE_ADMITTED_def
        GRANT_MGMT_ADMITTED_def split: if_splits)
  have "revoke h gs = (removed, gs') \<Longrightarrow> set gs' \<subseteq> set gs" for h gs removed gs'
    by (auto simp: revoke_def extract_Some_iff split: option.splits)
  then show ?thesis
    using assms(1) app by (cases request) (fastforce simp: handle_control_def is_grant_op_def revoke_grant_def
        split: if_splits prod.splits)+
qed

section \<open>Witnesses\<close>

text \<open>An agent asks an ordinary question, then for a permanent deletion of the same class and scope;
  the user remembers the one dialog that is shown, and the ledger takes the decision.\<close>

definition demo_body :: "action_kind \<Rightarrow> request_body" where
  "demo_body k = \<lparr>rb_class = AgentAction, rb_kind = k, rb_triggered = False, rb_summary = ''tidy up'', rb_scope = None,
     rb_recipient = None, rb_preview = None, rb_targets = [], rb_total = None, rb_on_behalf_of = None,
     rb_check_only = False\<rparr>"

definition demo_ask :: "action_kind \<Rightarrow> nat \<Rightarrow> nat world \<Rightarrow> nat world" where
  "demo_ask k w x = (case intake 0 (demo_body k) ''agent'' w (wd_state x) of (res, s) \<Rightarrow>
     x\<lparr>wd_state := s, wd_asked := note_asked w (request_from (demo_body k) ''agent'') res (wd_asked x)\<rparr>)"

definition demo_asked :: "nat world" where
  "demo_asked = demo_ask PermanentDelete 2 (demo_ask Ordinary 1
     \<lparr>wd_state = state_new capability_minimal, wd_inflight = [], wd_ledger = [], wd_answers = [], wd_asked = []\<rparr>)"

definition demo_taken :: "(resolved_decision \<times> nat list) option \<times> nat shared_state" where
  "demo_taken = resolve_begin 0 0 AllowedRemembered (wd_state demo_asked)"

definition demo_done :: "nat world" where
  "demo_done = (case resolve_finish True (the (fst demo_taken)) (snd demo_taken) of (_, answers, s) \<Rightarrow>
     demo_asked\<lparr>wd_state := s, wd_inflight := [], wd_ledger := [consent_decision_entry (fst (the (fst demo_taken)))],
       wd_answers := answers\<rparr>)"

lemma demo_asked_run: "broker_run capability_minimal demo_asked"
proof -
  have step: "broker_run c (demo_ask k w x)" if "broker_run c x" "qu_next_id (ss_queue (wd_state x)) \<noteq> - 1" for c k w x
    unfolding demo_ask_def using broker_run.intake [OF that] by (simp split: prod.splits)
  show ?thesis unfolding demo_asked_def
  proof (intro step broker_run.boot)
    show "qu_next_id (ss_queue (wd_state \<lparr>wd_state = state_new capability_minimal :: nat shared_state,
        wd_inflight = [], wd_ledger = [], wd_answers = [], wd_asked = []\<rparr>)) \<noteq> - 1"
      by (simp add: state_new_def queue_new_def)
    show "qu_next_id (ss_queue (wd_state (demo_ask Ordinary 1 \<lparr>wd_state = state_new capability_minimal,
        wd_inflight = [], wd_ledger = [], wd_answers = [], wd_asked = []\<rparr>))) \<noteq> - 1"
      by code_simp
  qed
qed

lemma demo_facts:
  "fst demo_taken \<noteq> None" "wd_inflight demo_asked = []" "wd_ledger demo_asked = []" "wd_answers demo_asked = []"
  "set (wd_answers demo_done) = {(1, AllowedRemembered), (2, AllowedRemembered)}"
  by code_simp+

lemma demo_done_run: "broker_run capability_minimal demo_done"
proof -
  obtain taken s where taken: "resolve_begin 0 0 AllowedRemembered (wd_state demo_asked) = (Some taken, s)"
    using demo_facts(1) unfolding demo_taken_def by (metis eq_fst_iff option.exhaust)
  obtain res answers s' where f: "resolve_finish True taken s = (res, answers, s')" by (metis prod_cases3)
  have "broker_run capability_minimal (demo_asked\<lparr>wd_state := s, wd_inflight := wd_inflight demo_asked @ [taken]\<rparr>)"
    by (rule broker_run.decide [OF demo_asked_run taken])
  from broker_run.finish [OF this, of "[]" taken "[]" True res answers s'] show ?thesis
    using taken f demo_facts by (simp add: demo_done_def demo_taken_def)
qed

theorem nobody_waits_in_vain_witness:
  "mset (map fst (settle (\<lambda>_. Denied) (\<lambda>_. True) 0 (wd_state demo_asked))) = {#1, 2#}"
proof -
  have "waiting (wd_state demo_asked) = [1, 2]" by code_simp
  then show ?thesis
    using nobody_waits_in_vain [OF demo_asked_run, of "\<lambda>_. Denied" "\<lambda>_. True" 0] by simp
qed

theorem allowing_answers_are_audited_witness:
  "\<exists>r d. (2, r) \<in> set (wd_asked demo_done) \<and> rd_reply d = AllowedRemembered \<and> consent_decision_entry d \<in> set (wd_ledger demo_done)"
  using allowing_answers_are_audited [OF demo_done_run, of 2 AllowedRemembered] demo_facts(5)
  by (auto simp: allowed_def)

theorem standing_grants_on_record_and_revocable_witness:
  "set (ss_grants (snd (revoke_grant (revocation_handle ''agent'' AgentAction None) (wd_state demo_done)))) = {} \<and>
   length (ss_grants (wd_state demo_done)) = 1"
proof -
  have "length (ss_grants (wd_state demo_done)) = 1 \<and>
      list_all (\<lambda>g. cg_revocation_handle g = revocation_handle ''agent'' AgentAction None) (ss_grants (wd_state demo_done))"
    by code_simp
  then show ?thesis
    using standing_grants_on_record_and_revocable [OF demo_done_run prod.collapse [symmetric], of "''agent''" AgentAction None]
    by (auto simp: list_all_iff)
qed

theorem dialogs_by_severity_then_arrival_witness:
  "drain (\<lambda>_. Denied) (ss_queue (wd_state demo_asked)) = qu_pending (ss_queue (wd_state demo_asked))"
proof -
  have "length (qu_pending (ss_queue (wd_state demo_asked))) = 1" by code_simp
  then obtain p where "qu_pending (ss_queue (wd_state demo_asked)) = [p]" by (auto simp: length_Suc_conv)
  then show ?thesis using dialogs_by_severity_then_arrival [OF demo_asked_run, of "\<lambda>_. Denied"] by simp
qed

theorem decision_follows_the_dialog_witness:
  "\<exists>p d q. qu_pending (ss_queue (wd_state demo_asked)) = [p] \<and>
     resolve_decision (pr_id p) AllowedRemembered 0 (ss_queue (wd_state demo_asked)) = (Some d, q) \<and> rd_grant d \<noteq> None"
proof -
  have "length (qu_pending (ss_queue (wd_state demo_asked))) = 1 \<and>
      list_all (\<lambda>p. cq_kind (pr_request p) = Ordinary) (qu_pending (ss_queue (wd_state demo_asked)))" by code_simp
  then obtain p where p: "qu_pending (ss_queue (wd_state demo_asked)) = [p]" "cq_kind (pr_request p) = Ordinary"
    by (auto simp: length_Suc_conv)
  have "queue_ok capability_minimal (ss_queue (wd_state demo_asked))"
    using queue_inv_run [OF demo_asked_run] by (simp add: queue_inv_def)
  from decision_follows_the_dialog [OF this, of p AllowedRemembered 0] show ?thesis
    using p by (auto simp: mints_grant_def split: option.splits)
qed

theorem strong_request_joins_weak_dialog_witness:
  "fst (intake 0 (demo_body PermanentDelete) ''agent'' (2 :: nat) (wd_state (demo_ask Ordinary 1
     \<lparr>wd_state = state_new capability_minimal, wd_inflight = [], wd_ledger = [], wd_answers = [], wd_asked = []\<rparr>))) = Pending 0 True"
proof -
  let ?s = "wd_state (demo_ask Ordinary 1
     \<lparr>wd_state = state_new capability_minimal, wd_inflight = [], wd_ledger = [], wd_answers = [], wd_asked = []\<rparr>)"
  have "case find (\<lambda>p. same_question (pr_request p) (request_from (demo_body PermanentDelete) ''agent'')) (qu_pending (ss_queue ?s))
      of Some p \<Rightarrow> pr_tier p = Standard \<and> pr_id p = 0 | None \<Rightarrow> False" by code_simp
  then obtain p where p: "find (\<lambda>p. same_question (pr_request p) (request_from (demo_body PermanentDelete) ''agent''))
      (qu_pending (ss_queue ?s)) = Some p" "pr_tier p = Standard" "pr_id p = 0" by (auto split: option.splits)
  show ?thesis
    using strong_request_joins_weak_dialog [OF p(1,2), of 0 2] p(3) by (auto simp: demo_body_def)
qed

theorem only_the_shell_decides_witness:
  "\<exists>reply answers s. handle_control \<lparr>bu_debug = False, bu_extra_admit = None\<rparr> 0 True ''dev.arlen.settings'' ListGrants
     (wd_state demo_done) = Some (reply, answers, s) \<and> ss_queue s = ss_queue (wd_state demo_done)"
proof -
  let ?b = "\<lparr>bu_debug = False, bu_extra_admit = None\<rparr>"
  have "handle_control ?b 0 True ''dev.arlen.settings'' ListGrants (wd_state demo_done) =
      Some (GrantsReply (ss_grants (wd_state demo_done)), [], wd_state demo_done)"
    by (simp add: handle_control_def control_caller_admitted_def control_op_admitted_def CONTROL_ADMITTED_def
        GRANT_MGMT_ADMITTED_def GESTURE_ADMITTED_def is_grant_op_def)
  from this only_the_shell_decides [OF this] show ?thesis by auto
qed

end
