(* ===== verification/Event_Bus.thy ===== *)
theory Event_Bus
  imports Prelude
begin

text \<open>
  The event bus of the system: the envelope of an event (\<open>daemons/event-bus/proto/event.proto\<close>), its
  validation (\<open>daemons/event-bus/src/validation.rs\<close>), the registry of consumers with its topic
  patterns, user filters, retained snapshots and bounded channels
  (\<open>daemons/event-bus/src/registry.rs\<close>), and the pattern language in which a permission profile
  declares what an application may publish and hear (\<open>sdk/permissions/src/lib.rs\<close>).

  A channel (\<open>tokio::sync::mpsc\<close>) is a queue of at most \<open>CONSUMER_BUFFER\<close> events with one receiver.
  The registry keeps the sending half in the consumer's entry, the connection's task keeps the
  receiving half; here both name the channel by its position in \<open>bu_channels\<close>.
\<close>

section \<open>Events\<close>

record event =
  ev_id :: string
  ev_type :: string
  ev_timestamp :: u64
  ev_source :: string
  ev_pid :: u32
  ev_origin :: string
  ev_payload :: bytes
  ev_uid :: u32
  ev_project_id :: string
  ev_authenticated_origin :: string

datatype validation_error = MissingField string

fun validation_error_text :: "validation_error \<Rightarrow> string" where
  "validation_error_text (MissingField field) = ''missing required field: '' @ field"

definition validate_event :: "event \<Rightarrow> validation_error + unit" where
  "validate_event e =
     (if ev_id e = [] then Inl (MissingField ''id'')
      else if ev_type e = [] then Inl (MissingField ''type'')
      else if ev_source e = [] then Inl (MissingField ''source'')
      else if ev_timestamp e = 0 then Inl (MissingField ''timestamp'')
      else if ev_origin e = [] then Inl (MissingField ''origin'')
      else Inr ())"

section \<open>User filters\<close>

datatype uid_filter = AllUids | Exact u32

definition uid_filter_parse :: "string \<Rightarrow> int_error + uid_filter" where
  "uid_filter_parse line =
     (let s = trim line in
      if s = ''*'' then Inr AllUids else map_sum (\<lambda>e. e) Exact (parse_u32 s))"

fun accepts :: "uid_filter \<Rightarrow> u32 \<Rightarrow> bool" where
  "accepts AllUids u \<longleftrightarrow> True"
| "accepts (Exact v) u \<longleftrightarrow> u = v"

section \<open>Topic patterns\<close>

text \<open>
  Two pattern languages meet on the bus: the one a consumer registers with (\<open>ConsumerEntry::matches\<close>)
  and the one a profile declares with (\<open>pattern_matches\<close>).
\<close>

definition sub_matches :: "string \<Rightarrow> string \<Rightarrow> bool" where
  "sub_matches sub event_type =
     (if sub = ''*'' then True
      else case strip_suffix sub ''.*'' of
        Some pre \<Rightarrow> starts_with event_type pre \<and> starts_with (drop (length pre) event_type) ''.''
      | None \<Rightarrow> (case strip_suffix sub ''.'' of
          Some pre \<Rightarrow> starts_with event_type pre
        | None \<Rightarrow> sub = event_type))"

definition pattern_matches_one :: "string \<Rightarrow> string \<Rightarrow> bool" where
  "pattern_matches_one p v =
     (case strip_suffix p ''.*'' of
        Some pre \<Rightarrow> starts_with v pre \<and> starts_with (drop (length pre) v) ''.''
      | None \<Rightarrow> p = v)"

definition pattern_matches :: "string list \<Rightarrow> string \<Rightarrow> bool" where
  "pattern_matches ps v \<longleftrightarrow> (\<exists>p \<in> set ps. pattern_matches_one p v)"

record event_bus_permissions =
  eb_publish :: "string list"
  eb_subscribe :: "string list option"

definition can_publish :: "event_bus_permissions \<Rightarrow> string \<Rightarrow> bool" where
  "can_publish s t = pattern_matches (eb_publish s) t"

definition can_subscribe :: "event_bus_permissions \<Rightarrow> string \<Rightarrow> bool" where
  "can_subscribe s t = (case eb_subscribe s of None \<Rightarrow> False | Some ps \<Rightarrow> pattern_matches ps t)"

definition declares_subscribe :: "event_bus_permissions \<Rightarrow> bool" where
  "declares_subscribe s \<longleftrightarrow> eb_subscribe s \<noteq> None"

definition reach_summary :: "event_bus_permissions \<Rightarrow> string option" where
  "reach_summary s =
     (let heard = (case eb_subscribe s of None \<Rightarrow> [] | Some [] \<Rightarrow> [''hears nothing'']
                   | Some ps \<Rightarrow> [''hears '' @ join '', '' ps]);
          emitted = (if eb_publish s = [] then [] else [''emits '' @ join '', '' (eb_publish s)]);
          parts = heard @ emitted
      in if parts = [] then None else Some (join ''; '' parts))"

section \<open>The registry\<close>

definition CONSUMER_BUFFER :: nat where "CONSUMER_BUFFER = 1024"

record channel =
  ch_buf :: "event list"
  ch_open :: bool

record consumer_entry =
  ce_id :: string
  ce_subscribed_types :: "string list"
  ce_uid_filter :: uid_filter
  ce_sender :: nat

record bus =
  bu_consumers :: "consumer_entry list"
  bu_retained :: "(string, event) hash_map"
  bu_channels :: "channel list"

definition bus_new :: bus where
  "bus_new = \<lparr>bu_consumers = [], bu_retained = [], bu_channels = []\<rparr>"

definition entry_matches :: "consumer_entry \<Rightarrow> string \<Rightarrow> bool" where
  "entry_matches c t \<longleftrightarrow> (\<exists>sub \<in> set (ce_subscribed_types c). sub_matches sub t)"

definition is_state_topic :: "string \<Rightarrow> bool" where
  "is_state_topic t = ends_with t ''.state''"

datatype send_result = Sent | Full | Closed

definition try_send :: "nat \<Rightarrow> event \<Rightarrow> channel list \<Rightarrow> send_result \<times> channel list" where
  "try_send i e cs =
     (let c = cs ! i in
      if \<not> ch_open c then (Closed, cs)
      else if length (ch_buf c) \<ge> CONSUMER_BUFFER then (Full, cs)
      else (Sent, cs[i := c\<lparr>ch_buf := ch_buf c @ [e]\<rparr>]))"

text \<open>The two checks a delivery makes, live or replayed, and the delivery itself.\<close>

definition wants :: "consumer_entry \<Rightarrow> event \<Rightarrow> bool" where
  "wants c e \<longleftrightarrow> entry_matches c (ev_type e) \<and> accepts (ce_uid_filter c) (ev_uid e)"

definition offer :: "consumer_entry \<Rightarrow> event \<Rightarrow> channel list \<Rightarrow> channel list" where
  "offer c e cs = (if wants c e then snd (try_send (ce_sender c) e cs) else cs)"

definition register :: "string \<Rightarrow> string list \<Rightarrow> uid_filter \<Rightarrow> bus \<Rightarrow> nat \<times> bus" where
  "register name subscribed_types filt b =
     (let i = length (bu_channels b);
          entry = \<lparr>ce_id = name, ce_subscribed_types = subscribed_types, ce_uid_filter = filt, ce_sender = i\<rparr>;
          cs = bu_channels b @ [\<lparr>ch_buf = [], ch_open = True\<rparr>];
          cs' = fold (offer entry) (map snd (bu_retained b)) cs
      in (i, b\<lparr>bu_channels := cs', bu_consumers := bu_consumers b @ [entry]\<rparr>))"

definition unregister :: "string \<Rightarrow> bus \<Rightarrow> bus" where
  "unregister name b = b\<lparr>bu_consumers := filter (\<lambda>c. ce_id c \<noteq> name) (bu_consumers b)\<rparr>"

text \<open>
  \<open>dispatch\<close> writes the retained snapshot under one lock and releases it before it delivers under the
  other, so another task may run between the two halves.
\<close>

definition retain_state :: "event \<Rightarrow> bus \<Rightarrow> bus" where
  "retain_state e b =
     (if is_state_topic (ev_type e) then b\<lparr>bu_retained := AList.update (ev_type e) e (bu_retained b)\<rparr> else b)"

definition deliver :: "event \<Rightarrow> bus \<Rightarrow> bus" where
  "deliver e b = b\<lparr>bu_channels := fold (\<lambda>c. offer c e) (bu_consumers b) (bu_channels b)\<rparr>"

definition dispatch :: "event \<Rightarrow> bus \<Rightarrow> bus" where
  "dispatch e b = deliver e (retain_state e b)"

text \<open>
  \<open>receiver.recv()\<close>: the oldest event; when there is none, the end of the stream once no entry holds
  the sending half any more, and otherwise the task waits.
\<close>

datatype recv_result = Received event | Disconnected | Waiting

definition recv :: "nat \<Rightarrow> bus \<Rightarrow> recv_result \<times> bus" where
  "recv i b =
     (let c = bu_channels b ! i in
      case ch_buf c of
        e # es \<Rightarrow> (Received e, b\<lparr>bu_channels := (bu_channels b)[i := c\<lparr>ch_buf := es\<rparr>]\<rparr>)
      | [] \<Rightarrow> (if \<exists>x \<in> set (bu_consumers b). ce_sender x = i then (Waiting, b) else (Disconnected, b)))"

definition drop_receiver :: "nat \<Rightarrow> bus \<Rightarrow> bus" where
  "drop_receiver i b =
     b\<lparr>bu_channels := (bu_channels b)[i := (bu_channels b ! i)\<lparr>ch_open := False\<rparr>]\<rparr>"

section \<open>The pattern languages compared\<close>

lemma sub_matches_star [simp]: "sub_matches ''*'' t"
  by (simp add: sub_matches_def)

lemma starts_with_dot: "starts_with v pre \<and> starts_with (drop (length pre) v) ''.'' \<longleftrightarrow> (\<exists>r. v = pre @ CHR ''.'' # r)"
  by (auto simp: starts_with_iff)

lemma pattern_matches_one_iff:
  "pattern_matches_one p v \<longleftrightarrow> (p = v \<and> \<not> ends_with p ''.*'') \<or> (\<exists>pre r. p = pre @ ''.*'' \<and> v = pre @ CHR ''.'' # r)"
proof (cases "strip_suffix p ''.*''")
  case None
  then have "\<not> ends_with p ''.*''" by (simp add: strip_suffix_None)
  then show ?thesis using None by (auto simp: pattern_matches_one_def ends_with_iff)
next
  case (Some pre)
  then have "p = pre @ ''.*''" by (simp add: strip_suffix_Some)
  moreover have "pattern_matches_one p v \<longleftrightarrow> (\<exists>r. v = pre @ CHR ''.'' # r)"
    using Some by (simp add: pattern_matches_one_def starts_with_dot)
  ultimately show ?thesis by (auto simp: ends_with_iff)
qed

lemma sub_matches_wild: "sub_matches (pre @ ''.*'') v \<longleftrightarrow> (\<exists>r. v = pre @ CHR ''.'' # r)"
proof -
  have "strip_suffix (pre @ ''.*'') ''.*'' = Some pre" by (simp add: strip_suffix_Some)
  then show ?thesis by (auto simp: sub_matches_def starts_with_dot)
qed

lemma sub_matches_open:
  assumes "\<not> ends_with (pre @ ''.'') ''.*''"
  shows "sub_matches (pre @ ''.'') v \<longleftrightarrow> starts_with v pre"
proof -
  have "strip_suffix (pre @ ''.'') ''.'' = Some pre" by (simp add: strip_suffix_Some)
  moreover have "strip_suffix (pre @ ''.'') ''.*'' = None" using assms by (simp add: strip_suffix_None)
  ultimately show ?thesis by (cases pre) (auto simp: sub_matches_def)
qed

text \<open>A registered pattern that is neither the bare star nor the open prefix form.\<close>

definition plain_pattern :: "string \<Rightarrow> bool" where
  "plain_pattern p \<longleftrightarrow> p \<noteq> ''*'' \<and> \<not> ends_with p ''.''"

lemma plain_sub_matches:
  assumes "plain_pattern p"
  shows "sub_matches p v \<longleftrightarrow> pattern_matches_one p v"
  using assms by (cases "strip_suffix p ''.*''")
    (simp_all add: sub_matches_def pattern_matches_one_def plain_pattern_def strip_suffix_None [symmetric])

text \<open>
  The contract between the two languages: a scope, in the language \<open>outer\<close>, admits a pattern of the
  language \<open>inner\<close> when it covers the pattern's text; then everything the admitted pattern selects
  is covered by the scope, for the patterns on which both read wildcards alike.
\<close>

locale scope_language =
  fixes outer :: "string \<Rightarrow> string \<Rightarrow> bool" and inner :: "string \<Rightarrow> string \<Rightarrow> bool" and agreed :: "string \<Rightarrow> bool"
  assumes outer_iff: "outer p v \<longleftrightarrow> (p = v \<and> \<not> ends_with p ''.*'') \<or> (\<exists>pre r. p = pre @ ''.*'' \<and> v = pre @ CHR ''.'' # r)"
    and inner_agrees: "agreed q \<Longrightarrow> inner q v \<longleftrightarrow> outer q v"
begin

lemma covered:
  assumes "outer p q" and "agreed q" and "inner q v"
  shows "outer p v"
proof -
  have qv: "outer q v" using assms inner_agrees by simp
  show ?thesis
  proof (cases "ends_with p ''.*''")
    case False
    then have "p = q" using assms(1) outer_iff [of p q] by (auto simp: ends_with_iff)
    with qv show ?thesis by simp
  next
    case True
    then obtain pre r where p: "p = pre @ ''.*''" and q: "q = pre @ CHR ''.'' # r"
      using assms(1) outer_iff [of p q] by auto
    show ?thesis
    proof (cases "q = v")
      case True
      with assms(1) show ?thesis by simp
    next
      case False
      then obtain pre' r' where q': "q = pre' @ ''.*''" and v: "v = pre' @ CHR ''.'' # r'"
        using qv outer_iff [of q v] by auto
      have "\<exists>s. v = pre @ CHR ''.'' # s"
        using append_eq_append_conv2 [of pre "CHR ''.'' # r" pre' "''.*''"] q q' v
        by (auto simp: Cons_eq_append_conv append_eq_Cons_conv)
      with p show ?thesis using outer_iff [of p v] by blast
    qed
  qed
qed

lemma covered_any:
  "\<exists>p \<in> set ps. outer p q \<Longrightarrow> agreed q \<Longrightarrow> inner q v \<Longrightarrow> \<exists>p \<in> set ps. outer p v"
  using covered by blast

end

interpretation bus_scope: scope_language pattern_matches_one sub_matches plain_pattern
  by unfold_locales (rule pattern_matches_one_iff, rule plain_sub_matches)

lemma can_subscribe_covers:
  assumes "can_subscribe s q" and "plain_pattern q" and "sub_matches q v"
  shows "can_subscribe s v"
  using assms bus_scope.covered_any [OF _ assms(2,3)]
  by (auto simp: can_subscribe_def pattern_matches_def split: option.splits)

end
