(* ===== verification/Event_Socket.thy ===== *)
theory Event_Socket
  imports Event_Bus Audit_Proto
begin

text \<open>
  The two sockets of the event bus (\<open>daemons/event-bus/src/socket.rs\<close>, \<open>main.rs\<close>): what the bus learns
  of a connected peer, how it stamps, holds to scope and validates what a producer sends, how a
  consumer's registration is read and narrowed, the loop that forwards a consumer's channel, and the
  forwarder that pulls from an upstream bus.

  What the kernel and the identity broker answer about a peer (its user, its executable, the name the
  launcher stamped, its profile) is an argument, as is the protobuf decoder (crate \<open>prost\<close>). A write
  to a socket succeeds or fails as an argument says. Log lines are left out.
\<close>

section \<open>What the bus knows of a peer\<close>

datatype app_tier = System | FirstParty | ThirdParty

fun substring :: "string \<Rightarrow> string \<Rightarrow> bool" where
  "substring [] p \<longleftrightarrow> p = []"
| "substring (c # s) p \<longleftrightarrow> starts_with (c # s) p \<or> substring s p"

definition detect_tier :: "string \<Rightarrow> app_tier" where
  "detect_tier s =
     (if starts_with s ''/usr/lib/arlen/'' \<or> starts_with s ''/usr/bin/arlen-'' then System
      else if substring s ''/arlen/first-party/'' \<or> starts_with s ''/usr/lib/arlen-first-party/'' then FirstParty
      else ThirdParty)"

definition peer_tier :: "string option \<Rightarrow> app_tier option" where
  "peer_tier exe = map_option detect_tier exe"

datatype peer_scope =
    Profiled string event_bus_permissions
  | NoProfile string
  | Unresolved

record peer =
  pe_scope :: peer_scope
  pe_tier :: "app_tier option"

definition is_system :: "peer \<Rightarrow> bool" where
  "is_system p \<longleftrightarrow> pe_tier p = Some System"

fun event_bus_of :: "peer_scope \<Rightarrow> event_bus_permissions option" where
  "event_bus_of (Profiled _ p) = Some p"
| "event_bus_of (NoProfile _) = None"
| "event_bus_of Unresolved = None"

fun peer_app_id :: "peer_scope \<Rightarrow> string" where
  "peer_app_id (Profiled a _) = a"
| "peer_app_id (NoProfile a) = a"
| "peer_app_id Unresolved = ''<unresolved>''"

fun authenticated_origin :: "peer_scope \<Rightarrow> string" where
  "authenticated_origin (Profiled a _) = a"
| "authenticated_origin (NoProfile a) = a"
| "authenticated_origin Unresolved = []"

text \<open>
  \<open>peer_app_profile\<close>: the user the kernel attests, the name the identity broker stamped for that
  connection and user, and the profile filed for them. Every failed load leaves the peer without one.
\<close>

definition peer_app_profile ::
  "u32 option \<Rightarrow> (u32 \<Rightarrow> string option) \<Rightarrow> (u32 \<Rightarrow> string \<Rightarrow> 'err + event_bus_permissions) \<Rightarrow> peer_scope" where
  "peer_app_profile cred stamped load =
     (case cred of None \<Rightarrow> Unresolved
      | Some uid \<Rightarrow> (case stamped uid of None \<Rightarrow> Unresolved
        | Some app_id \<Rightarrow> (case load uid app_id of
            Inr profile \<Rightarrow> Profiled app_id profile
          | Inl _ \<Rightarrow> NoProfile app_id)))"

section \<open>Producers\<close>

definition MAX_EVENT_SIZE :: nat where "MAX_EVENT_SIZE = 1024 * 1024"

definition PUBLISH_ORIGINATORS :: "string list" where
  "PUBLISH_ORIGINATORS = [''compositor'', ''kernel-layer'']"

definition UID_OBSERVERS :: "string list" where
  "UID_OBSERVERS = [''kernel-layer'']"

definition observes_other_uids :: "string \<Rightarrow> bool" where
  "observes_other_uids app_id \<longleftrightarrow> app_id \<in> set UID_OBSERVERS"

definition originates_system_events :: "string \<Rightarrow> bool" where
  "originates_system_events app_id \<longleftrightarrow> app_id \<in> set PUBLISH_ORIGINATORS"

record decision =
  pd_origin :: string
  pd_hold_to_scope :: bool

definition publish_decision :: "peer_scope \<Rightarrow> decision" where
  "publish_decision scope =
     \<lparr>pd_origin = authenticated_origin scope, pd_hold_to_scope = (\<not> originates_system_events (peer_app_id scope))\<rparr>"

definition should_retry_identity :: "peer_scope \<Rightarrow> bool" where
  "should_retry_identity current \<longleftrightarrow> current = Unresolved"

definition adopt_retry :: "peer_scope \<Rightarrow> bool" where
  "adopt_retry retried \<longleftrightarrow> retried \<noteq> Unresolved"

definition enforce_pubsub :: "string option \<Rightarrow> bool" where
  "enforce_pubsub var \<longleftrightarrow> var = Some ''1'' \<or> var = Some ''true''"

definition publish_allowed :: "event_bus_permissions option \<Rightarrow> string \<Rightarrow> bool" where
  "publish_allowed scope t = (case scope of None \<Rightarrow> False | Some s \<Rightarrow> can_publish s t)"

text \<open>The variables of a producer's connection that live across its loop.\<close>

record producer_conn =
  pc_uid :: u32
  pc_forwards_other_uids :: bool
  pc_scope :: peer_scope
  pc_decision :: decision

definition producer_connect :: "u32 option \<Rightarrow> peer_scope \<Rightarrow> producer_conn option" where
  "producer_connect cred scope =
     (case cred of None \<Rightarrow> None
      | Some uid \<Rightarrow> Some \<lparr>pc_uid = uid, pc_forwards_other_uids = observes_other_uids (peer_app_id scope),
          pc_scope = scope, pc_decision = publish_decision scope\<rparr>)"

definition retry_identity :: "peer_scope \<Rightarrow> producer_conn \<Rightarrow> producer_conn" where
  "retry_identity retried c =
     (if should_retry_identity (pc_scope c) \<and> adopt_retry retried
      then c\<lparr>pc_scope := retried, pc_decision := publish_decision retried\<rparr> else c)"

text \<open>
  One decoded event: the connection afterwards, and the event as it is dispatched, or nothing when it
  is dropped. \<open>retried\<close> is what the broker would answer now.
\<close>

definition producer_event :: "bool \<Rightarrow> peer_scope \<Rightarrow> event \<Rightarrow> producer_conn \<Rightarrow> event option \<times> producer_conn" where
  "producer_event enforce retried e c =
     (let e1 = (if pc_forwards_other_uids c then e else e\<lparr>ev_uid := pc_uid c\<rparr>);
          c' = retry_identity retried c;
          e2 = e1\<lparr>ev_authenticated_origin := pd_origin (pc_decision c')\<rparr>
      in if pd_hold_to_scope (pc_decision c') \<and> \<not> publish_allowed (event_bus_of (pc_scope c')) (ev_type e2) \<and> enforce
         then (None, c')
         else case validate_event e2 of Inl _ \<Rightarrow> (None, c') | Inr _ \<Rightarrow> (Some e2, c'))"

datatype producer_end = ProducerDisconnected | InvalidLength nat | ReadFailed

text \<open>
  The loop over the bytes a producer sends: the events it dispatches, in order, and how it ends. The
  broker's answer at the \<open>k\<close>-th event is \<open>retry k\<close>.
\<close>

function handle_producer ::
  "bool \<Rightarrow> (bytes \<Rightarrow> 'err + event) \<Rightarrow> (nat \<Rightarrow> peer_scope) \<Rightarrow> nat \<Rightarrow> producer_conn \<Rightarrow> bytes \<Rightarrow> event list \<times> producer_end" where
  "handle_producer enforce decode retry k c stream =
     (if length stream < 4 then ([], ProducerDisconnected)
      else let len = u32_from_be_bytes (take 4 stream); rest = drop 4 stream in
        if len = 0 \<or> len > MAX_EVENT_SIZE then ([], InvalidLength len)
        else if length rest < len then ([], ReadFailed)
        else case decode (take len rest) of
            Inl _ \<Rightarrow> handle_producer enforce decode retry k c (drop len rest)
          | Inr e \<Rightarrow>
              let (out, c') = producer_event enforce (retry k) e c;
                  (outs, how) = handle_producer enforce decode retry (Suc k) c' (drop len rest)
              in (case out of None \<Rightarrow> outs | Some e' \<Rightarrow> e' # outs, how))"
  by pat_completeness auto

termination handle_producer
  by (relation "measure (\<lambda>(_, _, _, _, _, stream). length stream)") auto

declare handle_producer.simps [simp del]

section \<open>Consumers\<close>

datatype line_error = LineEof | LineTooLong | LineNotUtf8

fun read_line_from :: "bytes \<Rightarrow> bytes \<Rightarrow> line_error + string \<times> bytes" where
  "read_line_from buf [] = Inl LineEof"
| "read_line_from buf (c # s) =
     (if c = CHR 0x0A then (if utf8_ok buf then Inr (buf, s) else Inl LineNotUtf8)
      else if length buf + 1 > 4096 then Inl LineTooLong
      else read_line_from (buf @ [c]) s)"

definition read_line :: "bytes \<Rightarrow> line_error + string \<times> bytes" where
  "read_line stream = read_line_from [] stream"

definition clamp_uid_filter :: "uid_filter \<Rightarrow> u32 \<Rightarrow> uid_filter" where
  "clamp_uid_filter claimed attested_uid = (if attested_uid = 0 then claimed else Exact attested_uid)"

definition permitted_subscriptions ::
  "string list \<Rightarrow> event_bus_permissions option \<Rightarrow> bool \<Rightarrow> string list" where
  "permitted_subscriptions requested scope enforce =
     (if \<not> enforce then requested
      else filter (\<lambda>t. case scope of None \<Rightarrow> False | Some s \<Rightarrow> can_subscribe s t) requested)"

definition requested_types :: "string \<Rightarrow> string list" where
  "requested_types line = filter (\<lambda>s. s \<noteq> []) (map trim (split_on CHR '','' line))"

definition exempt_consumer :: "peer \<Rightarrow> bool" where
  "exempt_consumer p \<longleftrightarrow> is_system p \<and>
     \<not> (case event_bus_of (pe_scope p) of None \<Rightarrow> False | Some s \<Rightarrow> declares_subscribe s)"

definition held_types :: "bool \<Rightarrow> peer \<Rightarrow> string list \<Rightarrow> string list" where
  "held_types enforce p requested =
     (if exempt_consumer p then requested
      else permitted_subscriptions requested (event_bus_of (pe_scope p)) enforce)"

datatype registration =
    BadLine line_error
  | BadFilter int_error
  | NoCredentials
  | Registration string "string list" uid_filter

text \<open>The registration of a consumer, up to the call of \<open>register\<close>.\<close>

definition consumer_registration :: "bool \<Rightarrow> u32 option \<Rightarrow> peer \<Rightarrow> bytes \<Rightarrow> registration" where
  "consumer_registration enforce cred p stream =
     (case read_line stream of Inl e \<Rightarrow> BadLine e
      | Inr (consumer_id, s1) \<Rightarrow> (case read_line s1 of Inl e \<Rightarrow> BadLine e
      | Inr (types_line, s2) \<Rightarrow> (case read_line s2 of Inl e \<Rightarrow> BadLine e
      | Inr (uid_line, s3) \<Rightarrow> (case uid_filter_parse uid_line of Inl e \<Rightarrow> BadFilter e
      | Inr claimed \<Rightarrow> (case cred of None \<Rightarrow> NoCredentials
      | Some attested_uid \<Rightarrow>
          Registration consumer_id (held_types enforce p (requested_types types_line))
            (clamp_uid_filter claimed attested_uid))))))"

definition consumer_open :: "bool \<Rightarrow> u32 option \<Rightarrow> peer \<Rightarrow> bytes \<Rightarrow> bus \<Rightarrow> (string \<times> nat) option \<times> bus" where
  "consumer_open enforce cred p stream b =
     (case consumer_registration enforce cred p stream of
        Registration name subs filt \<Rightarrow> (let (i, b') = register name subs filt b in (Some (name, i), b'))
      | _ \<Rightarrow> (None, b))"

text \<open>The end of a consumer's task: it unregisters its name, and its receiver goes with it.\<close>

definition consumer_close :: "string \<Rightarrow> nat \<Rightarrow> bus \<Rightarrow> bus" where
  "consumer_close name i b = drop_receiver i (unregister name b)"

text \<open>One turn of the forwarding loop: what is written to the socket, and whether the task goes on.\<close>

datatype forward_result = Wrote event | Idle | Ended

definition consumer_forward :: "bool \<Rightarrow> string \<Rightarrow> nat \<Rightarrow> bus \<Rightarrow> forward_result \<times> bus" where
  "consumer_forward writable name i b =
     (case recv i b of
        (Received e, b') \<Rightarrow> if writable then (Wrote e, b') else (Ended, consumer_close name i b')
      | (Disconnected, b') \<Rightarrow> (Ended, consumer_close name i b')
      | (Waiting, b') \<Rightarrow> (Idle, b'))"

section \<open>The forwarder\<close>

definition forwarder_registration :: "u32 \<Rightarrow> string" where
  "forwarder_registration uid =
     ''event-bus-forwarder-'' @ dec (unat uid) @ [CHR 0x0A] @ ''*'' @ [CHR 0x0A] @ ''*'' @ [CHR 0x0A]"

text \<open>What one connection to the upstream bus dispatches: everything it decodes, as it came.\<close>

function forward_once :: "(bytes \<Rightarrow> 'err + event) \<Rightarrow> bytes \<Rightarrow> event list" where
  "forward_once decode stream =
     (if length stream < 4 then []
      else let len = u32_from_be_bytes (take 4 stream); rest = drop 4 stream in
        if len > MAX_EVENT_SIZE \<or> length rest < len then []
        else case decode (take len rest) of
            Inl _ \<Rightarrow> []
          | Inr e \<Rightarrow> e # forward_once decode (drop len rest))"
  by pat_completeness auto

termination forward_once
  by (relation "measure (\<lambda>(_, stream). length stream)") auto

declare forward_once.simps [simp del]

section \<open>Socket paths\<close>

definition resolve_socket :: "string option \<Rightarrow> string option \<Rightarrow> string \<Rightarrow> string" where
  "resolve_socket pinned xdg name =
     (case pinned of Some p \<Rightarrow> p
      | None \<Rightarrow> (case xdg of
          Some dir \<Rightarrow> if dir \<noteq> [] then path_join (path_join dir ''arlen'') name
                      else path_join (path_join ''/run'' ''arlen'') name
        | None \<Rightarrow> path_join (path_join ''/run'' ''arlen'') name))"

section \<open>What a producer's event carries\<close>

text \<open>
  What the bus has been told of a connection: the user the kernel attests and an answer of the
  identity broker. \<open>stamped\<close> is what a dispatched event owes to one such pair.
\<close>

definition stamped :: "bool \<Rightarrow> u32 \<times> peer_scope \<Rightarrow> event \<Rightarrow> bool" where
  "stamped enforce att e \<longleftrightarrow>
     ev_authenticated_origin e = authenticated_origin (snd att) \<and>
     (ev_uid e = fst att \<or> peer_app_id (snd att) = ''kernel-layer'') \<and>
     validate_event e = Inr () \<and>
     (enforce \<longrightarrow> peer_app_id (snd att) \<in> {''compositor'', ''kernel-layer''} \<or>
        (\<exists>app s. snd att = Profiled app s \<and> can_publish s (ev_type e)))"

definition conn_ok :: "producer_conn \<Rightarrow> bool" where
  "conn_ok c \<longleftrightarrow> pc_decision c = publish_decision (pc_scope c) \<and>
     (pc_forwards_other_uids c \<longrightarrow> peer_app_id (pc_scope c) = ''kernel-layer'' \<and> pc_scope c \<noteq> Unresolved)"

lemma publish_allowed_iff:
  "publish_allowed (event_bus_of s) t \<longleftrightarrow> (\<exists>app p. s = Profiled app p \<and> can_publish p t)"
  by (cases s) (simp_all add: publish_allowed_def)

lemma conn_ok_connect:
  assumes "producer_connect cred scope = Some c"
  shows "conn_ok c" "pc_scope c = scope" "cred = Some (pc_uid c)"
  using assms
  by (auto simp: producer_connect_def conn_ok_def observes_other_uids_def UID_OBSERVERS_def split: option.splits)

lemma retry_identity_facts:
  assumes "conn_ok c"
  shows "conn_ok (retry_identity retried c)" "pc_uid (retry_identity retried c) = pc_uid c"
    "pc_forwards_other_uids (retry_identity retried c) = pc_forwards_other_uids c"
    "pc_scope (retry_identity retried c) = pc_scope c \<or> pc_scope (retry_identity retried c) = retried"
  using assms by (auto simp: retry_identity_def conn_ok_def should_retry_identity_def)

lemma producer_event_conn: "snd (producer_event enforce retried e c) = retry_identity retried c"
  by (simp add: producer_event_def Let_def split: sum.splits)

lemma producer_event_SomeD:
  assumes "producer_event enforce retried e c = (Some e', c')"
  shows "e' = (if pc_forwards_other_uids c then e else e\<lparr>ev_uid := pc_uid c\<rparr>)\<lparr>ev_authenticated_origin := pd_origin (pc_decision c')\<rparr>"
  using assms by (auto simp: producer_event_def Let_def split: if_splits sum.splits)

lemma producer_event_stamped:
  assumes "producer_event enforce retried e c = (Some e', c')" and "conn_ok c"
  shows "stamped enforce (pc_uid c', pc_scope c') e'"
proof -
  have c': "c' = retry_identity retried c" using producer_event_conn [of enforce retried e c] assms(1) by simp
  note facts = retry_identity_facts [OF assms(2), of retried, folded c']
  have "pc_decision c' = publish_decision (pc_scope c')" using facts(1) by (simp add: conn_ok_def)
  then show ?thesis
    using assms(1) facts(1,2,3) unfolding producer_event_def Let_def c' [symmetric]
    by (cases "pc_forwards_other_uids c") (auto simp: stamped_def publish_decision_def publish_allowed_iff conn_ok_def
          originates_system_events_def PUBLISH_ORIGINATORS_def split: if_splits sum.splits)
qed

text \<open>
  A whole-machine observer that connects before the identity broker knows it: the retry gives it its
  name and lifts the publish scope, but the restamp exemption was decided at connect. Every event it
  sends goes out under its own user, whoever it observed.
\<close>

lemma late_observer_is_restamped:
  assumes "producer_connect (Some uid) Unresolved = Some c"
    and "producer_event enforce (NoProfile ''kernel-layer'') e c = (Some e', c')"
  shows "ev_authenticated_origin e' = ''kernel-layer''" "ev_uid e' = uid"
    "producer_event enforce retried d c' = (Some d', c'') \<Longrightarrow> ev_uid d' = uid"
proof -
  have c: "pc_forwards_other_uids c = False" "pc_uid c = uid" "pc_scope c = Unresolved"
    using assms(1) by (auto simp: producer_connect_def observes_other_uids_def UID_OBSERVERS_def)
  have c': "c' = retry_identity (NoProfile ''kernel-layer'') c"
    using producer_event_conn [of enforce "NoProfile ''kernel-layer''" e c] assms(2) by simp
  then have c'_fields: "pc_forwards_other_uids c' = False" "pc_uid c' = uid" "pc_decision c' = publish_decision (NoProfile ''kernel-layer'')"
    using c by (simp_all add: retry_identity_def should_retry_identity_def adopt_retry_def)
  show "ev_authenticated_origin e' = ''kernel-layer''" "ev_uid e' = uid"
    using producer_event_SomeD [OF assms(2)] c c'_fields by (simp_all add: publish_decision_def)
  show "ev_uid d' = uid" if "producer_event enforce retried d c' = (Some d', c'')"
    using producer_event_SomeD [OF that] c'_fields by simp
qed


definition demo_power :: peer_scope where
  "demo_power = Profiled ''powerd'' \<lparr>eb_publish = [''power.*''], eb_subscribe = None\<rparr>"

definition demo_raw :: event where
  "demo_raw = \<lparr>ev_id = ''1'', ev_type = ''power.state'', ev_timestamp = 7, ev_source = ''app:powerd'', ev_pid = 42,
     ev_origin = ''session-1'', ev_payload = [], ev_uid = 0, ev_project_id = [], ev_authenticated_origin = ''forged''\<rparr>"

definition demo_event :: event where
  "demo_event = demo_raw\<lparr>ev_uid := 1000, ev_authenticated_origin := ''powerd''\<rparr>"

definition demo_conn :: producer_conn where
  "demo_conn = \<lparr>pc_uid = 1000, pc_forwards_other_uids = False, pc_scope = demo_power, pc_decision = publish_decision demo_power\<rparr>"

lemma demo_producer_event: "producer_event True Unresolved demo_raw demo_conn = (Some demo_event, demo_conn)"
  by (simp add: producer_event_def demo_raw_def demo_conn_def demo_event_def retry_identity_def should_retry_identity_def
      demo_power_def publish_decision_def publish_allowed_def can_publish_def pattern_matches_def pattern_matches_one_def
      strip_suffix_def ends_with_def starts_with_def validate_event_def originates_system_events_def PUBLISH_ORIGINATORS_def)

definition demo_decode :: "bytes \<Rightarrow> unit + event" where
  "demo_decode body = Inr demo_raw"

definition demo_stream :: bytes where
  "demo_stream = [CHR 0x00, CHR 0x00, CHR 0x00, CHR 0x01, CHR ''x'']"


section \<open>Registration\<close>

lemma permitted_subset: "set (permitted_subscriptions requested scope enforce) \<subseteq> set requested"
  by (auto simp: permitted_subscriptions_def)

lemma held_types_permitted:
  assumes "q \<in> set (held_types True p requested)" and "\<not> exempt_consumer p"
  shows "\<exists>s. event_bus_of (pe_scope p) = Some s \<and> can_subscribe s q"
  using assms by (auto simp: held_types_def permitted_subscriptions_def split: option.splits)

lemma consumer_registration_filter:
  assumes "consumer_registration enforce cred p stream = Registration name subs filt"
  shows "\<exists>u claimed requested. cred = Some u \<and> filt = clamp_uid_filter claimed u \<and> subs = held_types enforce p requested"
  using assms by (auto simp: consumer_registration_def split: sum.splits prod.splits option.splits)

lemma of_char_digit: "d < 10 \<Longrightarrow> of_char (digit_char d) - 48 = (d :: nat)"
  by (frule order.strict_trans [of d 10 16], simp, drule nat_below_16, elim insertE emptyE; simp add: digit_char_def)

lemma parse_digits_append:
  "parse_digits acc (s @ t) = (case parse_digits acc s of Inl e \<Rightarrow> Inl e | Inr n \<Rightarrow> parse_digits n t)"
  by (induction s arbitrary: acc) (simp_all add: Let_def)

lemma parse_digits_dec: "n < 2 ^ 32 \<Longrightarrow> parse_digits 0 (dec n) = Inr n"
proof (induction n rule: dec.induct)
  case (1 n)
  show ?case
  proof (cases "n < 10")
    case True
    then show ?thesis by (simp add: dec.simps [of n] digit_char_decimal of_char_digit)
  next
    case False
    have "n div 10 < 2 ^ 32" using "1.prems" by (meson div_le_dividend le_less_trans)
    then have "parse_digits 0 (dec (n div 10)) = Inr (n div 10)" using "1.IH" False by simp
    then show ?thesis
      using False "1.prems" by (simp add: dec.simps [of n] parse_digits_append digit_char_decimal of_char_digit Let_def)
  qed
qed

lemma digit_not_special: "is_ascii_digit c \<Longrightarrow> c \<noteq> CHR ''+'' \<and> c \<noteq> CHR 0x0A \<and> \<not> is_whitespace c \<and> c \<noteq> CHR ''*'' \<and> of_char c < (128 :: nat)"
  by (auto simp: is_ascii_digit_def less_eq_char_def is_whitespace_def)

lemma unat_u32: "unat (u :: u32) < 2 ^ 32"
  using unsigned_less [of u, where 'a = nat] by simp

lemma parse_u32_dec: "parse_u32 (dec (unat u)) = Inr u"
proof -
  have "unat u < 2 ^ 32" by (rule unat_u32)
  moreover obtain c cs where d: "dec (unat u) = c # cs" by (cases "dec (unat u)") auto
  moreover have "c \<noteq> CHR ''+''" using dec_digits [of c "unat u"] d digit_not_special by simp
  ultimately show ?thesis
    using parse_digits_dec [of "unat u"] by (simp add: parse_u32_def)
qed

lemma trim_no_whitespace: "(\<forall>c \<in> set s. \<not> is_whitespace c) \<Longrightarrow> trim s = s"
proof -
  assume none: "\<forall>c \<in> set s. \<not> is_whitespace c"
  then have "trim_start t = t" if "set t \<subseteq> set s" for t
    using that by (cases t) (auto simp: trim_start_def)
  then show "trim s = s" by (simp add: trim_def)
qed

lemma uid_filter_parse_dec: "uid_filter_parse (dec (unat u)) = Inr (Exact u)"
proof -
  have "trim (dec (unat u)) = dec (unat u)"
    using dec_digits digit_not_special by (intro trim_no_whitespace) blast
  moreover have "dec (unat u) \<noteq> ''*''"
    using dec_digits [of "CHR ''*''" "unat u"] digit_not_special by fastforce
  ultimately show ?thesis by (simp add: uid_filter_parse_def parse_u32_dec)
qed

lemma read_line_from_ascii:
  assumes "\<forall>c \<in> set s. c \<noteq> CHR 0x0A \<and> of_char c < (128 :: nat)" and "\<forall>c \<in> set buf. of_char c < (128 :: nat)"
    and "length buf + length s \<le> 4096"
  shows "read_line_from buf (s @ CHR 0x0A # rest) = Inr (buf @ s, rest)"
  using assms by (induction s arbitrary: buf) (simp_all add: utf8_ok_ascii)

lemma read_line_ascii:
  assumes "\<forall>c \<in> set s. c \<noteq> CHR 0x0A \<and> of_char c < (128 :: nat)" and "length s \<le> 4096"
  shows "read_line (s @ CHR 0x0A # rest) = Inr (s, rest)"
  using read_line_from_ascii [of s "[]" rest] assms by (simp add: read_line_def)

text \<open>
  The forwarder registers with an upstream bus in the three lines that bus reads, whatever its
  user: they arrive as its name, the pattern that selects everything and a filter that the upstream
  narrows to the user it attests (root keeps everything). What it may hear is decided by the upstream
  alone.
\<close>

lemma forwarder_registration_reads_back:
  "consumer_registration enforce (Some u) p (forwarder_registration u) =
     Registration (''event-bus-forwarder-'' @ dec (unat u)) (held_types enforce p [''*''])
       (if u = 0 then AllUids else Exact u)"
proof -
  let ?name = "''event-bus-forwarder-'' @ dec (unat u)"
  have "unat u < 10 ^ 10" by (rule order.strict_trans [OF unat_u32]) simp
  then have "length ?name \<le> 4096" using length_dec [of "unat u" 10] by simp
  moreover have "\<forall>c \<in> set ?name. c \<noteq> CHR 0x0A \<and> of_char c < (128 :: nat)"
    using dec_digits [of _ "unat u"] digit_not_special by auto
  ultimately have name: "read_line (forwarder_registration u) = Inr (?name, [CHR ''*'', CHR 0x0A, CHR ''*'', CHR 0x0A])"
    using read_line_ascii [of ?name "[CHR ''*'', CHR 0x0A, CHR ''*'', CHR 0x0A]"] by (simp add: forwarder_registration_def)
  have star: "read_line (CHR ''*'' # CHR 0x0A # rest) = Inr (''*'', rest)" for rest
    using read_line_ascii [of "''*''" rest] by simp
  have "trim ''*'' = ''*''" by (rule trim_no_whitespace) (simp add: is_whitespace_def)
  then show ?thesis
    using name star by (simp add: consumer_registration_def uid_filter_parse_def requested_types_def clamp_uid_filter_def)
qed

end
