(* ===== verification/Event_Runs.thy ===== *)
theory Event_Runs
  imports Event_Socket "HOL-Library.Sublist"
begin

text \<open>
  The event bus over every interleaving of its tasks. \<open>bus_run\<close> steps one task at a time through the
  points where it takes a lock: a producer's event is retained and then delivered, a consumer joins,
  forwards its channel and leaves. The specification knows no channels: every registration is a feed,
  and a feed is the list of events its consumer is owed. The bus refines it: what a consumer was
  written, with what waits in its channel, is that list, or a part of it in order once the consumer
  fell a full channel behind.
\<close>

section \<open>The specification\<close>

datatype act =
    Retain event
  | Publish event
  | Join string "string list" uid_filter "string list"
  | Leave string

record feed =
  fe_name :: string
  fe_types :: "string list"
  fe_filter :: uid_filter
  fe_live :: bool
  fe_stream :: "event list"

record bus_spec =
  sp_feeds :: "feed list"
  sp_last :: "string \<Rightarrow> event option"

definition feed_wants :: "feed \<Rightarrow> event \<Rightarrow> bool" where
  "feed_wants f e \<longleftrightarrow> (\<exists>sub \<in> set (fe_types f). sub_matches sub (ev_type e)) \<and> accepts (fe_filter f) (ev_uid e)"

definition feed_publish :: "event \<Rightarrow> feed \<Rightarrow> feed" where
  "feed_publish e f = (if fe_live f \<and> feed_wants f e then f\<lparr>fe_stream := fe_stream f @ [e]\<rparr> else f)"

definition feed_leave :: "string \<Rightarrow> feed \<Rightarrow> feed" where
  "feed_leave name f = (if fe_name f = name then f\<lparr>fe_live := False\<rparr> else f)"

definition feed_new :: "string \<Rightarrow> string list \<Rightarrow> uid_filter \<Rightarrow> event list \<Rightarrow> feed" where
  "feed_new name types filt snapshot =
     (let f = \<lparr>fe_name = name, fe_types = types, fe_filter = filt, fe_live = True, fe_stream = []\<rparr>
      in f\<lparr>fe_stream := filter (feed_wants f) snapshot\<rparr>)"

fun spec_act :: "act \<Rightarrow> bus_spec \<Rightarrow> bus_spec" where
  "spec_act (Retain e) s =
     (if is_state_topic (ev_type e) then s\<lparr>sp_last := (sp_last s)(ev_type e \<mapsto> e)\<rparr> else s)"
| "spec_act (Publish e) s = s\<lparr>sp_feeds := map (feed_publish e) (sp_feeds s)\<rparr>"
| "spec_act (Join name types filt order) s =
     s\<lparr>sp_feeds := sp_feeds s @ [feed_new name types filt (List.map_filter (sp_last s) order)]\<rparr>"
| "spec_act (Leave name) s = s\<lparr>sp_feeds := map (feed_leave name) (sp_feeds s)\<rparr>"

definition spec_of :: "act list \<Rightarrow> bus_spec" where
  "spec_of acts = fold spec_act acts \<lparr>sp_feeds = [], sp_last = (\<lambda>_. None)\<rparr>"

lemma spec_of_Nil [simp]: "spec_of [] = \<lparr>sp_feeds = [], sp_last = (\<lambda>_. None)\<rparr>"
  by (simp add: spec_of_def)

lemma spec_of_snoc [simp]: "spec_of (acts @ [a]) = spec_act a (spec_of acts)"
  by (simp add: spec_of_def)

section \<open>The tasks\<close>

text \<open>
  The bus with its tasks: each producer's connection with the event it is dispatching, the forwarder
  with its own, and the consumers' tasks. What was written to a consumer's socket, what the kernel and
  the broker said of the peers, which channels have ever been full and the actions so far are kept for
  the statements.
\<close>

record world =
  wo_bus :: bus
  wo_producers :: "(producer_conn \<times> event option) list"
  wo_forwarding :: "event option"
  wo_tasks :: "(string \<times> nat) list"
  wo_out :: "nat \<Rightarrow> event list"
  wo_attested :: "(u32 \<times> peer_scope) list"
  wo_peer :: "nat \<Rightarrow> u32 option \<times> peer"
  wo_overflowed :: "nat \<Rightarrow> bool"
  wo_acts :: "act list"

definition world_new :: world where
  "world_new = \<lparr>wo_bus = bus_new, wo_producers = [], wo_forwarding = None, wo_tasks = [], wo_out = (\<lambda>_. []),
     wo_attested = [], wo_peer = (\<lambda>_. (None, \<lparr>pe_scope = Unresolved, pe_tier = None\<rparr>)),
     wo_overflowed = (\<lambda>_. False), wo_acts = []\<rparr>"

definition full :: "bus \<Rightarrow> nat \<Rightarrow> bool" where
  "full b i \<longleftrightarrow> length (ch_buf (bu_channels b ! i)) \<ge> CONSUMER_BUFFER"

definition start_dispatch :: "event \<Rightarrow> world \<Rightarrow> world" where
  "start_dispatch e w = w\<lparr>wo_bus := retain_state e (wo_bus w), wo_acts := wo_acts w @ [Retain e]\<rparr>"

definition finish_dispatch :: "event \<Rightarrow> world \<Rightarrow> world" where
  "finish_dispatch e w = w\<lparr>wo_bus := deliver e (wo_bus w), wo_acts := wo_acts w @ [Publish e],
     wo_overflowed := (\<lambda>i. wo_overflowed w i \<or> full (wo_bus w) i)\<rparr>"

definition join_world :: "string \<Rightarrow> string list \<Rightarrow> uid_filter \<Rightarrow> u32 option \<Rightarrow> peer \<Rightarrow> world \<Rightarrow> world" where
  "join_world name subs filt cred p w =
     (let (i, b) = register name subs filt (wo_bus w) in
      w\<lparr>wo_bus := b, wo_tasks := wo_tasks w @ [(name, i)], wo_peer := (wo_peer w)(i := (cred, p)),
        wo_overflowed := (wo_overflowed w)(i := length (bu_retained (wo_bus w)) > CONSUMER_BUFFER),
        wo_acts := wo_acts w @ [Join name subs filt (map fst (bu_retained (wo_bus w)))]\<rparr>)"

inductive bus_run :: "bool \<Rightarrow> (event \<Rightarrow> bool) \<Rightarrow> world \<Rightarrow> bool" for enforce upstream where
  boot: "bus_run enforce upstream world_new"
| connect: "bus_run enforce upstream w \<Longrightarrow> producer_connect cred scope = Some c \<Longrightarrow>
    bus_run enforce upstream
      (w\<lparr>wo_producers := wo_producers w @ [(c, None)], wo_attested := wo_attested w @ [(pc_uid c, scope)]\<rparr>)"
| publish: "bus_run enforce upstream w \<Longrightarrow> wo_producers w = before @ (c, None) # after \<Longrightarrow>
    producer_event enforce retried e c = (Some e', c') \<Longrightarrow>
    bus_run enforce upstream (start_dispatch e'
      (w\<lparr>wo_producers := before @ (c', Some e') # after, wo_attested := wo_attested w @ [(pc_uid c, retried)]\<rparr>))"
| refuse: "bus_run enforce upstream w \<Longrightarrow> wo_producers w = before @ (c, None) # after \<Longrightarrow>
    producer_event enforce retried e c = (None, c') \<Longrightarrow>
    bus_run enforce upstream
      (w\<lparr>wo_producers := before @ (c', None) # after, wo_attested := wo_attested w @ [(pc_uid c, retried)]\<rparr>)"
| published: "bus_run enforce upstream w \<Longrightarrow> wo_producers w = before @ (c, Some e) # after \<Longrightarrow>
    bus_run enforce upstream (finish_dispatch e (w\<lparr>wo_producers := before @ (c, None) # after\<rparr>))"
| hang_up: "bus_run enforce upstream w \<Longrightarrow> wo_producers w = before @ (c, None) # after \<Longrightarrow>
    bus_run enforce upstream (w\<lparr>wo_producers := before @ after\<rparr>)"
| pull: "bus_run enforce upstream w \<Longrightarrow> wo_forwarding w = None \<Longrightarrow> upstream e \<Longrightarrow>
    bus_run enforce upstream (start_dispatch e (w\<lparr>wo_forwarding := Some e\<rparr>))"
| pulled: "bus_run enforce upstream w \<Longrightarrow> wo_forwarding w = Some e \<Longrightarrow>
    bus_run enforce upstream (finish_dispatch e (w\<lparr>wo_forwarding := None\<rparr>))"
| join: "bus_run enforce upstream w \<Longrightarrow>
    consumer_registration enforce cred p stream = Registration name subs filt \<Longrightarrow>
    bus_run enforce upstream (join_world name subs filt cred p w)"
| written: "bus_run enforce upstream w \<Longrightarrow> (name, i) \<in> set (wo_tasks w) \<Longrightarrow>
    consumer_forward writable name i (wo_bus w) = (Wrote e, b) \<Longrightarrow>
    bus_run enforce upstream (w\<lparr>wo_bus := b, wo_out := (wo_out w)(i := wo_out w i @ [e])\<rparr>)"
| leave: "bus_run enforce upstream w \<Longrightarrow> (name, i) \<in> set (wo_tasks w) \<Longrightarrow>
    consumer_forward writable name i (wo_bus w) = (Ended, b) \<Longrightarrow>
    bus_run enforce upstream
      (w\<lparr>wo_bus := b, wo_tasks := remove1 (name, i) (wo_tasks w), wo_acts := wo_acts w @ [Leave name]\<rparr>)"

section \<open>Channels\<close>

definition push :: "event \<Rightarrow> channel \<Rightarrow> channel" where
  "push e c = (if ch_open c \<and> length (ch_buf c) < CONSUMER_BUFFER then c\<lparr>ch_buf := ch_buf c @ [e]\<rparr> else c)"

lemma try_send_push: "i < length cs \<Longrightarrow> snd (try_send i e cs) = cs[i := push e (cs ! i)]"
  by (simp add: try_send_def push_def Let_def)

lemma length_offer [simp]: "length (offer c e cs) = length cs"
  by (simp add: offer_def try_send_def Let_def)

lemma nth_offer: "ce_sender c < length cs \<Longrightarrow>
    offer c e cs ! i = (if i = ce_sender c \<and> wants c e then push e (cs ! i) else cs ! i)"
  by (auto simp: offer_def try_send_push)

lemma length_fold_offer [simp]: "length (fold (\<lambda>c. offer c e) es cs) = length cs"
  by (induction es arbitrary: cs) simp_all

lemma nth_fold_offer:
  assumes "distinct (map ce_sender es)" and "\<forall>c \<in> set es. ce_sender c < length cs"
  shows "fold (\<lambda>c. offer c e) es cs ! i =
    (if \<exists>c \<in> set es. ce_sender c = i \<and> wants c e then push e (cs ! i) else cs ! i)"
  using assms
proof (induction es arbitrary: cs)
  case (Cons c es)
  have IH: "fold (\<lambda>c. offer c e) es (offer c e cs) ! i =
    (if \<exists>d \<in> set es. ce_sender d = i \<and> wants d e then push e (offer c e cs ! i) else offer c e cs ! i)"
    using Cons by simp
  moreover have "\<not> (\<exists>d \<in> set es. ce_sender d = i)" if "ce_sender c = i"
    using Cons.prems(1) that by (auto simp: image_iff)
  ultimately show ?case using Cons.prems(2) nth_offer [of c cs e i] by auto
qed simp

lemma replay_nth:
  assumes "ce_sender c < length cs"
  shows "length (fold (offer c) es cs) = length cs"
    "j \<noteq> ce_sender c \<Longrightarrow> fold (offer c) es cs ! j = cs ! j"
    "fold (offer c) es cs ! ce_sender c = fold push (filter (wants c) es) (cs ! ce_sender c)"
  using assms by (induction es arbitrary: cs) (simp_all add: nth_offer)

lemma push_open [simp]: "ch_open (push e c) = ch_open c"
  by (simp add: push_def)

lemma fold_push_open [simp]: "ch_open (fold push es c) = ch_open c"
  by (induction es arbitrary: c) simp_all

lemma push_bounded: "length (ch_buf c) \<le> CONSUMER_BUFFER \<Longrightarrow> length (ch_buf (push e c)) \<le> CONSUMER_BUFFER"
  by (simp add: push_def)

lemma fold_push_buf:
  "ch_open c \<Longrightarrow> length (ch_buf c) \<le> CONSUMER_BUFFER \<Longrightarrow>
     ch_buf (fold push es c) = ch_buf c @ take (CONSUMER_BUFFER - length (ch_buf c)) es"
proof (induction es arbitrary: c)
  case (Cons e es)
  have "ch_buf (fold push es (push e c)) =
    ch_buf (push e c) @ take (CONSUMER_BUFFER - length (ch_buf (push e c))) es"
    using Cons push_bounded [OF Cons.prems(2)] by simp
  moreover have "push e c = (if length (ch_buf c) < CONSUMER_BUFFER then c\<lparr>ch_buf := ch_buf c @ [e]\<rparr> else c)"
    using Cons.prems by (simp add: push_def)
  ultimately show ?case
    using Cons.prems by (cases "length (ch_buf c) < CONSUMER_BUFFER") (simp_all add: take_Cons')
qed simp

section \<open>The simulation\<close>

definition entry_of :: "feed \<Rightarrow> nat \<Rightarrow> consumer_entry" where
  "entry_of f i = \<lparr>ce_id = fe_name f, ce_subscribed_types = fe_types f, ce_uid_filter = fe_filter f, ce_sender = i\<rparr>"

lemma entry_of_simps [simp]: "ce_id (entry_of f i) = fe_name f" "ce_sender (entry_of f i) = i"
  by (simp_all add: entry_of_def)

lemma wants_entry_of [simp]: "wants (entry_of f i) e = feed_wants f e"
  by (simp add: wants_def feed_wants_def entry_matches_def entry_of_def)

definition live_entries :: "feed list \<Rightarrow> consumer_entry set" where
  "live_entries fs = (\<lambda>i. entry_of (fs ! i) i) ` {i. i < length fs \<and> fe_live (fs ! i)}"

text \<open>The registry holds exactly the live feeds, one entry each.\<close>

definition registry_sim :: "bus \<Rightarrow> bus_spec \<Rightarrow> bool" where
  "registry_sim b s \<longleftrightarrow> map_of (bu_retained b) = sp_last s \<and> distinct (map fst (bu_retained b)) \<and>
     length (bu_channels b) = length (sp_feeds s) \<and> distinct (map ce_sender (bu_consumers b)) \<and>
     set (bu_consumers b) = live_entries (sp_feeds s)"

text \<open>
  A channel against its feed: what went out and what waits is a part of what the feed owes, in order;
  all of it while the consumer's task runs and never fell a full channel behind.
\<close>

definition channel_sim :: "event list \<Rightarrow> channel \<Rightarrow> bool \<Rightarrow> feed \<Rightarrow> bool" where
  "channel_sim out c exact f \<longleftrightarrow> subseq (out @ ch_buf c) (fe_stream f) \<and> length (ch_buf c) \<le> CONSUMER_BUFFER \<and>
     (exact \<longrightarrow> out @ ch_buf c = fe_stream f)"

definition refines :: "world \<Rightarrow> bool" where
  "refines w \<longleftrightarrow>
     (let s = spec_of (wo_acts w); b = wo_bus w in
      registry_sim b s \<and> distinct (wo_tasks w) \<and>
      (\<forall>i < length (sp_feeds s). fe_live (sp_feeds s ! i) \<longrightarrow> (fe_name (sp_feeds s ! i), i) \<in> set (wo_tasks w)) \<and>
      (\<forall>(name, i) \<in> set (wo_tasks w). i < length (sp_feeds s) \<and> name = fe_name (sp_feeds s ! i) \<and> ch_open (bu_channels b ! i)) \<and>
      (\<forall>i \<ge> length (sp_feeds s). wo_out w i = []) \<and>
      (\<forall>i < length (sp_feeds s). channel_sim (wo_out w i) (bu_channels b ! i)
         (\<not> wo_overflowed w i \<and> (\<exists>name. (name, i) \<in> set (wo_tasks w))) (sp_feeds s ! i)))"

lemma registry_sim_retain: "registry_sim b s \<Longrightarrow> registry_sim (retain_state e b) (spec_act (Retain e) s)"
  by (auto simp: registry_sim_def retain_state_def update_conv' distinct_update)

lemma length_feeds_map [simp]: "length (sp_feeds (spec_act (Publish e) s)) = length (sp_feeds s)"
  "length (sp_feeds (spec_act (Leave name) s)) = length (sp_feeds s)"
  by simp_all

lemma feed_publish_simps [simp]: "fe_name (feed_publish e f) = fe_name f" "fe_live (feed_publish e f) = fe_live f"
  "entry_of (feed_publish e f) i = entry_of f i"
  by (simp_all add: feed_publish_def entry_of_def)

lemma feed_leave_simps [simp]: "fe_name (feed_leave n f) = fe_name f" "fe_stream (feed_leave n f) = fe_stream f"
  "entry_of (feed_leave n f) i = entry_of f i" "fe_live (feed_leave n f) \<longleftrightarrow> fe_live f \<and> fe_name f \<noteq> n"
  by (simp_all add: feed_leave_def entry_of_def)

lemma live_entries_publish [simp]: "live_entries (map (feed_publish e) fs) = live_entries fs"
  unfolding live_entries_def by (rule image_cong) auto

lemma live_entries_leave [simp]: "live_entries (map (feed_leave name) fs) = {c \<in> live_entries fs. ce_id c \<noteq> name}"
proof -
  have "live_entries (map (feed_leave name) fs) =
      (\<lambda>i. entry_of (fs ! i) i) ` {i. i < length fs \<and> fe_live (fs ! i) \<and> fe_name (fs ! i) \<noteq> name}"
    unfolding live_entries_def by (rule image_cong) auto
  then show ?thesis by (auto simp: live_entries_def)
qed

lemma live_entries_snoc: "fe_live f \<Longrightarrow> live_entries (fs @ [f]) = insert (entry_of f (length fs)) (live_entries fs)"
proof -
  assume "fe_live f"
  then have "{i. i < length (fs @ [f]) \<and> fe_live ((fs @ [f]) ! i)} = insert (length fs) {i. i < length fs \<and> fe_live (fs ! i)}"
    by (auto simp: nth_append less_Suc_eq)
  moreover have "(\<lambda>i. entry_of ((fs @ [f]) ! i) i) ` {i. i < length fs \<and> fe_live (fs ! i)} = live_entries fs"
    unfolding live_entries_def by (rule image_cong) (simp_all add: nth_append)
  ultimately show ?thesis by (simp add: live_entries_def)
qed

lemma live_entry_sender: "c \<in> live_entries fs \<Longrightarrow> ce_sender c < length fs"
  by (auto simp: live_entries_def)

lemma registry_sim_deliver: "registry_sim b s \<Longrightarrow> registry_sim (deliver e b) (spec_act (Publish e) s)"
  by (simp add: registry_sim_def deliver_def)

lemma registry_sim_unregister:
  assumes "registry_sim b s"
  shows "registry_sim (unregister name b) (spec_act (Leave name) s)"
  using assms by (simp add: registry_sim_def unregister_def distinct_map_filter)

lemma deliver_nth:
  assumes "registry_sim b s" and "i < length (sp_feeds s)"
  shows "bu_channels (deliver e b) ! i =
    (if fe_live (sp_feeds s ! i) \<and> feed_wants (sp_feeds s ! i) e then push e (bu_channels b ! i) else bu_channels b ! i)"
proof -
  have "(\<exists>c \<in> set (bu_consumers b). ce_sender c = i \<and> wants c e) \<longleftrightarrow> fe_live (sp_feeds s ! i) \<and> feed_wants (sp_feeds s ! i) e"
    using assms by (auto simp: registry_sim_def live_entries_def)
  moreover have "\<forall>c \<in> set (bu_consumers b). ce_sender c < length (bu_channels b)"
    using assms by (auto simp: registry_sim_def dest: live_entry_sender)
  ultimately show ?thesis
    using assms by (simp add: deliver_def registry_sim_def nth_fold_offer)
qed

lemma registry_sim_register:
  assumes "registry_sim b s"
  shows "registry_sim (snd (register name subs filt b)) (spec_act (Join name subs filt (map fst (bu_retained b))) s)"
proof -
  let ?f = "feed_new name subs filt (List.map_filter (sp_last s) (map fst (bu_retained b)))"
  have "fe_live ?f" "entry_of ?f (length (sp_feeds s)) = \<lparr>ce_id = name, ce_subscribed_types = subs, ce_uid_filter = filt, ce_sender = length (sp_feeds s)\<rparr>"
    by (simp_all add: feed_new_def entry_of_def)
  moreover have "length (sp_feeds s) \<notin> ce_sender ` set (bu_consumers b)"
    using assms live_entry_sender [of _ "sp_feeds s"] by (fastforce simp: registry_sim_def)
  ultimately show ?thesis
    using assms by (simp add: registry_sim_def register_def Let_def live_entries_snoc replay_nth)
qed

lemma register_nth:
  assumes "registry_sim b s"
  shows "i < length (sp_feeds s) \<Longrightarrow> bu_channels (snd (register name subs filt b)) ! i = bu_channels b ! i"
    "fst (register name subs filt b) = length (sp_feeds s)"
    "bu_channels (snd (register name subs filt b)) ! length (sp_feeds s) =
       fold push (filter (feed_wants (feed_new name subs filt [])) (map snd (bu_retained b))) \<lparr>ch_buf = [], ch_open = True\<rparr>"
proof -
  have "wants \<lparr>ce_id = name, ce_subscribed_types = subs, ce_uid_filter = filt, ce_sender = k\<rparr> = feed_wants (feed_new name subs filt [])" for k
    by (simp add: fun_eq_iff wants_def feed_wants_def feed_new_def entry_matches_def)
  then show "bu_channels (snd (register name subs filt b)) ! length (sp_feeds s) =
       fold push (filter (feed_wants (feed_new name subs filt [])) (map snd (bu_retained b))) \<lparr>ch_buf = [], ch_open = True\<rparr>"
    using assms replay_nth(3) [of "\<lparr>ce_id = name, ce_subscribed_types = subs, ce_uid_filter = filt, ce_sender = length (sp_feeds s)\<rparr>"
      "bu_channels b @ [\<lparr>ch_buf = [], ch_open = True\<rparr>]" "map snd (bu_retained b)"]
    by (simp add: registry_sim_def register_def Let_def nth_append)
  show "i < length (sp_feeds s) \<Longrightarrow> bu_channels (snd (register name subs filt b)) ! i = bu_channels b ! i"
    "fst (register name subs filt b) = length (sp_feeds s)"
    using assms by (simp_all add: registry_sim_def register_def Let_def replay_nth nth_append)
qed

lemma map_filter_map_of: "distinct (map fst m) \<Longrightarrow> List.map_filter (map_of m) (map fst m) = map snd m"
proof -
  assume d: "distinct (map fst m)"
  have "List.map_filter (map_of m) (map fst xs) = map snd xs" if "set xs \<subseteq> set m" for xs
    using that d by (induction xs) (auto simp: List.map_filter_simps)
  then show ?thesis by simp
qed

lemma feed_new_stream:
  "fe_stream (feed_new name subs filt snapshot) = filter (feed_wants (feed_new name subs filt [])) snapshot"
  by (simp add: feed_new_def feed_wants_def [abs_def] Let_def)

lemma channel_sim_push:
  assumes "channel_sim out c exact f" and "fe_live f" and "feed_wants f e" and "ch_open c"
  shows "channel_sim out (push e c) (exact \<and> length (ch_buf c) < CONSUMER_BUFFER) (feed_publish e f)"
  using assms by (cases "length (ch_buf c) < CONSUMER_BUFFER")
    (auto simp: channel_sim_def feed_publish_def push_def subseq_rev_drop_many simp flip: append_assoc)

lemma channel_sim_weaken: "channel_sim out c exact f \<Longrightarrow> (exact' \<Longrightarrow> exact) \<Longrightarrow> channel_sim out c exact' f"
  by (auto simp: channel_sim_def)

lemma channel_sim_new:
  assumes "distinct (map fst m)"
  shows "channel_sim [] (fold push (filter (feed_wants (feed_new name subs filt [])) (map snd m)) \<lparr>ch_buf = [], ch_open = True\<rparr>)
    (\<not> length m > CONSUMER_BUFFER) (feed_new name subs filt (List.map_filter (map_of m) (map fst m)))"
proof -
  define es where "es = filter (feed_wants (feed_new name subs filt [])) (map snd m)"
  have "ch_buf (fold push es \<lparr>ch_buf = [], ch_open = True\<rparr>) = take CONSUMER_BUFFER es"
    using fold_push_buf [of "\<lparr>ch_buf = [], ch_open = True\<rparr>" es] by simp
  moreover have "length es \<le> length m" using length_filter_le [of _ "map snd m"] by (simp add: es_def)
  moreover have "subseq (take n es) es" for n by (rule prefix_imp_subseq) (rule take_is_prefix)
  moreover have "fe_stream (feed_new name subs filt (List.map_filter (map_of m) (map fst m))) = es"
    using assms by (simp add: feed_new_stream map_filter_map_of es_def)
  ultimately show ?thesis by (auto simp: channel_sim_def simp flip: es_def)
qed

section \<open>Every step simulates\<close>

lemma retain_state_channels [simp]: "bu_channels (retain_state e b) = bu_channels b" "bu_consumers (retain_state e b) = bu_consumers b"
  by (simp_all add: retain_state_def)

lemma sp_feeds_Retain [simp]: "sp_feeds (spec_act (Retain e) s) = sp_feeds s"
  by simp

lemmas refinesD = iffD1 [OF refines_def, unfolded Let_def]

lemma refines_start: "refines w \<Longrightarrow> refines (start_dispatch e w)"
  unfolding refines_def Let_def start_dispatch_def
  by (simp add: registry_sim_retain del: spec_act.simps)

lemma refines_finish:
  assumes "refines w"
  shows "refines (finish_dispatch e w)"
proof -
  let ?s = "spec_of (wo_acts w)" and ?b = "wo_bus w"
  note r = refinesD [OF assms]
  have reg: "registry_sim ?b ?s" using r by simp
  have "channel_sim (wo_out w i) (bu_channels (deliver e ?b) ! i)
      ((\<not> wo_overflowed w i \<and> \<not> full ?b i) \<and> (\<exists>name. (name, i) \<in> set (wo_tasks w))) (feed_publish e (sp_feeds ?s ! i))"
    if i: "i < length (sp_feeds ?s)" for i
  proof (cases "fe_live (sp_feeds ?s ! i) \<and> feed_wants (sp_feeds ?s ! i) e")
    case True
    then have opened: "ch_open (bu_channels ?b ! i)" using r i by fastforce
    have "channel_sim (wo_out w i) (bu_channels ?b ! i)
        (\<not> wo_overflowed w i \<and> (\<exists>name. (name, i) \<in> set (wo_tasks w))) (sp_feeds ?s ! i)"
      using r i by simp
    from channel_sim_push [OF this _ _ opened, of e] True show ?thesis
      using deliver_nth [OF reg i] by (auto simp: full_def intro: channel_sim_weaken)
  next
    case False
    then have "feed_publish e (sp_feeds ?s ! i) = sp_feeds ?s ! i" by (auto simp: feed_publish_def)
    then show ?thesis using r i False deliver_nth [OF reg i] by (auto intro: channel_sim_weaken)
  qed
  moreover have "ch_open (bu_channels (deliver e ?b) ! i) = ch_open (bu_channels ?b ! i)" if "i < length (sp_feeds ?s)" for i
    using deliver_nth [OF reg that] by simp
  ultimately show ?thesis
    using r registry_sim_deliver [OF reg, of e] by (auto simp: refines_def finish_dispatch_def)
qed

lemma refines_join:
  assumes "refines w"
  shows "refines (join_world name subs filt cred p w)"
proof -
  let ?s = "spec_of (wo_acts w)" and ?b = "wo_bus w"
  let ?n = "length (sp_feeds ?s)" and ?b' = "snd (register name subs filt ?b)"
  let ?f = "feed_new name subs filt (List.map_filter (sp_last ?s) (map fst (bu_retained ?b)))"
  note r = refinesD [OF assms]
  have reg: "registry_sim ?b ?s" using r by simp
  then have ret: "map_of (bu_retained ?b) = sp_last ?s" "distinct (map fst (bu_retained ?b))"
    by (simp_all add: registry_sim_def)
  note nth = register_nth [OF reg, where name = name and subs = subs and filt = filt]
  have w': "join_world name subs filt cred p w = w\<lparr>wo_bus := ?b', wo_tasks := wo_tasks w @ [(name, ?n)], wo_peer := (wo_peer w)(?n := (cred, p)),
      wo_overflowed := (wo_overflowed w)(?n := length (bu_retained ?b) > CONSUMER_BUFFER),
      wo_acts := wo_acts w @ [Join name subs filt (map fst (bu_retained ?b))]\<rparr>"
    using nth(2) by (simp add: join_world_def case_prod_unfold)
  have f: "fe_name ?f = name" by (simp add: feed_new_def)
  have fresh: "(m, ?n) \<notin> set (wo_tasks w)" for m using r by auto
  have "channel_sim [] (bu_channels ?b' ! ?n) (\<not> length (bu_retained ?b) > CONSUMER_BUFFER) ?f"
    using channel_sim_new [OF ret(2), of name subs filt] nth(3) ret(1) by simp
  moreover have "ch_open (bu_channels ?b' ! ?n)" using nth(3) by simp
  ultimately show ?thesis
    using r registry_sim_register [OF reg, of name subs filt] nth(1) f fresh
    unfolding w' refines_def Let_def by (auto simp: less_Suc_eq nth_append)
qed

lemma channel_closed: "c\<lparr>ch_buf := es, ch_open := False\<rparr> = \<lparr>ch_buf = es, ch_open = False\<rparr>"
  by (cases c) simp

lemma recv_Received: "recv i b = (Received e, b') \<Longrightarrow> \<exists>es. ch_buf (bu_channels b ! i) = e # es \<and>
    b' = b\<lparr>bu_channels := (bu_channels b)[i := (bu_channels b ! i)\<lparr>ch_buf := es\<rparr>]\<rparr>"
  by (auto simp: recv_def Let_def split: list.splits if_splits)

lemma recv_Disconnected: "recv i b = (Disconnected, b') \<Longrightarrow> b' = b \<and> ch_buf (bu_channels b ! i) = [] \<and> i \<notin> ce_sender ` set (bu_consumers b)"
  by (auto simp: recv_def Let_def split: list.splits if_splits)

lemma consumer_forward_Wrote:
  "consumer_forward writable name i b = (Wrote e, b') \<Longrightarrow> recv i b = (Received e, b')"
  by (auto simp: consumer_forward_def split: prod.splits recv_result.splits if_splits)

lemma consumer_forward_Ended:
  assumes "consumer_forward writable name i b = (Ended, b')"
  shows "\<exists>popped es. ch_buf (bu_channels b ! i) = popped @ es \<and>
    b' = unregister name (b\<lparr>bu_channels := (bu_channels b)[i := \<lparr>ch_buf = es, ch_open = False\<rparr>]\<rparr>)"
proof (cases "recv i b")
  case (Pair res b1)
  show ?thesis
  proof (cases res)
    case (Received e)
    then obtain es where "ch_buf (bu_channels b ! i) = e # es"
        "b1 = b\<lparr>bu_channels := (bu_channels b)[i := (bu_channels b ! i)\<lparr>ch_buf := es\<rparr>]\<rparr>"
      using recv_Received Pair by blast
    moreover have "b' = consumer_close name i b1" using assms Pair Received by (auto simp: consumer_forward_def split: if_splits)
    ultimately have "ch_buf (bu_channels b ! i) = [e] @ es \<and>
        b' = unregister name (b\<lparr>bu_channels := (bu_channels b)[i := \<lparr>ch_buf = es, ch_open = False\<rparr>]\<rparr>)"
      by (cases "i < length (bu_channels b)") (simp_all add: consumer_close_def drop_receiver_def unregister_def channel_closed list_update_beyond)
    then show ?thesis by blast
  next
    case Disconnected
    then have "b1 = b" "ch_buf (bu_channels b ! i) = []" using recv_Disconnected Pair by blast+
    moreover have "b' = consumer_close name i b1" using assms Pair Disconnected by (auto simp: consumer_forward_def)
    moreover have "(bu_channels b ! i)\<lparr>ch_open := False\<rparr> = \<lparr>ch_buf = ch_buf (bu_channels b ! i), ch_open = False\<rparr>"
      by (cases "bu_channels b ! i") simp
    ultimately have "ch_buf (bu_channels b ! i) = [] @ [] \<and>
        b' = unregister name (b\<lparr>bu_channels := (bu_channels b)[i := \<lparr>ch_buf = [], ch_open = False\<rparr>]\<rparr>)"
      by (simp add: consumer_close_def drop_receiver_def unregister_def)
    then show ?thesis by blast
  next
    case Waiting
    then show ?thesis using assms Pair by (simp add: consumer_forward_def)
  qed
qed

lemma refines_written:
  assumes "refines w" and "(name, i) \<in> set (wo_tasks w)" and "consumer_forward writable name i (wo_bus w) = (Wrote e, b)"
  shows "refines (w\<lparr>wo_bus := b, wo_out := (wo_out w)(i := wo_out w i @ [e])\<rparr>)"
proof -
  let ?s = "spec_of (wo_acts w)" and ?b = "wo_bus w"
  note r = refinesD [OF assms(1)]
  have i: "i < length (sp_feeds ?s)" using r assms(2) by auto
  have len: "length (bu_channels ?b) = length (sp_feeds ?s)" using r by (simp add: registry_sim_def)
  obtain es where buf: "ch_buf (bu_channels ?b ! i) = e # es"
      and b: "b = ?b\<lparr>bu_channels := (bu_channels ?b)[i := (bu_channels ?b ! i)\<lparr>ch_buf := es\<rparr>]\<rparr>"
    using recv_Received [OF consumer_forward_Wrote [OF assms(3)]] by blast
  have "registry_sim b ?s" using r b by (simp add: registry_sim_def)
  moreover have "channel_sim (((wo_out w)(i := wo_out w i @ [e])) j) (bu_channels b ! j)
      (\<not> wo_overflowed w j \<and> (\<exists>name. (name, j) \<in> set (wo_tasks w))) (sp_feeds ?s ! j)" if "j < length (sp_feeds ?s)" for j
  proof -
    have "channel_sim (wo_out w j) (bu_channels ?b ! j)
        (\<not> wo_overflowed w j \<and> (\<exists>name. (name, j) \<in> set (wo_tasks w))) (sp_feeds ?s ! j)" using r that by simp
    then show ?thesis using i len buf b by (cases "j = i") (auto simp: channel_sim_def)
  qed
  moreover have "ch_open (bu_channels b ! j) = ch_open (bu_channels ?b ! j)" for j
    using b i len by (cases "j = i") simp_all
  ultimately show ?thesis using r i unfolding refines_def Let_def by auto
qed

lemma refines_leave:
  assumes "refines w" and "(name, i) \<in> set (wo_tasks w)" and "consumer_forward writable name i (wo_bus w) = (Ended, b)"
  shows "refines (w\<lparr>wo_bus := b, wo_tasks := remove1 (name, i) (wo_tasks w), wo_acts := wo_acts w @ [Leave name]\<rparr>)"
proof -
  let ?s = "spec_of (wo_acts w)" and ?b = "wo_bus w"
  note r = refinesD [OF assms(1)]
  have i: "i < length (sp_feeds ?s)" "name = fe_name (sp_feeds ?s ! i)" using r assms(2) by auto
  have len: "length (bu_channels ?b) = length (sp_feeds ?s)" using r by (simp add: registry_sim_def)
  have gone: "(m, i) \<notin> set (remove1 (name, i) (wo_tasks w))" for m using r i by auto
  obtain popped es where buf: "ch_buf (bu_channels ?b ! i) = popped @ es"
      and b: "b = unregister name (?b\<lparr>bu_channels := (bu_channels ?b)[i := \<lparr>ch_buf = es, ch_open = False\<rparr>]\<rparr>)"
    using consumer_forward_Ended [OF assms(3)] by blast
  have chans: "bu_channels b = (bu_channels ?b)[i := \<lparr>ch_buf = es, ch_open = False\<rparr>]" by (simp add: b unregister_def)
  have "registry_sim (?b\<lparr>bu_channels := (bu_channels ?b)[i := \<lparr>ch_buf = es, ch_open = False\<rparr>]\<rparr>) ?s"
    using r by (simp add: registry_sim_def)
  then have reg: "registry_sim b (spec_act (Leave name) ?s)" unfolding b by (rule registry_sim_unregister)
  have part: "subseq (wo_out w i @ es) (wo_out w i @ popped @ es)" by (simp add: subseq_append' subseq_drop_many)
  have "channel_sim (wo_out w j) (bu_channels b ! j)
      (\<not> wo_overflowed w j \<and> (\<exists>m. (m, j) \<in> set (remove1 (name, i) (wo_tasks w)))) (feed_leave name (sp_feeds ?s ! j))"
    if j: "j < length (sp_feeds ?s)" for j
  proof (cases "j = i")
    case True
    have "subseq (wo_out w i @ popped @ es) (fe_stream (sp_feeds ?s ! i))" "length (popped @ es) \<le> CONSUMER_BUFFER"
      using r j True buf by (auto simp: channel_sim_def)
    then show ?thesis
      using True gone chans i len subseq_order.trans [OF part] by (simp add: channel_sim_def)
  next
    case False
    then show ?thesis using r j chans by (auto simp: channel_sim_def dest: notin_set_remove1)
  qed
  moreover have "j < length (sp_feeds ?s) \<and> m = fe_name (sp_feeds ?s ! j) \<and> ch_open (bu_channels b ! j)"
    if "(m, j) \<in> set (remove1 (name, i) (wo_tasks w))" for m j
  proof -
    have "(m, j) \<in> set (wo_tasks w)" "j \<noteq> i" using that gone notin_set_remove1 by fastforce+
    then show ?thesis using r chans by fastforce
  qed
  moreover have "(m, j) \<in> set (remove1 (name, i) (wo_tasks w)) \<longleftrightarrow> (m, j) \<in> set (wo_tasks w) \<and> (m, j) \<noteq> (name, i)" for m j
    using r by simp
  ultimately show ?thesis using r reg unfolding refines_def Let_def
    by (auto simp del: set_remove1_eq)
qed

lemma run_refines: "bus_run enforce upstream w \<Longrightarrow> refines w"
proof (induction rule: bus_run.induct)
  case boot
  show ?case by (simp add: refines_def world_new_def bus_new_def registry_sim_def live_entries_def fun_eq_iff)
next
  case (publish w before c after retried e e' c')
  have "refines (w\<lparr>wo_producers := before @ (c', Some e') # after, wo_attested := wo_attested w @ [(pc_uid c, retried)]\<rparr>)"
    using publish.IH by (simp add: refines_def)
  then show ?case by (rule refines_start)
next
  case (published w before c e after)
  have "refines (w\<lparr>wo_producers := before @ (c, None) # after\<rparr>)" using published.IH by (simp add: refines_def)
  then show ?case by (rule refines_finish)
next
  case (pull w e)
  have "refines (w\<lparr>wo_forwarding := Some e\<rparr>)" using pull.IH by (simp add: refines_def)
  then show ?case by (rule refines_start)
next
  case (pulled w e)
  have "refines (w\<lparr>wo_forwarding := None\<rparr>)" using pulled.IH by (simp add: refines_def)
  then show ?case by (rule refines_finish)
next
  case (join w cred p stream name subs filt)
  show ?case using join.IH by (rule refines_join)
next
  case (written w name i writable e b)
  show ?case using written.IH written.hyps(2,3) by (rule refines_written)
next
  case (leave w name i writable b)
  show ?case using leave.IH leave.hyps(2,3) by (rule refines_leave)
qed (simp_all add: refines_def)

section \<open>Where the events come from\<close>

text \<open>An event the bus may hand out: forwarded by the upstream bus, or stamped for a peer it attested.\<close>

definition sourced :: "bool \<Rightarrow> (event \<Rightarrow> bool) \<Rightarrow> (u32 \<times> peer_scope) list \<Rightarrow> event \<Rightarrow> bool" where
  "sourced enforce upstream atts e \<longleftrightarrow> upstream e \<or> (\<exists>att \<in> set atts. stamped enforce att e)"

lemma sourced_mono: "sourced enforce upstream atts e \<Longrightarrow> sourced enforce upstream (atts @ more_atts) e"
  by (auto simp: sourced_def)

definition spec_sourced :: "(event \<Rightarrow> bool) \<Rightarrow> bus_spec \<Rightarrow> bool" where
  "spec_sourced ok s \<longleftrightarrow> (\<forall>t e. sp_last s t = Some e \<longrightarrow> ok e) \<and>
     (\<forall>f \<in> set (sp_feeds s). \<forall>e \<in> set (fe_stream f). ok e \<and> feed_wants f e)"

lemma spec_sourced_mono: "spec_sourced ok s \<Longrightarrow> (\<And>e. ok e \<Longrightarrow> ok' e) \<Longrightarrow> spec_sourced ok' s"
  unfolding spec_sourced_def by blast

lemma feed_wants_simps [simp]: "feed_wants (feed_publish d f) = feed_wants f" "feed_wants (feed_leave n f) = feed_wants f"
  "feed_wants (f\<lparr>fe_stream := es\<rparr>) = feed_wants f"
  by (simp_all add: fun_eq_iff feed_wants_def feed_publish_def feed_leave_def)

lemma feed_wants_new: "feed_wants (feed_new n ts fl es) = feed_wants (feed_new n ts fl [])"
  by (simp add: fun_eq_iff feed_wants_def feed_new_def)

lemma set_map_filter: "set (List.map_filter g xs) = {y. \<exists>x \<in> set xs. g x = Some y}"
  by (auto simp: List.map_filter_def image_iff) force

lemma spec_sourced_act:
  assumes "spec_sourced ok s" and "\<And>e. a = Retain e \<or> a = Publish e \<Longrightarrow> ok e"
  shows "spec_sourced ok (spec_act a s)"
proof (cases a)
  case (Retain e)
  then show ?thesis using assms by (auto simp: spec_sourced_def)
next
  case (Publish e)
  then show ?thesis using assms by (auto simp: spec_sourced_def feed_publish_def [of e])
next
  case (Join name types filt order)
  then show ?thesis using assms(1)
    by (auto simp: spec_sourced_def feed_new_stream set_map_filter feed_wants_new [of _ _ _ "List.map_filter _ _"])
next
  case (Leave name)
  then show ?thesis using assms(1) by (auto simp: spec_sourced_def)
qed

definition peers_ok :: "bool \<Rightarrow> world \<Rightarrow> bool" where
  "peers_ok enforce w \<longleftrightarrow> (\<forall>i < length (sp_feeds (spec_of (wo_acts w))). \<exists>u p claimed requested.
     wo_peer w i = (Some u, p) \<and>
     fe_filter (sp_feeds (spec_of (wo_acts w)) ! i) = clamp_uid_filter claimed u \<and>
     fe_types (sp_feeds (spec_of (wo_acts w)) ! i) = held_types enforce p requested)"

fun producer_ok :: "bool \<Rightarrow> (event \<Rightarrow> bool) \<Rightarrow> (u32 \<times> peer_scope) list \<Rightarrow> producer_conn \<times> event option \<Rightarrow> bool" where
  "producer_ok enforce upstream atts (c, d) \<longleftrightarrow> conn_ok c \<and> (pc_uid c, pc_scope c) \<in> set atts \<and>
     (\<forall>e. d = Some e \<longrightarrow> sourced enforce upstream atts e)"

lemma producer_ok_mono: "producer_ok enforce upstream atts x \<Longrightarrow> producer_ok enforce upstream (atts @ more_atts) x"
  by (cases x) (auto intro: sourced_mono)

definition producers_ok :: "bool \<Rightarrow> (event \<Rightarrow> bool) \<Rightarrow> world \<Rightarrow> bool" where
  "producers_ok enforce upstream w \<longleftrightarrow>
     (\<forall>x \<in> set (wo_producers w). producer_ok enforce upstream (wo_attested w) x) \<and>
     (\<forall>e. wo_forwarding w = Some e \<longrightarrow> upstream e)"

definition provenance :: "bool \<Rightarrow> (event \<Rightarrow> bool) \<Rightarrow> world \<Rightarrow> bool" where
  "provenance enforce upstream w \<longleftrightarrow> producers_ok enforce upstream w \<and> peers_ok enforce w \<and>
     spec_sourced (sourced enforce upstream (wo_attested w)) (spec_of (wo_acts w))"

lemma producer_ok_event:
  assumes "producer_ok enforce upstream atts (c, None)" and "producer_event enforce retried e c = (out, c')"
  shows "producer_ok enforce upstream (atts @ [(pc_uid c, retried)]) (c', out)"
proof -
  have c': "c' = retry_identity retried c" using producer_event_conn [of enforce retried e c] assms(2) by simp
  have ok: "conn_ok c" "(pc_uid c, pc_scope c) \<in> set atts" using assms(1) by simp_all
  note facts = retry_identity_facts [OF ok(1), of retried, folded c']
  have att: "(pc_uid c', pc_scope c') \<in> set (atts @ [(pc_uid c, retried)])" using facts(2,4) ok(2) by auto
  have "sourced enforce upstream (atts @ [(pc_uid c, retried)]) e'" if "out = Some e'" for e'
    using producer_event_stamped [of enforce retried e c e' c'] assms(2) ok(1) att that unfolding sourced_def by blast
  then show ?thesis using facts(1) att by simp
qed

lemma start_dispatch_simps [simp]: "wo_producers (start_dispatch e w) = wo_producers w" "wo_attested (start_dispatch e w) = wo_attested w"
  "wo_forwarding (start_dispatch e w) = wo_forwarding w" "wo_acts (start_dispatch e w) = wo_acts w @ [Retain e]"
  "wo_peer (start_dispatch e w) = wo_peer w"
  by (simp_all add: start_dispatch_def)

lemma finish_dispatch_simps [simp]: "wo_producers (finish_dispatch e w) = wo_producers w" "wo_attested (finish_dispatch e w) = wo_attested w"
  "wo_forwarding (finish_dispatch e w) = wo_forwarding w" "wo_acts (finish_dispatch e w) = wo_acts w @ [Publish e]"
  "wo_peer (finish_dispatch e w) = wo_peer w"
  by (simp_all add: finish_dispatch_def)

lemma join_world_simps [simp]: "wo_producers (join_world n s f c p w) = wo_producers w" "wo_attested (join_world n s f c p w) = wo_attested w"
  "wo_forwarding (join_world n s f c p w) = wo_forwarding w"
  "wo_acts (join_world n s f c p w) = wo_acts w @ [Join n s f (map fst (bu_retained (wo_bus w)))]"
  "wo_peer (join_world n s f c p w) = (wo_peer w)(length (bu_channels (wo_bus w)) := (c, p))"
  by (simp_all add: join_world_def register_def Let_def)

lemma feed_simps [simp]: "fe_filter (feed_publish e f) = fe_filter f" "fe_types (feed_publish e f) = fe_types f"
  "fe_filter (feed_leave n f) = fe_filter f" "fe_types (feed_leave n f) = fe_types f"
  "fe_filter (feed_new n ts fl es) = fl" "fe_types (feed_new n ts fl es) = ts" "fe_name (feed_new n ts fl es) = n"
  by (simp_all add: feed_publish_def feed_leave_def feed_new_def)

lemma peers_ok_cong:
  assumes "peers_ok enforce w" and "wo_peer w' = wo_peer w"
    and "wo_acts w' = wo_acts w \<or> (\<exists>e. wo_acts w' = wo_acts w @ [Retain e] \<or> wo_acts w' = wo_acts w @ [Publish e])
      \<or> (\<exists>n. wo_acts w' = wo_acts w @ [Leave n])"
  shows "peers_ok enforce w'"
  using assms by (elim disjE exE) (simp_all add: peers_ok_def)

lemma spec_sourced_snoc:
  assumes "spec_sourced (sourced enforce upstream atts) (spec_of acts)"
    and "\<And>e. a = Retain e \<or> a = Publish e \<Longrightarrow> sourced enforce upstream (atts @ more_atts) e"
  shows "spec_sourced (sourced enforce upstream (atts @ more_atts)) (spec_of (acts @ [a]))"
  unfolding spec_of_snoc
  by (rule spec_sourced_act [OF spec_sourced_mono [OF assms(1) sourced_mono] assms(2)])

lemmas spec_sourced_snoc' = spec_sourced_snoc [where more_atts = "[]", simplified append_Nil2]

text \<open>The steps that are no \<open>Join\<close>: the attested list grows, and at most one action is added.\<close>

lemma provenance_step:
  assumes "provenance enforce upstream w" and "wo_peer w' = wo_peer w" and "wo_attested w' = wo_attested w @ more_atts"
    and "\<forall>x \<in> set (wo_producers w'). x \<in> set (wo_producers w) \<or> producer_ok enforce upstream (wo_attested w') x"
    and "\<forall>e. wo_forwarding w' = Some e \<longrightarrow> upstream e"
    and "wo_acts w' = wo_acts w \<or> (\<exists>n. wo_acts w' = wo_acts w @ [Leave n]) \<or>
      (\<exists>e. (wo_acts w' = wo_acts w @ [Retain e] \<or> wo_acts w' = wo_acts w @ [Publish e]) \<and> sourced enforce upstream (wo_attested w') e)"
  shows "provenance enforce upstream w'"
proof -
  have "producers_ok enforce upstream w'"
    unfolding producers_ok_def
  proof (intro conjI ballI)
    fix x assume "x \<in> set (wo_producers w')"
    with assms(4) have "x \<in> set (wo_producers w) \<or> producer_ok enforce upstream (wo_attested w') x" by blast
    then show "producer_ok enforce upstream (wo_attested w') x"
    proof
      assume "x \<in> set (wo_producers w)"
      then have "producer_ok enforce upstream (wo_attested w) x" using assms(1) by (simp add: provenance_def producers_ok_def)
      then show ?thesis unfolding assms(3) by (rule producer_ok_mono)
    qed
  qed (fact assms(5))
  moreover have "peers_ok enforce w'"
  proof (rule peers_ok_cong [OF _ assms(2)])
    show "peers_ok enforce w" using assms(1) by (simp add: provenance_def)
    show "wo_acts w' = wo_acts w \<or> (\<exists>e. wo_acts w' = wo_acts w @ [Retain e] \<or> wo_acts w' = wo_acts w @ [Publish e])
      \<or> (\<exists>n. wo_acts w' = wo_acts w @ [Leave n])" using assms(6) by blast
  qed
  moreover have old: "spec_sourced (sourced enforce upstream (wo_attested w)) (spec_of (wo_acts w))"
    using assms(1) by (simp add: provenance_def)
  have "spec_sourced (sourced enforce upstream (wo_attested w')) (spec_of (wo_acts w'))"
    using assms(6)
  proof (elim disjE exE conjE)
    assume "wo_acts w' = wo_acts w"
    then show ?thesis using spec_sourced_mono [OF old sourced_mono] assms(3) by simp
  next
    fix n assume "wo_acts w' = wo_acts w @ [Leave n]"
    then show ?thesis using spec_sourced_snoc [OF old, of "Leave n" more_atts] assms(3) by simp
  next
    fix e assume "sourced enforce upstream (wo_attested w') e" "wo_acts w' = wo_acts w @ [Retain e]"
    then show ?thesis using spec_sourced_snoc [OF old, of "Retain e"] assms(3) by simp
  next
    fix e assume "sourced enforce upstream (wo_attested w') e" "wo_acts w' = wo_acts w @ [Publish e]"
    then show ?thesis using spec_sourced_snoc [OF old, of "Publish e"] assms(3) by simp
  qed
  ultimately show ?thesis by (simp add: provenance_def)
qed

lemma provenance_producer:
  "provenance enforce upstream w \<Longrightarrow> x \<in> set (wo_producers w) \<Longrightarrow> producer_ok enforce upstream (wo_attested w) x"
  "provenance enforce upstream w \<Longrightarrow> wo_forwarding w = Some e \<Longrightarrow> upstream e"
  by (simp_all add: provenance_def producers_ok_def)

lemma provenance_join:
  assumes "provenance enforce upstream w" and "refines w"
    and "consumer_registration enforce cred p stream = Registration name subs filt"
  shows "provenance enforce upstream (join_world name subs filt cred p w)"
proof -
  have len: "length (bu_channels (wo_bus w)) = length (sp_feeds (spec_of (wo_acts w)))"
    using refinesD [OF assms(2)] by (simp add: registry_sim_def)
  have "peers_ok enforce (join_world name subs filt cred p w)"
    using assms(1) consumer_registration_filter [OF assms(3)] len
    by (auto simp: provenance_def peers_ok_def nth_append less_Suc_eq)
  moreover have "producers_ok enforce upstream (join_world name subs filt cred p w)"
    using assms(1) by (simp add: provenance_def producers_ok_def)
  moreover have "spec_sourced (sourced enforce upstream (wo_attested w)) (spec_act (Join name subs filt order) (spec_of (wo_acts w)))" for order
    using assms(1) by (intro spec_sourced_act) (auto simp: provenance_def)
  ultimately show ?thesis by (simp add: provenance_def)
qed

lemma run_provenance: "bus_run enforce upstream w \<Longrightarrow> provenance enforce upstream w"
proof (induction rule: bus_run.induct)
  case boot
  show ?case by (simp add: provenance_def producers_ok_def peers_ok_def spec_sourced_def world_new_def)
next
  case (connect w cred scope c)
  have "producer_ok enforce upstream (wo_attested w @ [(pc_uid c, scope)]) (c, None)"
    using conn_ok_connect [OF connect.hyps(2)] by simp
  then show ?case
    using provenance_producer(2) [OF connect.IH]
    by (intro provenance_step [OF connect.IH, where more_atts = "[(pc_uid c, scope)]"]) auto
next
  case (publish w before c after retried e e' c')
  have "producer_ok enforce upstream (wo_attested w @ [(pc_uid c, retried)]) (c', Some e')"
    using producer_ok_event [OF provenance_producer(1) [OF publish.IH] publish.hyps(3)] publish.hyps(2) by simp
  then show ?case
    using provenance_producer(2) [OF publish.IH] publish.hyps(2)
    by (intro provenance_step [OF publish.IH, where more_atts = "[(pc_uid c, retried)]"]) auto
next
  case (refuse w before c after retried e c')
  have "producer_ok enforce upstream (wo_attested w @ [(pc_uid c, retried)]) (c', None)"
    using producer_ok_event [OF provenance_producer(1) [OF refuse.IH] refuse.hyps(3)] refuse.hyps(2) by simp
  then show ?case
    using provenance_producer(2) [OF refuse.IH] refuse.hyps(2)
    by (intro provenance_step [OF refuse.IH, where more_atts = "[(pc_uid c, retried)]"]) auto
next
  case (published w before c e after)
  have "producer_ok enforce upstream (wo_attested w) (c, Some e)"
    by (rule provenance_producer(1) [OF published.IH]) (simp add: published.hyps(2))
  then show ?case
    using provenance_producer(2) [OF published.IH] published.hyps(2)
    by (intro provenance_step [OF published.IH, where more_atts = "[]"]) auto
next
  case (hang_up w before c after)
  then show ?case
    using provenance_producer(2) [OF hang_up.IH] by (intro provenance_step [OF hang_up.IH, where more_atts = "[]"]) auto
next
  case (pull w e)
  then show ?case by (intro provenance_step [OF pull.IH, where more_atts = "[]"]) (auto simp: sourced_def)
next
  case (pulled w e)
  then show ?case
    using provenance_producer(2) [OF pulled.IH] by (intro provenance_step [OF pulled.IH, where more_atts = "[]"]) (auto simp: sourced_def)
next
  case (join w cred p stream name subs filt)
  show ?case using join.IH run_refines [OF join.hyps(1)] join.hyps(2) by (rule provenance_join)
next
  case (written w name i writable e b)
  show ?case
    using provenance_producer(2) [OF written.IH] by (intro provenance_step [OF written.IH, where more_atts = "[]"]) auto
next
  case (leave w name i writable b)
  show ?case
    using provenance_producer(2) [OF leave.IH] by (intro provenance_step [OF leave.IH, where more_atts = "[]"]) auto
qed

section \<open>What the bus guarantees\<close>

text \<open>
  C5. Whatever the interleaving of producers, consumers and the forwarder, every consumer is served
  its feed: what was written to its socket together with what waits in its channel is, in order and
  without repetition or invention, part of the list of events the specification owes it; it is the
  whole list as long as the consumer's task runs and its channel was never found full. No channel
  holds more than the buffer's size.
\<close>

theorem bus_refines_the_feeds:
  assumes "bus_run enforce upstream w" and "i < length (bu_channels (wo_bus w))"
  shows "let owed = fe_stream (sp_feeds (spec_of (wo_acts w)) ! i);
             served = wo_out w i @ ch_buf (bu_channels (wo_bus w) ! i)
         in length (sp_feeds (spec_of (wo_acts w))) = length (bu_channels (wo_bus w)) \<and>
            subseq served owed \<and> length (ch_buf (bu_channels (wo_bus w) ! i)) \<le> CONSUMER_BUFFER \<and>
            ((\<exists>name. (name, i) \<in> set (wo_tasks w)) \<and> \<not> wo_overflowed w i \<longrightarrow> served = owed)"
proof -
  note r = refinesD [OF run_refines [OF assms(1)]]
  have "length (sp_feeds (spec_of (wo_acts w))) = length (bu_channels (wo_bus w))" using r by (simp add: registry_sim_def)
  then show ?thesis using r assms(2) by (simp add: channel_sim_def Let_def)
qed

lemma served_subset:
  assumes "bus_run enforce upstream w" and "i < length (bu_channels (wo_bus w))"
  shows "i < length (sp_feeds (spec_of (wo_acts w)))" "set (wo_out w i) \<subseteq> set (fe_stream (sp_feeds (spec_of (wo_acts w)) ! i))"
proof -
  note r = refinesD [OF run_refines [OF assms(1)]]
  show i: "i < length (sp_feeds (spec_of (wo_acts w)))" using r assms(2) by (simp add: registry_sim_def)
  have "subseq (wo_out w i @ ch_buf (bu_channels (wo_bus w) ! i)) (fe_stream (sp_feeds (spec_of (wo_acts w)) ! i))"
    using r i by (simp add: channel_sim_def)
  then show "set (wo_out w i) \<subseteq> set (fe_stream (sp_feeds (spec_of (wo_acts w)) ! i))"
    by (auto dest: list_emb_set)
qed


text \<open>
  The hole the last condition leaves: a profile scoped to the files of one namespace grants the open
  prefix, and the bus reads the open prefix without its dot.
\<close>

lemma open_prefix_leaves_the_scope:
  "can_subscribe \<lparr>eb_publish = [], eb_subscribe = Some [''file.*'']\<rparr> ''file.'' \<and>
   sub_matches ''file.'' ''filesystem.mounted'' \<and>
   \<not> can_subscribe \<lparr>eb_publish = [], eb_subscribe = Some [''file.*'']\<rparr> ''filesystem.mounted''"
  by (simp add: can_subscribe_def pattern_matches_def pattern_matches_one_def sub_matches_def strip_suffix_def
      ends_with_def starts_with_def)

section \<open>Late joiners\<close>

text \<open>The last event of a state topic that the bus took in, read off the actions.\<close>

fun last_state :: "act list \<Rightarrow> string \<Rightarrow> event option" where
  "last_state [] t = None"
| "last_state (Retain e # acts) t =
     (case last_state acts t of Some d \<Rightarrow> Some d
      | None \<Rightarrow> if ev_type e = t \<and> is_state_topic t then Some e else None)"
| "last_state (_ # acts) t = last_state acts t"

lemma sp_last_fold: "sp_last (fold spec_act acts s) t = (case last_state acts t of Some e \<Rightarrow> Some e | None \<Rightarrow> sp_last s t)"
proof (induction acts arbitrary: s)
  case (Cons a acts)
  show ?case by (cases a) (auto simp: Cons.IH split: option.splits)
qed simp

lemma sp_last_spec_of: "sp_last (spec_of acts) t = last_state acts t"
  by (simp add: spec_of_def sp_last_fold split: option.splits)

lemma last_state_type: "last_state acts t = Some e \<Longrightarrow> ev_type e = t \<and> is_state_topic t"
  by (induction acts t rule: last_state.induct) (auto split: option.splits if_splits)

text \<open>
  A consumer that registers finds in its channel, before anything else, the last event of each
  state topic that its patterns select and its user filter accepts, once per topic, and nothing else;
  for a topic whose last event is about another user it finds nothing, whatever was retained before.
\<close>

theorem late_joiner_gets_the_last_state:
  assumes "bus_run enforce upstream w" and "length (bu_retained (wo_bus w)) \<le> CONSUMER_BUFFER"
  shows "let (i, b) = register name subs filt (wo_bus w); buf = ch_buf (bu_channels b ! i) in
    distinct (map ev_type buf) \<and>
    set buf = {e. last_state (wo_acts w) (ev_type e) = Some e \<and>
      (\<exists>q \<in> set subs. sub_matches q (ev_type e)) \<and> accepts filt (ev_uid e)}"
proof -
  let ?m = "bu_retained (wo_bus w)" and ?wants = "feed_wants (feed_new name subs filt [])"
  have reg: "registry_sim (wo_bus w) (spec_of (wo_acts w))" using refinesD [OF run_refines [OF assms(1)]] by simp
  then have m: "map_of ?m = last_state (wo_acts w)" "distinct (map fst ?m)"
    by (simp_all add: registry_sim_def fun_eq_iff sp_last_spec_of)
  have key: "(t, e) \<in> set ?m \<longleftrightarrow> last_state (wo_acts w) t = Some e" for t e
    using m by (metis map_of_eq_Some_iff)
  have types: "map ev_type (map snd ?m) = map fst ?m" using key last_state_type by (auto simp: comp_def)
  define es where "es = filter ?wants (map snd ?m)"
  have all: "length es \<le> CONSUMER_BUFFER"
    unfolding es_def using length_filter_le [of ?wants "map snd ?m"] assms(2) by (simp only: length_map)
  have "ch_buf (bu_channels (snd (register name subs filt (wo_bus w))) ! fst (register name subs filt (wo_bus w))) = take CONSUMER_BUFFER es"
    using register_nth(2,3) [OF reg, where name = name and subs = subs and filt = filt]
      fold_push_buf [of "\<lparr>ch_buf = [], ch_open = True\<rparr>" es] by (simp add: es_def)
  also have "\<dots> = es" using all by simp
  finally have buf: "ch_buf (bu_channels (snd (register name subs filt (wo_bus w))) ! fst (register name subs filt (wo_bus w))) = es" .
  have "distinct (map ev_type es)" unfolding es_def by (rule distinct_map_filter) (simp only: types m(2))
  moreover have "set es = {e. last_state (wo_acts w) (ev_type e) = Some e \<and> ?wants e}"
    using key last_state_type by (force simp: es_def)
  ultimately show ?thesis by (simp add: case_prod_unfold buf feed_wants_def)
qed

text \<open>One user's state event hides the snapshot another user's late joiner would have been given.\<close>

lemma foreign_state_hides_the_snapshot:
  assumes "last_state acts t = Some d" and "ev_type e = t"
  shows "last_state (acts @ [Retain e]) t = Some e"
proof -
  have "sp_last (spec_of (acts @ [Retain e])) t = Some e"
    using assms last_state_type by auto
  then show ?thesis by (simp only: sp_last_spec_of)
qed

text \<open>A consumer that leaves takes the entries of every consumer that called itself the same.\<close>

lemma leaving_silences_namesakes:
  assumes "c \<in> set (bu_consumers b)" and "ce_id c = name"
  shows "c \<notin> set (bu_consumers (consumer_close name i b))"
  using assms by (simp add: consumer_close_def drop_receiver_def unregister_def)

section \<open>A run\<close>

definition demo_panel :: peer where
  "demo_panel = \<lparr>pe_scope = Profiled ''panel'' \<lparr>eb_publish = [], eb_subscribe = Some [''power.*'']\<rparr>, pe_tier = Some ThirdParty\<rparr>"

definition demo_lines :: bytes where
  "demo_lines = ''panel'' @ CHR 0x0A # ''power.*'' @ CHR 0x0A # ''*'' @ [CHR 0x0A]"

definition demo_published :: world where
  "demo_published =
     (let w1 = world_new\<lparr>wo_producers := [(demo_conn, None)], wo_attested := [(1000, demo_power)]\<rparr>;
          w2 = start_dispatch demo_event (w1\<lparr>wo_producers := [(demo_conn, Some demo_event)],
                 wo_attested := [(1000, demo_power), (1000, Unresolved)]\<rparr>)
      in finish_dispatch demo_event (w2\<lparr>wo_producers := [(demo_conn, None)]\<rparr>))"

definition demo_joined :: world where
  "demo_joined = join_world ''panel'' [''power.*''] (Exact 1000) (Some 1000) demo_panel demo_published"

definition demo_heard :: world where
  "demo_heard = demo_joined\<lparr>wo_bus := snd (recv 0 (wo_bus demo_joined)), wo_out := (wo_out demo_joined)(0 := [demo_event])\<rparr>"

lemma demo_run_published: "bus_run True (\<lambda>_. False) demo_published"
proof -
  have c: "producer_connect (Some 1000) demo_power = Some demo_conn"
    by (simp add: producer_connect_def demo_conn_def demo_power_def observes_other_uids_def UID_OBSERVERS_def)
  have uid: "pc_uid demo_conn = 1000" by (simp add: demo_conn_def)
  have w1: "bus_run True (\<lambda>_. False) (world_new\<lparr>wo_producers := [(demo_conn, None)], wo_attested := [(1000, demo_power)]\<rparr>)" (is "bus_run _ _ ?w1")
    using connect [OF boot c, of True "\<lambda>_. False"] uid by (simp add: world_new_def)
  have "bus_run True (\<lambda>_. False) (start_dispatch demo_event (?w1\<lparr>wo_producers := [(demo_conn, Some demo_event)],
      wo_attested := [(1000, demo_power), (1000, Unresolved)]\<rparr>))" (is "bus_run _ _ ?w2")
    using publish [OF w1 _ demo_producer_event, of "[]" "[]"] uid by simp
  then have "bus_run True (\<lambda>_. False) (finish_dispatch demo_event (?w2\<lparr>wo_producers := [] @ (demo_conn, None) # []\<rparr>))"
    by (rule published) (simp add: start_dispatch_def)
  then show ?thesis by (simp add: demo_published_def Let_def)
qed

lemma demo_bus: "wo_bus demo_published = \<lparr>bu_consumers = [], bu_retained = [(''power.state'', demo_event)], bu_channels = []\<rparr>"
  by (simp add: demo_published_def Let_def start_dispatch_def finish_dispatch_def world_new_def bus_new_def deliver_def retain_state_def
      demo_event_def demo_raw_def is_state_topic_def ends_with_def)

lemma demo_registration: "consumer_registration True (Some 1000) demo_panel demo_lines = Registration ''panel'' [''power.*''] (Exact 1000)"
  by (simp add: demo_lines_def demo_panel_def) code_simp

lemma demo_joined_bus: "bu_channels (wo_bus demo_joined) = [\<lparr>ch_buf = [demo_event], ch_open = True\<rparr>]"
  by (simp add: demo_joined_def join_world_def register_def demo_bus offer_def wants_def entry_matches_def demo_event_def demo_raw_def
      sub_matches_def strip_suffix_def ends_with_def starts_with_def try_send_def CONSUMER_BUFFER_def)

lemma demo_run_joined: "bus_run True (\<lambda>_. False) demo_joined"
  unfolding demo_joined_def using demo_run_published demo_registration by (rule join)

lemma demo_run_heard: "bus_run True (\<lambda>_. False) demo_heard"
proof -
  have "(''panel'', 0) \<in> set (wo_tasks demo_joined)"
    by (simp add: demo_joined_def join_world_def register_def demo_bus Let_def)
  moreover have "consumer_forward True ''panel'' 0 (wo_bus demo_joined) = (Wrote demo_event, snd (recv 0 (wo_bus demo_joined)))"
    by (simp add: consumer_forward_def recv_def demo_joined_bus)
  moreover have "wo_out demo_joined 0 = []"
    by (simp add: demo_joined_def join_world_def demo_published_def start_dispatch_def finish_dispatch_def world_new_def case_prod_unfold Let_def)
  ultimately show ?thesis
    unfolding demo_heard_def using written [OF demo_run_joined, of "''panel''" 0 True demo_event] by simp
qed

lemma demo_heard_channels: "bu_channels (wo_bus demo_heard) = [\<lparr>ch_buf = [], ch_open = True\<rparr>]"
  by (simp add: demo_heard_def recv_def demo_joined_bus)

theorem bus_refines_the_feeds_witness:
  "bus_run True (\<lambda>_. False) demo_heard \<and> fe_stream (sp_feeds (spec_of (wo_acts demo_heard)) ! 0) = [demo_event]"
proof -
  have "wo_out demo_heard 0 = [demo_event]" by (simp add: demo_heard_def)
  moreover have "(''panel'', 0) \<in> set (wo_tasks demo_heard)" "\<not> wo_overflowed demo_heard 0"
    by (simp_all add: demo_heard_def demo_joined_def join_world_def register_def demo_bus CONSUMER_BUFFER_def Let_def)
  ultimately show ?thesis
    using bus_refines_the_feeds [OF demo_run_heard, of 0] demo_run_heard by (auto simp: demo_heard_channels Let_def)
qed


theorem late_joiner_gets_the_last_state_witness:
  "bus_run True (\<lambda>_. False) demo_published \<and>
   demo_event \<in> set (ch_buf (bu_channels (snd (register ''late'' [''*''] AllUids (wo_bus demo_published))) ! 0))"
proof -
  have "last_state (wo_acts demo_published) (ev_type demo_event) = Some demo_event"
    by (simp add: demo_published_def Let_def start_dispatch_def finish_dispatch_def world_new_def demo_event_def demo_raw_def is_state_topic_def ends_with_def)
  then show ?thesis
    using late_joiner_gets_the_last_state [OF demo_run_published, of "''late''" "[''*'']" AllUids] demo_run_published
    by (simp add: demo_bus CONSUMER_BUFFER_def case_prod_unfold Let_def register_def)
qed

end
