(* ===== verification/Quota.thy ===== *)
theory Quota
  imports Prelude
begin

text \<open>
  Quotas and rate limits of the graph daemon (\<open>daemons/knowledge/src/quota/\<close>: \<open>config.rs\<close>,
  \<open>rate_limit.rs\<close>, \<open>tracker.rs\<close>) and the shared state of its connections (\<open>RateState\<close> in
  \<open>daemons/knowledge/src/daemon.rs\<close>).

  A time is a number of nanoseconds since start-up, an argument of every operation that reads the
  clock; \<open>duration_since\<close> of a later instant is zero, as subtraction is here. A bucket's tokens are
  counted in billionths, so that refilling is exact: the rounding of the source's \<open>f64\<close> is not
  modelled. A \<open>usize\<close> is a 64-bit word and its arithmetic wraps, as in a release build.
\<close>

section \<open>Configuration\<close>

datatype quota_tier = QSystem | QFirstParty | QThirdParty

record tier_quotas =
  tq_max_entities :: "u64 option"
  tq_max_storage_bytes :: "u64 option"
  tq_max_query_results :: u64
  tq_queries_per_second :: "u64 option"
  tq_writes_per_second :: "u64 option"

definition quotas_system :: tier_quotas where
  "quotas_system = \<lparr>tq_max_entities = None, tq_max_storage_bytes = None, tq_max_query_results = 100000,
     tq_queries_per_second = None, tq_writes_per_second = None\<rparr>"

definition quotas_first_party :: tier_quotas where
  "quotas_first_party = \<lparr>tq_max_entities = Some 500000, tq_max_storage_bytes = Some (2 * 1024 * 1024 * 1024),
     tq_max_query_results = 50000, tq_queries_per_second = Some 1000, tq_writes_per_second = Some 500\<rparr>"

definition quotas_third_party :: tier_quotas where
  "quotas_third_party = \<lparr>tq_max_entities = Some 100000, tq_max_storage_bytes = Some (500 * 1024 * 1024),
     tq_max_query_results = 10000, tq_queries_per_second = Some 100, tq_writes_per_second = Some 50\<rparr>"

fun quotas_for_tier :: "quota_tier \<Rightarrow> tier_quotas" where
  "quotas_for_tier QSystem = quotas_system"
| "quotas_for_tier QFirstParty = quotas_first_party"
| "quotas_for_tier QThirdParty = quotas_third_party"

record quota_config =
  qc_first_party_apps :: "string list"
  qc_overrides :: "(string, tier_quotas) hash_map"

definition arlen_default :: quota_config where
  "arlen_default = \<lparr>qc_first_party_apps =
     [''ai-daemon'', ''ai-agent'', ''code-indexer'', ''bridge-ingest'', ''dev.arlen.knowledge'',
      ''dev.arlen.meetings'', ''consent-broker'', ''dev.arlen.desktop-shell''], qc_overrides = []\<rparr>"

text \<open>
  What a build admits beside the configured names: nothing in a release build; in a debug build the
  fixed development ids and those an environment variable lists.
\<close>

datatype daemon_build = ReleaseBuild | DebugBuild "string option"

definition extra_first_party_admits :: "string option \<Rightarrow> string \<Rightarrow> bool" where
  "extra_first_party_admits env app_id =
     (case env of None \<Rightarrow> False | Some v \<Rightarrow> (\<exists>i \<in> set (split_on CHR '','' v). trim i = app_id))"

definition DEV_FIRST_PARTY :: "string list" where
  "DEV_FIRST_PARTY =
     [''dev.arlen-ai-agent'', ''dev.arlen-ai-engine-daemon'', ''dev.arlen-ai-daemon'', ''dev.arlen-code-indexer'',
      ''dev.arlen-bridge-ingest'', ''dev.arlen-knowledge-app'', ''dev.arlen-meetings'', ''dev.arlen-consent-broker'']"

fun is_dev_first_party_id :: "daemon_build \<Rightarrow> string \<Rightarrow> bool" where
  "is_dev_first_party_id ReleaseBuild app_id \<longleftrightarrow> False"
| "is_dev_first_party_id (DebugBuild env) app_id \<longleftrightarrow>
     app_id \<in> set DEV_FIRST_PARTY \<or> extra_first_party_admits env app_id"

definition tier_for_app :: "daemon_build \<Rightarrow> quota_config \<Rightarrow> string \<Rightarrow> quota_tier" where
  "tier_for_app bd cfg app_id =
     (if app_id = ''system'' \<or> starts_with app_id ''system.'' then QSystem
      else if app_id \<in> set (qc_first_party_apps cfg) \<or> starts_with app_id ''org.arlen.''
        \<or> is_dev_first_party_id bd app_id then QFirstParty
      else QThirdParty)"

definition quotas_for_app :: "daemon_build \<Rightarrow> quota_config \<Rightarrow> string \<Rightarrow> tier_quotas" where
  "quotas_for_app bd cfg app_id =
     (case map_of (qc_overrides cfg) app_id of Some q \<Rightarrow> q | None \<Rightarrow> quotas_for_tier (tier_for_app bd cfg app_id))"

section \<open>Token buckets\<close>

type_synonym instant = nat

definition TOKEN :: nat where "TOKEN = 1000000000"

record token_bucket =
  tb_capacity :: u64
  tb_tokens :: nat
  tb_refill_rate :: u64
  tb_last_refill :: instant

definition bucket_new :: "instant \<Rightarrow> u64 \<Rightarrow> u64 \<Rightarrow> token_bucket" where
  "bucket_new now capacity per_second =
     \<lparr>tb_capacity = capacity, tb_tokens = unat capacity * TOKEN, tb_refill_rate = per_second, tb_last_refill = now\<rparr>"

definition refill :: "instant \<Rightarrow> token_bucket \<Rightarrow> token_bucket" where
  "refill now b = b\<lparr>tb_tokens := min (tb_tokens b + (now - tb_last_refill b) * unat (tb_refill_rate b)) (unat (tb_capacity b) * TOKEN),
     tb_last_refill := now\<rparr>"

definition try_consume :: "instant \<Rightarrow> token_bucket \<Rightarrow> bool \<times> token_bucket" where
  "try_consume now b =
     (let b' = refill now b in
      if tb_tokens b' \<ge> TOKEN then (True, b'\<lparr>tb_tokens := tb_tokens b' - TOKEN\<rparr>) else (False, b'))"

definition available :: "instant \<Rightarrow> token_bucket \<Rightarrow> nat \<times> token_bucket" where
  "available now b = (let b' = refill now b in (tb_tokens b', b'))"

datatype rate_limit_error = QueryRateExceeded u64 | WriteRateExceeded u64

fun rate_limit_error_text :: "rate_limit_error \<Rightarrow> string" where
  "rate_limit_error_text (QueryRateExceeded m) = ''query rate limit exceeded: max '' @ dec (unat m) @ ''/sec''"
| "rate_limit_error_text (WriteRateExceeded m) = ''write rate limit exceeded: max '' @ dec (unat m) @ ''/sec''"

record rate_limiter =
  rl_config :: quota_config
  rl_query_buckets :: "(string, token_bucket) hash_map"
  rl_write_buckets :: "(string, token_bucket) hash_map"

definition limiter_new :: "quota_config \<Rightarrow> rate_limiter" where
  "limiter_new cfg = \<lparr>rl_config = cfg, rl_query_buckets = [], rl_write_buckets = []\<rparr>"

text \<open>What both checks do with their map of buckets.\<close>

definition consume_for :: "instant \<Rightarrow> string \<Rightarrow> u64 \<Rightarrow> (string, token_bucket) hash_map \<Rightarrow> bool \<times> (string, token_bucket) hash_map" where
  "consume_for now app_id max_rate buckets =
     (let bucket = (case map_of buckets app_id of Some b \<Rightarrow> b | None \<Rightarrow> bucket_new now (max_rate * 2) max_rate);
          (ok, bucket') = try_consume now bucket
      in (ok, AList.update app_id bucket' buckets))"

definition check_query :: "daemon_build \<Rightarrow> instant \<Rightarrow> string \<Rightarrow> rate_limiter \<Rightarrow> (rate_limit_error + unit) \<times> rate_limiter" where
  "check_query bd now app_id l =
     (case tq_queries_per_second (quotas_for_app bd (rl_config l) app_id) of
        None \<Rightarrow> (Inr (), l)
      | Some max_rate \<Rightarrow>
          let (ok, bs) = consume_for now app_id max_rate (rl_query_buckets l)
          in (if ok then Inr () else Inl (QueryRateExceeded max_rate), l\<lparr>rl_query_buckets := bs\<rparr>))"

definition check_write :: "daemon_build \<Rightarrow> instant \<Rightarrow> string \<Rightarrow> rate_limiter \<Rightarrow> (rate_limit_error + unit) \<times> rate_limiter" where
  "check_write bd now app_id l =
     (case tq_writes_per_second (quotas_for_app bd (rl_config l) app_id) of
        None \<Rightarrow> (Inr (), l)
      | Some max_rate \<Rightarrow>
          let (ok, bs) = consume_for now app_id max_rate (rl_write_buckets l)
          in (if ok then Inr () else Inl (WriteRateExceeded max_rate), l\<lparr>rl_write_buckets := bs\<rparr>))"

section \<open>The state the connections share\<close>

definition EMIT_THROTTLE :: nat where "EMIT_THROTTLE = 5 * TOKEN"

record rate_state =
  rs_limiter :: rate_limiter
  rs_last_emit :: "(string, instant) hash_map"

definition rate_state_new :: rate_state where
  "rate_state_new = \<lparr>rs_limiter = limiter_new arlen_default, rs_last_emit = []\<rparr>"

definition should_emit :: "instant \<Rightarrow> string \<Rightarrow> rate_state \<Rightarrow> bool \<times> rate_state" where
  "should_emit now app_id s =
     (case map_of (rs_last_emit s) app_id of
        Some t \<Rightarrow> if now - t < EMIT_THROTTLE then (False, s)
          else (True, s\<lparr>rs_last_emit := AList.update app_id now (rs_last_emit s)\<rparr>)
      | None \<Rightarrow> (True, s\<lparr>rs_last_emit := AList.update app_id now (rs_last_emit s)\<rparr>))"

text \<open>The check a request makes before any work: the refusal, with whether it is to be reported.\<close>

definition rate_violation :: "(rate_limit_error + unit) \<times> rate_limiter \<Rightarrow> instant \<Rightarrow> string \<Rightarrow> rate_state \<Rightarrow> (string \<times> bool) option \<times> rate_state" where
  "rate_violation checked now app_id s =
     (let s' = s\<lparr>rs_limiter := snd checked\<rparr> in
      case fst checked of
        Inr _ \<Rightarrow> (None, s')
      | Inl e \<Rightarrow> (let (emit, s'') = should_emit now app_id s' in (Some (rate_limit_error_text e, emit), s'')))"

section \<open>The tracker\<close>

datatype quota_error =
    EntityQuotaExceeded u64 u64
  | StorageQuotaExceeded u64 u64
  | ResultLimitExceeded u64

record app_usage =
  au_entity_count :: u64
  au_storage_bytes :: u64

definition usage_default :: app_usage where
  "usage_default = \<lparr>au_entity_count = 0, au_storage_bytes = 0\<rparr>"

record quota_tracker =
  qt_config :: quota_config
  qt_usage :: "(string, app_usage) hash_map"

definition tracker_new :: "quota_config \<Rightarrow> quota_tracker" where
  "tracker_new cfg = \<lparr>qt_config = cfg, qt_usage = []\<rparr>"

definition get_usage :: "string \<Rightarrow> quota_tracker \<Rightarrow> app_usage" where
  "get_usage app_id t = (case map_of (qt_usage t) app_id of Some u \<Rightarrow> u | None \<Rightarrow> usage_default)"

definition check_entity_quota :: "daemon_build \<Rightarrow> string \<Rightarrow> quota_tracker \<Rightarrow> quota_error + unit" where
  "check_entity_quota bd app_id t =
     (case tq_max_entities (quotas_for_app bd (qt_config t) app_id) of
        None \<Rightarrow> Inr ()
      | Some m \<Rightarrow> if au_entity_count (get_usage app_id t) \<ge> m
          then Inl (EntityQuotaExceeded (au_entity_count (get_usage app_id t)) m) else Inr ())"

definition check_storage_quota :: "daemon_build \<Rightarrow> string \<Rightarrow> u64 \<Rightarrow> quota_tracker \<Rightarrow> quota_error + unit" where
  "check_storage_quota bd app_id additional_bytes t =
     (case tq_max_storage_bytes (quotas_for_app bd (qt_config t) app_id) of
        None \<Rightarrow> Inr ()
      | Some m \<Rightarrow> (let new_total = au_storage_bytes (get_usage app_id t) + additional_bytes in
          if new_total > m then Inl (StorageQuotaExceeded new_total m) else Inr ()))"

definition max_query_results :: "daemon_build \<Rightarrow> string \<Rightarrow> quota_tracker \<Rightarrow> u64" where
  "max_query_results bd app_id t = tq_max_query_results (quotas_for_app bd (qt_config t) app_id)"

definition record_create :: "string \<Rightarrow> u64 \<Rightarrow> quota_tracker \<Rightarrow> quota_tracker" where
  "record_create app_id bytes t =
     (let u = get_usage app_id t in
      t\<lparr>qt_usage := AList.update app_id (u\<lparr>au_entity_count := au_entity_count u + 1, au_storage_bytes := au_storage_bytes u + bytes\<rparr>) (qt_usage t)\<rparr>)"

definition saturating_sub :: "u64 \<Rightarrow> u64 \<Rightarrow> u64" where
  "saturating_sub a b = (if b \<le> a then a - b else 0)"

definition record_delete :: "string \<Rightarrow> u64 \<Rightarrow> quota_tracker \<Rightarrow> quota_tracker" where
  "record_delete app_id bytes t =
     (case map_of (qt_usage t) app_id of
        None \<Rightarrow> t
      | Some u \<Rightarrow> t\<lparr>qt_usage := AList.update app_id (u\<lparr>au_entity_count := saturating_sub (au_entity_count u) 1,
          au_storage_bytes := saturating_sub (au_storage_bytes u) bytes\<rparr>) (qt_usage t)\<rparr>)"

definition load_usage :: "(string, app_usage) hash_map \<Rightarrow> quota_tracker \<Rightarrow> quota_tracker" where
  "load_usage m t = t\<lparr>qt_usage := m\<rparr>"

section \<open>The rate of admissions\<close>

text \<open>A sequence of calls by any applications, each at its time: which ones are let through.\<close>

fun run_checks :: "(instant \<Rightarrow> string \<Rightarrow> 's \<Rightarrow> bool \<times> 's) \<Rightarrow> (instant \<times> string) list \<Rightarrow> 's \<Rightarrow> bool list \<times> 's" where
  "run_checks check [] l = ([], l)"
| "run_checks check ((now, a) # calls) l =
     (let (ok, l') = check now a l; (oks, l'') = run_checks check calls l' in (ok # oks, l''))"

definition admitted :: "string \<Rightarrow> (instant \<times> string) list \<Rightarrow> bool list \<Rightarrow> nat" where
  "admitted a calls oks = length (filter (\<lambda>((t, x), ok). x = a \<and> ok) (zip calls oks))"

lemma admitted_Nil [simp]: "admitted a [] oks = 0"
  by (simp add: admitted_def)

lemma admitted_Cons [simp]: "admitted a ((t, x) # calls) (ok # oks) = (if x = a \<and> ok then 1 else 0) + admitted a calls oks"
  by (simp add: admitted_def)

lemma run_checks_append:
  "run_checks check (xs @ ys) l =
     (let (oks, l') = run_checks check xs l; (oks', l'') = run_checks check ys l' in (oks @ oks', l''))"
  by (induction xs arbitrary: l) (auto simp: case_prod_unfold Let_def)

lemma length_run_checks [simp]: "length (fst (run_checks check calls l)) = length calls"
  by (induction calls arbitrary: l) (auto simp: case_prod_unfold Let_def)

text \<open>What an application could spend at a time, of a bucket that is new or was last refilled earlier.\<close>

definition spendable :: "u64 \<Rightarrow> token_bucket option \<Rightarrow> instant \<Rightarrow> nat" where
  "spendable r b t = (case b of None \<Rightarrow> 2 * unat r * TOKEN
     | Some b \<Rightarrow> min (tb_tokens b + (t - tb_last_refill b) * unat r) (2 * unat r * TOKEN))"

definition bucket_ok :: "u64 \<Rightarrow> token_bucket option \<Rightarrow> bool" where
  "bucket_ok r b \<longleftrightarrow> (case b of None \<Rightarrow> True | Some b \<Rightarrow> unat (tb_capacity b) = 2 * unat r \<and> tb_refill_rate b = r)"

lemma spendable_later:
  assumes "t0 \<le> t"
  shows "spendable r b t \<le> spendable r b t0 + unat r * (t - t0)"
proof (cases b)
  case (Some c)
  have "(t - tb_last_refill c) * unat r \<le> ((t0 - tb_last_refill c) + (t - t0)) * unat r"
    using assms by (intro mult_right_mono) simp_all
  then show ?thesis using Some by (simp add: spendable_def algebra_simps min_def)
qed (simp add: spendable_def)

lemma spendable_le: "spendable r b t \<le> 2 * unat r * TOKEN"
  by (simp add: spendable_def split: option.splits)

lemma unat_double: "2 * unat r < 2 ^ 64 \<Longrightarrow> unat ((r :: u64) * 2) = 2 * unat r"
  by (simp add: unat_mult_lem [THEN iffD1] mult.commute)

text \<open>
  What a check of either kind promises: it is the bucket rule on its own map, and it leaves every
  application's rate as it was.
\<close>

locale rate_check =
  fixes rate :: "rate_limiter \<Rightarrow> string \<Rightarrow> u64 option"
    and buckets :: "rate_limiter \<Rightarrow> (string, token_bucket) hash_map"
    and check :: "instant \<Rightarrow> string \<Rightarrow> rate_limiter \<Rightarrow> bool \<times> rate_limiter"
  assumes unlimited: "rate l a = None \<Longrightarrow> check now a l = (True, l)"
    and limited: "rate l a = Some r \<Longrightarrow> consume_for now a r (buckets l) = (fst (check now a l), buckets (snd (check now a l)))"
    and rate_kept: "rate (snd (check now a l)) = rate l"
begin

lemma rate_run: "rate (snd (run_checks check calls l)) = rate l"
  by (induction calls arbitrary: l) (auto simp: case_prod_unfold Let_def rate_kept)

lemma other_bucket:
  assumes "x \<noteq> a"
  shows "map_of (buckets (snd (check now x l))) a = map_of (buckets l) a"
proof (cases "rate l x")
  case None
  then show ?thesis by (simp add: unlimited)
next
  case (Some r)
  then show ?thesis
    using limited [OF Some, of now] assms by (auto simp: consume_for_def case_prod_unfold Let_def update_conv' dest: sym)
qed

lemma own_bucket:
  assumes "rate l a = Some r" and "2 * unat r < 2 ^ 64" and "bucket_ok r (map_of (buckets l) a)"
  shows "\<exists>b. map_of (buckets (snd (check now a l))) a = Some b \<and> bucket_ok r (Some b) \<and> tb_last_refill b = now \<and>
    fst (check now a l) = (TOKEN \<le> spendable r (map_of (buckets l) a) now) \<and>
    tb_tokens b = spendable r (map_of (buckets l) a) now - (if fst (check now a l) then TOKEN else 0)"
proof -
  define b where "b = (case map_of (buckets l) a of Some b \<Rightarrow> b | None \<Rightarrow> bucket_new now (r * 2) r)"
  have ok: "bucket_ok r (Some b)"
    using assms(2,3) unat_double [of r] by (auto simp: b_def bucket_ok_def bucket_new_def split: option.splits)
  have spend: "tb_tokens (refill now b) = spendable r (map_of (buckets l) a) now"
    using ok unat_double [OF assms(2)] by (auto simp: b_def bucket_ok_def spendable_def refill_def bucket_new_def split: option.splits)
  have "map_of (buckets (snd (check now a l))) a = Some (snd (try_consume now b))" "fst (check now a l) = fst (try_consume now b)"
    using limited [OF assms(1), of now] by (auto simp: consume_for_def b_def [symmetric] case_prod_unfold Let_def update_conv' dest: sym)
  moreover have "tb_capacity (refill now b) = tb_capacity b" "tb_refill_rate (refill now b) = tb_refill_rate b"
      "tb_last_refill (refill now b) = now" by (simp_all add: refill_def)
  ultimately show ?thesis
    using ok spend by (cases "TOKEN \<le> tb_tokens (refill now b)") (simp_all add: try_consume_def Let_def bucket_ok_def)
qed

lemma bucket_ok_run:
  assumes "rate l a = Some r" and "2 * unat r < 2 ^ 64" and "bucket_ok r (map_of (buckets l) a)"
  shows "bucket_ok r (map_of (buckets (snd (run_checks check calls l))) a)"
  using assms
proof (induction calls arbitrary: l)
  case (Cons c calls)
  obtain t x where c: "c = (t, x)" by fastforce
  have "bucket_ok r (map_of (buckets (snd (check t x l))) a)"
    using own_bucket [OF Cons.prems, of t] other_bucket [of x a t l] Cons.prems(3) by (cases "x = a") auto
  then show ?case using Cons.IH [of "snd (check t x l)"] Cons.prems(1,2) rate_kept by (simp add: c case_prod_unfold Let_def)
qed simp

lemma admitted_bound:
  assumes "rate l a = Some r" and "2 * unat r < 2 ^ 64" and "bucket_ok r (map_of (buckets l) a)"
    and "sorted (t0 # map fst calls)"
  shows "TOKEN * admitted a calls (fst (run_checks check calls l))
    \<le> spendable r (map_of (buckets l) a) t0 + unat r * (last (t0 # map fst calls) - t0)"
  using assms
proof (induction calls arbitrary: l t0)
  case (Cons c calls)
  obtain t x where c: "c = (t, x)" by fastforce
  let ?l = "snd (check t x l)" and ?stop = "last (t # map fst calls)"
  have sorted: "t0 \<le> t" "sorted (t # map fst calls)" using Cons.prems(4) by (simp_all add: c)
  have ends: "t \<le> ?stop" using sorted(2) by (cases calls) (auto simp: last_map)
  have ok: "bucket_ok r (map_of (buckets ?l) a)"
    using bucket_ok_run [OF Cons.prems(1-3), of "[c]"] by (simp add: c case_prod_unfold Let_def)
  have IH: "TOKEN * admitted a calls (fst (run_checks check calls ?l)) \<le> spendable r (map_of (buckets ?l) a) t + unat r * (?stop - t)"
    by (rule Cons.IH) (use Cons.prems sorted ok rate_kept in simp_all)
  have here: "spendable r (map_of (buckets l) a) t \<le> spendable r (map_of (buckets l) a) t0 + unat r * (t - t0)"
    using sorted(1) by (rule spendable_later)
  have step: "(if x = a \<and> fst (check t x l) then TOKEN else 0) + spendable r (map_of (buckets ?l) a) t \<le> spendable r (map_of (buckets l) a) t"
    using own_bucket [OF Cons.prems(1-3), of t] other_bucket [of x a t l] by (cases "x = a") (auto simp: spendable_def)
  have sum: "unat r * (?stop - t) + unat r * (t - t0) = unat r * (?stop - t0)"
    using sorted(1) ends by (simp flip: distrib_left)
  have split: "TOKEN * admitted a (c # calls) (fst (run_checks check (c # calls) l)) =
      (if x = a \<and> fst (check t x l) then TOKEN else 0) + TOKEN * admitted a calls (fst (run_checks check calls ?l))"
    by (auto simp: c case_prod_unfold Let_def)
  have ends': "last (t0 # map fst (c # calls)) = ?stop" by (simp add: c)
  show ?case unfolding split ends' using sum IH here step by linarith
qed simp

lemma paced_admitted:
  assumes "rate l a = Some r" and "2 * unat r < 2 ^ 64" and "0 < unat r" and "bucket_ok r (map_of (buckets l) a)"
    and "successively (\<lambda>s t. TOKEN \<le> (t - s) * unat r) (map fst (filter (\<lambda>c. snd c = a) calls))"
    and "\<And>b t ts. map_of (buckets l) a = Some b \<Longrightarrow> map fst (filter (\<lambda>c. snd c = a) calls) = t # ts \<Longrightarrow> TOKEN \<le> (t - tb_last_refill b) * unat r"
  shows "admitted a calls (fst (run_checks check calls l)) = length (filter (\<lambda>c. snd c = a) calls)"
  using assms
proof (induction calls arbitrary: l)
  case (Cons c calls)
  obtain t x where c: "c = (t, x)" by fastforce
  let ?l = "snd (check t x l)"
  have ok: "bucket_ok r (map_of (buckets ?l) a)"
    using bucket_ok_run [OF Cons.prems(1,2,4), of "[c]"] by (simp add: c case_prod_unfold Let_def)
  have rate: "rate ?l a = Some r" using Cons.prems(1) rate_kept by simp
  show ?case
  proof (cases "x = a")
    case True
    obtain b where b: "map_of (buckets ?l) a = Some b" "tb_last_refill b = t"
        "fst (check t x l) = (TOKEN \<le> spendable r (map_of (buckets l) a) t)"
      using own_bucket [OF Cons.prems(1,2,4), of t] True by auto
    have "TOKEN \<le> spendable r (map_of (buckets l) a) t"
    proof (cases "map_of (buckets l) a")
      case None
      have "1 * TOKEN \<le> 2 * unat r * TOKEN" using Cons.prems(3) by (intro mult_right_mono) simp_all
      then show ?thesis using None by (simp add: spendable_def)
    next
      case (Some b0)
      have "TOKEN \<le> (t - tb_last_refill b0) * unat r" using Cons.prems(6) [OF Some] True by (simp add: c)
      moreover have "1 * TOKEN \<le> 2 * unat r * TOKEN" using Cons.prems(3) by (intro mult_right_mono) simp_all
      ultimately show ?thesis using Some by (simp add: spendable_def)
    qed
    moreover have "admitted a calls (fst (run_checks check calls ?l)) = length (filter (\<lambda>c. snd c = a) calls)"
      by (rule Cons.IH) (use Cons.prems True rate ok b in \<open>auto simp: c successively_Cons\<close>)
    ultimately show ?thesis using b(3) True by (simp add: c case_prod_unfold Let_def)
  next
    case False
    have "admitted a calls (fst (run_checks check calls ?l)) = length (filter (\<lambda>c. snd c = a) calls)"
      by (rule Cons.IH) (use Cons.prems False rate ok other_bucket [OF False] in \<open>auto simp: c\<close>)
    then show ?thesis using False by (simp add: c case_prod_unfold Let_def)
  qed
qed simp

end

definition query_rate :: "daemon_build \<Rightarrow> rate_limiter \<Rightarrow> string \<Rightarrow> u64 option" where
  "query_rate bd l a = tq_queries_per_second (quotas_for_app bd (rl_config l) a)"

definition write_rate :: "daemon_build \<Rightarrow> rate_limiter \<Rightarrow> string \<Rightarrow> u64 option" where
  "write_rate bd l a = tq_writes_per_second (quotas_for_app bd (rl_config l) a)"

definition query_ok :: "daemon_build \<Rightarrow> instant \<Rightarrow> string \<Rightarrow> rate_limiter \<Rightarrow> bool \<times> rate_limiter" where
  "query_ok bd now a l = (let (res, l') = check_query bd now a l in (res = Inr (), l'))"

definition write_ok :: "daemon_build \<Rightarrow> instant \<Rightarrow> string \<Rightarrow> rate_limiter \<Rightarrow> bool \<times> rate_limiter" where
  "write_ok bd now a l = (let (res, l') = check_write bd now a l in (res = Inr (), l'))"

interpretation queries: rate_check "query_rate bd" rl_query_buckets "query_ok bd" for bd
  by unfold_locales (simp_all add: query_rate_def query_ok_def check_query_def case_prod_unfold Let_def fun_eq_iff prod_eq_iff
    split: option.splits)

interpretation writes: rate_check "write_rate bd" rl_write_buckets "write_ok bd" for bd
  by unfold_locales (simp_all add: write_rate_def write_ok_def check_write_def case_prod_unfold Let_def fun_eq_iff prod_eq_iff
    split: option.splits)

text \<open>
  C25. Whatever the applications have done since the daemon started, and however their calls
  interleave: over any stretch of calls an application with a limit of \<open>r\<close> queries (or writes) a
  second gets at most \<open>2 r\<close> of them through plus \<open>r\<close> for every second between the first and the last
  call of the stretch (times are in nanoseconds, \<open>TOKEN\<close> of them a second).
\<close>

theorem rate_is_bounded:
  assumes "sorted (map fst window)" and "window \<noteq> []" and "2 * unat r < 2 ^ 64"
  shows "let elapsed = fst (last window) - fst (hd window) in
    (query_rate bd (limiter_new cfg) a = Some r \<longrightarrow>
       TOKEN * admitted a window (fst (run_checks (query_ok bd) window (snd (run_checks (query_ok bd) before (limiter_new cfg)))))
         \<le> unat r * (2 * TOKEN + elapsed)) \<and>
    (write_rate bd (limiter_new cfg) a = Some r \<longrightarrow>
       TOKEN * admitted a window (fst (run_checks (write_ok bd) window (snd (run_checks (write_ok bd) before (limiter_new cfg)))))
         \<le> unat r * (2 * TOKEN + elapsed))"
proof -
  obtain t0 x rest where w: "window = (t0, x) # rest" using assms(2) by (cases window) auto
  have sorted: "sorted (t0 # map fst window)" using assms(1) by (simp add: w)
  have last: "last (t0 # map fst window) = fst (last window)" using assms(2) by (simp add: last_map)
  have new: "bucket_ok r (map_of (rl_query_buckets (limiter_new cfg)) a)" "bucket_ok r (map_of (rl_write_buckets (limiter_new cfg)) a)"
    by (simp_all add: bucket_ok_def limiter_new_def)
  have fin: "m \<le> unat r * (2 * TOKEN + (last (t0 # map fst window) - t0))"
    if "m \<le> spendable r b t0 + unat r * (last (t0 # map fst window) - t0)" for m b
  proof -
    have "spendable r b t0 \<le> unat r * (2 * TOKEN)" using spendable_le [of r b t0] by (simp add: ac_simps)
    then show ?thesis using that unfolding distrib_left by linarith
  qed
  let ?q = "snd (run_checks (query_ok bd) before (limiter_new cfg))" and ?w = "snd (run_checks (write_ok bd) before (limiter_new cfg))"
  have "TOKEN * admitted a window (fst (run_checks (query_ok bd) window ?q)) \<le> unat r * (2 * TOKEN + (last (t0 # map fst window) - t0))"
    if rate: "query_rate bd (limiter_new cfg) a = Some r"
    by (rule fin, rule queries.admitted_bound) (use rate assms(3) sorted new queries.bucket_ok_run [OF rate assms(3) new(1)] queries.rate_run in simp_all)
  moreover have "TOKEN * admitted a window (fst (run_checks (write_ok bd) window ?w)) \<le> unat r * (2 * TOKEN + (last (t0 # map fst window) - t0))"
    if rate: "write_rate bd (limiter_new cfg) a = Some r"
    by (rule fin, rule writes.admitted_bound) (use rate assms(3) sorted new writes.bucket_ok_run [OF rate assms(3) new(2)] writes.rate_run in simp_all)
  ultimately show ?thesis unfolding last by (simp add: w)
qed

definition demo_calls :: "(instant \<times> string) list" where
  "demo_calls = [(0, ''com.anki''), (5, ''md.obsidian''), (TOKEN, ''com.anki''), (TOKEN + 7, ''com.anki'')]"

definition demo_config :: quota_config where
  "demo_config = \<lparr>qc_first_party_apps = [], qc_overrides = [(''com.anki'', quotas_third_party\<lparr>tq_queries_per_second := Some 1, tq_writes_per_second := Some 2\<rparr>)]\<rparr>"

lemma demo_rates:
  "query_rate ReleaseBuild (limiter_new demo_config) ''com.anki'' = Some 1" "write_rate ReleaseBuild (limiter_new demo_config) ''com.anki'' = Some 2"
  by (simp_all add: query_rate_def write_rate_def quotas_for_app_def limiter_new_def demo_config_def)

theorem rate_is_bounded_witness:
  "TOKEN * admitted ''com.anki'' demo_calls (fst (run_checks (query_ok ReleaseBuild) demo_calls (limiter_new demo_config))) \<le> 2 * TOKEN + (TOKEN + 7)"
proof -
  have "sorted (map fst demo_calls)" "demo_calls \<noteq> []" "fst (last demo_calls) = TOKEN + 7" "fst (hd demo_calls) = 0"
    by (simp_all add: demo_calls_def TOKEN_def)
  then show ?thesis
    using rate_is_bounded [of demo_calls 1 ReleaseBuild demo_config "''com.anki''" "[]"] demo_rates(1) by simp
qed

text \<open>
  The other half: an application that leaves the time of one token between its calls is never
  refused, whatever the others do.
\<close>

theorem paced_calls_are_admitted:
  assumes "successively (\<lambda>s t. TOKEN \<le> (t - s) * unat r) (map fst (filter (\<lambda>c. snd c = a) calls))"
    and "0 < unat r" and "2 * unat r < 2 ^ 64"
  shows "(query_rate bd (limiter_new cfg) a = Some r \<longrightarrow>
      admitted a calls (fst (run_checks (query_ok bd) calls (limiter_new cfg))) = length (filter (\<lambda>c. snd c = a) calls)) \<and>
    (write_rate bd (limiter_new cfg) a = Some r \<longrightarrow>
      admitted a calls (fst (run_checks (write_ok bd) calls (limiter_new cfg))) = length (filter (\<lambda>c. snd c = a) calls))"
  by (intro conjI impI; (rule queries.paced_admitted writes.paced_admitted, assumption, rule assms(3), rule assms(2)))
    (use assms(1) in \<open>simp_all add: bucket_ok_def limiter_new_def\<close>)

theorem paced_calls_are_admitted_witness:
  "admitted ''com.anki'' [(0, ''com.anki''), (5, ''md.obsidian''), (TOKEN, ''com.anki'')]
     (fst (run_checks (query_ok ReleaseBuild) [(0, ''com.anki''), (5, ''md.obsidian''), (TOKEN, ''com.anki'')] (limiter_new demo_config))) = 2"
  using paced_calls_are_admitted [of 1 "''com.anki''" "[(0, ''com.anki''), (5, ''md.obsidian''), (TOKEN, ''com.anki'')]" ReleaseBuild demo_config]
    demo_rates(1) by simp

section \<open>Reports and the tracker\<close>

text \<open>Two reports of one application's violations are at least the throttle apart.\<close>

lemma reports_are_throttled:
  assumes "should_emit now a s = (True, s')" and "should_emit later a s' = (True, s'')" and "now \<le> later"
  shows "now + EMIT_THROTTLE \<le> later"
proof -
  have "map_of (rs_last_emit s') a = Some now"
    using assms(1) by (auto simp: should_emit_def update_conv' split: option.splits if_splits)
  then show ?thesis using assms(2,3) by (auto simp: should_emit_def split: if_splits)
qed

text \<open>A creation that passed both checks keeps the application within its quota, unless the sum wraps.\<close>

lemma guarded_create_within_quota:
  assumes "check_storage_quota bd a bytes t = Inr ()" and "tq_max_storage_bytes (quotas_for_app bd (qt_config t) a) = Some m"
  shows "au_storage_bytes (get_usage a (record_create a bytes t)) \<le> m"
  using assms by (auto simp: check_storage_quota_def record_create_def get_usage_def update_conv' Let_def not_less split: if_splits option.splits)

text \<open>
  The sum does wrap: an application with one byte on record passes the check of a third party's quota
  with almost the whole address space on top, and its recorded usage falls to zero.
\<close>

lemma storage_check_wraps:
  "let t = record_create ''com.anki'' 1 (tracker_new arlen_default) in
   check_storage_quota ReleaseBuild ''com.anki'' (- 1) t = Inr () \<and>
   au_storage_bytes (get_usage ''com.anki'' (record_create ''com.anki'' (- 1) t)) = 0"
proof -
  have "tier_for_app ReleaseBuild arlen_default ''com.anki'' = QThirdParty"
    by (simp add: tier_for_app_def arlen_default_def starts_with_def)
  then have "tq_max_storage_bytes (quotas_for_app ReleaseBuild arlen_default ''com.anki'') = Some (500 * 1024 * 1024)"
    by (simp add: quotas_for_app_def quotas_third_party_def arlen_default_def [THEN arg_cong [of _ _ qc_overrides]])
  then show ?thesis
    by (simp add: check_storage_quota_def record_create_def tracker_new_def get_usage_def usage_default_def Let_def)
qed

end
