(* ===== verification/Read_Gate.thy ===== *)
theory Read_Gate
  imports Cypher Capability_Token
begin

text \<open>
  The lexical guards in front of the graph daemon's raw query path (\<open>daemons/knowledge/src/daemon.rs\<close>):
  the keyword scan that refuses writes and the authority labels, the pattern scan, and the gate that
  holds a caller's query to the labels it may read.

  A query is its bytes; the classes of characters are those of ASCII, so a whitespace outside ASCII
  does not count as one here.
\<close>

section \<open>Words\<close>

definition to_ascii_uppercase :: "char \<Rightarrow> char" where
  "to_ascii_uppercase c = (if is_ascii_lowercase c then char_of (of_char c - 32 :: nat) else c)"

abbreviation upper :: "string \<Rightarrow> string" where
  "upper s \<equiv> map to_ascii_uppercase s"

definition eq_ignore_ascii_case :: "string \<Rightarrow> string \<Rightarrow> bool" where
  "eq_ignore_ascii_case a b \<longleftrightarrow> map to_ascii_lowercase a = map to_ascii_lowercase b"

definition word_char :: "char \<Rightarrow> bool" where
  "word_char c \<longleftrightarrow> is_ascii_alphanumeric c \<or> c = CHR ''_''"

text \<open>\<open>cypher_references_any\<close>: the loop's variables are whether it is in a literal, whether the next
  character of the literal is escaped, and the word so far.\<close>

fun references_from :: "string list \<Rightarrow> bool \<Rightarrow> bool \<Rightarrow> string \<Rightarrow> string \<Rightarrow> bool" where
  "references_from needles in_string escaped token [] \<longleftrightarrow> token \<in> set needles"
| "references_from needles in_string escaped token (c # cs) \<longleftrightarrow>
     (if in_string then
        (if escaped then references_from needles True False token cs
         else if c = backslash then references_from needles True True token cs
         else if c = quote then references_from needles False False token cs
         else references_from needles True False token cs)
      else if c = quote then references_from needles True escaped token cs
      else if word_char c then references_from needles False escaped (token @ [to_ascii_uppercase c]) cs
      else if token \<in> set needles then True
      else references_from needles False escaped [] cs)"

definition cypher_references_any :: "string \<Rightarrow> string list \<Rightarrow> bool" where
  "cypher_references_any cypher needles = references_from needles False False [] cypher"

definition WRITE_KEYWORDS :: "string list" where
  "WRITE_KEYWORDS =
     [''CREATE'', ''MERGE'', ''DELETE'', ''SET'', ''REMOVE'', ''DROP'', ''DETACH'', ''ALTER'', ''ATTACH'', ''USE'', ''COPY'',
      ''LOAD'', ''INSTALL'', ''EXPORT'', ''IMPORT'', ''CALL'', ''FOREACH'']"

definition is_write_query :: "string \<Rightarrow> bool" where
  "is_write_query cypher = cypher_references_any cypher WRITE_KEYWORDS"

definition AUTHORITY_LABELS :: "string list" where
  "AUTHORITY_LABELS = [''GRANT'', ''CAPABILITYUSE'', ''ENTITYTYPE'']"

definition references_authority_label :: "string \<Rightarrow> bool" where
  "references_authority_label cypher = cypher_references_any cypher AUTHORITY_LABELS"

definition is_privileged_authority_reader :: "string \<Rightarrow> bool" where
  "is_privileged_authority_reader app_id = False"

section \<open>Label tokens\<close>

record label_scan =
  ls_out :: "string list"
  ls_in_string :: bool
  ls_escaped :: bool
  ls_token :: string
  ls_after_colon :: bool
  ls_prev_colon :: bool
  ls_map_depth :: nat

definition flush_label :: "label_scan \<Rightarrow> label_scan" where
  "flush_label s =
     (if ls_after_colon s \<and> ls_token s \<noteq> [] \<and> is_ascii_alphabetic (hd (ls_token s))
      then s\<lparr>ls_out := ls_out s @ [ls_token s], ls_token := []\<rparr> else s\<lparr>ls_token := []\<rparr>)"

definition label_char :: "char \<Rightarrow> label_scan \<Rightarrow> label_scan" where
  "label_char c s =
     (if ls_in_string s then
        (if ls_escaped s then s\<lparr>ls_escaped := False\<rparr>
         else if c = backslash then s\<lparr>ls_escaped := True\<rparr>
         else if c = quote then s\<lparr>ls_in_string := False\<rparr> else s)
      else if word_char c then
        (let s' = (if ls_token s = [] then s\<lparr>ls_after_colon := ls_prev_colon s \<and> ls_map_depth s = 0\<rparr> else s)
         in s'\<lparr>ls_token := ls_token s' @ [to_ascii_uppercase c]\<rparr>)
      else
        (let s' = (flush_label s)\<lparr>ls_prev_colon := (c = CHR '':'')\<rparr> in
         if c = CHR ''{'' then s'\<lparr>ls_map_depth := ls_map_depth s' + 1\<rparr>
         else if c = CHR ''}'' then s'\<lparr>ls_map_depth := ls_map_depth s' - 1\<rparr>
         else if c = quote then s'\<lparr>ls_in_string := True\<rparr> else s'))"

definition cypher_label_tokens :: "string \<Rightarrow> string list" where
  "cypher_label_tokens cypher =
     ls_out (flush_label (fold label_char cypher
       \<lparr>ls_out = [], ls_in_string = False, ls_escaped = False, ls_token = [], ls_after_colon = False,
        ls_prev_colon = False, ls_map_depth = 0\<rparr>))"

section \<open>Patterns\<close>

datatype bracket = KNode | KRel | KCall | KList | KMap

record pattern_scan =
  sc_in_string :: bool
  sc_escaped :: bool
  sc_open :: "(bracket \<times> bool) list"
  sc_prev_significant :: "char option"
  sc_prev_char :: "char option"
  sc_unconstrained :: "bracket option"
  sc_node_labels :: "string list"
  sc_rel_types :: "string list"
  sc_pending :: "(string \<times> bracket) option"

definition scan_new :: pattern_scan where
  "scan_new = \<lparr>sc_in_string = False, sc_escaped = False, sc_open = [], sc_prev_significant = None, sc_prev_char = None,
     sc_unconstrained = None, sc_node_labels = [], sc_rel_types = [], sc_pending = None\<rparr>"

definition collect :: "string \<Rightarrow> bracket \<Rightarrow> pattern_scan \<Rightarrow> pattern_scan" where
  "collect tok kind s =
     (if tok \<noteq> [] \<and> is_ascii_alphabetic (hd tok) then
        (case kind of
           KRel \<Rightarrow> s\<lparr>sc_rel_types := sc_rel_types s @ [tok]\<rparr>
         | KNode \<Rightarrow> s\<lparr>sc_node_labels := sc_node_labels s @ [tok]\<rparr>
         | _ \<Rightarrow> s)
      else s)"

definition close_bracket :: "pattern_scan \<Rightarrow> pattern_scan" where
  "close_bracket s =
     (case sc_open s of
        [] \<Rightarrow> s
      | (kind, saw_colon) # rest \<Rightarrow>
          (let s' = s\<lparr>sc_open := rest\<rparr> in
           if \<not> saw_colon \<and> (kind = KNode \<or> kind = KRel)
           then s'\<lparr>sc_unconstrained := (case sc_unconstrained s of Some k \<Rightarrow> Some k | None \<Rightarrow> Some kind)\<rparr> else s'))"

definition open_paren :: "pattern_scan \<Rightarrow> pattern_scan" where
  "open_paren s =
     (let is_call = (case sc_prev_char s of None \<Rightarrow> False | Some d \<Rightarrow> word_char d) in
      s\<lparr>sc_open := (if is_call then (KCall, True) else (KNode, False)) # sc_open s\<rparr>)"

definition open_square :: "pattern_scan \<Rightarrow> pattern_scan" where
  "open_square s =
     s\<lparr>sc_open := (if sc_prev_significant s = Some (CHR ''-'') then (KRel, False) else (KList, True)) # sc_open s\<rparr>"

definition colon :: "pattern_scan \<Rightarrow> pattern_scan" where
  "colon s =
     (case sc_open s of
        [] \<Rightarrow> s
      | (kind, _) # rest \<Rightarrow> s\<lparr>sc_open := (kind, True) # rest, sc_pending := Some ([], kind)\<rparr>)"

definition mark :: "char \<Rightarrow> pattern_scan \<Rightarrow> pattern_scan" where
  "mark c s = s\<lparr>sc_prev_char := Some c,
     sc_prev_significant := (if is_whitespace c then sc_prev_significant s else Some c)\<rparr>"

definition scan_plain :: "char \<Rightarrow> pattern_scan \<Rightarrow> pattern_scan" where
  "scan_plain c s = mark c
     (if c = quote then s\<lparr>sc_in_string := True\<rparr>
      else if c = CHR ''('' then open_paren s
      else if c = CHR ''['' then open_square s
      else if c = CHR ''{'' then s\<lparr>sc_open := (KMap, True) # sc_open s\<rparr>
      else if c = CHR '')'' \<or> c = CHR '']'' \<or> c = CHR ''}'' then close_bracket s
      else if c = CHR '':'' then colon s
      else s)"

definition scan_char :: "char \<Rightarrow> pattern_scan \<Rightarrow> pattern_scan" where
  "scan_char c s =
     (if sc_in_string s then
        (if sc_escaped s then s\<lparr>sc_escaped := False\<rparr>
         else if c = backslash then s\<lparr>sc_escaped := True\<rparr>
         else if c = quote then s\<lparr>sc_in_string := False\<rparr> else s)
      else case sc_pending s of
          Some (tok, kind) \<Rightarrow>
            if word_char c then s\<lparr>sc_pending := Some (tok @ [to_ascii_uppercase c], kind)\<rparr>
            else scan_plain c (collect tok kind (s\<lparr>sc_pending := None\<rparr>))
        | None \<Rightarrow> scan_plain c s)"

definition scan_patterns :: "string \<Rightarrow> pattern_scan" where
  "scan_patterns cypher =
     (let s = fold scan_char cypher scan_new in
      case sc_pending s of None \<Rightarrow> s | Some (tok, kind) \<Rightarrow> collect tok kind s)"

section \<open>The gate\<close>

definition SENSITIVE_RAW_LABELS :: "string list" where "SENSITIVE_RAW_LABELS = []"
definition RESTRICTED_RELATIONS :: "string list" where "RESTRICTED_RELATIONS = []"

datatype denial =
    BacktickDenied
  | UnlabelledNode
  | UntypedRelationship
  | LabelLess
  | SensitiveLabel
  | OutsideScope
  | RestrictedRelation

definition label_readable :: "string list \<Rightarrow> string \<Rightarrow> bool" where
  "label_readable readable_labels t \<longleftrightarrow> (\<exists>l \<in> set readable_labels. eq_ignore_ascii_case l t)"

fun check_labels :: "string list \<Rightarrow> string list \<Rightarrow> denial option" where
  "check_labels readable_labels [] = None"
| "check_labels readable_labels (t # ts) =
     (if t \<in> set SENSITIVE_RAW_LABELS then Some SensitiveLabel
      else if \<not> label_readable readable_labels t then Some OutsideScope
      else check_labels readable_labels ts)"

definition check_relations :: "string list \<Rightarrow> string list \<Rightarrow> denial option" where
  "check_relations readable_labels ts =
     (if \<exists>t \<in> set ts. t \<in> set RESTRICTED_RELATIONS \<and> \<not> label_readable readable_labels t then Some RestrictedRelation else None)"

definition raw_read_label_gate :: "string \<Rightarrow> string list \<Rightarrow> bool \<Rightarrow> denial option" where
  "raw_read_label_gate cypher readable_labels system_anchored =
     (if system_anchored then None
      else if CHR 0x60 \<in> set cypher then Some BacktickDenied
      else let scan = scan_patterns cypher in
        if sc_unconstrained scan = Some KNode then Some UnlabelledNode
        else if sc_unconstrained scan = Some KRel then Some UntypedRelationship
        else if sc_node_labels scan = [] then Some LabelLess
        else case check_labels readable_labels (sc_node_labels scan) of
            Some d \<Rightarrow> Some d
          | None \<Rightarrow> check_relations readable_labels (sc_rel_types scan))"

text \<open>The labels a caller's read scopes give it, and the types a query exercised.\<close>

definition is_safe_graph_identifier :: "string \<Rightarrow> bool" where
  "is_safe_graph_identifier name =
     (case name of [] \<Rightarrow> False
      | c # cs \<Rightarrow> (is_ascii_alphabetic c \<or> c = CHR ''_'') \<and> (\<forall>d \<in> set cs. word_char d))"

definition readable_system_labels :: "entity_scope list \<Rightarrow> string list" where
  "readable_system_labels read_scopes =
     filter is_safe_graph_identifier (List.map_filter (\<lambda>s. strip_prefix (es_entity_type s) ''system.'') read_scopes)"

definition exercised_read_types :: "string \<Rightarrow> string list \<Rightarrow> string list" where
  "exercised_read_types cypher readable_labels =
     remdups_adj (sort (List.map_filter
       (\<lambda>t. map_option (\<lambda>granted. ''system.'' @ granted) (List.find (\<lambda>l. eq_ignore_ascii_case l t) readable_labels))
       (cypher_label_tokens cypher)))"

definition field_is_granted :: "entity_scope list \<Rightarrow> string \<Rightarrow> string \<Rightarrow> bool" where
  "field_is_granted scopes entity_type fld \<longleftrightarrow>
     (\<exists>s \<in> set scopes. es_entity_type s = entity_type \<and> fld \<notin> set (es_exclude_fields s) \<and>
        (case es_fields s of None \<Rightarrow> True | Some fs \<Rightarrow> fld \<in> set fs))"

section \<open>What the keyword scan sees\<close>

text \<open>
  The reference: a query without its single-quoted literals (a backslash in a literal takes the next
  character with it, an unclosed literal takes the rest), and the words of a text.
\<close>

fun outside_literals :: "string \<Rightarrow> string"
and inside_literal :: "string \<Rightarrow> string"
and escaped_in_literal :: "string \<Rightarrow> string" where
  "outside_literals [] = []"
| "outside_literals (c # cs) = (if c = quote then inside_literal cs else c # outside_literals cs)"
| "inside_literal [] = []"
| "inside_literal (c # cs) = (if c = backslash then escaped_in_literal cs else if c = quote then outside_literals cs else inside_literal cs)"
| "escaped_in_literal [] = []"
| "escaped_in_literal (c # cs) = inside_literal cs"

definition occurs_word :: "string \<Rightarrow> string \<Rightarrow> bool" where
  "occurs_word w s \<longleftrightarrow> w \<noteq> [] \<and> (\<forall>c \<in> set w. word_char c) \<and>
     (\<exists>a b. s = a @ w @ b \<and> (a = [] \<or> \<not> word_char (last a)) \<and> (b = [] \<or> \<not> word_char (hd b)))"

fun scan_words :: "string list \<Rightarrow> string \<Rightarrow> string \<Rightarrow> bool" where
  "scan_words needles token [] \<longleftrightarrow> token \<in> set needles"
| "scan_words needles token (c # cs) \<longleftrightarrow>
     (if word_char c then scan_words needles (token @ [to_ascii_uppercase c]) cs
      else token \<in> set needles \<or> scan_words needles [] cs)"

lemma references_from_outside:
  "references_from needles False False token cs = scan_words needles token (outside_literals cs)"
  "references_from needles True False token cs = scan_words needles token (inside_literal cs)"
  "references_from needles True True token cs = scan_words needles token (escaped_in_literal cs)"
  by (induction cs arbitrary: token) auto

lemma scan_words_run:
  "\<forall>c \<in> set x. word_char c \<Longrightarrow> scan_words needles token (x @ s) = scan_words needles (token @ upper x) s"
  by (induction x arbitrary: token) simp_all

lemma occurs_wordE:
  assumes "occurs_word w s"
  obtains a b where "s = a @ w @ b" "a = [] \<or> \<not> word_char (last a)" "b = [] \<or> \<not> word_char (hd b)"
    "w \<noteq> []" "\<forall>c \<in> set w. word_char c"
  using assms unfolding occurs_word_def by blast

lemma occurs_word_all: "\<forall>c \<in> set x. word_char c \<Longrightarrow> occurs_word w x \<longleftrightarrow> w = x \<and> x \<noteq> []"
proof
  assume x: "\<forall>c \<in> set x. word_char c" and occ: "occurs_word w x"
  obtain a b where ab: "x = a @ w @ b" "a = [] \<or> \<not> word_char (last a)" "b = [] \<or> \<not> word_char (hd b)" "w \<noteq> []"
    using occ by (rule occurs_wordE)
  then have "a = []" "b = []" using x by (metis Un_iff last_in_set set_append, metis Un_iff hd_in_set set_append)
  then show "w = x \<and> x \<noteq> []" using ab by simp
next
  assume x: "\<forall>c \<in> set x. word_char c" and "w = x \<and> x \<noteq> []"
  then show "occurs_word w x" unfolding occurs_word_def by (intro conjI exI [of _ "[]"]) simp_all
qed

lemma occurs_word_split:
  assumes x: "\<forall>c \<in> set x. word_char c" and d: "\<not> word_char d"
  shows "occurs_word w (x @ d # s) \<longleftrightarrow> (w = x \<and> x \<noteq> []) \<or> occurs_word w s"
proof
  assume occ: "occurs_word w (x @ d # s)"
  obtain a b where "x @ d # s = a @ w @ b" and a: "a = [] \<or> \<not> word_char (last a)" and b: "b = [] \<or> \<not> word_char (hd b)"
      and w: "w \<noteq> []" "\<forall>c \<in> set w. word_char c"
    using occ by (rule occurs_wordE)
  then have eq: "a @ w @ b = x @ d # s" by simp
  from eq consider us where "a = x @ us" "us @ w @ b = d # s" | us where "a @ us = x" "w @ b = us @ d # s"
    by (auto simp: append_eq_append_conv2)
  then show "(w = x \<and> x \<noteq> []) \<or> occurs_word w s"
  proof cases
    case (1 us)
    then show ?thesis
    proof (cases us)
      case Nil
      then have "d \<in> set w" using 1 w(1) by (cases w) auto
      then show ?thesis using w(2) d by blast
    next
      case (Cons e us')
      then have s: "s = us' @ w @ b" using 1 by simp
      have "us' = [] \<or> \<not> word_char (last us')" using a 1(1) Cons by auto
      then have "occurs_word w s" unfolding occurs_word_def using s w b by blast
      then show ?thesis ..
    qed
  next
    case (2 us)
    have "a = []" using a x 2(1) by (metis Un_iff last_in_set set_append)
    then have us: "us = x" using 2(1) by simp
    from 2(2) consider vs where "w = x @ vs" "vs @ b = d # s" | vs where "w @ vs = x" "b = vs @ d # s"
      unfolding us by (auto simp: append_eq_append_conv2)
    then have "w = x"
    proof cases
      case (1 vs)
      then show ?thesis using w(2) d by (cases vs) auto
    next
      case (2 vs)
      then show ?thesis using x b by (cases vs) auto
    qed
    then show ?thesis using w(1) by blast
  qed
next
  assume "(w = x \<and> x \<noteq> []) \<or> occurs_word w s"
  then show "occurs_word w (x @ d # s)"
  proof
    assume "w = x \<and> x \<noteq> []"
    then show ?thesis using x d unfolding occurs_word_def by (intro conjI exI [of _ "[]"] exI [of _ "d # s"]) simp_all
  next
    assume occ: "occurs_word w s"
    obtain a b where s: "s = a @ w @ b" "a = [] \<or> \<not> word_char (last a)" "b = [] \<or> \<not> word_char (hd b)"
        "w \<noteq> []" "\<forall>c \<in> set w. word_char c"
      using occ by (rule occurs_wordE)
    then show ?thesis unfolding occurs_word_def
      using d by (intro conjI exI [of _ "x @ d # a"] exI [of _ b]) auto
  qed
qed

lemma scan_words_iff:
  assumes "[] \<notin> set needles"
  shows "scan_words needles [] s \<longleftrightarrow> (\<exists>w. occurs_word w s \<and> upper w \<in> set needles)"
proof (induction "length s" arbitrary: s rule: less_induct)
  case less
  define x where "x = takeWhile word_char s"
  have x: "\<forall>c \<in> set x. word_char c" by (auto simp: x_def dest: set_takeWhileD)
  have ne: "upper x \<in> set needles \<Longrightarrow> x \<noteq> []" using assms by auto
  show ?case
  proof (cases "dropWhile word_char s")
    case Nil
    then have "takeWhile word_char s = s" by (simp add: takeWhile_eq_all_conv)
    then have sx: "s = x" unfolding x_def by (rule sym)
    have A: "scan_words needles [] x \<longleftrightarrow> upper x \<in> set needles" using scan_words_run [OF x, of needles "[]" "[]"] by simp
    show ?thesis unfolding sx A occurs_word_all [OF x] using ne by auto
  next
    case (Cons d rest)
    then have s: "s = x @ d # rest" using takeWhile_dropWhile_id [of word_char s] by (simp add: x_def)
    have d: "\<not> word_char d" using hd_dropWhile [of word_char s] Cons by simp
    have IH: "scan_words needles [] rest \<longleftrightarrow> (\<exists>w. occurs_word w rest \<and> upper w \<in> set needles)"
      by (rule less) (simp add: s)
    have B: "scan_words needles [] s \<longleftrightarrow> upper x \<in> set needles \<or> scan_words needles [] rest"
      unfolding s using scan_words_run [OF x, of needles "[]" "d # rest"] d by simp
    show ?thesis unfolding B IH unfolding s occurs_word_split [OF x d] using ne by auto
  qed
qed

lemma write_query_words: "is_write_query q \<longleftrightarrow> (\<exists>w. occurs_word w (outside_literals q) \<and> upper w \<in> set WRITE_KEYWORDS)"
  unfolding is_write_query_def cypher_references_any_def references_from_outside
  by (rule scan_words_iff) (simp add: WRITE_KEYWORDS_def)

lemma authority_words: "references_authority_label q \<longleftrightarrow> (\<exists>w. occurs_word w (outside_literals q) \<and> upper w \<in> set AUTHORITY_LABELS)"
  unfolding references_authority_label_def cypher_references_any_def references_from_outside
  by (rule scan_words_iff) (simp add: AUTHORITY_LABELS_def)

text \<open>
  The two keyword guards are exact on what they read: a query is taken for a write, or for one
  that names an authority label, exactly if one of the listed words stands, in any case, as a whole
  word in the query with its single-quoted literals cut out. In particular nothing inside such a
  literal counts, escaped quotes included.
\<close>

theorem keyword_guards_read_words:
  "(is_write_query q \<longleftrightarrow> (\<exists>w. occurs_word w (outside_literals q) \<and> upper w \<in> set WRITE_KEYWORDS)) \<and>
   (references_authority_label q \<longleftrightarrow> (\<exists>w. occurs_word w (outside_literals q) \<and> upper w \<in> set AUTHORITY_LABELS))"
  by (rule conjI [OF write_query_words authority_words])

section \<open>The pattern scan on queries as they are written\<close>

text \<open>
  Read queries: comma-separated paths after \<open>MATCH\<close>, each a chain of nodes and relationships with
  optional labels, types and string properties, and after \<open>RETURN\<close> a text without brackets, colons
  and quotes.
\<close>

datatype node_pat = NodePat (np_var: string) (np_label: "string option") (np_props: "(string \<times> string) list")
datatype rel_pat = RelPat (rp_var: string) (rp_type: "string option")
type_synonym path_pat = "node_pat \<times> (rel_pat \<times> node_pat) list"

definition tag :: "string option \<Rightarrow> string" where
  "tag t = (case t of None \<Rightarrow> [] | Some x \<Rightarrow> CHR '':'' # x)"

definition prop_text :: "string \<times> string \<Rightarrow> string" where
  "prop_text kv = fst kv @ '': '' @ quoted (snd kv)"

definition props_text :: "(string \<times> string) list \<Rightarrow> string" where
  "props_text ps = (if ps = [] then [] else '' {'' @ join '', '' (map prop_text ps) @ ''}'')"

definition node_text :: "node_pat \<Rightarrow> string" where
  "node_text n = ''('' @ np_var n @ tag (np_label n) @ props_text (np_props n) @ '')''"

definition rel_text :: "rel_pat \<Rightarrow> string" where
  "rel_text r = ''-['' @ rp_var r @ tag (rp_type r) @ '']->''"

definition link_text :: "rel_pat \<times> node_pat \<Rightarrow> string" where
  "link_text l = rel_text (fst l) @ node_text (snd l)"

definition path_text :: "path_pat \<Rightarrow> string" where
  "path_text p = node_text (fst p) @ concat (map link_text (snd p))"

definition query_text :: "path_pat list \<Rightarrow> string \<Rightarrow> string" where
  "query_text ps tail = ''MATCH '' @ join '', '' (map path_text ps) @ '' RETURN '' @ tail"

definition ident :: "string \<Rightarrow> bool" where
  "ident s \<longleftrightarrow> (\<forall>c \<in> set s. word_char c)"

definition name_ok :: "string option \<Rightarrow> bool" where
  "name_ok t = (case t of None \<Rightarrow> True | Some x \<Rightarrow> ident x \<and> x \<noteq> [] \<and> is_ascii_alphabetic (hd x))"

definition node_ok :: "node_pat \<Rightarrow> bool" where
  "node_ok n \<longleftrightarrow> ident (np_var n) \<and> name_ok (np_label n) \<and> (\<forall>(k, v) \<in> set (np_props n). ident k)"

definition rel_ok :: "rel_pat \<Rightarrow> bool" where
  "rel_ok r \<longleftrightarrow> ident (rp_var r) \<and> name_ok (rp_type r)"

definition path_ok :: "path_pat \<Rightarrow> bool" where
  "path_ok p \<longleftrightarrow> node_ok (fst p) \<and> (\<forall>l \<in> set (snd p). rel_ok (fst l) \<and> node_ok (snd l))"

definition special :: "string" where
  "special = [quote, CHR ''('', CHR ''['', CHR ''{'', CHR '')'', CHR '']'', CHR ''}'', CHR '':'']"

definition path_nodes :: "path_pat \<Rightarrow> node_pat list" where
  "path_nodes p = fst p # map snd (snd p)"

definition path_rels :: "path_pat \<Rightarrow> rel_pat list" where
  "path_rels p = map fst (snd p)"

definition quiet :: "pattern_scan \<Rightarrow> bool" where
  "quiet s \<longleftrightarrow> \<not> sc_in_string s \<and> \<not> sc_escaped s \<and> sc_pending s = None"

lemma quiet_mark [simp]: "quiet (mark c s) = quiet s"
  by (simp add: quiet_def mark_def)

lemma mark_simps [simp]: "sc_open (mark c s) = sc_open s" "sc_prev_char (mark c s) = Some c"
  "sc_unconstrained (mark c s) = sc_unconstrained s" "sc_node_labels (mark c s) = sc_node_labels s"
  "sc_rel_types (mark c s) = sc_rel_types s" "sc_pending (mark c s) = sc_pending s"
  "sc_in_string (mark c s) = sc_in_string s" "sc_escaped (mark c s) = sc_escaped s"
  by (simp_all add: mark_def)

lemma scan_ordinary: "quiet s \<Longrightarrow> c \<notin> set special \<Longrightarrow> scan_char c s = mark c s"
  by (simp add: scan_char_def quiet_def scan_plain_def special_def)

lemma fold_ordinary: "quiet s \<Longrightarrow> \<forall>c \<in> set cs. c \<notin> set special \<Longrightarrow> fold scan_char cs s = fold mark cs s"
proof (induction cs arbitrary: s)
  case (Cons c cs)
  then have "scan_char c s = mark c s" by (intro scan_ordinary) simp_all
  then show ?case using Cons by simp
qed simp

lemma word_not_special: "word_char c \<Longrightarrow> c \<notin> set special"
  by (auto simp: word_char_def special_def ascii_defs less_eq_char_def)

lemma fold_ident: "quiet s \<Longrightarrow> ident cs \<Longrightarrow> fold scan_char cs s = fold mark cs s"
  by (rule fold_ordinary) (auto simp: ident_def word_not_special)

lemma fold_mark_simps [simp]: "sc_open (fold mark cs s) = sc_open s"
  "sc_unconstrained (fold mark cs s) = sc_unconstrained s" "sc_node_labels (fold mark cs s) = sc_node_labels s"
  "sc_rel_types (fold mark cs s) = sc_rel_types s" "sc_pending (fold mark cs s) = sc_pending s" "quiet (fold mark cs s) = quiet s"
  by (induction cs arbitrary: s) simp_all

text \<open>Two states alike but for the characters seen last; what a scan leaves behind, up to those.\<close>

definition same :: "pattern_scan \<Rightarrow> pattern_scan \<Rightarrow> bool" where
  "same s t \<longleftrightarrow> s\<lparr>sc_prev_char := None, sc_prev_significant := None\<rparr> = t\<lparr>sc_prev_char := None, sc_prev_significant := None\<rparr>"

lemma mark_over: "same s t \<Longrightarrow> \<not> is_whitespace c \<Longrightarrow> mark c s = mark c t"
  by (cases s, cases t) (simp add: same_def mark_def)

lemma same_refl [simp]: "same s s" and same_mark [simp]: "same (mark c s) t = same s t" "same s (mark c t) = same s t"
  by (simp_all add: same_def mark_def)

lemma same_fold_mark [simp]: "same (fold mark cs s) t = same s t" "same s (fold mark cs t) = same s t"
  by (induction cs arbitrary: s t) simp_all

lemma same_quiet: "same s t \<Longrightarrow> quiet s = quiet t"
  and same_open: "same s t \<Longrightarrow> sc_open s = sc_open t"
  and same_trans: "same s t \<Longrightarrow> same t u \<Longrightarrow> same s u"
  and same_sym: "same s t \<Longrightarrow> same t s"
  by (cases s, cases t, cases u, simp add: same_def quiet_def)+

lemma same_close: "same s t \<Longrightarrow> same (close_bracket s) (close_bracket t)"
  by (cases s, cases t) (auto simp: same_def close_bracket_def Let_def split: list.splits option.splits)

lemma mark_mark [simp]: "\<not> is_whitespace d \<Longrightarrow> mark d (mark c s) = mark d s"
  by (simp add: mark_def)

lemma mark_fold_mark [simp]: "\<not> is_whitespace d \<Longrightarrow> mark d (fold mark cs s) = mark d s"
  by (induction cs arbitrary: s) simp_all

lemma fold_escaped: "sc_in_string s \<Longrightarrow> \<not> sc_escaped s \<Longrightarrow> fold scan_char (escape_cypher v) s = s"
  by (induction v arbitrary: s) (simp_all add: escape_cypher_Cons scan_char_def)

lemma fold_quoted: "quiet s \<Longrightarrow> fold scan_char (quoted v) s = mark quote s"
proof -
  assume q: "quiet s"
  let ?t = "mark quote (s\<lparr>sc_in_string := True\<rparr>)"
  have "scan_char quote s = ?t" using q by (simp add: scan_char_def quiet_def scan_plain_def)
  moreover have "fold scan_char (escape_cypher v) ?t = ?t" using q by (intro fold_escaped) (simp_all add: quiet_def)
  moreover have "scan_char quote ?t = mark quote s" using q by (cases s) (simp add: scan_char_def quiet_def mark_def)
  ultimately show ?thesis by (simp add: quoted_def)
qed

lemma scan_pending:
  assumes "\<not> sc_in_string s" and "sc_pending s = Some (tok, kind)" and "\<not> word_char c"
  shows "scan_char c s = scan_char c (collect tok kind (s\<lparr>sc_pending := None\<rparr>))"
  using assms by (cases kind) (simp_all add: scan_char_def collect_def)

lemma fold_pending:
  "\<not> sc_in_string s \<Longrightarrow> sc_pending s = Some (tok, kind) \<Longrightarrow> ident x \<Longrightarrow>
     fold scan_char x s = s\<lparr>sc_pending := Some (tok @ upper x, kind)\<rparr>"
  by (induction x arbitrary: s tok) (simp_all add: scan_char_def ident_def)

lemma scan_colon: "quiet s \<Longrightarrow> scan_char (CHR '':'') s = mark (CHR '':'') (colon s)"
  by (simp add: scan_char_def quiet_def scan_plain_def)

lemma scan_close: "quiet s \<Longrightarrow> c \<in> {CHR '')'', CHR '']'', CHR ''}''} \<Longrightarrow> scan_char c s = mark c (close_bracket s)"
  by (auto simp: scan_char_def quiet_def scan_plain_def)

lemma colon_known: "sc_open s = (kind, True) # rest \<Longrightarrow> colon s = s\<lparr>sc_pending := Some ([], kind)\<rparr>"
  by (cases s) (simp add: colon_def)

lemma not_word: "\<not> word_char (CHR '' '')" "\<not> word_char (CHR '')'')" "\<not> word_char (CHR '']'')" "\<not> word_char (CHR ''>'')"
  by (simp_all add: word_char_def ascii_defs less_eq_char_def)

lemma not_space: "\<not> is_whitespace (CHR '')'')" "\<not> is_whitespace (CHR ''>'')" "\<not> is_whitespace (CHR ''-'')"
  "\<not> is_whitespace (CHR '']'')" "\<not> is_whitespace (CHR ''}'')"
  by (simp_all add: is_whitespace_def)

lemma fold_prop:
  assumes "quiet s" and "sc_open s = (KMap, True) # rest" and "ident (fst kv)"
  shows "same (fold scan_char (prop_text kv) s) s"
proof -
  let ?s1 = "fold mark (fst kv) s"
  let ?s2 = "mark (CHR '':'') (?s1\<lparr>sc_pending := Some ([], KMap)\<rparr>)"
  let ?s3 = "mark (CHR '' '') (mark (CHR '':'') ?s1)"
  have s1: "quiet ?s1" "sc_open ?s1 = (KMap, True) # rest" using assms by simp_all
  have "fold scan_char (fst kv) s = ?s1" using assms(1,3) by (rule fold_ident)
  then have two: "fold scan_char (fst kv @ '':'') s = ?s2"
    using scan_colon [OF s1(1)] colon_known [OF s1(2)] by simp
  have "?s2\<lparr>sc_pending := None\<rparr> = mark (CHR '':'') ?s1"
    using s1(1) by (cases ?s1) (simp add: mark_def quiet_def)
  then have "scan_char (CHR '' '') ?s2 = scan_char (CHR '' '') (mark (CHR '':'') ?s1)"
    using scan_pending [of ?s2 "[]" KMap "CHR '' ''"] s1(1) not_word by (simp add: quiet_def collect_def)
  also have "\<dots> = ?s3" using s1(1) by (intro scan_ordinary) (simp_all add: special_def)
  finally have "fold scan_char (fst kv @ '': '') s = ?s3" using two by simp
  then have "fold scan_char (prop_text kv) s = fold scan_char (quoted (snd kv)) ?s3"
    by (simp add: prop_text_def)
  also have "\<dots> = mark quote ?s3" using s1(1) by (intro fold_quoted) simp
  finally show ?thesis by simp
qed

lemma fold_props:
  "quiet s \<Longrightarrow> sc_open s = (KMap, True) # rest \<Longrightarrow> \<forall>kv \<in> set ps. ident (fst kv) \<Longrightarrow>
     same (fold scan_char (join '', '' (map prop_text ps)) s) s"
proof (induction ps arbitrary: s rule: induct_list012)
  case 1
  then show ?case by simp
next
  case (2 kv)
  then show ?case by (simp add: fold_prop)
next
  case (3 kv kv' ps)
  let ?t = "fold scan_char (prop_text kv) s"
  have t: "same ?t s" using 3 by (intro fold_prop) auto
  then have qt: "quiet ?t" "sc_open ?t = (KMap, True) # rest" using 3 same_quiet same_open by auto
  have sep: "fold scan_char '', '' ?t = fold mark '', '' ?t" using qt by (intro fold_ordinary) (simp_all add: special_def)
  have rest: "same (fold scan_char (join '', '' (map prop_text (kv' # ps))) (fold mark '', '' ?t)) (fold mark '', '' ?t)"
    by (rule "3.IH"(2)) (use qt "3.prems"(3) in simp_all)
  have "fold scan_char (join '', '' (map prop_text (kv # kv' # ps))) s
      = fold scan_char (join '', '' (map prop_text (kv' # ps))) (fold scan_char '', '' ?t)"
    by (simp only: list.map join.simps fold_append comp_def)
  moreover have "same (fold mark '', '' ?t) s" using t by simp
  ultimately show ?case using same_trans [OF rest] sep by (simp only:)
qed

lemma fold_props_text:
  assumes "quiet s" and "\<forall>kv \<in> set ps. ident (fst kv)"
  shows "same (fold scan_char (props_text ps) s) s"
proof (cases "ps = []")
  case True
  then show ?thesis by (simp add: props_text_def)
next
  case False
  let ?s1 = "mark (CHR '' '') s"
  let ?s2 = "mark (CHR ''{'') (?s1\<lparr>sc_open := (KMap, True) # sc_open s\<rparr>)"
  let ?s3 = "fold scan_char (join '', '' (map prop_text ps)) ?s2"
  have s1: "scan_char (CHR '' '') s = ?s1" using assms(1) by (intro scan_ordinary) (simp_all add: special_def)
  have s2: "scan_char (CHR ''{'') ?s1 = ?s2" using assms(1) by (simp add: scan_char_def quiet_def scan_plain_def)
  have q2: "quiet ?s2" using assms(1) by (simp add: quiet_def)
  have s3: "same ?s3 ?s2" using q2 assms(2) by (intro fold_props) simp_all
  then have q3: "quiet ?s3" using same_quiet q2 by blast
  have "same (close_bracket ?s3) (close_bracket ?s2)" using s3 by (rule same_close)
  moreover have "same (close_bracket ?s2) s" by (cases s) (simp add: close_bracket_def same_def mark_def)
  ultimately have "same (close_bracket ?s3) s" by (rule same_trans)
  then show ?thesis using False s1 s2 scan_close [OF q3, of "CHR ''}''"] by (simp add: props_text_def)
qed

definition add_name :: "bracket \<Rightarrow> string option \<Rightarrow> pattern_scan \<Rightarrow> pattern_scan" where
  "add_name kind t s =
     (case t of
        None \<Rightarrow> s\<lparr>sc_unconstrained := (case sc_unconstrained s of Some k \<Rightarrow> Some k | None \<Rightarrow> Some kind)\<rparr>
      | Some x \<Rightarrow> if kind = KNode then s\<lparr>sc_node_labels := sc_node_labels s @ [upper x]\<rparr>
          else s\<lparr>sc_rel_types := sc_rel_types s @ [upper x]\<rparr>)"

lemma add_name_mark [simp]: "add_name kind t (mark c s) = mark c (add_name kind t s)"
  by (cases t) (simp_all add: add_name_def mark_def)

lemma quiet_add_name [simp]: "quiet (add_name kind t s) = quiet s"
  by (cases t) (simp_all add: add_name_def quiet_def)

lemma upper_alphabetic: "is_ascii_alphabetic c \<Longrightarrow> is_ascii_alphabetic (to_ascii_uppercase c)"
  by (auto simp: to_ascii_uppercase_def ascii_defs less_eq_char_def)

lemma lower_upper: "to_ascii_lowercase (to_ascii_uppercase c) = to_ascii_lowercase c"
proof -
  have "(of_char c :: nat) < 256" by simp
  then show ?thesis
    by (auto simp: to_ascii_uppercase_def to_ascii_lowercase_def is_ascii_uppercase_def is_ascii_lowercase_def less_eq_char_def)
qed

lemma fold_inside:
  assumes "quiet s" and "\<forall>kv \<in> set ps. ident (fst kv)" and "c \<in> {CHR '')'', CHR '']''}"
  shows "fold scan_char (props_text ps @ [c]) s = mark c (close_bracket s)"
proof -
  let ?t = "fold scan_char (props_text ps) s"
  have t: "same ?t s" using assms(1,2) by (rule fold_props_text)
  then have "quiet ?t" using same_quiet assms(1) by blast
  then have "scan_char c ?t = mark c (close_bracket ?t)" using assms(3) by (intro scan_close) auto
  also have "\<dots> = mark c (close_bracket s)" using same_close [OF t] assms(3) not_space by (intro mark_over) auto
  finally show ?thesis by simp
qed

lemma first_not_word: "c \<in> {CHR '')'', CHR '']''} \<Longrightarrow> \<exists>d ds. props_text ps @ [c] = d # ds \<and> \<not> word_char d"
  using not_word by (auto simp: props_text_def)

lemma close_collected:
  fixes rest :: "(bracket \<times> bool) list"
  assumes "same s1 s" and "quiet s1" and "kind \<in> {KNode, KRel}" and "tok \<noteq> []" and "is_ascii_alphabetic (hd tok)"
  defines "s4 \<equiv> collect tok kind (mark (CHR '':'') (s1\<lparr>sc_open := (kind, True) # rest, sc_pending := Some ([], kind)\<rparr>)\<lparr>sc_pending := Some (tok, kind), sc_pending := None\<rparr>)"
  shows "same (close_bracket s4) (if kind = KNode then (s\<lparr>sc_open := rest, sc_node_labels := sc_node_labels s @ [tok]\<rparr>)
      else (s\<lparr>sc_open := rest, sc_rel_types := sc_rel_types s @ [tok]\<rparr>))" and "quiet s4"
  using assms(1-5) unfolding s4_def
  by (cases s1; cases s; auto simp: collect_def close_bracket_def same_def quiet_def mark_def)+

lemma fold_bracket:
  assumes s: "quiet s" "sc_open s = (kind, False) # rest" and kind: "kind \<in> {KNode, KRel}" and c: "c \<in> {CHR '')'', CHR '']''}"
    and v: "ident v" and t: "name_ok t" and ps: "\<forall>kv \<in> set ps. ident (fst kv)"
  shows "fold scan_char (v @ tag t @ props_text ps @ [c]) s = mark c (add_name kind t (s\<lparr>sc_open := rest\<rparr>))"
proof -
  let ?s1 = "fold mark v s"
  have s1: "fold scan_char v s = ?s1" "quiet ?s1" "same ?s1 s" using s v by (simp_all add: fold_ident)
  have ws: "\<not> is_whitespace c" using c not_space by auto
  show ?thesis
  proof (cases t)
    case None
    have "same (close_bracket ?s1) (close_bracket s)" using s1(3) by (rule same_close)
    moreover have "close_bracket s = add_name kind None (s\<lparr>sc_open := rest\<rparr>)"
      using s(2) kind by (auto simp: close_bracket_def add_name_def)
    ultimately show ?thesis using None s1 fold_inside [OF s1(2) ps c] mark_over [OF _ ws] by (simp add: tag_def)
  next
    case (Some x)
    then have x: "ident x" "x \<noteq> []" "is_ascii_alphabetic (hd x)" using t by (simp_all add: name_ok_def)
    let ?s2 = "mark (CHR '':'') (?s1\<lparr>sc_open := (kind, True) # rest, sc_pending := Some ([], kind)\<rparr>)"
    let ?s3 = "?s2\<lparr>sc_pending := Some (upper x, kind)\<rparr>"
    let ?s4 = "collect (upper x) kind (?s3\<lparr>sc_pending := None\<rparr>)"
    have "colon ?s1 = ?s1\<lparr>sc_open := (kind, True) # rest, sc_pending := Some ([], kind)\<rparr>" using s(2) by (simp add: colon_def)
    then have s2: "scan_char (CHR '':'') ?s1 = ?s2" using scan_colon [OF s1(2)] by simp
    have s3: "fold scan_char x ?s2 = ?s3" using s1(2) x(1) fold_pending [of ?s2 "[]" kind x] by (simp add: quiet_def)
    obtain d ds where d: "props_text ps @ [c] = d # ds" "\<not> word_char d" using first_not_word [OF c] by blast
    have "scan_char d ?s3 = scan_char d ?s4" using s1(2) d(2) by (intro scan_pending) (simp_all add: quiet_def)
    then have s4: "fold scan_char (props_text ps @ [c]) ?s3 = fold scan_char (props_text ps @ [c]) ?s4" using d(1) by simp
    have "is_ascii_alphabetic (hd (upper x))" using x by (simp add: hd_map upper_alphabetic)
    then have collected: "same (close_bracket ?s4) (if kind = KNode then (s\<lparr>sc_open := rest, sc_node_labels := sc_node_labels s @ [upper x]\<rparr>)
        else (s\<lparr>sc_open := rest, sc_rel_types := sc_rel_types s @ [upper x]\<rparr>))" and q4: "quiet ?s4"
      using close_collected [OF s1(3,2) kind, of "upper x" rest] x(2) by simp_all
    have "add_name kind t (s\<lparr>sc_open := rest\<rparr>) = (if kind = KNode then (s\<lparr>sc_open := rest, sc_node_labels := sc_node_labels s @ [upper x]\<rparr>)
        else (s\<lparr>sc_open := rest, sc_rel_types := sc_rel_types s @ [upper x]\<rparr>))" using Some by (simp add: add_name_def)
    with collected have close: "same (close_bracket ?s4) (add_name kind t (s\<lparr>sc_open := rest\<rparr>))" by simp
    have "fold scan_char (v @ tag t @ props_text ps @ [c]) s = fold scan_char (props_text ps @ [c]) ?s3"
      using s1(1) s2 s3 Some by (simp add: tag_def)
    also have "\<dots> = mark c (close_bracket ?s4)" unfolding s4 using q4 ps c by (rule fold_inside)
    also have "\<dots> = mark c (add_name kind t (s\<lparr>sc_open := rest\<rparr>))" using close ws by (rule mark_over)
    finally show ?thesis .
  qed
qed

lemma fold_node:
  assumes "quiet s" and "node_ok n" and "\<forall>d. sc_prev_char s = Some d \<longrightarrow> \<not> word_char d"
  shows "fold scan_char (node_text n) s = mark (CHR '')'') (add_name KNode (np_label n) s)"
proof -
  let ?s1 = "mark (CHR ''('') (s\<lparr>sc_open := (KNode, False) # sc_open s\<rparr>)"
  have "scan_char (CHR ''('') s = ?s1"
    using assms(1,3) by (auto simp: scan_char_def quiet_def scan_plain_def open_paren_def split: option.splits)
  moreover have "fold scan_char (np_var n @ tag (np_label n) @ props_text (np_props n) @ [CHR '')'']) ?s1
      = mark (CHR '')'') (add_name KNode (np_label n) (?s1\<lparr>sc_open := sc_open s\<rparr>))"
    using assms(1,2) by (intro fold_bracket) (auto simp: quiet_def node_ok_def)
  moreover have "?s1\<lparr>sc_open := sc_open s\<rparr> = mark (CHR ''('') s" by (simp add: mark_def)
  ultimately show ?thesis by (simp add: node_text_def not_space)
qed

lemma fold_rel:
  assumes "quiet s" and "rel_ok r"
  shows "fold scan_char (rel_text r) s = mark (CHR ''>'') (add_name KRel (rp_type r) s)"
proof -
  let ?s0 = "mark (CHR ''-'') s"
  let ?s1 = "mark (CHR ''['') (?s0\<lparr>sc_open := (KRel, False) # sc_open s\<rparr>)"
  let ?s2 = "mark (CHR '']'') (add_name KRel (rp_type r) s)"
  have s0: "scan_char (CHR ''-'') s = ?s0" using assms(1) by (intro scan_ordinary) (simp_all add: special_def)
  have "sc_prev_significant ?s0 = Some (CHR ''-'')" by (simp add: mark_def is_whitespace_def)
  then have s1: "scan_char (CHR ''['') ?s0 = ?s1"
    using assms(1) by (simp add: scan_char_def quiet_def scan_plain_def open_square_def)
  have "fold scan_char (rp_var r @ tag (rp_type r) @ props_text [] @ [CHR '']'']) ?s1
      = mark (CHR '']'') (add_name KRel (rp_type r) (?s1\<lparr>sc_open := sc_open s\<rparr>))"
    using assms by (intro fold_bracket) (auto simp: quiet_def rel_ok_def)
  moreover have "?s1\<lparr>sc_open := sc_open s\<rparr> = mark (CHR ''['') s" by (simp add: mark_def is_whitespace_def)
  ultimately have s2: "fold scan_char (rp_var r @ tag (rp_type r) @ '']'') ?s1 = ?s2" by (simp add: props_text_def not_space)
  have "fold scan_char ''->'' ?s2 = fold mark ''->'' ?s2" using assms(1) by (intro fold_ordinary) (simp_all add: special_def)
  then show ?thesis using s0 s1 s2 by (simp add: rel_text_def not_space)
qed

definition add_link :: "rel_pat \<times> node_pat \<Rightarrow> pattern_scan \<Rightarrow> pattern_scan" where
  "add_link l s = add_name KNode (np_label (snd l)) (add_name KRel (rp_type (fst l)) s)"

definition add_path :: "path_pat \<Rightarrow> pattern_scan \<Rightarrow> pattern_scan" where
  "add_path p s = fold add_link (snd p) (add_name KNode (np_label (fst p)) s)"

lemma quiet_add_link [simp]: "quiet (add_link l s) = quiet s"
  by (simp add: add_link_def)

lemma add_link_mark [simp]: "add_link l (mark c s) = mark c (add_link l s)"
  by (simp add: add_link_def)

lemma quiet_fold_links [simp]: "quiet (fold add_link links s) = quiet s"
  by (induction links arbitrary: s) simp_all

lemma quiet_add_path [simp]: "quiet (add_path p s) = quiet s"
  by (simp add: add_path_def)

lemma fold_link:
  assumes "quiet s" and "rel_ok (fst l)" and "node_ok (snd l)"
  shows "fold scan_char (link_text l) (mark (CHR '')'') s) = mark (CHR '')'') (add_link l s)"
proof -
  let ?t = "mark (CHR ''>'') (add_name KRel (rp_type (fst l)) s)"
  have rel: "fold scan_char (rel_text (fst l)) (mark (CHR '')'') s) = ?t"
    using fold_rel [OF _ assms(2), of "mark (CHR '')'') s"] assms(1) by (simp add: not_space)
  have node: "fold scan_char (node_text (snd l)) ?t = mark (CHR '')'') (add_name KNode (np_label (snd l)) ?t)"
    using assms(1,3) not_word by (intro fold_node) simp_all
  show ?thesis unfolding link_text_def add_link_def fold_append comp_def rel node by (simp add: not_space)
qed

lemma fold_links:
  "quiet s \<Longrightarrow> \<forall>l \<in> set links. rel_ok (fst l) \<and> node_ok (snd l) \<Longrightarrow>
     fold scan_char (concat (map link_text links)) (mark (CHR '')'') s) = mark (CHR '')'') (fold add_link links s)"
proof (induction links arbitrary: s)
  case (Cons l links)
  have "fold scan_char (concat (map link_text (l # links))) (mark (CHR '')'') s)
      = fold scan_char (concat (map link_text links)) (fold scan_char (link_text l) (mark (CHR '')'') s))" by simp
  also have "\<dots> = fold scan_char (concat (map link_text links)) (mark (CHR '')'') (add_link l s))"
    using fold_link [of s l] Cons.prems by simp
  also have "\<dots> = mark (CHR '')'') (fold add_link links (add_link l s))"
    by (rule Cons.IH) (use Cons.prems in simp_all)
  finally show ?case by simp
qed simp

lemma fold_path:
  assumes "quiet s" and "path_ok p" and "\<forall>d. sc_prev_char s = Some d \<longrightarrow> \<not> word_char d"
  shows "fold scan_char (path_text p) s = mark (CHR '')'') (add_path p s)"
proof -
  have node: "fold scan_char (node_text (fst p)) s = mark (CHR '')'') (add_name KNode (np_label (fst p)) s)"
    using assms by (intro fold_node) (simp_all add: path_ok_def)
  have links: "fold scan_char (concat (map link_text (snd p))) (mark (CHR '')'') (add_name KNode (np_label (fst p)) s))
      = mark (CHR '')'') (fold add_link (snd p) (add_name KNode (np_label (fst p)) s))"
    using assms(1,2) by (intro fold_links) (simp_all add: path_ok_def)
  show ?thesis unfolding path_text_def add_path_def fold_append comp_def node links ..
qed

lemma add_name_prev [simp]: "sc_prev_char (add_name kind t s) = sc_prev_char s"
  by (cases t) (simp_all add: add_name_def)

lemma add_path_mark [simp]: "add_path p (mark c s) = mark c (add_path p s)"
proof -
  have "fold add_link links (mark c s) = mark c (fold add_link links s)" for links s
    by (induction links arbitrary: s) simp_all
  then show ?thesis by (simp add: add_path_def)
qed

lemma fold_add_path_mark: "fold add_path ps (mark c s) = mark c (fold add_path ps s)"
  by (induction ps arbitrary: s) simp_all

lemma fold_paths:
  "quiet s \<Longrightarrow> \<forall>p \<in> set ps. path_ok p \<Longrightarrow> ps \<noteq> [] \<Longrightarrow> \<forall>d. sc_prev_char s = Some d \<longrightarrow> \<not> word_char d \<Longrightarrow>
     fold scan_char (join '', '' (map path_text ps)) s = mark (CHR '')'') (fold add_path ps s)"
proof (induction ps arbitrary: s rule: induct_list012)
  case (2 p)
  then show ?case by (simp add: fold_path)
next
  case (3 p p' ps)
  let ?t = "mark (CHR '')'') (add_path p s)"
  let ?u = "mark (CHR '' '') (mark (CHR '','') ?t)"
  have path: "fold scan_char (path_text p) s = ?t" using "3.prems" by (intro fold_path) simp_all
  have "fold scan_char '', '' ?t = fold mark '', '' ?t" using "3.prems"(1) by (intro fold_ordinary) (simp_all add: special_def)
  then have sep: "fold scan_char '', '' ?t = ?u" by simp
  have IH: "fold scan_char (join '', '' (map path_text (p' # ps))) ?u = mark (CHR '')'') (fold add_path (p' # ps) ?u)"
    by (rule "3.IH"(2)) (use "3.prems"(1,2) not_word in simp_all)
  have "fold scan_char (join '', '' (map path_text (p # p' # ps))) s
      = fold scan_char (join '', '' (map path_text (p' # ps))) (fold scan_char '', '' (fold scan_char (path_text p) s))"
    by (simp only: list.map join.simps fold_append comp_def)
  also have "\<dots> = mark (CHR '')'') (fold add_path (p' # ps) ?u)" unfolding path sep IH ..
  also have "\<dots> = mark (CHR '')'') (fold add_path (p' # ps) (add_path p s))"
    unfolding fold_add_path_mark by (simp add: not_space)
  finally show ?case by simp
qed simp

section \<open>The gate is exact on them\<close>

lemma quiet_fold_paths: "quiet (fold add_path ps s) = quiet s"
  by (induction ps arbitrary: s) simp_all

lemma scan_query:
  assumes "\<forall>p \<in> set ps. path_ok p" and "ps \<noteq> []" and "\<forall>c \<in> set tail. c \<notin> set special"
  shows "sc_unconstrained (scan_patterns (query_text ps tail)) = sc_unconstrained (fold add_path ps scan_new)"
    "sc_node_labels (scan_patterns (query_text ps tail)) = sc_node_labels (fold add_path ps scan_new)"
    "sc_rel_types (scan_patterns (query_text ps tail)) = sc_rel_types (fold add_path ps scan_new)"
proof -
  let ?m = "fold mark ''MATCH '' scan_new"
  let ?t = "mark (CHR '')'') (fold add_path ps ?m)"
  have new: "quiet scan_new" by (simp add: quiet_def scan_new_def)
  have m: "fold scan_char ''MATCH '' scan_new = ?m" using new by (intro fold_ordinary) (simp_all add: special_def)
  have qm: "quiet ?m" "\<forall>d. sc_prev_char ?m = Some d \<longrightarrow> \<not> word_char d" using new not_word by simp_all
  have t: "fold scan_char (join '', '' (map path_text ps)) ?m = ?t" using qm assms(1,2) by (intro fold_paths)
  have qt: "quiet ?t" using qm(1) by (simp only: quiet_mark quiet_fold_paths)
  have r: "fold scan_char ('' RETURN '' @ tail) ?t = fold mark ('' RETURN '' @ tail) ?t"
    using qt assms(3) by (intro fold_ordinary) (auto simp: special_def)
  have "fold scan_char (query_text ps tail) scan_new = fold mark ('' RETURN '' @ tail) ?t"
    unfolding query_text_def fold_append comp_def m t r [unfolded fold_append comp_def] ..
  moreover have "sc_pending (fold mark ('' RETURN '' @ tail) ?t) = None" using qt by (simp add: quiet_def del: fold_append)
  ultimately have scan: "scan_patterns (query_text ps tail) = fold mark ('' RETURN '' @ tail) ?t"
    by (simp add: scan_patterns_def Let_def del: fold_append)
  have eq: "fold add_path ps ?m = fold mark ''MATCH '' (fold add_path ps scan_new)"
    by (simp add: fold_add_path_mark)
  show "sc_unconstrained (scan_patterns (query_text ps tail)) = sc_unconstrained (fold add_path ps scan_new)"
    "sc_node_labels (scan_patterns (query_text ps tail)) = sc_node_labels (fold add_path ps scan_new)"
    "sc_rel_types (scan_patterns (query_text ps tail)) = sc_rel_types (fold add_path ps scan_new)"
    unfolding scan eq by (simp_all del: fold_append fold_simps)
qed

definition named :: "path_pat \<Rightarrow> bool" where
  "named p \<longleftrightarrow> (\<forall>n \<in> set (path_nodes p). np_label n \<noteq> None) \<and> (\<forall>r \<in> set (path_rels p). rp_type r \<noteq> None)"

definition known :: "pattern_scan \<Rightarrow> bool" where
  "known s \<longleftrightarrow> sc_unconstrained s \<in> {None, Some KNode, Some KRel}"

lemma add_name_unconstrained:
  "sc_unconstrained (add_name kind t s) = None \<longleftrightarrow> sc_unconstrained s = None \<and> t \<noteq> None"
  by (auto simp: add_name_def split: option.splits)

lemma known_add_name: "known s \<Longrightarrow> kind \<in> {KNode, KRel} \<Longrightarrow> known (add_name kind t s)"
  by (auto simp: known_def add_name_def split: option.splits)

lemma known_add_link: "known s \<Longrightarrow> known (add_link l s)"
  by (simp add: add_link_def known_add_name)

lemma add_link_unconstrained:
  "sc_unconstrained (fold add_link ls s) = None \<longleftrightarrow> sc_unconstrained s = None \<and> (\<forall>l \<in> set ls. rp_type (fst l) \<noteq> None \<and> np_label (snd l) \<noteq> None)"
  by (induction ls arbitrary: s) (auto simp: add_link_def add_name_unconstrained)

lemma known_add_path: "known s \<Longrightarrow> known (add_path p s)"
proof -
  have "known (fold add_link ls s)" if "known s" for ls s using that by (induction ls arbitrary: s) (simp_all add: known_add_link)
  then show "known s \<Longrightarrow> known (add_path p s)" by (simp add: add_path_def known_add_name)
qed

lemma add_path_unconstrained:
  "sc_unconstrained (add_path p s) = None \<longleftrightarrow> sc_unconstrained s = None \<and> named p"
  by (auto simp: add_path_def add_link_unconstrained add_name_unconstrained named_def path_nodes_def path_rels_def)

lemma add_paths_unconstrained:
  "sc_unconstrained (fold add_path ps s) = None \<longleftrightarrow> sc_unconstrained s = None \<and> (\<forall>p \<in> set ps. named p)"
  by (induction ps arbitrary: s) (auto simp: add_path_unconstrained)

lemma known_add_paths: "known s \<Longrightarrow> known (fold add_path ps s)"
  by (induction ps arbitrary: s) (simp_all add: known_add_path)

definition labels_of :: "path_pat \<Rightarrow> string list" where
  "labels_of p = List.map_filter (\<lambda>n. map_option upper (np_label n)) (path_nodes p)"

lemma add_name_labels: "sc_node_labels (add_name KNode t s) = sc_node_labels s @ (case t of None \<Rightarrow> [] | Some x \<Rightarrow> [upper x])"
  "sc_node_labels (add_name KRel t s) = sc_node_labels s"
  by (simp_all add: add_name_def split: option.splits)

lemma add_path_labels: "sc_node_labels (add_path p s) = sc_node_labels s @ labels_of p"
proof -
  have "sc_node_labels (fold add_link ls s) = sc_node_labels s @ List.map_filter (\<lambda>n. map_option upper (np_label n)) (map snd ls)" for ls s
    by (induction ls arbitrary: s) (auto simp: add_link_def add_name_labels List.map_filter_simps split: option.splits)
  then show ?thesis
    by (auto simp: add_path_def labels_of_def path_nodes_def add_name_labels List.map_filter_simps split: option.splits)
qed

lemma add_paths_labels: "sc_node_labels (fold add_path ps s) = sc_node_labels s @ concat (map labels_of ps)"
  by (induction ps arbitrary: s) (simp_all add: add_path_labels)

lemma check_labels_None: "check_labels readable ts = None \<longleftrightarrow> (\<forall>t \<in> set ts. label_readable readable t)"
  by (induction ts) (simp_all add: SENSITIVE_RAW_LABELS_def)

lemma label_readable_upper [simp]: "label_readable readable (upper x) = label_readable readable x"
  by (simp add: label_readable_def eq_ignore_ascii_case_def comp_def lower_upper)

lemma named_labels:
  assumes "named p"
  shows "(\<forall>t \<in> set (labels_of p). label_readable readable t) \<longleftrightarrow> (\<forall>n \<in> set (path_nodes p). label_readable readable (the (np_label n)))"
    and "labels_of p \<noteq> []"
proof -
  have lab: "\<exists>x. np_label n = Some x" if "n \<in> set (path_nodes p)" for n using assms that by (auto simp: named_def)
  then have "labels_of p = map (\<lambda>n. upper (the (np_label n))) (path_nodes p)"
    unfolding labels_of_def List.map_filter_def by (induction "path_nodes p") (force simp: filter_id_conv)+
  then show "(\<forall>t \<in> set (labels_of p). label_readable readable t) \<longleftrightarrow> (\<forall>n \<in> set (path_nodes p). label_readable readable (the (np_label n)))"
    and "labels_of p \<noteq> []" by (simp_all add: path_nodes_def)
qed

lemma gate_exact:
  assumes "\<forall>p \<in> set ps. path_ok p" and "ps \<noteq> []" and "\<forall>c \<in> set tail. c \<notin> set special"
  shows "raw_read_label_gate (query_text ps tail) readable False = None \<longleftrightarrow>
    CHR 0x60 \<notin> set (query_text ps tail) \<and>
    (\<forall>p \<in> set ps. (\<forall>n \<in> set (path_nodes p). \<exists>x. np_label n = Some x \<and> label_readable readable x) \<and>
       (\<forall>r \<in> set (path_rels p). rp_type r \<noteq> None))"
proof -
  let ?s = "scan_patterns (query_text ps tail)"
  note scan = scan_query [OF assms]
  have "known scan_new" by (simp add: known_def scan_new_def)
  then have "known (fold add_path ps scan_new)" by (rule known_add_paths)
  then have kinds: "sc_unconstrained ?s \<in> {None, Some KNode, Some KRel}" unfolding scan known_def .
  have none: "sc_unconstrained ?s = None \<longleftrightarrow> (\<forall>p \<in> set ps. named p)"
    unfolding scan add_paths_unconstrained by (simp add: scan_new_def)
  have labels: "sc_node_labels ?s = concat (map labels_of ps)" unfolding scan add_paths_labels by (simp add: scan_new_def)
  have rels: "check_relations readable ts = None" for ts by (simp add: check_relations_def RESTRICTED_RELATIONS_def)
  have gate: "raw_read_label_gate (query_text ps tail) readable False = None \<longleftrightarrow> CHR 0x60 \<notin> set (query_text ps tail) \<and>
      sc_unconstrained ?s = None \<and> sc_node_labels ?s \<noteq> [] \<and> (\<forall>t \<in> set (sc_node_labels ?s). label_readable readable t)"
    using kinds unfolding raw_read_label_gate_def Let_def
    by (auto simp: rels check_labels_None [symmetric] split: option.splits)
  show ?thesis
  proof (cases "\<forall>p \<in> set ps. named p")
    case True
    have "concat (map labels_of ps) \<noteq> []" using assms(2) True named_labels(2) by (cases ps) auto
    moreover have "(\<forall>t \<in> set (concat (map labels_of ps)). label_readable readable t) \<longleftrightarrow>
        (\<forall>p \<in> set ps. \<forall>n \<in> set (path_nodes p). label_readable readable (the (np_label n)))"
      using True named_labels(1) by auto
    ultimately show ?thesis using True unfolding gate none labels by (fastforce simp: named_def)
  next
    case False
    have "named p" if "\<forall>n \<in> set (path_nodes p). \<exists>x. np_label n = Some x \<and> label_readable readable x"
        "\<forall>r \<in> set (path_rels p). rp_type r \<noteq> None" for p
      using that unfolding named_def by fastforce
    then show ?thesis using False unfolding gate none by blast
  qed
qed

text \<open>
  C24. On a query of this form, with whatever variables, labels, relationship types and escaped property
  values, the gate answers a scoped caller exactly as a reading of the query would: it lets the query
  through if and only if every node names a label the caller may read, every relationship names a type,
  and no backtick occurs in the text.
\<close>

theorem label_gate_is_exact:
  assumes "\<forall>p \<in> set ps. path_ok p" and "ps \<noteq> []" and "\<forall>c \<in> set tail. c \<notin> set special"
  shows "raw_read_label_gate (query_text ps tail) readable False = None \<longleftrightarrow>
    CHR 0x60 \<notin> set (query_text ps tail) \<and>
    (\<forall>p \<in> set ps. (\<forall>n \<in> set (path_nodes p). \<exists>x. np_label n = Some x \<and> label_readable readable x) \<and>
       (\<forall>r \<in> set (path_rels p). rp_type r \<noteq> None))"
  using assms by (rule gate_exact)

theorem label_gate_is_exact_witness:
  "raw_read_label_gate (query_text [(NodePat ''f'' (Some ''File'') [(''path'', ''it\\'s'')], [(RelPat ''r'' (Some ''FILE_PART_OF''), NodePat ''p'' (Some ''Project'') [])])] ''p.name'')
     [''file'', ''Project''] False = None \<and>
   raw_read_label_gate (query_text [(NodePat ''f'' (Some ''File'') [], [(RelPat [] (Some ''ACCESSED_BY''), NodePat ''x'' None [])])] ''x'') [''File''] False \<noteq> None"
proof -
  have low: "label_readable [''file'', ''Project''] ''File''" "label_readable [''file'', ''Project''] ''Project''" by code_simp+
  have ok: "path_ok (NodePat ''f'' (Some ''File'') [(''path'', ''it\\'s'')], [(RelPat ''r'' (Some ''FILE_PART_OF''), NodePat ''p'' (Some ''Project'') [])])"
      "path_ok (NodePat ''f'' (Some ''File'') [], [(RelPat [] (Some ''ACCESSED_BY''), NodePat ''x'' None [])])"
      "\<forall>c \<in> set ''p.name''. c \<notin> set special" "\<forall>c \<in> set ''x''. c \<notin> set special" by code_simp+
  have tick: "CHR 0x60 \<notin> set (query_text [(NodePat ''f'' (Some ''File'') [(''path'', ''it\\'s'')], [(RelPat ''r'' (Some ''FILE_PART_OF''), NodePat ''p'' (Some ''Project'') [])])] ''p.name'')"
    by code_simp
  show ?thesis
    using label_gate_is_exact [of "[(NodePat ''f'' (Some ''File'') [(''path'', ''it\\'s'')], [(RelPat ''r'' (Some ''FILE_PART_OF''), NodePat ''p'' (Some ''Project'') [])])]" "''p.name''" "[''file'', ''Project'']"]
      label_gate_is_exact [of "[(NodePat ''f'' (Some ''File'') [], [(RelPat [] (Some ''ACCESSED_BY''), NodePat ''x'' None [])])]" "''x''" "[''File'']"]
      ok tick low by (simp add: path_nodes_def path_rels_def)
qed

section \<open>What the scans do not see\<close>

definition smuggle_head :: string where
  "smuggle_head = ''MATCH (f:File) WHERE f.path <> \"'' @ [quote]"

definition smuggle_tail :: string where
  "smuggle_tail = [quote] @ ''\"''"

definition smuggled :: "string \<Rightarrow> string" where
  "smuggled clause = smuggle_head @ (''\" '' @ clause @ '' RETURN \"'') @ smuggle_tail"

lemma inside_literal_skip: "\<forall>c \<in> set x. c \<noteq> quote \<and> c \<noteq> backslash \<Longrightarrow> inside_literal (x @ s) = inside_literal s"
  by (induction x) simp_all

lemma fold_in_string:
  "sc_in_string s \<Longrightarrow> \<not> sc_escaped s \<Longrightarrow> \<forall>c \<in> set x. c \<noteq> quote \<and> c \<noteq> backslash \<Longrightarrow> fold scan_char x s = s"
  by (induction x arbitrary: s) (simp_all add: scan_char_def)

lemma fold_skip: "fold f m (fold f a s) = fold f a s \<Longrightarrow> fold f (a @ m @ b) s = fold f (a @ b) s"
  by simp

lemma outside_head: "outside_literals (smuggle_head @ s) = ''MATCH (f:File) WHERE f.path <> \"'' @ inside_literal s"
  by (simp add: smuggle_head_def)

lemma smuggled_outside:
  assumes "\<forall>c \<in> set clause. c \<noteq> quote \<and> c \<noteq> backslash"
  shows "outside_literals (smuggled clause) = outside_literals (smuggle_head @ smuggle_tail)"
  unfolding smuggled_def outside_head using assms by (subst inside_literal_skip) auto

lemma smuggled_scan:
  assumes "\<forall>c \<in> set clause. c \<noteq> quote \<and> c \<noteq> backslash"
  shows "scan_patterns (smuggled clause) = scan_patterns (smuggle_head @ smuggle_tail)"
proof -
  have "sc_in_string (fold scan_char smuggle_head scan_new)" "\<not> sc_escaped (fold scan_char smuggle_head scan_new)" by code_simp+
  then have "fold scan_char (''\" '' @ clause @ '' RETURN \"'') (fold scan_char smuggle_head scan_new) = fold scan_char smuggle_head scan_new"
    using assms by (intro fold_in_string) auto
  then have "fold scan_char (smuggled clause) scan_new = fold scan_char (smuggle_head @ smuggle_tail) scan_new"
    unfolding smuggled_def by (rule fold_skip)
  then show ?thesis by (simp only: scan_patterns_def)
qed

text \<open>
  C38. Strings in double quotes are not literals to the scans. A caller that may read one label sends
  any text, a write or a read of any other label, between two string constants \<open>"'"\<close>: the scans take
  everything from the first to the second for a literal, and every guard of the raw query path lets the
  query through (any text without a single quote, a backslash or a backtick).
\<close>

theorem double_quotes_blind_the_guards:
  assumes "\<forall>c \<in> set clause. c \<noteq> quote \<and> c \<noteq> backslash \<and> c \<noteq> CHR 0x60"
  shows "\<not> is_write_query (smuggled clause) \<and> \<not> references_authority_label (smuggled clause) \<and>
    raw_read_label_gate (smuggled clause) [''File''] False = None"
proof -
  have "\<not> is_write_query (smuggle_head @ smuggle_tail)" "\<not> references_authority_label (smuggle_head @ smuggle_tail)"
    "raw_read_label_gate (smuggle_head @ smuggle_tail) [''File''] False = None" by code_simp+
  moreover have "CHR 0x60 \<notin> set (smuggled clause)" "CHR 0x60 \<notin> set (smuggle_head @ smuggle_tail)"
    using assms by (auto simp: smuggled_def smuggle_head_def smuggle_tail_def)
  ultimately show ?thesis
    using assms smuggled_outside [of clause] smuggled_scan [of clause]
    by (simp add: is_write_query_def references_authority_label_def cypher_references_any_def references_from_outside
        raw_read_label_gate_def)
qed

theorem double_quotes_blind_the_guards_witness:
  "\<not> is_write_query (smuggled ''DETACH DELETE f'') \<and> is_write_query ''MATCH (f:File) DETACH DELETE f'' \<and>
   raw_read_label_gate (smuggled ''MATCH (s:Session)'') [''File''] False = None"
proof -
  have "is_write_query ''MATCH (f:File) DETACH DELETE f''" by code_simp
  then show ?thesis
    using double_quotes_blind_the_guards [of "''DETACH DELETE f''"] double_quotes_blind_the_guards [of "''MATCH (s:Session)''"] by simp
qed

text \<open>
  A pattern written against its keyword is not a pattern to the scan: \<open>MATCH(s:Label)\<close> is taken
  for a call. A caller that may read one label reads any other by leaving the space out.
\<close>

theorem unspaced_match_is_not_scoped:
  assumes "ident l"
  shows "raw_read_label_gate (''MATCH (f:File) MATCH(s:'' @ l @ '') RETURN s'') [''File''] False = None \<and>
    \<not> (\<exists>n \<in> set (sc_node_labels (scan_patterns (''MATCH (f:File) MATCH(s:'' @ l @ '') RETURN s''))). n \<noteq> ''FILE'')"
proof -
  let ?h = "''MATCH (f:File) MATCH(s:''" and ?t = "'') RETURN s''"
  let ?s = "fold scan_char ?h scan_new"
  have s: "sc_pending ?s = Some ([], KCall)" "\<not> sc_in_string ?s" by code_simp+
  have "fold scan_char l ?s = ?s\<lparr>sc_pending := Some (upper l, KCall)\<rparr>"
    using fold_pending [OF s(2,1) assms] by simp
  moreover have "scan_char (CHR '')'') (?s\<lparr>sc_pending := Some (upper l, KCall)\<rparr>) = scan_char (CHR '')'') (?s\<lparr>sc_pending := None\<rparr>)"
    using scan_pending [of "?s\<lparr>sc_pending := Some (upper l, KCall)\<rparr>" "upper l" KCall "CHR '')''"] s(2) not_word
    by (simp add: collect_def)
  ultimately have "fold scan_char (?h @ l @ ?t) scan_new = fold scan_char ?t (?s\<lparr>sc_pending := None\<rparr>)"
    by (simp only: fold_append comp_def fold_simps)
  moreover have "fold scan_char ?t (?s\<lparr>sc_pending := None\<rparr>) = fold scan_char (?h @ ?t) scan_new" by code_simp
  ultimately have scan: "scan_patterns (?h @ l @ ?t) = scan_patterns (?h @ ?t)" by (simp only: scan_patterns_def)
  have tick: "CHR 0x60 \<notin> set (?h @ l @ ?t)"
    using assms by (auto simp: ident_def word_char_def ascii_defs less_eq_char_def)
  have "raw_read_label_gate (?h @ ?t) [''File''] False = None" "sc_node_labels (scan_patterns (?h @ ?t)) = [''FILE'']" by code_simp+
  moreover have "CHR 0x60 \<notin> set (?h @ ?t)" by code_simp
  ultimately show ?thesis using scan tick by (simp add: raw_read_label_gate_def)
qed

theorem unspaced_match_is_not_scoped_witness:
  "raw_read_label_gate ''MATCH (f:File) MATCH(s:Session) RETURN s'' [''File''] False = None \<and>
   raw_read_label_gate ''MATCH (f:File) MATCH (s:Session) RETURN s'' [''File''] False = Some OutsideScope"
proof -
  have "raw_read_label_gate ''MATCH (f:File) MATCH (s:Session) RETURN s'' [''File''] False = Some OutsideScope" "ident ''Session''" by code_simp+
  then show ?thesis using unspaced_match_is_not_scoped [of "''Session''"] by simp
qed

end
