(* ===== verification/Permission_Auth.thy ===== *)
theory Permission_Auth
  imports Capability_Token Namespace_Grant
begin

text \<open>
  From a permission profile to a signed token (\<open>daemons/knowledge/src/permission.rs\<close> and
  \<open>auth.rs\<close>): the parser of scope entries, the projection of a profile's \<open>[graph]\<close> section, and
  the authenticator that issues and verifies tokens. A profile's
  \<open>[graph]\<close> section is the record \<open>graph_permissions\<close> (\<open>sdk/permissions/src/lib.rs\<close>). The iteration order of the \<open>HashMap\<close> in the parser is the parameter \<open>iter\<close>,
  a function that may list the entries of the map in any order.
\<close>

section \<open>Scope entries\<close>

definition full_scope :: "string \<Rightarrow> entity_scope" where
  "full_scope ty = \<lparr>es_entity_type = ty, es_fields = None, es_exclude_fields = []\<rparr>"

definition field_scope :: "string \<times> string list \<Rightarrow> entity_scope" where
  "field_scope = (\<lambda>(ty, fs). \<lparr>es_entity_type = ty, es_fields = Some fs, es_exclude_fields = []\<rparr>)"

text \<open>The body of the first loop, on the pair of \<open>type_fields\<close> and \<open>full_types\<close>.\<close>

definition scan_entry ::
  "string \<Rightarrow> (string, string list) hash_map \<times> string list \<Rightarrow>
   (string, string list) hash_map \<times> string list" where
  "scan_entry entry = (\<lambda>(type_fields, full_types).
     if ends_with entry ''.*'' then (type_fields, full_types @ [entry])
     else case splitn 3 (CHR ''.'') entry of
       [a, b, f] \<Rightarrow>
         (let ty = a @ ''.'' @ b;
              old = (case map_of type_fields ty of Some fs \<Rightarrow> fs | None \<Rightarrow> [])
          in (AList.update ty (old @ [f]) type_fields, full_types))
     | [_, _] \<Rightarrow> (type_fields, full_types @ [entry])
     | _ \<Rightarrow> (type_fields, full_types))"

definition sort_scope_fields :: "entity_scope \<Rightarrow> entity_scope" where
  "sort_scope_fields s = s\<lparr>es_fields := map_option sort (es_fields s),
                          es_exclude_fields := sort (es_exclude_fields s)\<rparr>"

definition parse_scope_entries ::
  "((string, string list) hash_map \<Rightarrow> (string, string list) hash_map) \<Rightarrow>
   string list \<Rightarrow> entity_scope list" where
  "parse_scope_entries iter entries =
     (let (type_fields, full_types) = fold scan_entry entries ([], []);
          type_fields' = fold AList.delete full_types type_fields;
          scopes = map full_scope full_types @ map field_scope (iter type_fields')
      in map sort_scope_fields (sort_key es_entity_type scopes))"

section \<open>The profile\<close>

datatype instance_scope_config = ConfigOwn | ConfigAll

record relation_permission =
  rp_from :: string
  rp_to :: string
  rp_relation_type :: string

record graph_permissions =
  gp_read :: "string list"
  gp_write :: "string list"
  gp_app_isolated :: bool
  gp_annotations_read_cross_namespace :: "string list"
  gp_relations :: "relation_permission list"
  gp_read_sensitive :: "string list"
  gp_instance_scope :: instance_scope_config
  gp_delegated_namespaces :: "string list"
  gp_required :: "string list"

definition has_graph_access :: "graph_permissions \<Rightarrow> bool" where
  "has_graph_access g \<longleftrightarrow> gp_read g \<noteq> [] \<or> gp_write g \<noteq> [] \<or> gp_relations g \<noteq> [] \<or>
     gp_read_sensitive g \<noteq> [] \<or> gp_delegated_namespaces g \<noteq> []"

definition to_relation_scopes :: "graph_permissions \<Rightarrow> relation_scope list" where
  "to_relation_scopes g = map (\<lambda>r. \<lparr>rs_from = rp_from r, rs_to = rp_to r,
     rs_relation_type = rp_relation_type r\<rparr>) (gp_relations g)"

definition to_instance_scope :: "graph_permissions \<Rightarrow> instance_scope" where
  "to_instance_scope g = (case gp_instance_scope g of ConfigOwn \<Rightarrow> Own | ConfigAll \<Rightarrow> All)"

text \<open>\<open>paths\<close> are the modification times of the profile files, \<open>None\<close> for one that cannot be
  read.\<close>

definition newest_mtime :: "date_time option list \<Rightarrow> date_time option" where
  "newest_mtime paths =
     (case List.map_filter id paths of [] \<Rightarrow> None | t # ts \<Rightarrow> Some (fold max ts t))"

text \<open>A directory is \<open>None\<close> when it cannot be read, otherwise its file names.\<close>

definition ids_in :: "string list option list \<Rightarrow> string list" where
  "ids_in dirs = remdups_adj (sort (concat (map
     (List.map_filter (\<lambda>n. strip_suffix n ''.toml'')) (List.map_filter id dirs))))"

section \<open>The authenticator\<close>

text \<open>The error values of the identity and profile crates are the type parameters.\<close>

datatype ('i, 'e) auth_error =
    GraphAccessNotGranted string
  | TokenInvalid
  | TokenExpired
  | ProcessDead u32
  | Identity 'i
  | Permission 'e

definition issue_token_from_profile ::
  "(bytes \<Rightarrow> bytes \<Rightarrow> bytes) \<Rightarrow> (capability_token \<Rightarrow> bytes) \<Rightarrow>
   ((string, string list) hash_map \<Rightarrow> (string, string list) hash_map) \<Rightarrow>
   uuid \<Rightarrow> date_time \<Rightarrow> string list \<Rightarrow> token_signer \<Rightarrow> string \<Rightarrow> u32 \<Rightarrow> graph_permissions \<Rightarrow>
   ('i, 'e) auth_error + capability_token" where
  "issue_token_from_profile hmac to_vec iter uuid now installed s app p g =
     (if \<not> has_graph_access g then Inl (GraphAccessNotGranted app)
      else Inr (sign hmac to_vec s
        (with_delegated_namespaces
          (token_new uuid now app p
             (parse_scope_entries iter (gp_read g)) (parse_scope_entries iter (gp_write g))
             (to_relation_scopes g) (to_instance_scope g))
          (unowned_delegations (gp_delegated_namespaces g) installed))))"

definition issue_token_for_app ::
  "(u32 \<Rightarrow> string \<Rightarrow> 'e + graph_permissions) \<Rightarrow>
   (bytes \<Rightarrow> bytes \<Rightarrow> bytes) \<Rightarrow> (capability_token \<Rightarrow> bytes) \<Rightarrow>
   ((string, string list) hash_map \<Rightarrow> (string, string list) hash_map) \<Rightarrow>
   uuid \<Rightarrow> date_time \<Rightarrow> string list \<Rightarrow> token_signer \<Rightarrow> u32 \<Rightarrow> string \<Rightarrow> u32 \<Rightarrow>
   ('i, 'e) auth_error + capability_token" where
  "issue_token_for_app load_profile_for_user hmac to_vec iter uuid now installed s uid app p =
     (case load_profile_for_user uid app of
        Inl e \<Rightarrow> Inl (Permission e)
      | Inr g \<Rightarrow> issue_token_from_profile hmac to_vec iter uuid now installed s app p g)"

definition verify_token ::
  "(bytes \<Rightarrow> bytes \<Rightarrow> bytes) \<Rightarrow> (capability_token \<Rightarrow> bytes) \<Rightarrow> date_time \<Rightarrow> (u32 \<Rightarrow> bool) \<Rightarrow>
   token_signer \<Rightarrow> capability_token \<Rightarrow> ('i, 'e) auth_error + unit" where
  "verify_token hmac to_vec now process_alive s t =
     (if \<not> verify hmac to_vec s t then Inl TokenInvalid
      else if is_expired now t then Inl TokenExpired
      else if \<not> process_alive (ct_pid t) then Inl (ProcessDead (ct_pid t))
      else Inr ())"

section \<open>What the parser computes\<close>

text \<open>
  The meaning of one entry, stated without the loop: an entry that grants a whole type (or a
  wildcard), and the field an entry adds to a type.
\<close>

definition grants_full :: "string \<Rightarrow> bool" where
  "grants_full e \<longleftrightarrow> ends_with e ''.*'' \<or> length (splitn 3 (CHR ''.'') e) = 2"

definition grants_field :: "string \<Rightarrow> (string \<times> string) option" where
  "grants_field e = (if ends_with e ''.*'' then None
     else case splitn 3 (CHR ''.'') e of [a, b, f] \<Rightarrow> Some (a @ ''.'' @ b, f) | _ \<Rightarrow> None)"

definition granted_fields :: "string list \<Rightarrow> string \<Rightarrow> string list" where
  "granted_fields es ty = map snd (filter (\<lambda>p. fst p = ty) (List.map_filter grants_field es))"

lemma granted_fields_snoc:
  "granted_fields (es @ [e]) ty = granted_fields es ty @
     (case grants_field e of Some (t, f) \<Rightarrow> if t = ty then [f] else [] | None \<Rightarrow> [])"
  by (simp add: granted_fields_def List.map_filter_def split: option.splits)

lemma granted_fields_mset:
  "mset es = mset es' \<Longrightarrow> mset (granted_fields es ty) = mset (granted_fields es' ty)"
  unfolding granted_fields_def by (rule mset_map_filter_cong)

lemma scan_entry_eq:
  "scan_entry e (tf, full) =
     ((case grants_field e of
         Some (t, f) \<Rightarrow> AList.update t ((case map_of tf t of Some fs \<Rightarrow> fs | None \<Rightarrow> []) @ [f]) tf
       | None \<Rightarrow> tf),
      full @ (if grants_full e then [e] else []))"
  by (auto simp: scan_entry_def grants_field_def grants_full_def Let_def split: list.splits)

lemma scan_entries:
  assumes "fold scan_entry es ([], []) = (tf, full)"
  shows "full = filter grants_full es" and "distinct (map fst tf)"
    and "map_of tf ty = (if granted_fields es ty = [] then None else Some (granted_fields es ty))"
  using assms
proof (induction es arbitrary: tf full ty rule: rev_induct)
  case Nil
  {
    case 1 then show ?case by simp
  next
    case 2 then show ?case by simp
  next
    case 3 then show ?case by (simp add: granted_fields_def map_filter_simps)
  }
next
  case (snoc e es)
  obtain tf0 full0 where scanned: "fold scan_entry es ([], []) = (tf0, full0)" by fastforce
  note IH = snoc.IH [OF scanned]
  {
    case 1 then show ?case using scanned IH(1) by (simp add: scan_entry_eq split: if_splits)
  next
    case 2 then show ?case using scanned IH(2)
      by (auto simp: scan_entry_eq distinct_update split: option.splits)
  next
    case 3
    have old: "map_of tf0 t = (if granted_fields es t = [] then None else Some (granted_fields es t))"
      for t by (rule IH(3))
    show ?case
      using 3 scanned old by (auto simp: scan_entry_eq granted_fields_snoc update_conv' split: option.splits)
  }
qed

text \<open>The list before it is sorted, with the fields already in order.\<close>

definition scope_list ::
  "((string, string list) hash_map \<Rightarrow> (string, string list) hash_map) \<Rightarrow>
   string list \<Rightarrow> entity_scope list" where
  "scope_list iter es =
     (let (tf, full) = fold scan_entry es ([], [])
      in map full_scope full @ map field_scope (iter (fold AList.delete full tf)))"

lemma parse_scope_entries_scope_list:
  "parse_scope_entries iter es = map sort_scope_fields (sort_key es_entity_type (scope_list iter es))"
  by (simp add: parse_scope_entries_def scope_list_def Let_def split: prod.split)

lemma sort_scope_fields_type [simp]: "es_entity_type (sort_scope_fields s) = es_entity_type s"
  by (simp add: sort_scope_fields_def)

lemma sort_scope_fields_full [simp]: "sort_scope_fields (full_scope ty) = full_scope ty"
  by (simp add: sort_scope_fields_def full_scope_def)

lemma sort_scope_fields_field [simp]:
  "sort_scope_fields (field_scope (ty, fs)) = field_scope (ty, sort fs)"
  by (simp add: sort_scope_fields_def field_scope_def)

lemma scope_type_simps [simp]:
  "es_entity_type (full_scope ty) = ty" "es_entity_type (field_scope p) = fst p"
  by (simp_all add: full_scope_def field_scope_def split: prod.split)

text \<open>The types with field grants that survive, and the scope each of them gets.\<close>

definition field_types :: "string list \<Rightarrow> string set" where
  "field_types es = {ty. granted_fields es ty \<noteq> [] \<and> ty \<notin> set (filter grants_full es)}"

definition canonical_scope :: "string list \<Rightarrow> string \<Rightarrow> entity_scope" where
  "canonical_scope es ty = field_scope (ty, sort (granted_fields es ty))"

lemma canonical_scope_type [simp]: "es_entity_type (canonical_scope es ty) = ty"
  by (simp add: canonical_scope_def)

lemma scan_result:
  assumes "\<And>m. mset (iter m) = mset m"
  obtains tys where "map sort_scope_fields (scope_list iter es) =
      map full_scope (filter grants_full es) @ map (canonical_scope es) tys"
    and "distinct tys" and "set tys = field_types es"
proof -
  obtain tf full where scanned: "fold scan_entry es ([], []) = (tf, full)" by fastforce
  note inv = scan_entries [OF scanned]
  define m where "m = iter (filter (\<lambda>(k, v). k \<notin> set full) tf)"
  have mset_m: "mset m = mset (filter (\<lambda>(k, v). k \<notin> set full) tf)"
    using assms by (simp add: m_def)
  have "distinct (map fst (filter (\<lambda>(k, v). k \<notin> set full) tf))"
    using inv(2) by (simp add: distinct_map_filter)
  then have distinct: "distinct (map fst m)"
    using mset_m mset_eq_imp_distinct_iff by (metis mset_map)
  have set_m: "set m = {(k, v). map_of tf k = Some v \<and> k \<notin> set full}"
    using mset_eq_setD [OF mset_m] inv(2) by auto
  have entries: "p \<in> set m \<Longrightarrow> snd p = granted_fields es (fst p)" for p
    using set_m inv(3) by (auto split: if_splits)
  have "fst ` set m = field_types es"
    using set_m inv(1,3) by (force simp: field_types_def image_iff split: if_splits)
  moreover have "map sort_scope_fields (map field_scope m) = map (canonical_scope es) (map fst m)"
    using entries by (auto simp: canonical_scope_def)
  moreover have "scope_list iter es = map full_scope (filter grants_full es) @ map field_scope m"
    by (simp add: scope_list_def scanned inv(1) m_def fold_delete)
  ultimately show thesis using that [of "map fst m"] distinct by (simp add: comp_def)
qed

text \<open>No two different scopes of the list are for the same type, so sorting by type is total.\<close>

lemma scope_list_inj:
  assumes "\<And>m. mset (iter m) = mset m"
  shows "inj_on es_entity_type (set (map sort_scope_fields (scope_list iter es)))"
proof -
  obtain tys where eq: "map sort_scope_fields (scope_list iter es) =
      map full_scope (filter grants_full es) @ map (canonical_scope es) tys"
    and "distinct tys" and tys: "set tys = field_types es"
    using scan_result [of iter, OF assms] by metis
  show ?thesis
    unfolding eq
    by (rule inj_on_inverseI [where g = "\<lambda>ty. if ty \<in> set (filter grants_full es)
          then full_scope ty else canonical_scope es ty"]) (auto simp: tys field_types_def)
qed

lemma sorted_canonical:
  assumes perm: "mset (map g xs) = mset (map g ys)" and inj: "inj_on f (set (map g xs))"
    and key: "\<And>x. f (g x) = f x"
  shows "map g (sort_key f xs) = map g (sort_key f ys)"
proof -
  have "sort_key f (map g xs) = map g (sort_key f zs)" if "mset (map g xs) = mset (map g zs)" for zs
    using that inj key by (intro sort_key_inj_key_eq) (simp_all add: comp_def)
  with perm show ?thesis by metis
qed

lemma parse_scope_entries_order_free:
  assumes iter: "\<And>m. mset (iter m) = mset m" and iter': "\<And>m. mset (iter' m) = mset m"
    and perm: "mset es = mset es'"
  shows "parse_scope_entries iter es = parse_scope_entries iter' es'"
proof -
  obtain tys where tys: "map sort_scope_fields (scope_list iter es) =
      map full_scope (filter grants_full es) @ map (canonical_scope es) tys"
    "distinct tys" "set tys = field_types es"
    using scan_result [of iter, OF iter] by metis
  obtain tys' where tys': "map sort_scope_fields (scope_list iter' es') =
      map full_scope (filter grants_full es') @ map (canonical_scope es') tys'"
    "distinct tys'" "set tys' = field_types es'"
    using scan_result [of iter', OF iter'] by metis
  have fields: "mset (granted_fields es ty) = mset (granted_fields es' ty)" for ty
    using granted_fields_mset [OF perm] .
  then have "sort (granted_fields es ty) = sort (granted_fields es' ty)" for ty
    by (metis mset_sort properties_for_sort sorted_sort)
  then have canonical: "canonical_scope es = canonical_scope es'"
    by (simp add: canonical_scope_def fun_eq_iff)
  have "granted_fields es ty = [] \<longleftrightarrow> granted_fields es' ty = []" for ty
    using fields by (metis mset_zero_iff)
  then have "set tys = set tys'"
    using tys(3) tys'(3) mset_eq_setD [OF perm] by (simp add: field_types_def)
  then have "mset tys = mset tys'"
    using tys(2) tys'(2) set_eq_iff_mset_eq_distinct by blast
  then have "mset (map sort_scope_fields (scope_list iter es)) =
      mset (map sort_scope_fields (scope_list iter' es'))"
    unfolding tys(1) tys'(1) using perm canonical by simp
  then show ?thesis
    unfolding parse_scope_entries_scope_list
    by (rule sorted_canonical) (rule scope_list_inj [of iter, OF iter], simp)
qed

text \<open>What the parsed scopes match, entry by entry.\<close>

definition entry_type :: "string \<Rightarrow> string option" where
  "entry_type e = (if grants_full e then Some e else map_option fst (grants_field e))"

definition entry_grants :: "string \<Rightarrow> string \<Rightarrow> bool" where
  "entry_grants e ty = (case entry_type e of Some t \<Rightarrow> type_matches t ty | None \<Rightarrow> False)"

lemma grants_field_not_full: "grants_field e = Some p \<Longrightarrow> \<not> grants_full e"
  by (auto simp: grants_field_def grants_full_def split: if_splits list.splits)

lemma granted_fields_nonempty: "granted_fields es ty \<noteq> [] \<longleftrightarrow> (\<exists>e \<in> set es. \<exists>f. grants_field e = Some (ty, f))"
  by (force simp: granted_fields_def List.map_filter_def filter_empty_conv image_iff)

lemma entry_types:
  "{t. \<exists>e \<in> set es. entry_type e = Some t} = set (filter grants_full es) \<union> field_types es"
  by (auto simp: entry_type_def field_types_def granted_fields_nonempty dest: grants_field_not_full
      split: if_splits)

lemma parse_scope_entries_matches:
  assumes iter: "\<And>m. mset (iter m) = mset m"
  shows "scope_matches (parse_scope_entries iter es) ty \<longleftrightarrow>
    (\<exists>e \<in> set es. entry_grants e ty)"
proof -
  obtain tys where eq: "map sort_scope_fields (scope_list iter es) =
      map full_scope (filter grants_full es) @ map (canonical_scope es) tys"
    and tys: "set tys = field_types es"
    using scan_result [of iter, OF iter] by metis
  have "set (parse_scope_entries iter es) = set (map sort_scope_fields (scope_list iter es))"
    by (simp add: parse_scope_entries_scope_list)
  then have "scope_matches (parse_scope_entries iter es) ty \<longleftrightarrow>
      (\<exists>t \<in> set (filter grants_full es) \<union> field_types es. type_matches t ty)"
    unfolding scope_matches_iff eq using tys by (simp add: bex_Un)
  also have "set (filter grants_full es) \<union> field_types es =
      {t. \<exists>e \<in> set es. entry_type e = Some t}"
    by (rule entry_types [symmetric])
  finally show ?thesis by (auto simp: entry_grants_def split: option.splits)
qed

section \<open>Properties\<close>

lemmas issue_defs = issue_token_from_profile_def with_delegated_namespaces_def token_new_def

lemma issue_InrD:
  assumes "issue_token_from_profile hmac to_vec iter uuid now installed s app p g = Inr t"
  shows "verify hmac to_vec s t" and "ct_expires_at t = None" and "ct_app_id t = app"
    and "ct_pid t = p" and "ct_read_scopes t = parse_scope_entries iter (gp_read g)"
    and "ct_write_scopes t = parse_scope_entries iter (gp_write g)"
    and "ct_relation_scopes t = to_relation_scopes g"
    and "ct_delegated_namespaces t = unowned_delegations (gp_delegated_namespaces g) installed"
proof -
  show "verify hmac to_vec s t"
    using assms token_seal.checks_seal by (auto simp: issue_token_from_profile_def split: if_splits)
qed (use assms in \<open>auto simp: issue_defs sign_def split: if_splits\<close>)

text \<open>C15. A token is issued exactly to an app whose profile grants some graph access, and what
  it carries is what the profile says: it is in the name of that app and process, it passes the
  verification of every later request as long as the process lives, and it can read or write a
  type exactly when some entry of the profile names that type (or a wildcard over it).\<close>

theorem issued_token_is_the_profile:
  fixes result :: "('i, 'e) auth_error + capability_token"
  assumes iter: "\<And>m. mset (iter m) = mset m"
    and result: "result = issue_token_from_profile hmac to_vec iter uuid now installed s app p g"
  shows "case result of
      Inl e \<Rightarrow> \<not> has_graph_access g \<and> e = GraphAccessNotGranted app
    | Inr t \<Rightarrow> has_graph_access g \<and> ct_app_id t = app \<and> ct_pid t = p \<and>
        verify_token hmac to_vec later alive s t = (if alive p then Inr () else Inl (ProcessDead p)) \<and>
        (\<forall>ty. can_read t ty \<longleftrightarrow>
          (\<exists>e \<in> set (gp_read g). entry_grants e ty)) \<and>
        (\<forall>ty. can_write t ty \<longleftrightarrow>
          (\<exists>e \<in> set (gp_write g). entry_grants e ty))"
proof (cases result)
  case (Inl e)
  then show ?thesis using result by (auto simp: issue_token_from_profile_def split: if_splits)
next
  case (Inr t)
  moreover have "has_graph_access g"
    using Inr result by (auto simp: issue_token_from_profile_def split: if_splits)
  ultimately show ?thesis
    using issue_InrD [OF result [symmetric, unfolded Inr]] parse_scope_entries_matches [of iter, OF iter]
    by (simp add: verify_token_def is_expired_def can_read_def can_write_def)
qed

text \<open>A token cannot be altered: any token that differs from an issued one but carries its
  signature is refused, unless HMAC collides on the two messages or the encoding does not
  separate the two tokens.\<close>

theorem altered_token_refused:
  assumes "issue_token_from_profile hmac to_vec iter uuid now installed s app p g = Inr t"
    and "t' \<noteq> t" and "ct_signature t' = ct_signature t"
    and no_collision: "hmac (ts_key s) (signable_bytes to_vec t') = hmac (ts_key s) (signable_bytes to_vec t)
        \<Longrightarrow> signable_bytes to_vec t' = signable_bytes to_vec t"
    and separates: "signable_bytes to_vec t' = signable_bytes to_vec t
        \<Longrightarrow> unsigned_token t' = unsigned_token t"
  shows "verify_token hmac to_vec later alive s t' = Inl TokenInvalid"
proof -
  have t: "verify hmac to_vec s t" by (rule issue_InrD(1) [OF assms(1)])
  have "\<not> verify hmac to_vec s t'"
  proof
    assume t': "verify hmac to_vec s t'"
    with t assms(3) have "hmac (ts_key s) (signable_bytes to_vec t') = hmac (ts_key s) (signable_bytes to_vec t)"
      by (simp add: verify_def)
    then have "unsigned_token t' = unsigned_token t" using no_collision separates by blast
    then show False
      using token_seal.resealed_tampering_detected [OF t] t' \<open>t' \<noteq> t\<close> by blast
  qed
  then show ?thesis by (simp add: verify_token_def)
qed

text \<open>A token never carries a delegation into foreign ground: a type admitted through the
  delegated namespaces of an issued token lies strictly under a namespace that the profile
  declared, under no namespace of an installed app, and neither under \<open>system\<close> nor under
  \<open>shared\<close>.\<close>

theorem issued_delegations_never_clobber:
  assumes "issue_token_from_profile hmac to_vec iter uuid now installed s app p g = Inr t"
    and "permits_any (ct_delegated_namespaces t) ty"
  shows "(\<exists>ns \<in> set (gp_delegated_namespaces g). is_valid_namespace ns \<and> in_namespace ns ty) \<and>
    \<not> (\<exists>owner \<in> set installed. in_namespace owner ty) \<and>
    \<not> in_namespace ''system'' ty \<and> \<not> in_namespace ''shared'' ty"
proof -
  obtain ns where ns: "ns \<in> set (unowned_delegations (gp_delegated_namespaces g) installed)"
    "is_valid_namespace ns" "in_namespace ns ty"
    using assms(2) permits_under unfolding permits_any_iff issue_InrD(8) [OF assms(1)] by fastforce
  then have "ns \<in> set (gp_delegated_namespaces g)" by (simp add: unowned_delegations_def)
  then show ?thesis
    using ns unowned_no_overlap permits_any_not_reserved [OF assms(2)] by blast
qed

text \<open>The parsed scopes are a function of the grant and not of its typography: neither the
  order of the entries in the profile nor the iteration order of the hash map shows in the
  result.\<close>

theorem parse_scope_entries_canonical:
  assumes "\<And>m. mset (iter m) = mset m" and "\<And>m. mset (iter' m) = mset m"
    and "mset es = mset es'"
  shows "parse_scope_entries iter es = parse_scope_entries iter' es'"
  using assms by (rule parse_scope_entries_order_free)

section \<open>Witnesses\<close>

definition demo_profile :: graph_permissions where
  "demo_profile = \<lparr>gp_read = [''system.File.path'', ''com.anki.*''], gp_write = [''md.obsidian.*''],
     gp_app_isolated = False, gp_annotations_read_cross_namespace = [], gp_relations = [],
     gp_read_sensitive = [], gp_instance_scope = ConfigOwn,
     gp_delegated_namespaces = [''md.obsidian'', ''com.anki''], gp_required = []\<rparr>"

definition demo_token :: capability_token where
  "demo_token = sign (@) ct_app_id \<lparr>ts_key = ''k''\<rparr>
     \<lparr>ct_id = 0, ct_version = 1, ct_issued_at = 5, ct_expires_at = None, ct_app_id = ''bridge-ingest'',
      ct_pid = 7, ct_read_scopes = parse_scope_entries id [''system.File.path'', ''com.anki.*''],
      ct_write_scopes = parse_scope_entries id [''md.obsidian.*''], ct_relation_scopes = [],
      ct_instance_scope = Own, ct_delegated_namespaces = [''md.obsidian''],
      ct_signature = zero_signature\<rparr>"

lemma demo_issue:
  "issue_token_from_profile (@) ct_app_id id 0 5 [''com.anki''] \<lparr>ts_key = ''k''\<rparr>
     ''bridge-ingest'' 7 demo_profile = Inr demo_token"
proof -
  have "unowned_delegations [''md.obsidian'', ''com.anki''] [''com.anki''] = [''md.obsidian'']"
    by code_simp
  then show ?thesis
    by (simp add: issue_defs demo_profile_def demo_token_def has_graph_access_def
        to_relation_scopes_def to_instance_scope_def TOKEN_VERSION_def)
qed

theorem issued_token_is_the_profile_witness:
  "can_read demo_token ''com.anki.Card'' \<and> \<not> can_read demo_token ''com.ankiX.Card''"
proof -
  have "\<not> (\<exists>e \<in> set (gp_read demo_profile). entry_grants e ''com.ankiX.Card'')"
    by code_simp
  moreover have "\<exists>e \<in> set (gp_read demo_profile). entry_grants e ''com.anki.Card''"
    by code_simp
  ultimately show ?thesis
    using issued_token_is_the_profile [where later = 9 and alive = "\<lambda>_. True",
        OF _ demo_issue [symmetric]] by auto
qed

theorem altered_token_refused_witness:
  "verify_token (@) ct_app_id 9 (\<lambda>_. True) \<lparr>ts_key = ''k''\<rparr> (demo_token\<lparr>ct_app_id := ''system''\<rparr>)
     = Inl TokenInvalid"
  by (rule altered_token_refused [OF demo_issue])
     (simp_all add: demo_token_def sign_def signable_bytes_def unsigned_token_def)

theorem issued_delegations_never_clobber_witness:
  "permits_any (ct_delegated_namespaces demo_token) ''md.obsidian.Note'' \<and>
   \<not> in_namespace ''com.anki'' ''md.obsidian.Note''"
proof -
  have "permits_any (ct_delegated_namespaces demo_token) ''md.obsidian.Note''"
    by (simp add: demo_token_def sign_def) code_simp
  then show ?thesis
    using issued_delegations_never_clobber [OF demo_issue] by simp
qed

theorem parse_scope_entries_canonical_witness:
  "parse_scope_entries id [''system.File.path'', ''a.B.c'', ''system.File.app_id''] =
   parse_scope_entries rev [''system.File.app_id'', ''system.File.path'', ''a.B.c'']"
  by (rule parse_scope_entries_canonical) simp_all

end
