(* ===== verification/Graph_Reads.thy ===== *)
theory Graph_Reads
  imports Quota Read_Gate Permission_Auth "HOL-Library.Product_Lexorder"
begin

text \<open>
  Who the graph daemon serves and what a raw query goes through before the engine runs it
  (\<open>daemons/knowledge/src/daemon.rs\<close>): the admission of a connecting peer, the callers each special
  operation admits, the labels a caller may read, the order of the guards in front of a query, the
  tally of exercised grants (\<open>lcg.rs\<close>) and the enumeration operation (\<open>list.rs\<close>).

  The kernel's and the broker's answers about a peer are arguments, as are the engine's answer to a
  query and the scrubbing of sensitive columns (crate \<open>serde_json\<close>). Texts are those the daemon
  sends; log lines and the artificial delay before a reply are left out.
\<close>

section \<open>Connections\<close>

definition resolve_owner_uid :: "string option \<Rightarrow> string option \<Rightarrow> (string \<Rightarrow> u32 option) \<Rightarrow> u32 option" where
  "resolve_owner_uid uid_env user_env lookup =
     (case (case uid_env of None \<Rightarrow> None | Some s \<Rightarrow> (case parse_u32 (trim s) of Inl _ \<Rightarrow> None | Inr u \<Rightarrow> Some u)) of
        Some uid \<Rightarrow> Some uid
      | None \<Rightarrow> (case user_env of None \<Rightarrow> None
          | Some n \<Rightarrow> if trim n = [] then None else lookup (trim n)))"

datatype exposure = Shared | OwnerOnly u32

definition socket_exposure :: "u32 option \<Rightarrow> u32 \<Rightarrow> exposure" where
  "socket_exposure owner_uid our_uid = (case owner_uid of Some owner \<Rightarrow> OwnerOnly owner | None \<Rightarrow> Shared)"

definition cross_uid_admitted :: "u32 \<Rightarrow> u32 option \<Rightarrow> quota_tier \<Rightarrow> bool" where
  "cross_uid_admitted peer_uid owner_uid tier =
     (if \<not> (tier = QFirstParty \<or> tier = QSystem) then False
      else case owner_uid of Some owner \<Rightarrow> peer_uid = owner | None \<Rightarrow> True)"

record write_peer =
  wp_pid :: u32
  wp_uid :: u32
  wp_app_id :: string
  wp_start_time :: "u64 option"

datatype client = Rejected | Client string "write_peer option"

text \<open>
  The first part of \<open>handle_client\<close>: \<open>cred\<close> is the peer's process and user, if the kernel gives them,
  \<open>stamped\<close> the name the identity broker knows the connection by, \<open>start\<close> the start time of a process.
\<close>

definition identify_client ::
  "daemon_build \<Rightarrow> (int \<times> u32) option \<Rightarrow> u32 \<Rightarrow> u32 option \<Rightarrow> string option \<Rightarrow> (u32 \<Rightarrow> u64 option) \<Rightarrow> client" where
  "identify_client bd cred our_uid owner_uid stamped start =
     (case cred of
        None \<Rightarrow> Client ''unknown'' None
      | Some (pid, uid) \<Rightarrow>
          let cross_uid = (uid \<noteq> our_uid) in
          if pid \<le> 0 then (if cross_uid then Rejected else Client ''unknown'' None)
          else case stamped of
              None \<Rightarrow> Rejected
            | Some app \<Rightarrow>
                if cross_uid \<and> \<not> cross_uid_admitted uid owner_uid (tier_for_app bd arlen_default app) then Rejected
                else Client app (Some \<lparr>wp_pid = of_int pid, wp_uid = uid, wp_app_id = app, wp_start_time = start (of_int pid)\<rparr>))"

section \<open>Callers of the special operations\<close>

text \<open>\<open>extra\<close> is the value of \<open>ARLEN_REVOKE_EXTRA_ADMIT\<close>, read in debug builds only.\<close>

definition revoke_extra_admit :: "string option \<Rightarrow> string \<Rightarrow> bool" where
  "revoke_extra_admit extra app_id \<longleftrightarrow> extra = Some app_id"

definition is_debug :: "daemon_build \<Rightarrow> bool" where
  "is_debug bd \<longleftrightarrow> bd \<noteq> ReleaseBuild"

definition is_settings_principal :: "daemon_build \<Rightarrow> string option \<Rightarrow> string \<Rightarrow> bool" where
  "is_settings_principal bd extra app_id \<longleftrightarrow> app_id = ''dev.arlen.settings'' \<or>
     (is_debug bd \<and> (app_id = ''dev.arlen-settings'' \<or> revoke_extra_admit extra app_id))"

definition revoke_caller_admitted :: "daemon_build \<Rightarrow> string option \<Rightarrow> string \<Rightarrow> bool" where
  "revoke_caller_admitted bd extra app_id = is_settings_principal bd extra app_id"

definition activity_delete_caller_admitted :: "daemon_build \<Rightarrow> string option \<Rightarrow> string \<Rightarrow> bool" where
  "activity_delete_caller_admitted bd extra app_id \<longleftrightarrow> app_id = ''dev.arlen.knowledge'' \<or>
     (is_debug bd \<and> (app_id = ''dev.arlen-knowledge-app'' \<or> revoke_extra_admit extra app_id))"

definition meeting_caller_admitted :: "daemon_build \<Rightarrow> string \<Rightarrow> bool" where
  "meeting_caller_admitted bd app_id \<longleftrightarrow>
     app_id \<in> {''dev.arlen.meetings'', ''meetings'', ''ai-agent''} \<or>
     (is_debug bd \<and> app_id \<in> {''dev.arlen-meetings'', ''dev.arlen-ai-engine-daemon'', ''dev.arlen-ai-agent''})"

definition consent_grant_writer_admitted :: "daemon_build \<Rightarrow> string \<Rightarrow> bool" where
  "consent_grant_writer_admitted bd app_id \<longleftrightarrow> app_id = ''consent-broker'' \<or>
     (is_debug bd \<and> app_id = ''dev.arlen-consent-broker'')"

definition is_safe_app_id :: "string \<Rightarrow> bool" where
  "is_safe_app_id app_id \<longleftrightarrow> app_id \<noteq> [] \<and> app_id \<noteq> ''.'' \<and> app_id \<noteq> ''..'' \<and>
     (\<forall>b \<in> set app_id. is_ascii_alphanumeric b \<or> b = CHR ''.'' \<or> b = CHR ''_'' \<or> b = CHR ''-'')"

section \<open>What a caller may read\<close>

definition caller_read_scopes ::
  "(u32 \<Rightarrow> string \<Rightarrow> u32 \<Rightarrow> 'e + capability_token) \<Rightarrow> (u32 \<Rightarrow> u64 option) \<Rightarrow> write_peer option \<Rightarrow> string \<Rightarrow> entity_scope list" where
  "caller_read_scopes issue start peer app_id =
     (case peer of None \<Rightarrow> []
      | Some p \<Rightarrow> (case (wp_start_time p, start (wp_pid p)) of
          (Some captured, Some now) \<Rightarrow>
            if now = captured then
              (case issue (wp_uid p) app_id (wp_pid p) of Inr token \<Rightarrow> ct_read_scopes token | Inl _ \<Rightarrow> [])
            else []
        | _ \<Rightarrow> []))"

definition caller_readable_labels ::
  "(u32 \<Rightarrow> string \<Rightarrow> u32 \<Rightarrow> 'e + capability_token) \<Rightarrow> (u32 \<Rightarrow> u64 option) \<Rightarrow> write_peer option \<Rightarrow> string \<Rightarrow> string list" where
  "caller_readable_labels issue start peer app_id =
     (case peer of None \<Rightarrow> []
      | Some p \<Rightarrow> (case (wp_start_time p, start (wp_pid p)) of
          (Some captured, Some now) \<Rightarrow>
            if now = captured then
              (case issue (wp_uid p) app_id (wp_pid p) of Inr token \<Rightarrow> readable_system_labels (ct_read_scopes token) | Inl _ \<Rightarrow> [])
            else []
        | _ \<Rightarrow> []))"

definition co_tenant_filter :: "string list \<Rightarrow> string \<Rightarrow> string list \<times> bool" where
  "co_tenant_filter actors caller =
     (if caller \<in> set actors then [caller] else [], \<exists>a \<in> set actors. a \<noteq> caller)"

text \<open>
  \<open>filter_ids_to_readable_labels\<close>: \<open>rows label\<close> is the engine's answer to the probe of that label, the
  first cells of its rows, or none when the query fails. The exercised types go to the tally.
\<close>

definition filter_ids_to_readable_labels ::
  "(string \<Rightarrow> string list option) \<Rightarrow> string list \<Rightarrow> string list \<Rightarrow> string list \<times> string list" where
  "filter_ids_to_readable_labels rows ids readable_labels =
     (if ids = [] \<or> readable_labels = [] then ([], [])
      else
        let found = (\<lambda>label. case rows label of None \<Rightarrow> [] | Some cells \<Rightarrow> cells);
            allowed = concat (map found readable_labels);
            exercised = map (\<lambda>l. ''system.'' @ l) (filter (\<lambda>l. found l \<noteq> []) readable_labels)
        in (filter (\<lambda>i. i \<in> set allowed) ids, exercised))"

section \<open>The query path\<close>

fun denial_text :: "denial \<Rightarrow> string" where
  "denial_text BacktickDenied = ''read denied: backtick-quoted identifiers cannot be scoped to the caller''"
| "denial_text UnlabelledNode = ''read denied: every node in the pattern must name a label; an unlabelled node means any label. A parenthesised group counts: `WHERE (a OR b) AND c` reads as a node here, so write the predicate without grouping''"
| "denial_text UntypedRelationship = ''read denied: every relationship must name a type; an untyped edge means any edge''"
| "denial_text LabelLess = ''read denied: a label-less query cannot be scoped to the caller''"
| "denial_text SensitiveLabel = ''read denied: sensitive label served only through the structured read op''"
| "denial_text OutsideScope = ''read denied: label outside the caller's read scope''"
| "denial_text RestrictedRelation = ''read denied: this relationship type needs an explicit grant''"

datatype query_step =
    Refuse string bool
  | Execute string "string list"

definition system_anchored :: "daemon_build \<Rightarrow> string \<Rightarrow> bool" where
  "system_anchored bd app_id \<longleftrightarrow> app_id \<noteq> ''unknown'' \<and> tier_for_app bd arlen_default app_id \<noteq> QThirdParty"

text \<open>
  A query up to the engine: refused with a text and whether the refusal is reported on the bus, or
  executed with the read types it exercises.
\<close>

definition query_guards :: "daemon_build \<Rightarrow> instant \<Rightarrow> string \<Rightarrow> string list \<Rightarrow> string \<Rightarrow> rate_state \<Rightarrow> query_step \<times> rate_state" where
  "query_guards bd now app_id labels cypher rs =
     (let (violation, rs') = rate_violation (check_query bd now app_id (rs_limiter rs)) now app_id rs;
          anchored = system_anchored bd app_id;
          readable = (if anchored then [] else labels)
      in (case violation of
            Some (reason, emit) \<Rightarrow> Refuse (''ERROR: RateLimited: '' @ reason) emit
          | None \<Rightarrow>
              if is_write_query cypher then
                Refuse ''ERROR: write queries are not permitted via the query interface'' False
              else if references_authority_label cypher \<and> \<not> is_privileged_authority_reader app_id then
                Refuse ''ERROR: queries referencing authority labels are not permitted via the query interface'' False
              else (case raw_read_label_gate cypher readable anchored of
                  Some denial \<Rightarrow> Refuse (''ERROR: '' @ denial_text denial) False
                | None \<Rightarrow> Execute cypher (if anchored then [] else exercised_read_types cypher readable)), rs'))"

datatype engine_answer = Answered string | Failed string | TimedOut

text \<open>The reply to an executed query, and the exercised types that are tallied with it.\<close>

definition query_reply :: "(string \<Rightarrow> string) \<Rightarrow> bool \<Rightarrow> bool \<Rightarrow> engine_answer \<Rightarrow> string" where
  "query_reply scrub anchored typed_rows ans =
     (case ans of
        Answered r \<Rightarrow> if typed_rows \<and> \<not> anchored then scrub r else r
      | Failed e \<Rightarrow> ''ERROR: '' @ e
      | TimedOut \<Rightarrow> ''ERROR: QueryTimeout'')"

definition tallied :: "string \<Rightarrow> string list \<Rightarrow> string list" where
  "tallied reply exercised = (if starts_with reply ''ERROR:'' then [] else exercised)"

section \<open>The tally of exercised grants\<close>

definition USE_FLUSH_INTERVAL_MICROS :: int where "USE_FLUSH_INTERVAL_MICROS = 60000000"

record pending_use =
  pu_count :: int
  pu_last :: int

record use_tally =
  ut_pending :: "(string \<times> string, pending_use) hash_map"
  ut_last_flush :: int

definition tally_new :: "int \<Rightarrow> use_tally" where
  "tally_new now = \<lparr>ut_pending = [], ut_last_flush = now\<rparr>"

definition saturating_sub_i64 :: "int \<Rightarrow> int \<Rightarrow> int" where
  "saturating_sub_i64 a b = max (- (2 ^ 63)) (min (2 ^ 63 - 1) (a - b))"

definition flush_due :: "int \<Rightarrow> use_tally \<Rightarrow> bool" where
  "flush_due now t \<longleftrightarrow> ut_pending t \<noteq> [] \<and> saturating_sub_i64 now (ut_last_flush t) \<ge> USE_FLUSH_INTERVAL_MICROS"

definition tally_record :: "string \<Rightarrow> string \<Rightarrow> int \<Rightarrow> use_tally \<Rightarrow> bool \<times> use_tally" where
  "tally_record app_id cap now t =
     (let count = (case map_of (ut_pending t) (app_id, cap) of None \<Rightarrow> 0 | Some p \<Rightarrow> pu_count p);
          t' = t\<lparr>ut_pending := AList.update (app_id, cap) \<lparr>pu_count = count + 1, pu_last = now\<rparr> (ut_pending t)\<rparr>
      in (flush_due now t', t'))"

definition tally_drain :: "int \<Rightarrow> use_tally \<Rightarrow> (string \<times> string \<times> int \<times> int) list \<times> use_tally" where
  "tally_drain now t =
     (sort (map (\<lambda>((a, c), p). (a, c, pu_count p, pu_last p)) (ut_pending t)),
      \<lparr>ut_pending = [], ut_last_flush = now\<rparr>)"

text \<open>\<open>record_capability_uses\<close> up to the write of the batch: every capability is recorded, and one due
  flush drains them all.\<close>

definition record_capability_uses :: "string \<Rightarrow> string list \<Rightarrow> int \<Rightarrow> use_tally \<Rightarrow> (string \<times> string \<times> int \<times> int) list option \<times> use_tally" where
  "record_capability_uses app_id exercised now t =
     (if exercised = [] then (None, t)
      else
        let (due, t') = fold (\<lambda>cap (due, t). let (d, t') = tally_record app_id cap now t in (due \<or> d, t')) exercised (False, t)
        in if due then (let (batch, t'') = tally_drain now t' in (Some batch, t'')) else (None, t'))"

section \<open>Enumeration\<close>

definition ENUMERABLE :: "(string \<times> string) list" where
  "ENUMERABLE = [(''Project'', ''name'')]"

definition bare_label :: "string \<Rightarrow> string" where
  "bare_label label = (case strip_prefix label ''system.'' of Some l \<Rightarrow> l | None \<Rightarrow> label)"

definition display_field :: "string \<Rightarrow> string option" where
  "display_field label = map_option snd (List.find (\<lambda>(l, f). l = bare_label label) ENUMERABLE)"

definition enumerable_label :: "string \<Rightarrow> string option" where
  "enumerable_label label = map_option fst (List.find (\<lambda>(l, f). l = bare_label label) ENUMERABLE)"

definition clamp_limit :: "int option \<Rightarrow> int" where
  "clamp_limit requested = max 1 (min 200 (case requested of None \<Rightarrow> 50 | Some n \<Rightarrow> n))"

text \<open>
  \<open>handle_list\<close> on a parsed request: the handles to send, or the uniform denial. \<open>rows label field limit\<close>
  is the engine's answer, identifiers with names.
\<close>

definition handle_list ::
  "(string \<Rightarrow> string \<Rightarrow> int \<Rightarrow> (string \<times> string) list option) \<Rightarrow> entity_scope list \<Rightarrow> string \<times> int option \<Rightarrow> (string \<times> string) list option" where
  "handle_list rows scopes req =
     (case (enumerable_label (fst req), display_field (fst req)) of
        (Some label, Some fld) \<Rightarrow>
          if label \<notin> set (readable_system_labels scopes) then None
          else
            let named = field_is_granted scopes (''system.'' @ label) fld in
            map_option (\<lambda>hs. if named then hs else map (\<lambda>(i, n). (i, [])) hs) (rows label fld (clamp_limit (snd req)))
      | _ \<Rightarrow> None)"

section \<open>What the guards give\<close>

lemma safe_identifier_not_wild: "is_safe_graph_identifier l \<Longrightarrow> \<not> ends_with (''system.'' @ l) ''.*''"
proof
  assume safe: "is_safe_graph_identifier l" and "ends_with (''system.'' @ l) ''.*''"
  then obtain r where r: "''system.'' @ l = r @ ''.*''" by (auto simp: ends_with_iff)
  have "l \<noteq> []" using safe by (auto simp: is_safe_graph_identifier_def)
  then have "last l = CHR ''*''" using arg_cong [OF r, of last] by simp
  moreover have "word_char c" if "c \<in> set l" for c
    using safe that by (auto simp: is_safe_graph_identifier_def word_char_def is_ascii_alphanumeric_def split: list.splits)
  ultimately have "word_char (CHR ''*'')" using \<open>l \<noteq> []\<close> last_in_set by metis
  then show False by (simp add: word_char_def ascii_defs less_eq_char_def)
qed

lemma readable_label_matches:
  assumes "l \<in> set (readable_system_labels scopes)"
  shows "scope_matches scopes (''system.'' @ l)"
proof -
  obtain s where s: "s \<in> set scopes" "strip_prefix (es_entity_type s) ''system.'' = Some l" and safe: "is_safe_graph_identifier l"
    using assms by (auto simp: readable_system_labels_def List.map_filter_def)
  then have ty: "es_entity_type s = ''system.'' @ l" by (simp add: strip_prefix_Some)
  have "type_matches (''system.'' @ l) (''system.'' @ l)"
    using safe_identifier_not_wild [OF safe] strip_suffix_None [of "''system.'' @ l" "''.*''"] by (simp add: type_matches_def)
  then show ?thesis using s(1) ty unfolding scope_matches_iff by metis
qed

lemma issue_token_for_app_scopes:
  assumes "issue_token_for_app load hmac to_vec iter uuid now installed s uid app p = Inr t" and "load uid app = Inr g"
  shows "ct_read_scopes t = parse_scope_entries iter (gp_read g)"
  using assms issue_InrD(5) by (simp add: issue_token_for_app_def)

lemma caller_readable_label_token:
  assumes "l \<in> set (caller_readable_labels issue start (Some p) app)"
  obtains t where "issue (wp_uid p) app (wp_pid p) = Inr t" "l \<in> set (readable_system_labels (ct_read_scopes t))"
proof (cases "issue (wp_uid p) app (wp_pid p)")
  case (Inl e)
  then have "caller_readable_labels issue start (Some p) app = []"
    by (simp add: caller_readable_labels_def split: option.split)
  with assms show thesis by simp
next
  case (Inr t)
  have "caller_readable_labels issue start (Some p) app = []" if "wp_start_time p = None"
    using that by (simp add: caller_readable_labels_def)
  moreover have "caller_readable_labels issue start (Some p) app = []" if "start (wp_pid p) = None"
    using that by (cases "wp_start_time p") (simp_all add: caller_readable_labels_def)
  moreover have some: "caller_readable_labels issue start (Some p) app \<noteq> []" using assms by (metis empty_iff empty_set)
  ultimately have "wp_start_time p \<noteq> None" "start (wp_pid p) \<noteq> None" by blast+
  then obtain captured current where "wp_start_time p = Some captured" "start (wp_pid p) = Some current" by blast
  with Inr have labels: "caller_readable_labels issue start (Some p) app =
      (if current = captured then readable_system_labels (ct_read_scopes t) else [])"
    by (simp add: caller_readable_labels_def)
  have "current = captured" using some labels by metis
  then have "l \<in> set (readable_system_labels (ct_read_scopes t))" using assms labels by metis
  with Inr show thesis by (rule that)
qed

lemma caller_label_granted:
  fixes issue :: "u32 \<Rightarrow> string \<Rightarrow> u32 \<Rightarrow> ('i, 'e) auth_error + capability_token"
  assumes iter: "\<And>m. mset (iter m) = mset m" and load: "load (wp_uid p) app = Inr g"
    and issue: "issue = issue_token_for_app load hmac to_vec iter uuid now installed s"
    and label: "l \<in> set (caller_readable_labels issue start (Some p) app)"
  shows "\<exists>e \<in> set (gp_read g). entry_grants e (''system.'' @ l)"
proof -
  obtain t where t: "issue (wp_uid p) app (wp_pid p) = Inr t"
      and l: "l \<in> set (readable_system_labels (ct_read_scopes t))"
    by (rule caller_readable_label_token [OF label])
  have "scope_matches (parse_scope_entries iter (gp_read g)) (''system.'' @ l)"
    using readable_label_matches [OF l] issue_token_for_app_scopes [OF t [unfolded issue] load] by simp
  then show ?thesis using parse_scope_entries_matches [of iter, OF iter] by simp
qed

lemma query_guards_Execute:
  assumes "query_guards bd now app labels q rs = (Execute q' ex, rs')"
  shows "q' = q" "\<not> is_write_query q" "\<not> references_authority_label q"
    "raw_read_label_gate q (if system_anchored bd app then [] else labels) (system_anchored bd app) = None"
    "fst (check_query bd now app (rs_limiter rs)) = Inr ()"
  using assms by (auto simp: query_guards_def rate_violation_def Let_def is_privileged_authority_reader_def case_prod_unfold
      split: option.splits if_splits sum.splits)


definition demo_peer :: write_peer where
  "demo_peer = \<lparr>wp_pid = 7, wp_uid = 1000, wp_app_id = ''com.anki'', wp_start_time = Some 5\<rparr>"

definition demo_query :: string where
  "demo_query = query_text [(NodePat ''f'' (Some ''File'') [], [])] ''f.path''"

definition demo_reader :: graph_permissions where
  "demo_reader = demo_profile\<lparr>gp_delegated_namespaces := []\<rparr>"

definition demo_issuer :: "u32 \<Rightarrow> string \<Rightarrow> u32 \<Rightarrow> (unit, unit) auth_error + capability_token" where
  "demo_issuer = issue_token_for_app (\<lambda>_ _. Inr demo_reader) (@) ct_app_id id 0 5 [] \<lparr>ts_key = ''k''\<rparr>"

lemma demo_labels: "caller_readable_labels demo_issuer (\<lambda>_. Some 5) (Some demo_peer) ''com.anki'' = [''File'']"
proof -
  have "gp_read demo_reader = [''system.File.path'', ''com.anki.*'']" by (simp add: demo_reader_def demo_profile_def)
  moreover have "readable_system_labels (parse_scope_entries id [''system.File.path'', ''com.anki.*'']) = [''File'']"
    by code_simp
  moreover obtain t where t: "demo_issuer 1000 ''com.anki'' 7 = Inr t"
    by (simp add: demo_issuer_def issue_token_for_app_def issue_defs demo_reader_def demo_profile_def has_graph_access_def)
  moreover have "ct_read_scopes t = parse_scope_entries id (gp_read demo_reader)"
    using issue_token_for_app_scopes [OF t [unfolded demo_issuer_def]] by simp
  ultimately show ?thesis by (simp add: caller_readable_labels_def demo_peer_def)
qed

lemma demo_tier: "tier_for_app ReleaseBuild arlen_default ''com.anki'' = QThirdParty"
  by code_simp

lemma demo_anchored: "\<not> system_anchored ReleaseBuild ''com.anki''"
  using demo_tier by (simp add: system_anchored_def)

lemma demo_rate: "fst (check_query ReleaseBuild 0 ''com.anki'' (rs_limiter rate_state_new)) = Inr ()"
proof -
  have rate: "tq_queries_per_second (quotas_for_app ReleaseBuild arlen_default ''com.anki'') = Some 100"
    using demo_tier by (simp add: quotas_for_app_def arlen_default_def quotas_third_party_def)
  have "fst (consume_for 0 ''com.anki'' 100 [])"
    by (simp add: consume_for_def try_consume_def refill_def bucket_new_def TOKEN_def)
  with rate show ?thesis
    by (simp add: check_query_def rate_state_new_def limiter_new_def case_prod_unfold Let_def)
qed

lemma demo_query_passes:
  "\<not> is_write_query demo_query" "\<not> references_authority_label demo_query" "raw_read_label_gate demo_query [''File''] False = None"
  by code_simp+

lemma demo_guards:
  "\<exists>rs. query_guards ReleaseBuild 0 ''com.anki'' [''File''] demo_query rate_state_new =
     (Execute demo_query (exercised_read_types demo_query [''File'']), rs)"
  using demo_anchored demo_rate demo_query_passes
  by (simp add: query_guards_def rate_violation_def case_prod_unfold Let_def)


end
