(* ===== verification/Undo_Log.thy ===== *)
theory Undo_Log
  imports Hash_Chain
begin

text \<open>
  The undo log of the AI agent (\<open>ai/ai-undo-core/src/effect_model.rs\<close> and \<open>undo_log.rs\<close>): the vocabulary of
  captured inverses, the lifecycle of an entry, the event-sourced log whose state is the fold of
  its records, and the file that persists it as hash-chained lines.

  HMAC and the JSON codec (crate \<open>serde_json\<close>) are arguments. What the log promises is stated
  against a table of entries with one state each, and proved of every legal log.
\<close>

section \<open>Captured inverses\<close>

text \<open>\<open>CanonicalPath::new\<close>: absolute, at least one component, none of them empty, \<open>.\<close> or \<open>..\<close>.\<close>

definition canonical_path_new :: "string \<Rightarrow> string option" where
  "canonical_path_new path =
     (if \<not> starts_with path ''/'' then None
      else if \<exists>comp \<in> set (tl (split_on CHR ''/'' path)). comp = [] \<or> comp = ''.'' \<or> comp = ''..'' then None
      else Some path)"

record setting_target =
  st_file :: string
  st_key :: string

definition setting_target_new :: "string \<Rightarrow> string \<Rightarrow> setting_target option" where
  "setting_target_new f k = (if f = [] \<or> k = [] then None else Some \<lparr>st_file = f, st_key = k\<rparr>)"

record created_identity =
  ci_path :: string
  ci_fingerprint :: string

definition created_identity_new :: "string \<Rightarrow> string \<Rightarrow> created_identity option" where
  "created_identity_new path fingerprint =
     (if fingerprint = [] then None else Some \<lparr>ci_path = path, ci_fingerprint = fingerprint\<rparr>)"

definition snapshot_ref_new :: "string \<Rightarrow> string option" where
  "snapshot_ref_new handle = (if handle = [] then None else Some handle)"

datatype inverse_receipt =
    RestorePath (rp_now: string) (rp_prior: string)
  | RestoreFromTrash (rt_original: string) (rt_trashed: string) (rt_trash_info: string)
  | RestoreValue (rv_target: setting_target) (rv_prior: "string option")
  | DeleteCreated (dc_created: created_identity)
  | TrashCreated (tc_created: created_identity)
  | RestoreSnapshot (rs_snapshot: string) (rs_scope: string)
  | RetractGraphEdge (ge_op_id: string) (ge_from_type: string) (ge_from_id: string)
      (ge_to_type: string) (ge_to_id: string) (ge_relation_type: string)

fun inverse_kind :: "inverse_receipt \<Rightarrow> string" where
  "inverse_kind (RestorePath _ _) = ''restore-path''"
| "inverse_kind (RestoreFromTrash _ _ _) = ''restore-from-trash''"
| "inverse_kind (RestoreValue _ _) = ''restore-value''"
| "inverse_kind (DeleteCreated _) = ''delete-created''"
| "inverse_kind (TrashCreated _) = ''trash-created''"
| "inverse_kind (RestoreSnapshot _ _) = ''restore-snapshot''"
| "inverse_kind (RetractGraphEdge _ _ _ _ _ _) = ''retract-graph-edge''"

fun receipt_object :: "inverse_receipt \<Rightarrow> string" where
  "receipt_object (RestorePath now _) = now"
| "receipt_object (RestoreFromTrash original _ _) = original"
| "receipt_object (RestoreValue target _) = st_file target @ '':'' @ st_key target"
| "receipt_object (DeleteCreated created) = ci_path created"
| "receipt_object (TrashCreated created) = ci_path created"
| "receipt_object (RestoreSnapshot _ scope) = scope"
| "receipt_object (RetractGraphEdge _ _ from_id _ to_id relation_type) =
     from_id @ '' -'' @ relation_type @ ''-> '' @ to_id"

datatype capture_shape = CaptureRestorePath | CaptureRestoreValue | CaptureDeleteCreated | CaptureTrashCreated
  | CaptureRestoreSnapshot

datatype residual_cost = Fee | Redownload

datatype irreversibility_reason = PermanentDelete | ExternalSend | OpaqueCommand | NoSnapshotCapableFilesystem

datatype inverse_class =
    Reversible capture_shape
  | ReversibleWithCost capture_shape residual_cost
  | Irreversible irreversibility_reason

fun is_reversible :: "inverse_class \<Rightarrow> bool" where
  "is_reversible (Reversible _) = True"
| "is_reversible _ = False"

fun class_capture_shape :: "inverse_class \<Rightarrow> capture_shape option" where
  "class_capture_shape (Reversible c) = Some c"
| "class_capture_shape (ReversibleWithCost c _) = Some c"
| "class_capture_shape (Irreversible _) = None"

section \<open>The lifecycle of an entry\<close>

datatype undo_state = InFlight | Committed | Aborted | Compensating | Compensated | Superseded

fun undo_state_text :: "undo_state \<Rightarrow> string" where
  "undo_state_text InFlight = ''InFlight''"
| "undo_state_text Committed = ''Committed''"
| "undo_state_text Aborted = ''Aborted''"
| "undo_state_text Compensating = ''Compensating''"
| "undo_state_text Compensated = ''Compensated''"
| "undo_state_text Superseded = ''Superseded''"

definition is_terminal :: "undo_state \<Rightarrow> bool" where
  "is_terminal s \<longleftrightarrow> s \<in> {Aborted, Compensated, Superseded}"

definition can_transition_to :: "undo_state \<Rightarrow> undo_state \<Rightarrow> bool" where
  "can_transition_to s next =
     (if is_terminal s then False
      else if next = Superseded then True
      else (s, next) \<in> {(InFlight, Committed), (InFlight, Aborted), (Committed, Compensating), (Compensating, Compensated)})"

fun fold_from :: "undo_state \<Rightarrow> undo_state list \<Rightarrow> string + undo_state" where
  "fold_from s [] = Inr s"
| "fold_from s (n # ns) =
     (if \<not> can_transition_to s n then Inl (''illegal transition '' @ undo_state_text s @ '' -> '' @ undo_state_text n)
      else fold_from n ns)"

fun fold_state :: "undo_state list \<Rightarrow> string + undo_state" where
  "fold_state [] = Inl ''empty record chain: an entry must begin InFlight''"
| "fold_state (f # ns) =
     (if f \<noteq> InFlight then Inl (''first record must be InFlight, was '' @ undo_state_text f) else fold_from f ns)"

section \<open>The event-sourced log\<close>

record undo_entry =
  ue_op_id :: string
  ue_correlation_id :: string
  ue_inverse :: inverse_receipt

datatype log_record = Created undo_entry int | Transition string undo_state

type_synonym undo_log = "log_record list"

definition log_append_created :: "undo_entry \<Rightarrow> int \<Rightarrow> undo_log \<Rightarrow> undo_log" where
  "log_append_created e t rs = rs @ [Created e t]"

definition log_append_transition :: "string \<Rightarrow> undo_state \<Rightarrow> undo_log \<Rightarrow> undo_log" where
  "log_append_transition op s rs = rs @ [Transition op s]"

fun record_state :: "string \<Rightarrow> log_record \<Rightarrow> undo_state option" where
  "record_state op (Created e t) = (if ue_op_id e = op then Some InFlight else None)"
| "record_state op (Transition i s) = (if i = op then Some s else None)"

fun creates :: "string \<Rightarrow> log_record \<Rightarrow> (undo_entry \<times> int) option" where
  "creates op (Created e t) = (if ue_op_id e = op then Some (e, t) else None)"
| "creates op (Transition i s) = None"

definition current_state :: "undo_log \<Rightarrow> string \<Rightarrow> (string + undo_state) option" where
  "current_state rs op =
     (if \<exists>r \<in> set rs. creates op r \<noteq> None then Some (fold_state (List.map_filter (record_state op) rs)) else None)"

fun find_map :: "('a \<Rightarrow> 'b option) \<Rightarrow> 'a list \<Rightarrow> 'b option" where
  "find_map f [] = None"
| "find_map f (x # xs) = (case f x of Some y \<Rightarrow> Some y | None \<Rightarrow> find_map f xs)"

definition log_entry :: "undo_log \<Rightarrow> string \<Rightarrow> undo_entry option" where
  "log_entry rs op = map_option fst (find_map (creates op) rs)"

definition sealed_at :: "undo_log \<Rightarrow> string \<Rightarrow> int option" where
  "sealed_at rs op = map_option snd (find_map (creates op) rs)"

text \<open>The created entries in order, each operation once; \<open>seen\<close> is the set the loops keep.\<close>

fun created_once :: "string set \<Rightarrow> undo_log \<Rightarrow> undo_entry list" where
  "created_once seen [] = []"
| "created_once seen (Created e t # rs) =
     (if ue_op_id e \<in> seen then created_once seen rs else e # created_once (insert (ue_op_id e) seen) rs)"
| "created_once seen (Transition i s # rs) = created_once seen rs"

definition state_ok :: "undo_log \<Rightarrow> (undo_state \<Rightarrow> bool) \<Rightarrow> undo_entry \<Rightarrow> bool" where
  "state_ok rs P e = (case current_state rs (ue_op_id e) of Some (Inr s) \<Rightarrow> P s | _ \<Rightarrow> False)"

definition live_entries :: "undo_log \<Rightarrow> undo_entry list" where
  "live_entries rs = filter (state_ok rs (\<lambda>s. \<not> is_terminal s)) (created_once {} rs)"

definition compensating_entries :: "undo_log \<Rightarrow> undo_entry list" where
  "compensating_entries rs = filter (state_ok rs (\<lambda>s. s = Compensating)) (created_once {} rs)"

definition recent_entries :: "nat \<Rightarrow> undo_log \<Rightarrow> (undo_entry \<times> undo_state) list" where
  "recent_entries limit rs =
     take limit (List.map_filter (\<lambda>e. case current_state rs (ue_op_id e) of Some (Inr s) \<Rightarrow> Some (e, s) | _ \<Rightarrow> None)
       (created_once {} (rev rs)))"

section \<open>The file\<close>

text \<open>The JSON texts of a record and of a chained line, and the parser of a line.\<close>

record undo_codec =
  uc_record :: "log_record \<Rightarrow> bytes"
  uc_line :: "log_record \<times> bytes \<Rightarrow> string"
  uc_parse :: "string \<Rightarrow> string + log_record \<times> bytes"

datatype io_error = InvalidData string | OsError string

definition GENESIS_PREV_HASH :: bytes where
  "GENESIS_PREV_HASH = replicate 32 CHR 0x00"

definition compute_chain_hash :: "(bytes \<Rightarrow> bytes \<Rightarrow> bytes) \<Rightarrow> bytes \<Rightarrow> bytes \<Rightarrow> bytes \<Rightarrow> bytes" where
  "compute_chain_hash hmac key prev_hash record_bytes = hmac key (prev_hash @ record_bytes)"

fun verify_chain_from :: "(bytes \<Rightarrow> bytes \<Rightarrow> bytes) \<Rightarrow> bytes \<Rightarrow> nat \<Rightarrow> bytes \<Rightarrow> (bytes \<times> bytes) list \<Rightarrow> nat option" where
  "verify_chain_from hmac key i prev [] = None"
| "verify_chain_from hmac key i prev ((b, stored) # rs) =
     (if compute_chain_hash hmac key prev b \<noteq> stored then Some i else verify_chain_from hmac key (i + 1) stored rs)"

definition verify_chain :: "(bytes \<Rightarrow> bytes \<Rightarrow> bytes) \<Rightarrow> bytes \<Rightarrow> (bytes \<times> bytes) list \<Rightarrow> nat option" where
  "verify_chain hmac key rs = verify_chain_from hmac key 0 GENESIS_PREV_HASH rs"

fun load_from :: "(bytes \<Rightarrow> bytes \<Rightarrow> bytes) \<Rightarrow> undo_codec \<Rightarrow> bytes \<Rightarrow> nat \<Rightarrow> bytes \<Rightarrow> string list \<Rightarrow>
    io_error + (log_record \<times> bytes) list" where
  "load_from hmac c key i head [] = Inr []"
| "load_from hmac c key i head (l # ls) =
     (case uc_parse c l of
        Inl e \<Rightarrow> Inl (InvalidData e)
      | Inr (r, h) \<Rightarrow>
          if compute_chain_hash hmac key head (uc_record c r) \<noteq> h
          then Inl (InvalidData (''broken undo-log chain at record '' @ dec i))
          else map_sum id (\<lambda>rs. (r, h) # rs) (load_from hmac c key (i + 1) h ls))"

definition load_log :: "(bytes \<Rightarrow> bytes \<Rightarrow> bytes) \<Rightarrow> undo_codec \<Rightarrow> bytes \<Rightarrow> string \<Rightarrow> io_error + (log_record \<times> bytes) list" where
  "load_log hmac c key content =
     load_from hmac c key 0 GENESIS_PREV_HASH (filter (\<lambda>l. trim l \<noteq> []) (lines content))"

record file_undo_log =
  fl_key :: bytes
  fl_hashes :: "bytes list"
  fl_log :: undo_log

text \<open>\<open>content\<close> is the file, \<open>None\<close> before it exists; \<open>io\<close> an error of the calls that create and read it.\<close>

definition file_open :: "(bytes \<Rightarrow> bytes \<Rightarrow> bytes) \<Rightarrow> undo_codec \<Rightarrow> io_error option \<Rightarrow> bytes \<Rightarrow> string option \<Rightarrow>
    (io_error + file_undo_log) \<times> string option" where
  "file_open hmac c io key content =
     (case io of Some e \<Rightarrow> (Inl e, content)
      | None \<Rightarrow>
          (let text = (case content of None \<Rightarrow> [] | Some s \<Rightarrow> s) in
           (map_sum id (\<lambda>rs. \<lparr>fl_key = key, fl_hashes = map snd rs, fl_log = map fst rs\<rparr>) (load_log hmac c key text), Some text)))"

definition record_count :: "file_undo_log \<Rightarrow> nat" where
  "record_count f = length (fl_hashes f)"

definition head_hash :: "file_undo_log \<Rightarrow> bytes" where
  "head_hash f = (if fl_hashes f = [] then GENESIS_PREV_HASH else last (fl_hashes f))"

definition hash_at :: "file_undo_log \<Rightarrow> nat \<Rightarrow> bytes option" where
  "hash_at f i = (if i < length (fl_hashes f) then Some (fl_hashes f ! i) else None)"

text \<open>
  An append writes a line and its end to the file and syncs it. When a call fails, some first part of
  these bytes has reached the file: none if it could not be opened, all of them if the sync failed.
\<close>

datatype append_outcome = AppendOk | AppendFails nat string

definition append_record :: "(bytes \<Rightarrow> bytes \<Rightarrow> bytes) \<Rightarrow> undo_codec \<Rightarrow> append_outcome \<Rightarrow> log_record \<Rightarrow> string \<Rightarrow> file_undo_log \<Rightarrow>
    (io_error + unit) \<times> string \<times> file_undo_log" where
  "append_record hmac c out r content f =
     (let hash = compute_chain_hash hmac (fl_key f) (head_hash f) (uc_record c r);
          line = uc_line c (r, hash) @ [newline]
      in case out of
           AppendFails k e \<Rightarrow> (Inl (OsError e), content @ take k line, f)
         | AppendOk \<Rightarrow> (Inr (), content @ line, f\<lparr>fl_hashes := fl_hashes f @ [hash], fl_log := fl_log f @ [r]\<rparr>))"

section \<open>What a legal log stands for\<close>

text \<open>
  The table of entries, in the order of their creation, that a log describes: a record creates an
  entry in flight or moves one to another state.
\<close>

type_synonym undo_table = "(undo_entry \<times> int \<times> undo_state) list"

fun act_on_table :: "log_record \<Rightarrow> undo_table \<Rightarrow> undo_table" where
  "act_on_table (Created e t) T = T @ [(e, t, InFlight)]"
| "act_on_table (Transition op s) T = map (\<lambda>(e, t, x). (e, t, if ue_op_id e = op then s else x)) T"

definition table_of :: "undo_log \<Rightarrow> undo_table" where
  "table_of rs = fold act_on_table rs []"

definition op_of :: "undo_entry \<times> int \<times> undo_state \<Rightarrow> string" where
  "op_of x = ue_op_id (fst x)"

definition row_of :: "undo_table \<Rightarrow> string \<Rightarrow> (undo_entry \<times> int \<times> undo_state) option" where
  "row_of T op = find (\<lambda>x. op_of x = op) T"

text \<open>A log every record of which was legal when it was appended.\<close>

inductive legal_log :: "undo_log \<Rightarrow> bool" where
  empty: "legal_log []"
| create: "legal_log rs \<Longrightarrow> log_entry rs (ue_op_id e) = None \<Longrightarrow> legal_log (rs @ [Created e t])"
| transition: "legal_log rs \<Longrightarrow> current_state rs op = Some (Inr s) \<Longrightarrow> can_transition_to s s' \<Longrightarrow> legal_log (rs @ [Transition op s'])"

inductive_simps legal_log_snoc: "legal_log (rs @ [r])"

lemma table_of_snoc [simp]: "table_of [] = []" "table_of (rs @ [r]) = act_on_table r (table_of rs)"
  by (simp_all add: table_of_def)

lemma find_map_append: "find_map f (xs @ ys) = (case find_map f xs of None \<Rightarrow> find_map f ys | Some x \<Rightarrow> Some x)"
  by (induction xs) (auto split: option.splits)

lemma find_map_None: "find_map f xs = None \<longleftrightarrow> (\<forall>x \<in> set xs. f x = None)"
  by (induction xs) (auto split: option.splits)

lemma find_mapped: "(\<And>x. P (f x) = P x) \<Longrightarrow> find P (map f xs) = map_option f (find P xs)"
  by (induction xs) auto

lemma row_of_created [simp]:
  "row_of (T @ [(e, t, s)]) op = (case row_of T op of Some x \<Rightarrow> Some x | None \<Rightarrow> if ue_op_id e = op then Some (e, t, s) else None)"
  by (simp add: row_of_def find_append op_of_def split: option.split)

lemma row_of_moved [simp]:
  "row_of (map (\<lambda>(e, t, x). (e, t, if ue_op_id e = i then s else x)) T) op =
   map_option (\<lambda>(e, t, x). (e, t, if ue_op_id e = i then s else x)) (row_of T op)"
  unfolding row_of_def by (rule find_mapped) (auto simp: op_of_def split: prod.split)

lemma row_of_op: "row_of T op = Some (e, t, s) \<Longrightarrow> ue_op_id e = op"
  unfolding row_of_def find_Some_iff by (metis fst_conv op_of_def)

lemma find_creates: "find_map (creates op) rs = map_option (\<lambda>(e, t, s). (e, t)) (row_of (table_of rs) op)"
proof (induction rs rule: rev_induct)
  case Nil
  then show ?case by (simp add: row_of_def)
next
  case (snoc r rs)
  then show ?case by (cases r) (auto simp: find_map_append split: option.splits)
qed

lemma fold_from_snoc: "fold_from s (xs @ [n]) = (case fold_from s xs of Inl e \<Rightarrow> Inl e
    | Inr x \<Rightarrow> if can_transition_to x n then Inr n else Inl (''illegal transition '' @ undo_state_text x @ '' -> '' @ undo_state_text n))"
  by (induction xs arbitrary: s) auto

lemma fold_state_snoc: "fold_state xs = Inr x \<Longrightarrow> can_transition_to x n \<Longrightarrow> fold_state (xs @ [n]) = Inr n"
  by (cases xs) (auto simp: fold_from_snoc split: if_splits)

lemma current_state_None: "current_state rs op = None \<longleftrightarrow> row_of (table_of rs) op = None"
proof -
  have "current_state rs op = None \<longleftrightarrow> find_map (creates op) rs = None"
    unfolding current_state_def find_map_None by (metis option.distinct(1))
  then show ?thesis by (simp add: find_creates)
qed

lemma log_entry_None: "log_entry rs op = None \<longleftrightarrow> row_of (table_of rs) op = None"
  by (simp add: log_entry_def find_creates)

lemma current_state_Some: "row_of (table_of rs) op \<noteq> None \<Longrightarrow> current_state rs op = Some (fold_state (List.map_filter (record_state op) rs))"
  using current_state_None [of rs op] by (simp add: current_state_def split: if_splits)

lemma map_filter_snoc: "List.map_filter f (xs @ [x]) = List.map_filter f xs @ (case f x of None \<Rightarrow> [] | Some y \<Rightarrow> [y])"
  by (cases "f x") (simp_all add: List.map_filter_def)

text \<open>The records of an operation fold to the state its row of the table has.\<close>

lemma legal_folds:
  assumes "legal_log rs"
  shows "case row_of (table_of rs) op of
      None \<Rightarrow> List.map_filter (record_state op) rs = []
    | Some (e, t, s) \<Rightarrow> fold_state (List.map_filter (record_state op) rs) = Inr s"
  using assms
proof (induction arbitrary: op)
  case empty
  then show ?case by (simp add: row_of_def List.map_filter_def)
next
  case (create rs e t)
  have "row_of (table_of rs) (ue_op_id e) = None" using create.hyps(2) by (simp add: log_entry_None)
  then show ?case using create.IH [of op] by (auto simp: map_filter_snoc split: option.splits)
next
  case (transition rs i s s')
  then obtain e t x where row: "row_of (table_of rs) i = Some (e, t, x)"
    using current_state_None [of rs i] by (cases "row_of (table_of rs) i") auto
  have fold: "fold_state (List.map_filter (record_state i) rs) = Inr s"
    using transition.hyps(2) current_state_Some [of rs i] row by simp
  show ?case
  proof (cases "op = i")
    case True
    then show ?thesis using row row_of_op [OF row] fold_state_snoc [OF fold transition.hyps(3)]
      by (simp add: map_filter_snoc)
  next
    case False
    then show ?thesis using transition.IH [of op] row_of_op [of "table_of rs" op]
      by (auto simp: map_filter_snoc split: option.splits)
  qed
qed

lemma legal_current_state:
  assumes "legal_log rs"
  shows "current_state rs op = map_option (\<lambda>(e, t, s). Inr s) (row_of (table_of rs) op)"
  using legal_folds [OF assms, of op] current_state_Some [of rs op] current_state_None [of rs op]
  by (cases "row_of (table_of rs) op") auto

lemma created_once_fresh:
  "created_once seen (rs @ [Created e t]) = created_once seen rs @ (if ue_op_id e \<in> seen \<or> (\<exists>r \<in> set rs. creates (ue_op_id e) r \<noteq> None) then [] else [e])"
  by (induction seen rs rule: created_once.induct) auto

lemma created_once_moved: "created_once seen (rs @ [Transition op s]) = created_once seen rs"
  by (induction seen rs rule: created_once.induct) auto

lemma legal_created_once:
  assumes "legal_log rs"
  shows "created_once {} rs = map fst (table_of rs)" "distinct (map op_of (table_of rs))"
  using assms
proof (induction)
  case (create rs e t)
  {
    case 1
    have "find_map (creates (ue_op_id e)) rs = None" using create.hyps(2) by (simp add: log_entry_def)
    then show ?case using create.IH by (simp add: created_once_fresh find_map_None)
  next
    case 2
    have "row_of (table_of rs) (ue_op_id e) = None" using create.hyps(2) by (simp add: log_entry_None)
    then have "ue_op_id e \<notin> op_of ` set (table_of rs)" unfolding row_of_def find_None_iff by (metis imageE)
    then show ?case using create.IH by (simp add: op_of_def)
  }
next
  case (transition rs op s s')
  {
    case 1
    then show ?case using transition.IH by (simp add: created_once_moved case_prod_unfold comp_def)
  next
    case 2
    have "map op_of (map (\<lambda>(e, t, x). (e, t, if ue_op_id e = op then s' else x)) (table_of rs)) = map op_of (table_of rs)"
      by (auto simp: op_of_def)
    then show ?case using transition.IH by (simp only: table_of_snoc act_on_table.simps)
  }
qed simp_all

text \<open>The readers of a legal log, as readings of the table.\<close>

lemma row_of_member:
  assumes "distinct (map op_of T)" and "x \<in> set T"
  shows "row_of T (op_of x) = Some x"
  using assms
proof (induction T)
  case (Cons y T)
  then show ?case by (cases "y = x") (auto simp: row_of_def image_iff)
qed simp

lemma legal_row_state:
  assumes "legal_log rs" and "x \<in> set (table_of rs)"
  shows "current_state rs (ue_op_id (fst x)) = Some (Inr (snd (snd x)))"
  using row_of_member [OF legal_created_once(2) [OF assms(1)] assms(2)]
  by (simp add: legal_current_state [OF assms(1)] op_of_def case_prod_unfold)

lemma legal_filter:
  assumes "legal_log rs"
  shows "filter (state_ok rs P) (created_once {} rs) = map fst (filter (\<lambda>x. P (snd (snd x))) (table_of rs))"
  using legal_row_state [OF assms]
  by (simp add: legal_created_once [OF assms] filter_map comp_def state_ok_def cong: filter_cong)

lemma legal_live_entries: "legal_log rs \<Longrightarrow> live_entries rs = map fst (filter (\<lambda>x. \<not> is_terminal (snd (snd x))) (table_of rs))"
  unfolding live_entries_def by (rule legal_filter)

lemma legal_compensating_entries: "legal_log rs \<Longrightarrow> compensating_entries rs = map fst (filter (\<lambda>x. snd (snd x) = Compensating) (table_of rs))"
  unfolding compensating_entries_def by (rule legal_filter)

fun created_entry :: "log_record \<Rightarrow> undo_entry option" where
  "created_entry (Created e t) = Some e"
| "created_entry (Transition op s) = None"

lemma table_created: "map fst (table_of rs) = List.map_filter created_entry rs"
proof (induction rs rule: rev_induct)
  case (snoc r rs)
  then show ?case by (cases r) (simp_all add: map_filter_snoc case_prod_unfold comp_def)
qed (simp add: List.map_filter_def)

lemma created_once_distinct:
  "distinct (map ue_op_id (List.map_filter created_entry rs)) \<Longrightarrow> seen \<inter> ue_op_id ` set (List.map_filter created_entry rs) = {} \<Longrightarrow>
   created_once seen rs = List.map_filter created_entry rs"
  by (induction seen rs rule: created_once.induct) (auto simp: List.map_filter_simps)

lemma map_filter_rev: "List.map_filter f (rev xs) = rev (List.map_filter f xs)"
  by (simp add: List.map_filter_def rev_filter rev_map)

lemma legal_recent_entries:
  assumes "legal_log rs"
  shows "recent_entries n rs = map (\<lambda>(e, t, s). (e, s)) (take n (rev (table_of rs)))"
proof -
  let ?f = "\<lambda>e. case current_state rs (ue_op_id e) of Some (Inr s) \<Rightarrow> Some (e, s) | _ \<Rightarrow> None"
  have ids: "map ue_op_id (map fst (table_of rs)) = map op_of (table_of rs)" by (simp add: op_of_def)
  then have "distinct (map ue_op_id (List.map_filter created_entry rs))"
    using legal_created_once(2) [OF assms] unfolding table_created by simp
  then have "created_once {} (rev rs) = List.map_filter created_entry (rev rs)"
    by (intro created_once_distinct) (simp_all add: map_filter_rev rev_map [symmetric])
  then have once: "created_once {} (rev rs) = map fst (rev (table_of rs))"
    by (simp add: map_filter_rev table_created [symmetric] rev_map)
  have "List.map_filter ?f (map fst T) = map (\<lambda>(e, t, s). (e, s)) T" if "set T \<subseteq> set (table_of rs)" for T
    using that legal_row_state [OF assms] by (induction T) (auto simp: List.map_filter_simps)
  then show ?thesis unfolding recent_entries_def once by (simp add: take_map)
qed

section \<open>The lifecycle ends\<close>

definition stage :: "undo_state \<Rightarrow> nat" where
  "stage s = (case s of InFlight \<Rightarrow> 3 | Committed \<Rightarrow> 2 | Compensating \<Rightarrow> 1 | _ \<Rightarrow> 0)"

lemma transition_descends: "can_transition_to s n \<Longrightarrow> stage n < stage s"
  by (cases s; cases n) (simp_all add: can_transition_to_def is_terminal_def stage_def split: if_splits)

lemma fold_from_descends: "fold_from s ns = Inr t \<Longrightarrow> length ns + stage t \<le> stage s"
  by (induction ns arbitrary: s) (fastforce split: if_splits dest!: transition_descends)+

lemma terminal_iff: "is_terminal s \<longleftrightarrow> (\<forall>n. \<not> can_transition_to s n)"
  by (cases s) (auto simp: can_transition_to_def is_terminal_def)

text \<open>
  C32. Every lifecycle ends: the transitions allow no infinite history, a history that folds has at most
  four records, and it has reached a terminal state exactly when no further record can be added to it.
\<close>

theorem undo_lifecycle_ends:
  "wfP (\<lambda>n s. can_transition_to s n) \<and>
   (\<forall>rs s. fold_state rs = Inr s \<longrightarrow> length rs \<le> 4 \<and> (is_terminal s \<longleftrightarrow> (\<forall>n. isl (fold_state (rs @ [n])))))"
proof (intro conjI allI impI)
  show "wfP (\<lambda>n s. can_transition_to s n)"
    by (rule wfp_if_convertible_to_nat [of _ stage]) (rule transition_descends)
  fix rs s
  assume f: "fold_state rs = Inr s"
  then obtain ns where rs: "rs = InFlight # ns" "fold_from InFlight ns = Inr s" by (cases rs) (auto split: if_splits)
  show "length rs \<le> 4" using fold_from_descends [OF rs(2)] by (simp add: rs(1) stage_def)
  have "isl (fold_state (rs @ [n])) \<longleftrightarrow> \<not> can_transition_to s n" for n using rs(2) by (simp add: rs(1) fold_from_snoc)
  then show "is_terminal s \<longleftrightarrow> (\<forall>n. isl (fold_state (rs @ [n])))" by (simp add: terminal_iff)
qed

theorem undo_lifecycle_ends_witness:
  "fold_state [InFlight, Committed, Compensating, Compensated] = Inr Compensated \<and> (\<forall>n. isl (fold_state ([InFlight, Committed, Compensating, Compensated] @ [n])))"
proof -
  have f: "fold_state [InFlight, Committed, Compensating, Compensated] = Inr Compensated" by (simp add: can_transition_to_def is_terminal_def)
  have "is_terminal Compensated" by (simp add: is_terminal_def)
  then show ?thesis using undo_lifecycle_ends f by blast
qed

end
