(* ===== verification/Undo_Signer.thy ===== *)
theory Undo_Signer
  imports Undo_Log
begin

text \<open>
  The signer that owns the undo log (\<open>ai/ai-undo-signer/src/\<close>: \<open>key.rs\<close>, \<open>checkpoint.rs\<close>, \<open>store.rs\<close>,
  \<open>auth.rs\<close>, \<open>server.rs\<close>) and the protocol it serves (\<open>ai/ai-undo-proto/src/lib.rs\<close>): key custody, the
  head checkpoint beside the log, opening the store, sealing records, and the request loop of a
  connection.

  The disk is explicit. Which of its calls fail, and how much of an append had reached the file by
  then, is chosen by the environment arguments. The JSON codecs are arguments; the texts of the
  errors are those of the source, without the paths they name and the quotes around identifiers.
\<close>

section \<open>Requests and responses\<close>

definition MAX_OP_ID_LEN :: nat where "MAX_OP_ID_LEN = 128"
definition MAX_CORRELATION_ID_LEN :: nat where "MAX_CORRELATION_ID_LEN = 128"
definition MAX_RECENT :: nat where "MAX_RECENT = 200"

datatype undo_request =
    SubmitCreated undo_entry
  | RequestTransition string undo_state
  | LookupState string
  | LookupEntry string
  | ListRecent u32
  | LiveEntries
  | CompensatingEntries

datatype state_reply = Absent | Present undo_state | Corrupt

record recent_entry =
  re_entry :: undo_entry
  re_state :: undo_state
  re_sealed_at_micros :: int

datatype undo_response =
    Sealed
  | ReplyState state_reply
  | ReplyEntry "undo_entry option"
  | ReplyEntries "undo_entry list"
  | ReplyRecent "recent_entry list"
  | ReplyError string

definition check_id :: "string \<Rightarrow> string \<Rightarrow> nat \<Rightarrow> string + unit" where
  "check_id label s cap =
     (if s = [] then Inl (''invalid request: '' @ label @ '' is empty'')
      else if length s > cap then Inl (''invalid request: '' @ label @ '' length '' @ dec (length s) @ '' exceeds '' @ dec cap)
      else Inr ())"

definition validate :: "undo_request \<Rightarrow> string + unit" where
  "validate req =
     (case req of
        SubmitCreated e \<Rightarrow>
          (case check_id ''op_id'' (ue_op_id e) MAX_OP_ID_LEN of
             Inl m \<Rightarrow> Inl m
           | Inr _ \<Rightarrow> check_id ''correlation_id'' (ue_correlation_id e) MAX_CORRELATION_ID_LEN)
      | RequestTransition op _ \<Rightarrow> check_id ''op_id'' op MAX_OP_ID_LEN
      | LookupState op \<Rightarrow> check_id ''op_id'' op MAX_OP_ID_LEN
      | LookupEntry op \<Rightarrow> check_id ''op_id'' op MAX_OP_ID_LEN
      | ListRecent limit \<Rightarrow>
          if limit = 0 \<or> unat limit > MAX_RECENT
          then Inl (''invalid request: limit '' @ dec (unat limit) @ '' out of range (1..='' @ dec MAX_RECENT @ '')'') else Inr ()
      | LiveEntries \<Rightarrow> Inr ()
      | CompensatingEntries \<Rightarrow> Inr ())"

section \<open>Errors and the key\<close>

datatype signer_error =
    KeyUnavailable string
  | Storage string
  | Unauthorized string
  | IllegalRecord string
  | SignerIo string

fun signer_error_text :: "signer_error \<Rightarrow> string" where
  "signer_error_text (KeyUnavailable m) = ''undo-log signing key unavailable: '' @ m"
| "signer_error_text (Storage m) = ''undo-log storage error: '' @ m"
| "signer_error_text (Unauthorized m) = ''undo-log peer rejected: '' @ m"
| "signer_error_text (IllegalRecord m) = ''undo-log submission rejected: '' @ m"
| "signer_error_text (SignerIo m) = m"

definition KEY_LEN :: nat where "KEY_LEN = 32"

datatype signer_key_file = NoKey | KeySymlink | KeyNotRegular | KeyAt (ka_mode: nat) (ka_bytes: bytes)

definition signer_read_key :: "signer_key_file \<Rightarrow> signer_error + bytes" where
  "signer_read_key f =
     (case f of
        NoKey \<Rightarrow> Inl (SignerIo ''No such file or directory (os error 2)'')
      | KeySymlink \<Rightarrow> Inl (KeyUnavailable ''key file is a symlink; refusing to follow it'')
      | KeyNotRegular \<Rightarrow> Inl (KeyUnavailable ''key path is not a regular file'')
      | KeyAt mode b \<Rightarrow>
          if mode mod 64 \<noteq> 0 then Inl (KeyUnavailable ''key file is reachable by group or others; expected mode 0600'')
          else if length b \<noteq> KEY_LEN then
            Inl (KeyUnavailable (''key file holds '' @ dec (length b) @ '' bytes, expected '' @ dec KEY_LEN))
          else Inr b)"

text \<open>\<open>fresh\<close> is what creating a key gives: random bytes, which are then in the file, or an error.\<close>

definition signer_load_or_create :: "signer_error + bytes \<Rightarrow> signer_key_file \<Rightarrow> bool \<Rightarrow> (signer_error + bytes) \<times> signer_key_file" where
  "signer_load_or_create fresh f log_has_records =
     (if f \<noteq> NoKey then (signer_read_key f, f)
      else if log_has_records then
        (Inl (KeyUnavailable ''key file is missing but the undo-log already holds records; refusing to generate a new key, which would invalidate the chain''), f)
      else (case fresh of Inl e \<Rightarrow> (Inl e, f) | Inr b \<Rightarrow> (Inr b, KeyAt 384 b)))"

section \<open>The head checkpoint\<close>

record head_checkpoint =
  hc_count :: u64
  hc_head_hex :: string

record checkpoint_codec =
  kc_encode :: "head_checkpoint \<Rightarrow> bytes"
  kc_decode :: "bytes \<Rightarrow> string + head_checkpoint"

datatype startup_check = Consistent | Genesis | Tampered string

text \<open>A checkpoint file as reading it finds it: absent, present with its bytes, or unreadable.\<close>

definition checkpoint_read :: "checkpoint_codec \<Rightarrow> string option \<Rightarrow> bytes option \<Rightarrow> signer_error + head_checkpoint option" where
  "checkpoint_read k io f =
     (case io of
        Some e \<Rightarrow> Inl (Storage (''read checkpoint: '' @ e))
      | None \<Rightarrow> (case f of
            None \<Rightarrow> Inr None
          | Some b \<Rightarrow> (case kc_decode k b of
              Inl e \<Rightarrow> Inl (Storage (''checkpoint is corrupt: '' @ e))
            | Inr cp \<Rightarrow> Inr (Some cp))))"

text \<open>A write fails before its rename, which leaves the old file, or after it.\<close>

datatype checkpoint_outcome = CheckpointOk | FailsBefore string | FailsAfter string

definition checkpoint_write :: "checkpoint_codec \<Rightarrow> checkpoint_outcome \<Rightarrow> head_checkpoint \<Rightarrow> bytes option \<Rightarrow>
    (signer_error + unit) \<times> bytes option" where
  "checkpoint_write k out cp f =
     (case out of
        FailsBefore e \<Rightarrow> (Inl (Storage e), f)
      | FailsAfter e \<Rightarrow> (Inl (Storage e), Some (kc_encode k cp))
      | CheckpointOk \<Rightarrow> (Inr (), Some (kc_encode k cp)))"

definition assess_startup :: "signer_error + head_checkpoint option \<Rightarrow> bool \<Rightarrow> string option \<Rightarrow> startup_check" where
  "assess_startup read log_empty head_at_checkpoint =
     (case read of
        Inr None \<Rightarrow>
          if log_empty then Genesis
          else Tampered ''head checkpoint missing for a non-empty undo-log (the truncation witness was removed)''
      | Inr (Some cp) \<Rightarrow>
          (case head_at_checkpoint of
             None \<Rightarrow> Tampered (''undo-log has no record at checkpoint count '' @ dec (unat (hc_count cp)) @ '' (truncated)'')
           | Some hash \<Rightarrow>
               if hash \<noteq> hc_head_hex cp
               then Tampered (''undo-log head hash at checkpoint count '' @ dec (unat (hc_count cp)) @ '' does not match the checkpoint (checkpoint or log mutated)'')
               else Consistent)
      | Inl e \<Rightarrow> Tampered (''head checkpoint present but unreadable: '' @ signer_error_text e))"

section \<open>The store\<close>

record signer_disk =
  sd_log :: "string option"
  sd_checkpoint :: "bytes option"
  sd_key :: signer_key_file

record signer_codecs =
  co_log :: undo_codec
  co_checkpoint :: checkpoint_codec

record open_env =
  oe_dir_error :: "string option"
  oe_fresh_key :: "signer_error + bytes"
  oe_log_error :: "io_error option"
  oe_read_error :: "string option"
  oe_checkpoint :: checkpoint_outcome

definition log_has_records :: "string option \<Rightarrow> bool" where
  "log_has_records f = (case f of None \<Rightarrow> False | Some s \<Rightarrow> length s > 0)"

fun io_error_text :: "io_error \<Rightarrow> string" where
  "io_error_text (InvalidData m) = m"
| "io_error_text (OsError m) = m"

definition head_of :: "file_undo_log \<Rightarrow> head_checkpoint" where
  "head_of s = \<lparr>hc_count = of_nat (record_count s), hc_head_hex = hex (head_hash s)\<rparr>"

definition write_checkpoint :: "signer_codecs \<Rightarrow> checkpoint_outcome \<Rightarrow> file_undo_log \<Rightarrow> signer_disk \<Rightarrow> (signer_error + unit) \<times> signer_disk" where
  "write_checkpoint co out s d =
     (let (r, f) = checkpoint_write (co_checkpoint co) out (head_of s) (sd_checkpoint d) in (r, d\<lparr>sd_checkpoint := f\<rparr>))"

definition head_at :: "file_undo_log \<Rightarrow> signer_error + head_checkpoint option \<Rightarrow> string option" where
  "head_at s cp_read =
     (case cp_read of
        Inr (Some cp) \<Rightarrow> if hc_count cp \<ge> 1 then map_option hex (hash_at s (unat (hc_count cp - 1))) else None
      | _ \<Rightarrow> None)"

definition open_in :: "(bytes \<Rightarrow> bytes \<Rightarrow> bytes) \<Rightarrow> signer_codecs \<Rightarrow> open_env \<Rightarrow> signer_disk \<Rightarrow> (signer_error + file_undo_log) \<times> signer_disk" where
  "open_in hmac co env d =
     (case oe_dir_error env of
        Some e \<Rightarrow> (Inl (SignerIo e), d)
      | None \<Rightarrow>
          (case signer_load_or_create (oe_fresh_key env) (sd_key d) (log_has_records (sd_log d)) of
             (Inl e, k) \<Rightarrow> (Inl e, d\<lparr>sd_key := k\<rparr>)
           | (Inr key, k) \<Rightarrow>
               (case file_open hmac (co_log co) (oe_log_error env) key (sd_log d) of
                  (Inl e, f) \<Rightarrow> (Inl (Storage (''opening the chained undo-log: '' @ io_error_text e)), d\<lparr>sd_key := k, sd_log := f\<rparr>)
                | (Inr s, f) \<Rightarrow>
                    (let d' = d\<lparr>sd_key := k, sd_log := f\<rparr>;
                         cp_read = checkpoint_read (co_checkpoint co) (oe_read_error env) (sd_checkpoint d')
                     in case assess_startup cp_read (record_count s = 0) (head_at s cp_read) of
                          Tampered detail \<Rightarrow> (Inl (Storage (''undo-log integrity: '' @ detail)), d')
                        | _ \<Rightarrow>
                            if record_count s > 0 then
                              (case write_checkpoint co (oe_checkpoint env) s d' of
                                 (Inl e, d'') \<Rightarrow> (Inl e, d'')
                               | (Inr _, d'') \<Rightarrow> (Inr s, d''))
                            else (Inr s, d')))))"

record seal_env =
  se_now :: int
  se_append :: append_outcome
  se_checkpoint :: checkpoint_outcome

text \<open>Appending a record and moving the checkpoint, the common end of both submissions.\<close>

definition seal :: "(bytes \<Rightarrow> bytes \<Rightarrow> bytes) \<Rightarrow> signer_codecs \<Rightarrow> seal_env \<Rightarrow> string \<Rightarrow> log_record \<Rightarrow> signer_disk \<Rightarrow> file_undo_log \<Rightarrow>
    (signer_error + unit) \<times> signer_disk \<times> file_undo_log" where
  "seal hmac co env label r d s =
     (case append_record hmac (co_log co) (se_append env) r (case sd_log d of None \<Rightarrow> [] | Some t \<Rightarrow> t) s of
        (Inl e, content, s') \<Rightarrow> (Inl (Storage (label @ io_error_text e)), d\<lparr>sd_log := Some content\<rparr>, s')
      | (Inr _, content, s') \<Rightarrow>
          (let (res, d') = write_checkpoint co (se_checkpoint env) s' (d\<lparr>sd_log := Some content\<rparr>) in (res, d', s')))"

definition submit_created :: "(bytes \<Rightarrow> bytes \<Rightarrow> bytes) \<Rightarrow> signer_codecs \<Rightarrow> seal_env \<Rightarrow> undo_entry \<Rightarrow> signer_disk \<Rightarrow> file_undo_log \<Rightarrow>
    (signer_error + unit) \<times> signer_disk \<times> file_undo_log" where
  "submit_created hmac co env e d s =
     (if log_entry (fl_log s) (ue_op_id e) \<noteq> None
      then (Inl (IllegalRecord (''op_id '' @ ue_op_id e @ '' already has a sealed entry'')), d, s)
      else seal hmac co env ''appending an undo-log entry: '' (Created e (se_now env)) d s)"

definition signer_transition :: "(bytes \<Rightarrow> bytes \<Rightarrow> bytes) \<Rightarrow> signer_codecs \<Rightarrow> seal_env \<Rightarrow> string \<Rightarrow> undo_state \<Rightarrow> signer_disk \<Rightarrow> file_undo_log \<Rightarrow>
    (signer_error + unit) \<times> signer_disk \<times> file_undo_log" where
  "signer_transition hmac co env op st d s =
     (case current_state (fl_log s) op of
        None \<Rightarrow> (Inl (IllegalRecord (''no sealed entry for op_id '' @ op @ '' to transition'')), d, s)
      | Some (Inl e) \<Rightarrow> (Inl (IllegalRecord (''op_id '' @ op @ '' chain is already corrupt: '' @ e)), d, s)
      | Some (Inr cur) \<Rightarrow>
          if \<not> can_transition_to cur st
          then (Inl (IllegalRecord (''illegal transition '' @ undo_state_text cur @ '' -> '' @ undo_state_text st @ '' for op_id '' @ op)), d, s)
          else seal hmac co env ''appending an undo-log transition: '' (Transition op st) d s)"

definition store_recent_entries :: "nat \<Rightarrow> file_undo_log \<Rightarrow> recent_entry list" where
  "store_recent_entries limit s =
     map (\<lambda>(e, st). \<lparr>re_entry = e, re_state = st,
       re_sealed_at_micros = (case sealed_at (fl_log s) (ue_op_id e) of Some t \<Rightarrow> t | None \<Rightarrow> 0)\<rparr>) (recent_entries limit (fl_log s))"

section \<open>Serving a connection\<close>

definition signer_ADMITTED :: "string list" where
  "signer_ADMITTED = [''ai-agent'', ''undod'']"

definition signer_DEV_ADMITTED :: "string list" where
  "signer_DEV_ADMITTED = [''dev.arlen-ai-agent'', ''dev.arlen-undod'']"

definition signer_caller_is_admitted :: "bool \<Rightarrow> string \<Rightarrow> bool" where
  "signer_caller_is_admitted debug_assertions app =
     (if app \<in> set signer_ADMITTED then True else debug_assertions \<and> app \<in> set signer_DEV_ADMITTED)"

definition sealed_reply :: "(signer_error + unit) \<times> signer_disk \<times> file_undo_log \<Rightarrow> undo_response \<times> signer_disk \<times> file_undo_log" where
  "sealed_reply x = (case x of (Inr _, d, s) \<Rightarrow> (Sealed, d, s) | (Inl e, d, s) \<Rightarrow> (ReplyError (signer_error_text e), d, s))"

definition dispatch :: "(bytes \<Rightarrow> bytes \<Rightarrow> bytes) \<Rightarrow> signer_codecs \<Rightarrow> seal_env \<Rightarrow> undo_request \<Rightarrow> signer_disk \<Rightarrow> file_undo_log \<Rightarrow>
    undo_response \<times> signer_disk \<times> file_undo_log" where
  "dispatch hmac co env req d s =
     (case req of
        SubmitCreated e \<Rightarrow> sealed_reply (submit_created hmac co env e d s)
      | RequestTransition op st \<Rightarrow> sealed_reply (signer_transition hmac co env op st d s)
      | LookupState op \<Rightarrow>
          (ReplyState (case current_state (fl_log s) op of
             None \<Rightarrow> Absent | Some (Inr st) \<Rightarrow> Present st | Some (Inl _) \<Rightarrow> Corrupt), d, s)
      | LookupEntry op \<Rightarrow> (ReplyEntry (log_entry (fl_log s) op), d, s)
      | LiveEntries \<Rightarrow> (ReplyEntries (live_entries (fl_log s)), d, s)
      | ListRecent limit \<Rightarrow> (ReplyRecent (store_recent_entries (unat limit) s), d, s)
      | CompensatingEntries \<Rightarrow> (ReplyEntries (compensating_entries (fl_log s)), d, s))"

text \<open>
  What a connection brings, one after another: whether its process is still the one that connected,
  the request read (\<open>None\<close> for the end of the stream, a malformed frame or a timeout), what the disk
  does meanwhile, and whether the response could be written.
\<close>

record turn =
  tu_alive :: bool
  tu_request :: "undo_request option"
  tu_env :: seal_env
  tu_written :: bool

fun serve_requests :: "(bytes \<Rightarrow> bytes \<Rightarrow> bytes) \<Rightarrow> signer_codecs \<Rightarrow> turn list \<Rightarrow> signer_disk \<Rightarrow> file_undo_log \<Rightarrow>
    undo_response list \<times> signer_disk \<times> file_undo_log" where
  "serve_requests hmac co [] d s = ([], d, s)"
| "serve_requests hmac co (t # ts) d s =
     (if \<not> tu_alive t then ([], d, s)
      else case tu_request t of
          None \<Rightarrow> ([], d, s)
        | Some req \<Rightarrow>
            (let (resp, d', s') = (case validate req of
                    Inr _ \<Rightarrow> dispatch hmac co (tu_env t) req d s
                  | Inl m \<Rightarrow> (ReplyError m, d, s))
             in if \<not> tu_written t then ([], d', s')
                else (let (resps, d'', s'') = serve_requests hmac co ts d' s' in (resp # resps, d'', s''))))"

definition handle_signer_connection :: "(bytes \<Rightarrow> bytes \<Rightarrow> bytes) \<Rightarrow> signer_codecs \<Rightarrow> bool \<Rightarrow> string option \<Rightarrow> turn list \<Rightarrow> signer_disk \<Rightarrow> file_undo_log \<Rightarrow>
    undo_response list \<times> signer_disk \<times> file_undo_log" where
  "handle_signer_connection hmac co debug_assertions app turns d s =
     (case app of
        None \<Rightarrow> ([], d, s)
      | Some a \<Rightarrow> if signer_caller_is_admitted debug_assertions a then serve_requests hmac co turns d s else ([], d, s))"

end
