(* ===== verification/Undo_Runs.thy ===== *)
theory Undo_Runs
  imports Undo_Signer "HOL-Library.Sublist"
begin

text \<open>
  What the undo signer guarantees. Its answers are those of a table with one row per action, whatever
  requests a connection sends. Over runs with failing disks, crashes and restarts, the sealed log is
  always a legal history, holds every record that was acknowledged, and opens again; and what one
  interrupted append can cost.
\<close>

section \<open>The contract: a table of actions\<close>

text \<open>\<open>None\<close> is a refusal, whose text is left open.\<close>

definition spec_answer :: "int \<Rightarrow> undo_request \<Rightarrow> undo_table \<Rightarrow> undo_response option \<times> undo_table" where
  "spec_answer now req T =
     (case req of
        SubmitCreated e \<Rightarrow>
          if row_of T (ue_op_id e) = None then (Some Sealed, T @ [(e, now, InFlight)]) else (None, T)
      | RequestTransition op s' \<Rightarrow>
          (case row_of T op of
             Some (e, t, s) \<Rightarrow> if can_transition_to s s' then (Some Sealed, act_on_table (Transition op s') T) else (None, T)
           | None \<Rightarrow> (None, T))
      | LookupState op \<Rightarrow> (Some (ReplyState (case row_of T op of None \<Rightarrow> Absent | Some (e, t, s) \<Rightarrow> Present s)), T)
      | LookupEntry op \<Rightarrow> (Some (ReplyEntry (map_option fst (row_of T op))), T)
      | ListRecent limit \<Rightarrow> (Some (ReplyRecent (map (\<lambda>(e, t, s). \<lparr>re_entry = e, re_state = s, re_sealed_at_micros = t\<rparr>)
          (take (unat limit) (rev T)))), T)
      | LiveEntries \<Rightarrow> (Some (ReplyEntries (map fst (filter (\<lambda>x. \<not> is_terminal (snd (snd x))) T))), T)
      | CompensatingEntries \<Rightarrow> (Some (ReplyEntries (map fst (filter (\<lambda>x. snd (snd x) = Compensating) T))), T))"

definition spec_turn :: "turn \<Rightarrow> undo_request \<Rightarrow> undo_table \<Rightarrow> undo_response option \<times> undo_table" where
  "spec_turn t req T = (if isl (validate req) then (None, T) else spec_answer (se_now (tu_env t)) req T)"

text \<open>A connection is served up to the first turn whose peer is gone, that brings no request, or whose
  answer cannot be written; the last one still acts.\<close>

fun spec_session :: "turn list \<Rightarrow> undo_table \<Rightarrow> undo_response option list \<times> undo_table" where
  "spec_session [] T = ([], T)"
| "spec_session (t # ts) T =
     (if \<not> tu_alive t then ([], T)
      else case tu_request t of
          None \<Rightarrow> ([], T)
        | Some req \<Rightarrow>
            if \<not> tu_written t then ([], snd (spec_turn t req T))
            else (fst (spec_turn t req T) # fst (spec_session ts (snd (spec_turn t req T))), snd (spec_session ts (snd (spec_turn t req T)))))"

definition agrees :: "undo_response \<Rightarrow> undo_response option \<Rightarrow> bool" where
  "agrees resp spec = (case spec of Some r \<Rightarrow> resp = r | None \<Rightarrow> (\<exists>m. resp = ReplyError m))"

definition quiet_disk :: "seal_env \<Rightarrow> bool" where
  "quiet_disk env \<longleftrightarrow> se_append env = AppendOk \<and> se_checkpoint env = CheckpointOk"

lemma seal_quiet:
  assumes "quiet_disk env"
  shows "fst (seal hmac co env label r d s) = Inr ()" "fl_log (snd (snd (seal hmac co env label r d s))) = fl_log s @ [r]"
  using assms by (simp_all add: seal_def append_record_def quiet_disk_def write_checkpoint_def checkpoint_write_def Let_def)

lemma seal_reply:
  assumes "quiet_disk env" and "sealed_reply (seal hmac co env label r d s) = (resp, d', s')"
  shows "resp = Sealed" "fl_log s' = fl_log s @ [r]"
  using assms(2) seal_quiet [OF assms(1), of hmac co label r d s] by (auto simp: sealed_reply_def split: prod.splits sum.splits)

lemma store_recent_table:
  assumes "legal_log (fl_log s)"
  shows "store_recent_entries n s = map (\<lambda>(e, t, x). \<lparr>re_entry = e, re_state = x, re_sealed_at_micros = t\<rparr>) (take n (rev (table_of (fl_log s))))"
proof -
  have "sealed_at (fl_log s) (ue_op_id (fst x)) = Some (fst (snd x))" if "x \<in> set (table_of (fl_log s))" for x
    using row_of_member [OF legal_created_once(2) [OF assms] that]
    by (simp add: sealed_at_def find_creates op_of_def case_prod_unfold)
  moreover have "set (take n (rev (table_of (fl_log s)))) \<subseteq> set (table_of (fl_log s))" using set_take_subset by fastforce
  ultimately show ?thesis
    by (auto simp: store_recent_entries_def legal_recent_entries [OF assms] case_prod_unfold)
qed

lemma dispatch_refines:
  assumes "legal_log (fl_log s)" and "quiet_disk env" and "dispatch hmac co env req d s = (resp, d', s')"
  shows "legal_log (fl_log s') \<and> agrees resp (fst (spec_answer (se_now env) req (table_of (fl_log s)))) \<and>
    table_of (fl_log s') = snd (spec_answer (se_now env) req (table_of (fl_log s)))"
proof (cases req)
  case (SubmitCreated e)
  show ?thesis
  proof (cases "row_of (table_of (fl_log s)) (ue_op_id e)")
    case None
    then have "sealed_reply (seal hmac co env ''appending an undo-log entry: '' (Created e (se_now env)) d s) = (resp, d', s')"
      using assms(3) by (simp add: dispatch_def SubmitCreated submit_created_def log_entry_None)
    note s' = seal_reply [OF assms(2) this]
    show ?thesis
      using None legal_log.create [OF assms(1), of e] by (simp add: s' log_entry_None spec_answer_def SubmitCreated agrees_def)
  next
    case (Some a)
    then have "log_entry (fl_log s) (ue_op_id e) \<noteq> None" by (simp add: log_entry_None)
    then show ?thesis using assms Some
      by (auto simp: dispatch_def SubmitCreated submit_created_def sealed_reply_def spec_answer_def agrees_def)
  qed
next
  case (RequestTransition op st)
  show ?thesis
  proof (cases "row_of (table_of (fl_log s)) op")
    case None
    then show ?thesis using assms
      by (auto simp: dispatch_def RequestTransition signer_transition_def legal_current_state sealed_reply_def spec_answer_def agrees_def)
  next
    case (Some a)
    then obtain e t x where row: "row_of (table_of (fl_log s)) op = Some (e, t, x)" by (cases a) auto
    then have cur: "current_state (fl_log s) op = Some (Inr x)" by (simp add: legal_current_state [OF assms(1)])
    show ?thesis
    proof (cases "can_transition_to x st")
      case True
      then have "sealed_reply (seal hmac co env ''appending an undo-log transition: '' (Transition op st) d s) = (resp, d', s')"
        using assms(3) cur by (simp add: dispatch_def RequestTransition signer_transition_def)
      note s' = seal_reply [OF assms(2) this]
      show ?thesis
        using row True legal_log.transition [OF assms(1) cur True] by (simp add: s' spec_answer_def RequestTransition agrees_def)
    next
      case False
      then show ?thesis using assms row cur
        by (auto simp: dispatch_def RequestTransition signer_transition_def sealed_reply_def spec_answer_def agrees_def)
    qed
  qed
next
  case (LookupState op)
  then show ?thesis using assms
    by (auto simp: dispatch_def spec_answer_def agrees_def legal_current_state split: option.splits)
next
  case (LookupEntry op)
  then show ?thesis using assms
    by (auto simp: dispatch_def spec_answer_def agrees_def log_entry_def find_creates option.map_comp case_prod_unfold comp_def)
next
  case (ListRecent n)
  then show ?thesis using assms by (auto simp: dispatch_def spec_answer_def agrees_def store_recent_table)
next
  case LiveEntries
  then show ?thesis using assms by (auto simp: dispatch_def spec_answer_def agrees_def legal_live_entries)
next
  case CompensatingEntries
  then show ?thesis using assms by (auto simp: dispatch_def spec_answer_def agrees_def legal_compensating_entries)
qed

text \<open>
  C13. The signer is a table: on a legal log and a disk that works, whatever requests a connection
  sends, the signer answers each as a table of actions would (one row per action, created in flight,
  moved along the lifecycle, listed in the order of creation), refuses exactly what the table
  refuses, and leaves a legal log that stands for the resulting table.
\<close>

theorem signer_answers_as_a_table:
  assumes "legal_log (fl_log s)" and "\<forall>t \<in> set turns. quiet_disk (tu_env t)"
    and "serve_requests hmac co turns d s = (resps, d', s')"
  shows "list_all2 agrees resps (fst (spec_session turns (table_of (fl_log s)))) \<and>
    table_of (fl_log s') = snd (spec_session turns (table_of (fl_log s))) \<and> legal_log (fl_log s')"
  using assms
proof (induction turns arbitrary: d s resps d' s')
  case (Cons t turns)
  show ?case
  proof (cases "tu_alive t \<and> tu_request t \<noteq> None")
    case False
    then show ?thesis using Cons.prems by (cases "tu_request t") auto
  next
    case True
    then obtain req where req: "tu_alive t" "tu_request t = Some req" by auto
    obtain resp d1 s1 where step: "(case validate req of Inr _ \<Rightarrow> dispatch hmac co (tu_env t) req d s | Inl m \<Rightarrow> (ReplyError m, d, s)) = (resp, d1, s1)"
      by (metis prod_cases3)
    have one: "legal_log (fl_log s1) \<and> agrees resp (fst (spec_turn t req (table_of (fl_log s)))) \<and>
        table_of (fl_log s1) = snd (spec_turn t req (table_of (fl_log s)))"
      using step Cons.prems(1,2) dispatch_refines [of s "tu_env t" hmac co req d resp d1 s1]
      by (cases "validate req") (auto simp: spec_turn_def agrees_def)
    obtain resps2 d2 s2 where rest: "serve_requests hmac co turns d1 s1 = (resps2, d2, s2)" by (metis prod_cases3)
    show ?thesis
    proof (cases "tu_written t")
      case True
      then have "resps = resp # resps2" "s' = s2" using Cons.prems(3) req step rest by auto
      then show ?thesis using Cons.IH [of s1 d1 resps2 d2 s2] Cons.prems(2) rest one req True by simp
    next
      case False
      then have "resps = []" "s' = s1" using Cons.prems(3) req step by auto
      then show ?thesis using one req False by simp
    qed
  qed
qed simp

section \<open>The file of a log\<close>

fun chain_from :: "(bytes \<Rightarrow> bytes \<Rightarrow> bytes) \<Rightarrow> undo_codec \<Rightarrow> bytes \<Rightarrow> bytes \<Rightarrow> undo_log \<Rightarrow> bytes list" where
  "chain_from hmac c key prev [] = []"
| "chain_from hmac c key prev (r # rs) =
     compute_chain_hash hmac key prev (uc_record c r) # chain_from hmac c key (compute_chain_hash hmac key prev (uc_record c r)) rs"

fun render_from :: "(bytes \<Rightarrow> bytes \<Rightarrow> bytes) \<Rightarrow> undo_codec \<Rightarrow> bytes \<Rightarrow> bytes \<Rightarrow> undo_log \<Rightarrow> string" where
  "render_from hmac c key prev [] = []"
| "render_from hmac c key prev (r # rs) =
     uc_line c (r, compute_chain_hash hmac key prev (uc_record c r)) @ [newline] @
     render_from hmac c key (compute_chain_hash hmac key prev (uc_record c r)) rs"

definition head_after :: "(bytes \<Rightarrow> bytes \<Rightarrow> bytes) \<Rightarrow> undo_codec \<Rightarrow> bytes \<Rightarrow> undo_log \<Rightarrow> bytes" where
  "head_after hmac c key rs = last (GENESIS_PREV_HASH # chain_from hmac c key GENESIS_PREV_HASH rs)"

text \<open>The line of a record that follows the records \<open>rs\<close>.\<close>

definition line_after :: "(bytes \<Rightarrow> bytes \<Rightarrow> bytes) \<Rightarrow> undo_codec \<Rightarrow> bytes \<Rightarrow> undo_log \<Rightarrow> log_record \<Rightarrow> string" where
  "line_after hmac c key rs r = uc_line c (r, compute_chain_hash hmac key (head_after hmac c key rs) (uc_record c r))"

abbreviation render :: "(bytes \<Rightarrow> bytes \<Rightarrow> bytes) \<Rightarrow> undo_codec \<Rightarrow> bytes \<Rightarrow> undo_log \<Rightarrow> string" where
  "render hmac c key rs \<equiv> render_from hmac c key GENESIS_PREV_HASH rs"

abbreviation chain :: "(bytes \<Rightarrow> bytes \<Rightarrow> bytes) \<Rightarrow> undo_codec \<Rightarrow> bytes \<Rightarrow> undo_log \<Rightarrow> bytes list" where
  "chain hmac c key rs \<equiv> chain_from hmac c key GENESIS_PREV_HASH rs"

text \<open>
  What is relied on of the JSON codec for a record: a line reads back, is one line of text that is
  not blank, and neither a part of it nor a part of it run together with another line is a line.
\<close>

definition line_ok :: "string \<Rightarrow> bool" where
  "line_ok l \<longleftrightarrow> newline \<notin> set l \<and> l \<noteq> [] \<and> \<not> is_whitespace (hd l) \<and> last l \<noteq> CHR 0x0D"

definition codec_ok :: "undo_codec \<Rightarrow> log_record \<Rightarrow> bool" where
  "codec_ok c r \<longleftrightarrow> (\<forall>h. uc_parse c (uc_line c (r, h)) = Inr (r, h) \<and> line_ok (uc_line c (r, h)))"

definition cut_ok :: "undo_codec \<Rightarrow> log_record \<Rightarrow> bool" where
  "cut_ok c r \<longleftrightarrow> (\<forall>h k. 0 < k \<longrightarrow> k < length (uc_line c (r, h)) \<longrightarrow> isl (uc_parse c (take k (uc_line c (r, h)))))"

definition glue_ok :: "undo_codec \<Rightarrow> log_record \<Rightarrow> log_record \<Rightarrow> bool" where
  "glue_ok c r r' \<longleftrightarrow> (\<forall>h h' k. 0 < k \<longrightarrow> isl (uc_parse c (take k (uc_line c (r, h)) @ uc_line c (r', h'))))"

lemma length_chain [simp]: "length (chain_from hmac c key prev rs) = length rs"
  by (induction rs arbitrary: prev) simp_all

lemma chain_snoc: "chain_from hmac c key prev (rs @ [r]) = chain_from hmac c key prev rs @
    [compute_chain_hash hmac key (last (prev # chain_from hmac c key prev rs)) (uc_record c r)]"
  by (induction rs arbitrary: prev) simp_all

lemma render_snoc: "render_from hmac c key prev (rs @ [r]) = render_from hmac c key prev rs @
    uc_line c (r, compute_chain_hash hmac key (last (prev # chain_from hmac c key prev rs)) (uc_record c r)) @ [newline]"
  by (induction rs arbitrary: prev) simp_all

lemma render_line: "render hmac c key (rs @ [r]) = render hmac c key rs @ line_after hmac c key rs r @ [newline]"
  by (simp only: render_snoc line_after_def head_after_def)

lemma chain_line: "chain hmac c key (rs @ [r]) = chain hmac c key rs @ [compute_chain_hash hmac key (head_after hmac c key rs) (uc_record c r)]"
  by (simp only: chain_snoc head_after_def)

lemma line_ok_not_blank:
  assumes "line_ok l" and "0 < k"
  shows "trim (take k l) \<noteq> []"
proof -
  obtain x xs where "l = x # xs" using assms(1) by (cases l) (auto simp: line_ok_def)
  moreover obtain j where "k = Suc j" using assms(2) by (cases k) auto
  ultimately have "x \<in> set (take k l)" "\<not> is_whitespace x" using assms(1) by (simp_all add: line_ok_def)
  then show ?thesis unfolding trim_empty_iff by blast
qed

lemma line_ok_trim: "line_ok l \<Longrightarrow> trim l \<noteq> []"
  using line_ok_not_blank [of l "length l"] by (cases "l = []") (auto simp: line_ok_def)

lemma trim_append_not_blank: "trim l \<noteq> [] \<Longrightarrow> trim (l @ m) \<noteq> []"
  by (auto simp: trim_empty_iff)

lemma strip_cr_ok: "line_ok l \<Longrightarrow> strip_cr l = l"
  by (simp add: strip_cr_def line_ok_def)

abbreviation text_lines :: "string \<Rightarrow> string list" where
  "text_lines s \<equiv> filter (\<lambda>l. trim l \<noteq> []) (lines s)"

lemma text_lines_line: "line_ok l \<Longrightarrow> text_lines (l @ newline # s) = l # text_lines s"
  using lines_line [of l s] line_ok_trim [of l] by (simp add: strip_cr_ok line_ok_def)

lemma text_lines_open: "newline \<notin> set l \<Longrightarrow> trim l \<noteq> [] \<Longrightarrow> text_lines l = [l]"
  using lines_open [of l] by (auto simp: trim_empty_iff)

lemma load_from_render:
  assumes "\<forall>r \<in> set rs. codec_ok c r"
  shows "load_from hmac c key i prev (text_lines (render_from hmac c key prev rs @ s)) =
    map_sum id (\<lambda>xs. zip rs (chain_from hmac c key prev rs) @ xs)
      (load_from hmac c key (i + length rs) (last (prev # chain_from hmac c key prev rs)) (text_lines s))"
  using assms
proof (induction rs arbitrary: i prev)
  case Nil
  then show ?case by (cases "load_from hmac c key i prev (text_lines s)") simp_all
next
  case (Cons r rs)
  let ?h = "compute_chain_hash hmac key prev (uc_record c r)"
  have ok: "line_ok (uc_line c (r, ?h))" "uc_parse c (uc_line c (r, ?h)) = Inr (r, ?h)" using Cons.prems by (simp_all add: codec_ok_def)
  have "text_lines (render_from hmac c key prev (r # rs) @ s) = uc_line c (r, ?h) # text_lines (render_from hmac c key ?h rs @ s)"
    using text_lines_line [OF ok(1)] by simp
  moreover have "load_from hmac c key (i + 1) ?h (text_lines (render_from hmac c key ?h rs @ s)) =
      map_sum id (\<lambda>xs. zip rs (chain_from hmac c key ?h rs) @ xs)
        (load_from hmac c key (i + 1 + length rs) (last (?h # chain_from hmac c key ?h rs)) (text_lines s))"
    using Cons.prems by (intro Cons.IH) simp
  ultimately show ?case
    using ok(2) by (cases "load_from hmac c key (i + 1 + length rs) (last (?h # chain_from hmac c key ?h rs)) (text_lines s)") (simp_all del: lines_Nil)
qed

lemma load_render:
  assumes "\<forall>r \<in> set rs. codec_ok c r"
  shows "load_log hmac c key (render hmac c key rs @ s) =
    map_sum id (\<lambda>xs. zip rs (chain hmac c key rs) @ xs) (load_from hmac c key (length rs) (head_after hmac c key rs) (text_lines s))"
  using load_from_render [OF assms, of hmac key 0 GENESIS_PREV_HASH s] by (simp add: load_log_def head_after_def)

section \<open>Runs\<close>

text \<open>
  A signer over its life: started on an empty disk, opened, serving requests, stopped or killed at any
  moment, and opened again, while any call to the disk may fail. \<open>sw_sealed\<close> are the records it
  acknowledged; \<open>sw_dirty\<close> tells that the file does not end where the store in memory believes it
  does: an append failed and left bytes, or the file was opened without its last newline. In these
  runs no record is appended to such a file.
\<close>

record signer_world =
  sw_disk :: signer_disk
  sw_store :: "file_undo_log option"
  sw_sealed :: "log_record list"
  sw_dirty :: bool

definition log_text :: "signer_disk \<Rightarrow> string" where
  "log_text d = (case sd_log d of None \<Rightarrow> [] | Some t \<Rightarrow> t)"

definition open_ended :: "string \<Rightarrow> bool" where
  "open_ended t \<longleftrightarrow> t \<noteq> [] \<and> last t \<noteq> newline"

definition submitted :: "seal_env \<Rightarrow> undo_request \<Rightarrow> log_record option" where
  "submitted env req = (case req of SubmitCreated e \<Rightarrow> Some (Created e (se_now env)) | RequestTransition op st \<Rightarrow> Some (Transition op st) | _ \<Rightarrow> None)"

inductive signer_run :: "(bytes \<Rightarrow> bytes \<Rightarrow> bytes) \<Rightarrow> signer_codecs \<Rightarrow> log_record set \<Rightarrow> signer_world \<Rightarrow> bool" for hmac co R where
  start: "signer_run hmac co R \<lparr>sw_disk = \<lparr>sd_log = None, sd_checkpoint = None, sd_key = NoKey\<rparr>, sw_store = None, sw_sealed = [], sw_dirty = False\<rparr>"
| open_store: "signer_run hmac co R w \<Longrightarrow> sw_store w = None \<Longrightarrow> (\<forall>b. oe_fresh_key env = Inr b \<longrightarrow> length b = KEY_LEN) \<Longrightarrow>
    open_in hmac co env (sw_disk w) = (res, d) \<Longrightarrow>
    signer_run hmac co R (w\<lparr>sw_disk := d, sw_store := (case res of Inl e \<Rightarrow> None | Inr s \<Rightarrow> Some s), sw_dirty := open_ended (log_text d)\<rparr>)"
| serve: "signer_run hmac co R w \<Longrightarrow> sw_store w = Some s \<Longrightarrow> dispatch hmac co env req (sw_disk w) s = (resp, d, s') \<Longrightarrow>
    set_option (submitted env req) \<subseteq> R \<Longrightarrow> (sw_dirty w \<longrightarrow> log_text d = log_text (sw_disk w)) \<Longrightarrow>
    signer_run hmac co R (w\<lparr>sw_disk := d, sw_store := Some s',
      sw_sealed := (if resp = Sealed then sw_sealed w @ [last (fl_log s')] else sw_sealed w),
      sw_dirty := (sw_dirty w \<or> log_text d \<noteq> log_text (sw_disk w) \<and> fl_log s' = fl_log s)\<rparr>)"
| stop: "signer_run hmac co R w \<Longrightarrow> signer_run hmac co R (w\<lparr>sw_store := None\<rparr>)"

text \<open>The complete records of a file: all its lines are whole, the last one lacks its newline, or a
  part of one more line follows.\<close>

inductive file_holds :: "(bytes \<Rightarrow> bytes \<Rightarrow> bytes) \<Rightarrow> undo_codec \<Rightarrow> bytes \<Rightarrow> log_record set \<Rightarrow> string \<Rightarrow> undo_log \<Rightarrow> bool" for hmac c key R where
  whole: "legal_log rs \<Longrightarrow> set rs \<subseteq> R \<Longrightarrow> file_holds hmac c key R (render hmac c key rs) rs"
| unended: "legal_log (rs @ [r]) \<Longrightarrow> set (rs @ [r]) \<subseteq> R \<Longrightarrow> file_holds hmac c key R (render hmac c key rs @ line_after hmac c key rs r) (rs @ [r])"
| torn: "legal_log rs \<Longrightarrow> set rs \<subseteq> R \<Longrightarrow> r \<in> R \<Longrightarrow> 0 < k \<Longrightarrow> k < length (line_after hmac c key rs r) \<Longrightarrow>
    file_holds hmac c key R (render hmac c key rs @ take k (line_after hmac c key rs r)) rs"

lemma seal_result:
  assumes "seal hmac co env label r d s = (res, d', s')"
  shows "(\<exists>e k. se_append env = AppendFails k e \<and> res \<noteq> Inr () \<and> s' = s \<and> sd_key d' = sd_key d \<and> sd_checkpoint d' = sd_checkpoint d \<and>
      log_text d' = log_text d @ take k (uc_line (co_log co) (r, compute_chain_hash hmac (fl_key s) (head_hash s) (uc_record (co_log co) r)) @ [newline])) \<or>
    s' = s\<lparr>fl_hashes := fl_hashes s @ [compute_chain_hash hmac (fl_key s) (head_hash s) (uc_record (co_log co) r)], fl_log := fl_log s @ [r]\<rparr> \<and>
      sd_key d' = sd_key d \<and> log_text d' = log_text d @ uc_line (co_log co) (r, compute_chain_hash hmac (fl_key s) (head_hash s) (uc_record (co_log co) r)) @ [newline] \<and>
      (sd_checkpoint d' = Some (kc_encode (co_checkpoint co) (head_of s')) \<or> sd_checkpoint d' = sd_checkpoint d \<and> res \<noteq> Inr ())"
  using assms
  by (auto simp: seal_def append_record_def write_checkpoint_def checkpoint_write_def log_text_def Let_def
      split: append_outcome.splits checkpoint_outcome.splits option.splits)

lemma dispatch_result:
  assumes "dispatch hmac co env req d s = (resp, d', s')"
  shows "d' = d \<and> s' = s \<and> resp \<noteq> Sealed \<or>
    (\<exists>label r res. submitted env req = Some r \<and> seal hmac co env label r d s = (res, d', s') \<and>
      (resp = Sealed \<longrightarrow> res = Inr ()) \<and> (legal_log (fl_log s) \<longrightarrow> legal_log (fl_log s @ [r])))"
proof (cases "submitted env req")
  case None
  then show ?thesis using assms by (auto simp: dispatch_def submitted_def split: undo_request.splits)
next
  case (Some r)
  then consider (create) e where "req = SubmitCreated e" "r = Created e (se_now env)"
    | (move) op st where "req = RequestTransition op st" "r = Transition op st"
    by (auto simp: submitted_def split: undo_request.splits)
  then show ?thesis
  proof cases
    case create
    then show ?thesis using assms Some
      by (auto simp: dispatch_def submit_created_def sealed_reply_def intro: legal_log.create split: if_splits prod.splits sum.splits)
  next
    case move
    then show ?thesis using assms Some
      by (auto simp: dispatch_def signer_transition_def sealed_reply_def intro: legal_log.transition split: if_splits prod.splits sum.splits option.splits)
  qed
qed

text \<open>Opening a file: it gives the complete records, unless a part of a line follows them.\<close>

lemma map_zip_chain [simp]: "map fst (zip rs (chain_from hmac c key prev rs)) = rs" "map snd (zip rs (chain_from hmac c key prev rs)) = chain_from hmac c key prev rs"
  by simp_all

lemma load_whole:
  assumes "\<forall>r \<in> set rs. codec_ok c r"
  shows "load_log hmac c key (render hmac c key rs) = Inr (zip rs (chain hmac c key rs))"
  using load_render [OF assms, of hmac key "[]"] by simp

lemma line_after_ok: "codec_ok c r \<Longrightarrow> line_ok (line_after hmac c key rs r)"
  by (simp add: line_after_def codec_ok_def)

lemma text_lines_take:
  assumes "line_ok l" and "0 < k"
  shows "text_lines (take k l) = [take k l]"
  using assms line_ok_not_blank [OF assms] by (intro text_lines_open) (auto simp: line_ok_def dest: in_set_takeD)

lemma load_unended:
  assumes "\<forall>r' \<in> set (rs @ [r]). codec_ok c r'"
  shows "load_log hmac c key (render hmac c key rs @ line_after hmac c key rs r) = Inr (zip (rs @ [r]) (chain hmac c key (rs @ [r])))"
proof -
  have ok: "line_ok (line_after hmac c key rs r)" using assms by (simp add: line_after_ok)
  have "text_lines (line_after hmac c key rs r) = [line_after hmac c key rs r]"
    using text_lines_take [OF ok, of "length (line_after hmac c key rs r)"] ok by (simp add: line_ok_def)
  then show ?thesis
    using load_render [of rs c hmac key "line_after hmac c key rs r"] assms
    by (simp add: chain_line del: zip_append) (simp add: line_after_def codec_ok_def)
qed

lemma load_torn:
  assumes "\<forall>r' \<in> set rs. codec_ok c r'" and "codec_ok c r" and "cut_ok c r" and "0 < k" and "k < length (line_after hmac c key rs r)"
  shows "isl (load_log hmac c key (render hmac c key rs @ take k (line_after hmac c key rs r)))"
proof -
  have "text_lines (take k (line_after hmac c key rs r)) = [take k (line_after hmac c key rs r)]"
    using text_lines_take [OF line_after_ok [OF assms(2)] assms(4)] .
  moreover have "isl (uc_parse c (take k (line_after hmac c key rs r)))"
    using assms(3-5) by (auto simp: cut_ok_def line_after_def)
  ultimately show ?thesis
    using load_render [OF assms(1), of hmac key "take k (line_after hmac c key rs r)"]
    by (auto simp: isl_def)
qed

lemma load_held:
  assumes "file_holds hmac c key R content rs" and "\<forall>r \<in> R. codec_ok c r \<and> cut_ok c r" and "load_log hmac c key content = Inr xs"
  shows "map fst xs = rs \<and> map snd xs = chain hmac c key rs \<and> (open_ended content \<or> content = render hmac c key rs)"
  using assms(1)
proof cases
  case whole
  then have "\<forall>r \<in> set rs. codec_ok c r" using assms(2) by blast
  then show ?thesis using load_whole [of rs c hmac key] assms(3) whole by auto
next
  case (unended rs' r)
  have "line_ok (line_after hmac c key rs' r)" using unended(4) assms(2) by (intro line_after_ok) auto
  then have "open_ended content" unfolding open_ended_def unended(1) line_ok_def by (metis append_is_Nil_conv last_appendR last_in_set)
  moreover have "\<forall>r' \<in> set (rs' @ [r]). codec_ok c r'" using assms(2) unended(4) by blast
  ultimately show ?thesis using load_unended [of rs' r c hmac key] assms(3) unended by (auto simp del: zip_append)
next
  case (torn r k)
  then have "\<forall>r' \<in> set rs. codec_ok c r'" using assms(2) by blast
  then show ?thesis using load_torn [of rs c r k hmac key] assms(2,3) torn by (auto simp: isl_def)
qed

text \<open>The invariant of a run: the store in memory, the file, the key and the checkpoint fit.\<close>

definition checkpoint_fits :: "(bytes \<Rightarrow> bytes \<Rightarrow> bytes) \<Rightarrow> signer_codecs \<Rightarrow> bytes \<Rightarrow> undo_log \<Rightarrow> log_record list \<Rightarrow> bytes option \<Rightarrow> bool" where
  "checkpoint_fits hmac co key rs acked f \<longleftrightarrow>
     (case f of None \<Rightarrow> acked = []
      | Some b \<Rightarrow> \<exists>n < length rs. b = kc_encode (co_checkpoint co) \<lparr>hc_count = of_nat (Suc n), hc_head_hex = hex (chain hmac (co_log co) key rs ! n)\<rparr>)"

definition store_fits :: "(bytes \<Rightarrow> bytes \<Rightarrow> bytes) \<Rightarrow> signer_codecs \<Rightarrow> log_record set \<Rightarrow> bytes \<Rightarrow> undo_log \<Rightarrow> string \<Rightarrow> log_record list \<Rightarrow> bool \<Rightarrow> file_undo_log \<Rightarrow> bool" where
  "store_fits hmac co R key rs content acked dirty s \<longleftrightarrow>
     fl_key s = key \<and> fl_hashes s = chain hmac (co_log co) key (fl_log s) \<and> legal_log (fl_log s) \<and> set (fl_log s) \<subseteq> R \<and>
     subseq acked (fl_log s) \<and> (\<not> dirty \<longrightarrow> rs = fl_log s \<and> content = render hmac (co_log co) key (fl_log s))"

definition world_fits :: "(bytes \<Rightarrow> bytes \<Rightarrow> bytes) \<Rightarrow> signer_codecs \<Rightarrow> log_record set \<Rightarrow> bytes \<Rightarrow> undo_log \<Rightarrow> signer_world \<Rightarrow> bool" where
  "world_fits hmac co R key rs w \<longleftrightarrow>
     sd_key (sw_disk w) = KeyAt 384 key \<and> length key = KEY_LEN \<and> file_holds hmac (co_log co) key R (log_text (sw_disk w)) rs \<and>
     subseq (sw_sealed w) rs \<and> checkpoint_fits hmac co key rs (sw_sealed w) (sd_checkpoint (sw_disk w)) \<and>
     (\<forall>s. sw_store w = Some s \<longrightarrow> store_fits hmac co R key rs (log_text (sw_disk w)) (sw_sealed w) (sw_dirty w) s)"

definition untouched :: "signer_world \<Rightarrow> bool" where
  "untouched w \<longleftrightarrow> sd_key (sw_disk w) = NoKey \<and> log_text (sw_disk w) = [] \<and> sd_checkpoint (sw_disk w) = None \<and> sw_store w = None \<and> sw_sealed w = []"

lemma store_head: "fl_hashes s = chain hmac c key (fl_log s) \<Longrightarrow> head_hash s = head_after hmac c key (fl_log s)"
  using length_chain [of hmac c key GENESIS_PREV_HASH "fl_log s"] by (simp add: head_hash_def head_after_def)

lemma checkpoint_fits_grows: "checkpoint_fits hmac co key rs acked f \<Longrightarrow> checkpoint_fits hmac co key (rs @ [r]) acked f"
  by (auto simp: checkpoint_fits_def chain_line nth_append less_Suc_eq split: option.splits)

lemma checkpoint_fits_head:
  assumes "fl_hashes s = chain hmac (co_log co) key (fl_log s)" and "fl_log s \<noteq> []"
  shows "checkpoint_fits hmac co key (fl_log s) acked (Some (kc_encode (co_checkpoint co) (head_of s)))"
proof -
  have "chain hmac (co_log co) key (fl_log s) \<noteq> []" using assms(2) by (metis length_0_conv length_chain)
  moreover obtain n where "length (fl_log s) = Suc n" using assms(2) by (cases "fl_log s") auto
  ultimately show ?thesis unfolding checkpoint_fits_def
    using assms by (auto simp: head_of_def record_count_def head_hash_def last_conv_nth intro!: exI [of _ n])
qed

lemma file_holds_cut:
  assumes "legal_log (rs @ [r])" and "legal_log rs" and "set (rs @ [r]) \<subseteq> R"
  shows "file_holds hmac c key R (render hmac c key rs @ take k (line_after hmac c key rs r @ [newline])) rs \<or>
    file_holds hmac c key R (render hmac c key rs @ take k (line_after hmac c key rs r @ [newline])) (rs @ [r])"
proof -
  consider "k = 0" | "0 < k" "k < length (line_after hmac c key rs r)" | "k = length (line_after hmac c key rs r)"
    | "k > length (line_after hmac c key rs r)" by linarith
  then show ?thesis
  proof cases
    case 4
    then have "render hmac c key rs @ take k (line_after hmac c key rs r @ [newline]) = render hmac c key (rs @ [r])"
      by (simp add: render_line)
    then show ?thesis using file_holds.whole [OF assms(1,3)] by metis
  qed (use assms file_holds.whole [OF assms(2)] file_holds.torn [OF assms(2)] file_holds.unended [OF assms(1,3)] in auto)
qed

lemma cut_fits:
  assumes "world_fits hmac co R key rs w" and "sw_store w = Some s" and "\<not> sw_dirty w" and "legal_log (fl_log s @ [r])" and "r \<in> R"
    and "sd_key d = sd_key (sw_disk w)" and "sd_checkpoint d = sd_checkpoint (sw_disk w)"
    and "log_text d = log_text (sw_disk w) @ take k (line_after hmac (co_log co) key (fl_log s) r @ [newline])"
  shows "\<exists>rs'. world_fits hmac co R key rs' (w\<lparr>sw_disk := d, sw_store := Some s, sw_dirty := True\<rparr>)"
proof -
  have st: "store_fits hmac co R key rs (log_text (sw_disk w)) (sw_sealed w) False s"
    using assms(1-3) by (auto simp: world_fits_def)
  then have rs: "rs = fl_log s" "log_text (sw_disk w) = render hmac (co_log co) key (fl_log s)" by (simp_all add: store_fits_def)
  obtain rs' where "rs' = fl_log s \<or> rs' = fl_log s @ [r]" "file_holds hmac (co_log co) key R (log_text d) rs'"
    using file_holds_cut [OF assms(4), of R hmac "co_log co" key k] st assms(5,8) rs(2) by (auto simp: store_fits_def)
  then have "world_fits hmac co R key rs' (w\<lparr>sw_disk := d, sw_store := Some s, sw_dirty := True\<rparr>)"
    using assms(1,6,7) st rs by (auto simp: world_fits_def store_fits_def intro: checkpoint_fits_grows)
  then show ?thesis by blast
qed

lemma grown_fits:
  assumes "world_fits hmac co R key rs w" and "sw_store w = Some s" and "\<not> sw_dirty w" and "legal_log (fl_log s @ [r])" and "r \<in> R"
    and s': "s' = s\<lparr>fl_hashes := chain hmac (co_log co) key (fl_log s @ [r]), fl_log := fl_log s @ [r]\<rparr>"
    and "sd_key d = sd_key (sw_disk w)" and "log_text d = log_text (sw_disk w) @ line_after hmac (co_log co) key (fl_log s) r @ [newline]"
    and cp: "sd_checkpoint d = Some (kc_encode (co_checkpoint co) (head_of s')) \<or> sd_checkpoint d = sd_checkpoint (sw_disk w) \<and> acked = sw_sealed w"
    and acked: "acked = sw_sealed w \<or> acked = sw_sealed w @ [r]"
  shows "world_fits hmac co R key (fl_log s @ [r]) (w\<lparr>sw_disk := d, sw_store := Some s', sw_sealed := acked, sw_dirty := False\<rparr>)"
proof -
  have st: "store_fits hmac co R key rs (log_text (sw_disk w)) (sw_sealed w) False s"
    using assms(1-3) by (auto simp: world_fits_def)
  then have rs: "rs = fl_log s" "log_text (sw_disk w) = render hmac (co_log co) key (fl_log s)" by (simp_all add: store_fits_def)
  have R: "set (fl_log s @ [r]) \<subseteq> R" using st assms(5) by (simp add: store_fits_def)
  have fits: "checkpoint_fits hmac co key (fl_log s @ [r]) acked (sd_checkpoint d)"
  proof (cases "sd_checkpoint d = Some (kc_encode (co_checkpoint co) (head_of s'))")
    case True
    then show ?thesis using checkpoint_fits_head [of s' hmac co key] s' by simp
  next
    case False
    then show ?thesis using cp assms(1) rs by (auto simp: world_fits_def intro: checkpoint_fits_grows)
  qed
  show ?thesis
    using assms(1,4,7,8) st s' R rs fits acked file_holds.whole [OF assms(4) R, of hmac "co_log co" key]
    by (auto simp: world_fits_def store_fits_def render_line)
qed

lemma serve_keeps:
  assumes fits: "world_fits hmac co R key rs w" and up: "sw_store w = Some s"
    and step: "dispatch hmac co env req (sw_disk w) s = (resp, d, s')" and R: "set_option (submitted env req) \<subseteq> R"
    and clean: "sw_dirty w \<longrightarrow> log_text d = log_text (sw_disk w)"
  shows "\<exists>rs'. world_fits hmac co R key rs' (w\<lparr>sw_disk := d, sw_store := Some s',
      sw_sealed := (if resp = Sealed then sw_sealed w @ [last (fl_log s')] else sw_sealed w),
      sw_dirty := (sw_dirty w \<or> log_text d \<noteq> log_text (sw_disk w) \<and> fl_log s' = fl_log s)\<rparr>)" (is "\<exists>rs'. world_fits hmac co R key rs' ?w")
proof -
  have st: "store_fits hmac co R key rs (log_text (sw_disk w)) (sw_sealed w) (sw_dirty w) s"
    using fits up by (simp add: world_fits_def)
  then have key: "fl_key s = key" and head: "head_hash s = head_after hmac (co_log co) key (fl_log s)"
    by (simp_all add: store_fits_def store_head)
  consider (quiet) "d = sw_disk w" "s' = s" "resp \<noteq> Sealed"
    | (append) label r res where "submitted env req = Some r" "seal hmac co env label r (sw_disk w) s = (res, d, s')"
        "resp = Sealed \<longrightarrow> res = Inr ()" "legal_log (fl_log s @ [r])"
    using dispatch_result [OF step] st by (auto simp: store_fits_def)
  then show ?thesis
  proof cases
    case quiet
    then have "world_fits hmac co R key rs ?w" using fits up by (simp add: world_fits_def)
    then show ?thesis by blast
  next
    case append
    let ?l = "line_after hmac (co_log co) key (fl_log s) r @ [newline]"
    have rR: "r \<in> R" using R append(1) by simp
    consider (fail) k where "resp \<noteq> Sealed" "s' = s" "sd_key d = sd_key (sw_disk w)" "sd_checkpoint d = sd_checkpoint (sw_disk w)"
          "log_text d = log_text (sw_disk w) @ take k ?l"
      | (ok) "s' = s\<lparr>fl_hashes := chain hmac (co_log co) key (fl_log s @ [r]), fl_log := fl_log s @ [r]\<rparr>"
          "sd_key d = sd_key (sw_disk w)" "log_text d = log_text (sw_disk w) @ ?l"
          "sd_checkpoint d = Some (kc_encode (co_checkpoint co) (head_of s')) \<or> sd_checkpoint d = sd_checkpoint (sw_disk w) \<and> resp \<noteq> Sealed"
      using seal_result [OF append(2)] append(3) st by (auto simp: key head line_after_def store_fits_def chain_line)
    then show ?thesis
    proof cases
      case fail
      show ?thesis
      proof (cases "log_text d = log_text (sw_disk w)")
        case True
        then have "world_fits hmac co R key rs ?w" using fits up fail(1-4) by (simp add: world_fits_def)
        then show ?thesis by blast
      next
        case False
        then show ?thesis using cut_fits [OF fits up _ append(4) rR fail(3-5)] clean fail(1,2) by auto
      qed
    next
      case ok
      then have "log_text d \<noteq> log_text (sw_disk w)" by simp
      then show ?thesis
        using grown_fits [OF fits up _ append(4) rR ok(1-3), of "sw_sealed ?w"] ok(1,4) clean by (intro exI) auto
    qed
  qed
qed

definition loaded :: "bytes \<Rightarrow> (log_record \<times> bytes) list \<Rightarrow> file_undo_log" where
  "loaded key xs = \<lparr>fl_key = key, fl_hashes = map snd xs, fl_log = map fst xs\<rparr>"

lemma read_key: "length key = KEY_LEN \<Longrightarrow> signer_load_or_create fresh (KeyAt 384 key) b = (Inr key, KeyAt 384 key)"
  by (simp add: signer_load_or_create_def signer_read_key_def)

lemma open_loaded:
  assumes "sd_key d = KeyAt 384 key" and "length key = KEY_LEN" and "oe_dir_error env = None \<and> oe_log_error env = None"
    and "load_log hmac (co_log co) key (log_text d) = Inr xs"
  shows "open_in hmac co env d =
    (let cp_read = checkpoint_read (co_checkpoint co) (oe_read_error env) (sd_checkpoint d);
         d' = d\<lparr>sd_log := Some (log_text d)\<rparr>
     in case assess_startup cp_read (xs = []) (head_at (loaded key xs) cp_read) of
          Tampered detail \<Rightarrow> (Inl (Storage (''undo-log integrity: '' @ detail)), d')
        | _ \<Rightarrow> if xs = [] then (Inr (loaded key xs), d')
            else (case write_checkpoint co (oe_checkpoint env) (loaded key xs) d' of
                (Inl e, d'') \<Rightarrow> (Inl e, d'') | (Inr _, d'') \<Rightarrow> (Inr (loaded key xs), d'')))"
proof -
  obtain t cp where d: "d = \<lparr>sd_log = t, sd_checkpoint = cp, sd_key = KeyAt 384 key\<rparr>" using assms(1) by (cases d) simp
  show ?thesis using assms(3,4) unfolding d loaded_def
    by (cases "xs = []")
      (simp_all add: open_in_def read_key [OF assms(2)] file_open_def log_text_def loaded_def record_count_def Let_def split: startup_check.split)
qed

lemma open_result:
  assumes "sd_key d = KeyAt 384 key" and "length key = KEY_LEN" and "open_in hmac co env d = (res, d')"
  shows "sd_key d' = sd_key d" "log_text d' = log_text d"
    "sd_checkpoint d' = sd_checkpoint d \<or> (\<exists>xs. load_log hmac (co_log co) key (log_text d) = Inr xs \<and> xs \<noteq> [] \<and>
       sd_checkpoint d' = Some (kc_encode (co_checkpoint co) (head_of (loaded key xs))))"
    "res = Inr s \<Longrightarrow> \<exists>xs. load_log hmac (co_log co) key (log_text d) = Inr xs \<and> s = loaded key xs"
proof -
  have "sd_key d' = sd_key d \<and> log_text d' = log_text d \<and>
    (sd_checkpoint d' = sd_checkpoint d \<or> (\<exists>xs. load_log hmac (co_log co) key (log_text d) = Inr xs \<and> xs \<noteq> [] \<and>
       sd_checkpoint d' = Some (kc_encode (co_checkpoint co) (head_of (loaded key xs))))) \<and>
    (\<forall>s. res = Inr s \<longrightarrow> (\<exists>xs. load_log hmac (co_log co) key (log_text d) = Inr xs \<and> s = loaded key xs))"
  proof (cases "oe_dir_error env = None \<and> oe_log_error env = None")
    case False
    then show ?thesis using assms by (auto simp: open_in_def read_key file_open_def log_text_def split: option.splits)
  next
    case True
    show ?thesis
    proof (cases "load_log hmac (co_log co) key (log_text d)")
      case (Inl e)
      then show ?thesis using assms True
        by (auto simp: open_in_def read_key file_open_def log_text_def [symmetric] Let_def) (simp_all add: log_text_def)
    next
      case (Inr xs)
      show ?thesis using assms(3) open_loaded [OF assms(1,2) True Inr] Inr
        by (auto simp: write_checkpoint_def checkpoint_write_def log_text_def Let_def
            split: startup_check.splits if_splits checkpoint_outcome.splits)
    qed
  qed
  then show "sd_key d' = sd_key d" "log_text d' = log_text d"
    "sd_checkpoint d' = sd_checkpoint d \<or> (\<exists>xs. load_log hmac (co_log co) key (log_text d) = Inr xs \<and> xs \<noteq> [] \<and>
       sd_checkpoint d' = Some (kc_encode (co_checkpoint co) (head_of (loaded key xs))))"
    "res = Inr s \<Longrightarrow> \<exists>xs. load_log hmac (co_log co) key (log_text d) = Inr xs \<and> s = loaded key xs" by blast+
qed

lemma open_keeps:
  assumes fits: "world_fits hmac co R key rs w" and down: "sw_store w = None" and codec: "\<forall>r \<in> R. codec_ok (co_log co) r \<and> cut_ok (co_log co) r"
    and step: "open_in hmac co env (sw_disk w) = (res, d)"
  shows "world_fits hmac co R key rs (w\<lparr>sw_disk := d, sw_store := (case res of Inl e \<Rightarrow> None | Inr s \<Rightarrow> Some s), sw_dirty := open_ended (log_text d)\<rparr>)"
proof -
  have key: "sd_key (sw_disk w) = KeyAt 384 key" "length key = KEY_LEN" using fits by (simp_all add: world_fits_def)
  note res = open_result [OF key step]
  have held: "file_holds hmac (co_log co) key R (log_text (sw_disk w)) rs" using fits by (simp add: world_fits_def)
  have load: "fl_log (loaded key xs) = rs \<and> fl_hashes (loaded key xs) = chain hmac (co_log co) key rs \<and>
      (open_ended (log_text (sw_disk w)) \<or> log_text (sw_disk w) = render hmac (co_log co) key rs)"
    if "load_log hmac (co_log co) key (log_text (sw_disk w)) = Inr xs" for xs
    using load_held [OF held codec that] by (simp add: loaded_def)
  have "checkpoint_fits hmac co key rs (sw_sealed w) (sd_checkpoint d)"
    using res(3)
  proof
    assume "\<exists>xs. load_log hmac (co_log co) key (log_text (sw_disk w)) = Inr xs \<and> xs \<noteq> [] \<and>
       sd_checkpoint d = Some (kc_encode (co_checkpoint co) (head_of (loaded key xs)))"
    then obtain xs where "load_log hmac (co_log co) key (log_text (sw_disk w)) = Inr xs" "xs \<noteq> []"
      "sd_checkpoint d = Some (kc_encode (co_checkpoint co) (head_of (loaded key xs)))" by blast
    then show ?thesis using checkpoint_fits_head [of "loaded key xs" hmac co key] load [of xs] by (auto simp: loaded_def)
  qed (use fits in \<open>simp add: world_fits_def\<close>)
  moreover have "store_fits hmac co R key rs (log_text d) (sw_sealed w) (open_ended (log_text d)) s" if r: "res = Inr s" for s
  proof -
    obtain xs where xs: "load_log hmac (co_log co) key (log_text (sw_disk w)) = Inr xs" "s = loaded key xs" using res(4) [OF r] by blast
    have "legal_log rs \<and> set rs \<subseteq> R" using held by cases auto
    moreover have "fl_key s = key" using xs(2) by (simp add: loaded_def)
    ultimately show ?thesis using load [OF xs(1)] fits xs(2) res(2) by (auto simp: store_fits_def world_fits_def)
  qed
  ultimately show ?thesis using fits res(1,2) by (auto simp: world_fits_def split: sum.splits)
qed

lemma open_untouched:
  assumes "untouched w" and "\<forall>b. oe_fresh_key env = Inr b \<longrightarrow> length b = KEY_LEN" and "open_in hmac co env (sw_disk w) = (res, d)"
  shows "d = sw_disk w \<and> isl res \<or>
    (\<exists>key. length key = KEY_LEN \<and> open_in hmac co env (sw_disk w \<lparr>sd_key := KeyAt 384 key\<rparr>) = (res, d) \<and>
      world_fits hmac co R key [] (w\<lparr>sw_disk := sw_disk w \<lparr>sd_key := KeyAt 384 key\<rparr>\<rparr>))"
proof -
  have u: "sd_key (sw_disk w) = NoKey" "log_text (sw_disk w) = []" "sd_checkpoint (sw_disk w) = None" "sw_store w = None" "sw_sealed w = []"
    using assms(1) by (simp_all add: untouched_def)
  have nr: "\<not> log_has_records (sd_log (sw_disk w))" using u(2) by (simp add: log_has_records_def log_text_def split: option.splits)
  have same: "sw_disk w \<lparr>sd_key := NoKey\<rparr> = sw_disk w" using u(1) by simp
  show ?thesis
  proof (cases "oe_dir_error env = None \<and> (\<exists>b. oe_fresh_key env = Inr b)")
    case False
    then show ?thesis using assms(3) u(1) nr same
      by (cases "oe_fresh_key env") (auto simp: open_in_def signer_load_or_create_def split: option.splits)
  next
    case True
    then obtain key where key: "oe_dir_error env = None" "oe_fresh_key env = Inr key" "length key = KEY_LEN" using assms(2) by blast
    obtain t where disk: "sw_disk w = \<lparr>sd_log = t, sd_checkpoint = None, sd_key = NoKey\<rparr>" using u by (cases "sw_disk w") simp
    have "open_in hmac co env (sw_disk w \<lparr>sd_key := KeyAt 384 key\<rparr>) = (res, d)"
      using assms(3) key nr unfolding disk
      by (cases "fst (file_open hmac (co_log co) (oe_log_error env) key t)")
        (simp_all add: open_in_def signer_load_or_create_def signer_read_key_def case_prod_unfold)
    moreover have "world_fits hmac co R key [] (w\<lparr>sw_disk := sw_disk w \<lparr>sd_key := KeyAt 384 key\<rparr>\<rparr>)"
      using u key(3) file_holds.whole [OF legal_log.empty, of R hmac "co_log co" key]
      by (simp add: world_fits_def log_text_def checkpoint_fits_def)
    ultimately show ?thesis using key(3) by blast
  qed
qed

lemma run_fits:
  assumes "signer_run hmac co R w" and "\<forall>r \<in> R. codec_ok (co_log co) r \<and> cut_ok (co_log co) r"
  shows "untouched w \<or> (\<exists>key rs. world_fits hmac co R key rs w)"
  using assms(1)
proof induction
  case start
  then show ?case by (simp add: untouched_def log_text_def)
next
  case (open_store w env res d)
  let ?w = "w\<lparr>sw_disk := d, sw_store := (case res of Inl e \<Rightarrow> None | Inr s \<Rightarrow> Some s), sw_dirty := open_ended (log_text d)\<rparr>"
  from open_store.IH show ?case
  proof
    assume u: "untouched w"
    show ?thesis using open_untouched [OF u open_store.hyps(3,4), of R]
    proof
      assume "d = sw_disk w \<and> isl res"
      then have "untouched ?w" using u by (auto simp: untouched_def isl_def)
      then show ?thesis ..
    next
      assume "\<exists>key. length key = KEY_LEN \<and> open_in hmac co env (sw_disk w \<lparr>sd_key := KeyAt 384 key\<rparr>) = (res, d) \<and>
        world_fits hmac co R key [] (w\<lparr>sw_disk := sw_disk w \<lparr>sd_key := KeyAt 384 key\<rparr>\<rparr>)"
      then obtain key where key: "open_in hmac co env (sw_disk w \<lparr>sd_key := KeyAt 384 key\<rparr>) = (res, d)"
        "world_fits hmac co R key [] (w\<lparr>sw_disk := sw_disk w \<lparr>sd_key := KeyAt 384 key\<rparr>\<rparr>)" by blast
      then show ?thesis using open_keeps [OF key(2) _ assms(2)] open_store.hyps(2) by fastforce
    qed
  next
    assume "\<exists>key rs. world_fits hmac co R key rs w"
    then show ?thesis using open_keeps [OF _ open_store.hyps(2) assms(2) open_store.hyps(4)] by blast
  qed
next
  case (serve w s env req resp d s')
  then obtain key rs where "world_fits hmac co R key rs w" by (auto simp: untouched_def)
  then show ?case using serve_keeps [OF _ serve.hyps(2-5)] by blast
next
  case (stop w)
  then show ?case by (auto simp: untouched_def world_fits_def)
qed

definition quiet_open :: "open_env \<Rightarrow> bool" where
  "quiet_open env \<longleftrightarrow> oe_dir_error env = None \<and> oe_log_error env = None \<and> oe_read_error env = None \<and> oe_checkpoint env = CheckpointOk"

lemma length_render: "length rs \<le> length (render_from hmac c key prev rs)"
proof (induction rs arbitrary: prev)
  case (Cons r rs)
  show ?case using Cons [of "compute_chain_hash hmac key prev (uc_record c r)"] by simp
qed simp

lemma held_closed:
  assumes "file_holds hmac c key R content rs" and "\<forall>r \<in> R. codec_ok c r" and "\<not> open_ended content"
  shows "content = render hmac c key rs" "set rs \<subseteq> R" "legal_log rs"
proof -
  have "\<not> open_ended content \<Longrightarrow> content = render hmac c key rs \<and> set rs \<subseteq> R \<and> legal_log rs"
    using assms(1)
  proof cases
    case (unended rs' r)
    then have "line_ok (line_after hmac c key rs' r)" using assms(2) by (intro line_after_ok) auto
    then show "\<not> open_ended content \<Longrightarrow> ?thesis" unfolding unended(1) open_ended_def line_ok_def
      by (metis append_is_Nil_conv last_appendR last_in_set)
  next
    case (torn r k)
    then have "line_ok (line_after hmac c key rs r)" using assms(2) by (intro line_after_ok) auto
    then have "take k (line_after hmac c key rs r) \<noteq> []" "newline \<notin> set (take k (line_after hmac c key rs r))"
      using torn(5) by (auto simp: line_ok_def dest: in_set_takeD)
    then show "\<not> open_ended content \<Longrightarrow> ?thesis" unfolding torn(1) open_ended_def
      by (metis append_is_Nil_conv last_appendR last_in_set)
  qed auto
  then show "content = render hmac c key rs" "set rs \<subseteq> R" "legal_log rs" using assms(3) by blast+
qed

lemma checkpoint_accepted:
  assumes "checkpoint_fits hmac co key rs acked f" and "acked \<noteq> []" and "length rs < 2 ^ 64"
    and "\<forall>cp. kc_decode (co_checkpoint co) (kc_encode (co_checkpoint co) cp) = Inr cp" and "s = loaded key (zip rs (chain hmac (co_log co) key rs))"
  shows "assess_startup (checkpoint_read (co_checkpoint co) None f) b (head_at s (checkpoint_read (co_checkpoint co) None f)) = Consistent"
proof -
  obtain n where n: "n < length rs"
    "f = Some (kc_encode (co_checkpoint co) \<lparr>hc_count = of_nat (Suc n), hc_head_hex = hex (chain hmac (co_log co) key rs ! n)\<rparr>)"
    using assms(1,2) by (auto simp: checkpoint_fits_def split: option.splits)
  have u: "unat (of_nat n :: u64) = n" "unat (of_nat (Suc n) :: u64) = Suc n"
    using n(1) assms(3) by (simp_all only: unat_of_nat len_num1 len_num0 len_bit0 len_bit1) auto
  have "1 \<le> (of_nat (Suc n) :: u64)" using u(2) by (metis One_nat_def Suc_le_mono le0 unat_1 word_le_nat_alt)
  moreover have "of_nat (Suc n) - 1 = (of_nat n :: u64)" by simp
  ultimately show ?thesis
    using n assms(4) u(1) by (simp add: checkpoint_read_def assess_startup_def head_at_def hash_at_def assms(5) loaded_def del: of_nat_Suc)
qed


text \<open>What follows a part of a line spoils the file.\<close>

lemma spoiled_line:
  assumes "\<forall>r' \<in> set rs. codec_ok c r'" and "line_ok l" and "isl (uc_parse c l) \<or> (\<exists>r h. uc_parse c l = Inr (r, h) \<and>
    compute_chain_hash hmac key (head_after hmac c key rs) (uc_record c r) \<noteq> h)"
  shows "isl (load_log hmac c key (render hmac c key rs @ l @ newline # rest))"
  using load_render [OF assms(1), of hmac key "l @ newline # rest"] assms(3)
  unfolding text_lines_line [OF assms(2)] by (auto simp: isl_def)

lemma glued_line_ok: "line_ok l \<Longrightarrow> line_ok l' \<Longrightarrow> 0 < k \<Longrightarrow> line_ok (take k l @ l')"
  by (cases l; cases k) (auto simp: line_ok_def dest: in_set_takeD)

lemma spoiled_append:
  assumes rs: "\<forall>x \<in> set rs. codec_ok c x" and r: "codec_ok c r" "codec_ok c r'" "glue_ok c r r'" and "0 < k"
    and clash: "compute_chain_hash hmac key (compute_chain_hash hmac key (head_after hmac c key rs) (uc_record c r)) (uc_record c r') \<noteq>
      compute_chain_hash hmac key (head_after hmac c key rs) (uc_record c r')"
  shows "isl (load_log hmac c key (render hmac c key rs @ take k (line_after hmac c key rs r @ [newline]) @ line_after hmac c key rs r' @ newline # rest))"
proof (cases "k \<le> length (line_after hmac c key rs r)")
  case True
  have "line_ok (take k (line_after hmac c key rs r) @ line_after hmac c key rs r')"
    using r(1,2) assms(5) by (intro glued_line_ok line_after_ok)
  moreover have "isl (uc_parse c (take k (line_after hmac c key rs r) @ line_after hmac c key rs r'))"
    using r(3) assms(5) by (simp add: glue_ok_def line_after_def)
  ultimately show ?thesis using spoiled_line [OF rs] True by fastforce
next
  case False
  have rs': "\<forall>x \<in> set (rs @ [r]). codec_ok c x" using rs r(1) by simp
  have "head_after hmac c key (rs @ [r]) = compute_chain_hash hmac key (head_after hmac c key rs) (uc_record c r)"
    by (simp add: head_after_def chain_snoc)
  then have "isl (load_log hmac c key (render hmac c key (rs @ [r]) @ line_after hmac c key rs r' @ newline # rest))"
    using clash r(2) by (intro spoiled_line [OF rs'] line_after_ok) (simp_all add: line_after_def codec_ok_def)
  then show ?thesis using False by (simp add: render_line)
qed

text \<open>
  C34. One interrupted append can cost the log: when an append fails after some of its bytes reached
  the file and the same process then acknowledges another record, the file never opens again,
  whatever is appended to it afterwards, although every call of the opening succeeds.
\<close>

theorem append_after_failed_append_loses_the_log:
  assumes run: "signer_run hmac co R w" and up: "sw_store w = Some s" and clean: "\<not> sw_dirty w"
    and failed: "dispatch hmac co env req (sw_disk w) s = (resp, d, s)" "log_text d \<noteq> log_text (sw_disk w)" "set_option (submitted env req) \<subseteq> R"
    and acked: "dispatch hmac co env' req' d s = (Sealed, d', s')" "set_option (submitted env' req') \<subseteq> R"
    and codec: "\<forall>r \<in> R. codec_ok (co_log co) r \<and> cut_ok (co_log co) r \<and> (\<forall>r' \<in> R. glue_ok (co_log co) r r')"
    and clash: "\<forall>r \<in> R. \<forall>r' \<in> R.
      compute_chain_hash hmac (fl_key s) (compute_chain_hash hmac (fl_key s) (head_hash s) (uc_record (co_log co) r)) (uc_record (co_log co) r') \<noteq>
      compute_chain_hash hmac (fl_key s) (head_hash s) (uc_record (co_log co) r')"
  shows "isl (fst (open_in hmac co env'' (d'\<lparr>sd_log := Some (log_text d' @ rest)\<rparr>)))"
proof -
  have cc: "\<forall>r \<in> R. codec_ok (co_log co) r \<and> cut_ok (co_log co) r" using codec by blast
  obtain key rs where fits: "world_fits hmac co R key rs w" using run_fits [OF run cc] up by (auto simp: untouched_def)
  then have st: "store_fits hmac co R key rs (log_text (sw_disk w)) (sw_sealed w) False s" using up clean by (auto simp: world_fits_def)
  then have s: "fl_key s = key" "rs = fl_log s" "log_text (sw_disk w) = render hmac (co_log co) key rs" "set rs \<subseteq> R"
    "head_hash s = head_after hmac (co_log co) key rs" by (auto simp: store_fits_def store_head)
  obtain label r res where r: "submitted env req = Some r" "seal hmac co env label r (sw_disk w) s = (res, d, s)"
    using dispatch_result [OF failed(1)] failed(2) by auto
  obtain k where k: "sd_key d = sd_key (sw_disk w)" "log_text d = log_text (sw_disk w) @ take k (line_after hmac (co_log co) key rs r @ [newline])"
    using seal_result [OF r(2)] s by (cases s) (auto simp: line_after_def)
  obtain label' r' res' where r': "submitted env' req' = Some r'" "seal hmac co env' label' r' d s = (res', d', s')" "res' = Inr ()"
    using dispatch_result [OF acked(1)] by auto
  have d': "sd_key d' = sd_key d" "log_text d' = log_text d @ line_after hmac (co_log co) key rs r' @ [newline]"
    using seal_result [OF r'(2)] r'(3) s by (auto simp: line_after_def)
  have rR: "r \<in> R" "r' \<in> R" using r(1) r'(1) failed(3) acked(2) by simp_all
  have "0 < k" using k(2) failed(2) by (cases k) auto
  then have "isl (load_log hmac (co_log co) key (log_text d' @ rest))"
    using spoiled_append [of rs "co_log co" r r' k hmac key rest] codec rR clash s unfolding d'(2) k(2) s(3) by auto
  moreover have "sd_key d' = KeyAt 384 key" "length key = KEY_LEN" using fits k(1) d'(1) by (simp_all add: world_fits_def)
  moreover have "log_text (d'\<lparr>sd_log := Some (log_text d' @ rest)\<rparr>) = log_text d' @ rest" by (simp add: log_text_def)
  ultimately show ?thesis
    by (cases "fst (open_in hmac co env'' (d'\<lparr>sd_log := Some (log_text d' @ rest)\<rparr>))")
      (auto simp: prod_eq_iff isl_def dest: open_result(4) [rotated 2, OF prod.collapse [symmetric]])
qed

section \<open>A codec with these laws\<close>

text \<open>Two records, each named by a letter; a hash in binary and a full stop after it.\<close>

definition demo_entry :: undo_entry where
  "demo_entry = \<lparr>ue_op_id = ''op'', ue_correlation_id = ''run'', ue_inverse = RestorePath ''/b'' ''/a''\<rparr>"

definition demo_records :: "log_record set" where
  "demo_records = {Created demo_entry 5, Transition ''op'' Committed}"

definition bit_char :: "bool \<Rightarrow> char" where
  "bit_char b = (if b then CHR ''1'' else CHR ''0'')"

fun byte_text :: "char \<Rightarrow> string" where
  "byte_text (Char a b c d e f g h) = map bit_char [a, b, c, d, e, f, g, h]"

definition is_bit :: "char \<Rightarrow> bool" where
  "is_bit c \<longleftrightarrow> c = CHR ''0'' \<or> c = CHR ''1''"

fun read_bytes :: "string \<Rightarrow> bytes option" where
  "read_bytes (a # b # c # d # e # f # g # h # s) =
     (if list_all is_bit [a, b, c, d, e, f, g, h] then
        map_option (Cons (Char (a = CHR ''1'') (b = CHR ''1'') (c = CHR ''1'') (d = CHR ''1'')
          (e = CHR ''1'') (f = CHR ''1'') (g = CHR ''1'') (h = CHR ''1''))) (read_bytes s) else None)"
| "read_bytes s = (if s = ''.'' then Some [] else None)"

fun demo_line :: "log_record \<times> bytes \<Rightarrow> string" where
  "demo_line (r, h) = (if r = Created demo_entry 5 then CHR ''c'' else CHR ''t'') # concat (map byte_text h) @ ''.''"

definition demo_parse :: "string \<Rightarrow> string + log_record \<times> bytes" where
  "demo_parse l =
     (case l of [] \<Rightarrow> Inl ''EOF''
      | x # s \<Rightarrow> (case read_bytes s of None \<Rightarrow> Inl ''expected value''
          | Some h \<Rightarrow> if x = CHR ''c'' then Inr (Created demo_entry 5, h)
              else if x = CHR ''t'' then Inr (Transition ''op'' Committed, h) else Inl ''unknown variant''))"

definition demo_codec :: undo_codec where
  "demo_codec = \<lparr>uc_record = (\<lambda>r. if r = Created demo_entry 5 then ''c'' else ''t''), uc_line = demo_line, uc_parse = demo_parse\<rparr>"

definition demo_checkpoint_codec :: checkpoint_codec where
  "demo_checkpoint_codec = \<lparr>kc_encode = (\<lambda>cp. replicate (unat (hc_count cp)) CHR ''x'' @ CHR ''.'' # hc_head_hex cp),
     kc_decode = (\<lambda>b. Inr \<lparr>hc_count = of_nat (length (takeWhile (\<lambda>x. x = CHR ''x'') b)), hc_head_hex = tl (dropWhile (\<lambda>x. x = CHR ''x'') b)\<rparr>)\<rparr>"

definition demo_codecs :: signer_codecs where
  "demo_codecs = \<lparr>co_log = demo_codec, co_checkpoint = demo_checkpoint_codec\<rparr>"

lemma demo_checkpoint_reads_back: "kc_decode (co_checkpoint demo_codecs) (kc_encode (co_checkpoint demo_codecs) cp) = Inr cp"
  by (simp add: demo_codecs_def demo_checkpoint_codec_def takeWhile_append dropWhile_append)

lemma is_bit_char [simp]: "is_bit (bit_char b)"
  by (simp add: is_bit_def bit_char_def)

lemma read_bytes_chars: "read_bytes s = Some h \<Longrightarrow> (\<forall>c \<in> set s. is_bit c \<or> c = CHR ''.'') \<and> CHR ''.'' \<in> set s"
  by (induction s arbitrary: h rule: read_bytes.induct) (auto split: if_splits)

lemma read_bytes_text: "read_bytes (concat (map byte_text h) @ ''.'') = Some h"
proof (induction h)
  case (Cons x h)
  then show ?case by (cases x) (simp add: bit_char_def [abs_def] is_bit_def)
qed simp

lemma byte_text_chars: "\<forall>c \<in> set (concat (map byte_text h)). is_bit c"
proof (induction h)
  case (Cons x h)
  then show ?case by (cases x) auto
qed simp

lemma length_byte_text: "length (concat (map byte_text h)) = 8 * length h"
proof (induction h)
  case (Cons x h)
  then show ?case by (cases x) auto
qed simp

lemma length_demo_line: "length (demo_line (r, h)) = 8 * length h + 2"
  using length_byte_text [of h] by simp

lemma demo_parse_chars: "demo_parse (x # s) = Inr y \<Longrightarrow> (\<forall>c \<in> set s. is_bit c \<or> c = CHR ''.'') \<and> CHR ''.'' \<in> set s"
  by (auto simp: demo_parse_def dest: read_bytes_chars split: option.splits)

lemma demo_undo_codec_ok:
  assumes "r \<in> demo_records"
  shows "codec_ok demo_codec r"
proof -
  have "demo_parse (demo_line (r, h)) = Inr (r, h)" for h
    using assms by (auto simp: demo_parse_def read_bytes_text demo_records_def)
  moreover have "line_ok (demo_line (r, h))" for h
  proof -
    have "\<not> is_bit newline" "\<not> is_whitespace CHR ''c''" "\<not> is_whitespace CHR ''t''"
      by (simp_all add: is_bit_def newline_def is_whitespace_def)
    then have "newline \<notin> set (concat (map byte_text h))" using byte_text_chars [of h] by blast
    then show ?thesis by (simp add: line_ok_def newline_def is_whitespace_def del: set_concat)
  qed
  ultimately show ?thesis by (simp add: codec_ok_def demo_codec_def)
qed

lemma demo_cut_ok: "cut_ok demo_codec r"
proof -
  have "isl (demo_parse (take k (demo_line (r, h))))" if k: "0 < k" "k < length (demo_line (r, h))" for k h
  proof -
    obtain x where x: "demo_line (r, h) = x # concat (map byte_text h) @ ''.''" by simp
    obtain j where j: "k = Suc j" "j \<le> length (concat (map byte_text h))" using k unfolding x by (cases k) simp_all
    then have "take k (demo_line (r, h)) = x # take j (concat (map byte_text h))" unfolding x by simp
    moreover have "CHR ''.'' \<notin> set (take j (concat (map byte_text h)))"
      using byte_text_chars [of h] in_set_takeD unfolding is_bit_def by fastforce
    ultimately show ?thesis
      using demo_parse_chars [of x "take j (concat (map byte_text h))"]
      by (cases "demo_parse (take k (demo_line (r, h)))") (metis sum.disc(1), metis)
  qed
  then show ?thesis by (simp add: cut_ok_def demo_codec_def)
qed

lemma demo_glue_ok: "glue_ok demo_codec r r'"
proof -
  have "isl (demo_parse (take k (demo_line (r, h)) @ demo_line (r', h')))" if "0 < k" for k h h'
  proof -
    obtain j where "k = Suc j" using \<open>0 < k\<close> by (cases k) simp_all
    then obtain x s where "take k (demo_line (r, h)) = x # s" by simp
    moreover have "\<not> (\<forall>c \<in> set (s @ demo_line (r', h')). is_bit c \<or> c = CHR ''.'')" by (auto simp: is_bit_def)
    ultimately show ?thesis using demo_parse_chars [of x "s @ demo_line (r', h')"]
      by (cases "demo_parse (take k (demo_line (r, h)) @ demo_line (r', h'))") (simp, metis append_Cons)
  qed
  then show ?thesis by (simp add: glue_ok_def demo_codec_def)
qed

section \<open>The properties at concrete inputs\<close>

definition demo_hmac :: "bytes \<Rightarrow> bytes \<Rightarrow> bytes" where "demo_hmac key msg = key @ msg"

definition demo_key :: bytes where "demo_key = replicate 32 CHR ''k''"

definition demo_open :: open_env where
  "demo_open = \<lparr>oe_dir_error = None, oe_fresh_key = Inr demo_key, oe_log_error = None, oe_read_error = None, oe_checkpoint = CheckpointOk\<rparr>"

definition demo_seal :: "append_outcome \<Rightarrow> seal_env" where
  "demo_seal out = \<lparr>se_now = 5, se_append = out, se_checkpoint = CheckpointOk\<rparr>"

definition demo_disk :: signer_disk where
  "demo_disk = \<lparr>sd_log = Some [], sd_checkpoint = None, sd_key = KeyAt 384 demo_key\<rparr>"

definition demo_store :: file_undo_log where
  "demo_store = \<lparr>fl_key = demo_key, fl_hashes = [], fl_log = []\<rparr>"

definition demo_world :: signer_world where
  "demo_world = \<lparr>sw_disk = demo_disk, sw_store = Some demo_store, sw_sealed = [], sw_dirty = False\<rparr>"

text \<open>A submission of the demonstration entry, on a disk that behaves as told.\<close>

definition demo_submit :: "append_outcome \<Rightarrow> signer_disk \<Rightarrow> undo_response \<times> signer_disk \<times> file_undo_log" where
  "demo_submit out d = dispatch demo_hmac demo_codecs (demo_seal out) (SubmitCreated demo_entry) d demo_store"

lemma demo_undo_run: "signer_run demo_hmac demo_codecs demo_records demo_world"
proof -
  have "open_in demo_hmac demo_codecs demo_open \<lparr>sd_log = None, sd_checkpoint = None, sd_key = NoKey\<rparr> = (Inr demo_store, demo_disk)"
    by (simp add: open_in_def demo_open_def signer_load_or_create_def log_has_records_def file_open_def load_log_def
        checkpoint_read_def assess_startup_def demo_store_def demo_disk_def record_count_def Let_def)
  moreover have "length demo_key = KEY_LEN" by (simp add: demo_key_def KEY_LEN_def)
  ultimately show ?thesis
    using signer_run.open_store [OF signer_run.start, of demo_open demo_hmac demo_codecs "Inr demo_store" demo_disk demo_records]
    by (simp add: demo_open_def demo_world_def open_ended_def log_text_def demo_disk_def)
qed

lemma demo_codec_laws: "\<forall>r \<in> demo_records. codec_ok (co_log demo_codecs) r \<and> cut_ok (co_log demo_codecs) r \<and> (\<forall>r' \<in> demo_records. glue_ok (co_log demo_codecs) r r')"
  by (simp add: demo_codecs_def demo_undo_codec_ok demo_cut_ok demo_glue_ok)

lemma demo_submitted: "set_option (submitted (demo_seal out) (SubmitCreated demo_entry)) \<subseteq> demo_records"
  by (simp add: submitted_def demo_seal_def demo_records_def)

definition demo_turns :: "turn list" where
  "demo_turns = map (\<lambda>req. \<lparr>tu_alive = True, tu_request = Some req, tu_env = demo_seal AppendOk, tu_written = True\<rparr>)
     [SubmitCreated demo_entry, RequestTransition ''op'' Committed, RequestTransition ''op'' Aborted, LookupState ''op'', ListRecent 3]"

theorem signer_answers_as_a_table_witness:
  "list_all2 agrees (fst (serve_requests demo_hmac demo_codecs demo_turns demo_disk demo_store)) (fst (spec_session demo_turns [])) \<and>
   map (\<lambda>x. snd (snd x)) (table_of (fl_log (snd (snd (serve_requests demo_hmac demo_codecs demo_turns demo_disk demo_store))))) = [Committed]"
proof -
  have "legal_log (fl_log demo_store)" by (simp add: demo_store_def legal_log.empty)
  moreover have "\<forall>t \<in> set demo_turns. quiet_disk (tu_env t)" by (simp add: demo_turns_def quiet_disk_def demo_seal_def)
  moreover have "map (\<lambda>x. snd (snd x)) (snd (spec_session demo_turns [])) = [Committed]"
    by (simp add: demo_turns_def spec_turn_def validate_def check_id_def demo_entry_def MAX_OP_ID_LEN_def MAX_CORRELATION_ID_LEN_def
        spec_answer_def row_of_def op_of_def can_transition_to_def is_terminal_def MAX_RECENT_def)
  ultimately show ?thesis
    using signer_answers_as_a_table [of demo_store demo_turns demo_hmac demo_codecs demo_disk]
    by (metis demo_store_def file_undo_log.select_convs(3) prod.collapse table_of_snoc(1))
qed

theorem append_after_failed_append_loses_the_log_witness:
  "fst (demo_submit AppendOk (fst (snd (demo_submit (AppendFails 1 ''No space left on device'') demo_disk)))) = Sealed \<and>
   isl (fst (open_in demo_hmac demo_codecs demo_open
     (fst (snd (demo_submit AppendOk (fst (snd (demo_submit (AppendFails 1 ''No space left on device'') demo_disk)))))
       \<lparr>sd_log := Some (log_text (fst (snd (demo_submit AppendOk (fst (snd (demo_submit (AppendFails 1 ''No space left on device'') demo_disk)))))) @ [])\<rparr>)))"
proof -
  let ?a = "demo_submit (AppendFails 1 ''No space left on device'') demo_disk"
  let ?b = "demo_submit AppendOk (fst (snd ?a))"
  have a: "snd (snd ?a) = demo_store" "log_text (fst (snd ?a)) \<noteq> log_text demo_disk"
    by (simp_all add: demo_submit_def dispatch_def submit_created_def log_entry_def demo_store_def sealed_reply_def seal_def
        append_record_def demo_seal_def log_text_def demo_disk_def demo_codecs_def demo_codec_def Let_def)
  have b: "fst ?b = Sealed"
    by (simp add: demo_submit_def dispatch_def submit_created_def log_entry_def demo_store_def sealed_reply_def seal_def
        append_record_def demo_seal_def write_checkpoint_def checkpoint_write_def Let_def case_prod_unfold)
  have fresh: "compute_chain_hash demo_hmac k (compute_chain_hash demo_hmac k h (uc_record (co_log demo_codecs) r)) m \<noteq> compute_chain_hash demo_hmac k h m" for k h r m
    by (simp add: compute_chain_hash_def demo_hmac_def demo_codecs_def demo_codec_def)
  show ?thesis
    using append_after_failed_append_loses_the_log [OF demo_undo_run, of demo_store "demo_seal (AppendFails 1 ''No space left on device'')" "SubmitCreated demo_entry"
        "fst ?a" "fst (snd ?a)" "demo_seal AppendOk" "SubmitCreated demo_entry" "fst (snd ?b)" "snd (snd ?b)" demo_open "[]"]
      a b demo_codec_laws demo_submitted fresh
    by (simp add: demo_world_def demo_submit_def [symmetric] prod_eq_iff del: append_Nil2)
qed

text \<open>The demonstration world once a submission was acknowledged.\<close>

definition demo_sealed_world :: signer_world where
  "demo_sealed_world = demo_world\<lparr>sw_disk := fst (snd (demo_submit AppendOk demo_disk)), sw_store := Some (snd (snd (demo_submit AppendOk demo_disk))),
     sw_sealed := [Created demo_entry 5]\<rparr>"

lemma demo_submit_ok:
  "fst (demo_submit AppendOk demo_disk) = Sealed"
  "fl_log (snd (snd (demo_submit AppendOk demo_disk))) = [Created demo_entry 5]"
  "log_text (fst (snd (demo_submit AppendOk demo_disk))) = line_after demo_hmac demo_codec demo_key [] (Created demo_entry 5) @ [newline]"
  by (simp_all add: demo_submit_def dispatch_def submit_created_def log_entry_def demo_store_def sealed_reply_def seal_def
      append_record_def demo_seal_def write_checkpoint_def checkpoint_write_def log_text_def demo_disk_def demo_codecs_def
      line_after_def head_after_def head_hash_def Let_def)

lemma demo_sealed_run: "signer_run demo_hmac demo_codecs demo_records demo_sealed_world"
proof -
  have "dispatch demo_hmac demo_codecs (demo_seal AppendOk) (SubmitCreated demo_entry) (sw_disk demo_world) demo_store =
      (Sealed, fst (snd (demo_submit AppendOk demo_disk)), snd (snd (demo_submit AppendOk demo_disk)))"
    using demo_submit_ok(1) by (simp add: demo_submit_def demo_world_def prod_eq_iff)
  from signer_run.serve [OF demo_undo_run _ this demo_submitted] demo_submit_ok(2) show ?thesis
    by (simp add: demo_world_def demo_sealed_world_def demo_store_def)
qed


end
