(* ===== verification/Undo_Chain.thy ===== *)
theory Undo_Chain
  imports Undo_Runs
begin

text \<open>
  What the hash chain of the undo log and its checkpoint protect: a store that opens holds the
  checkpointed log as its first part, whoever wrote the file it was read from.
\<close>

section \<open>The undo log as a chained log\<close>

definition record_message :: "undo_codec \<Rightarrow> bytes \<Rightarrow> log_record \<Rightarrow> bytes" where
  "record_message c prev r = prev @ uc_record c r"

text \<open>No other record has the same text.\<close>

definition record_ok :: "undo_codec \<Rightarrow> log_record \<Rightarrow> bool" where
  "record_ok c r \<longleftrightarrow> (\<forall>r'. uc_record c r' = uc_record c r \<longrightarrow> r' = r)"

interpretation undo_chain: chained_log "record_message c" "record_ok c" "\<lambda>h. length h = 32" for c
  by unfold_locales (auto simp: record_message_def record_ok_def)

lemma chain_hash_message: "compute_chain_hash hmac key prev (uc_record c r) = hmac key (record_message c prev r)"
  by (simp add: compute_chain_hash_def record_message_def)

lemma chain_nth:
  assumes "i < length rs"
  shows "chain_from hmac c key prev rs ! i = undo_chain.link c (hmac key) prev (take (Suc i) rs)"
  using assms
proof (induction rs arbitrary: prev i)
  case (Cons r rs)
  then show ?case by (cases i) (simp_all add: chain_hash_message)
qed simp

text \<open>Loading verifies: what was read is chained, whatever the lines were.\<close>

lemma load_from_chained:
  assumes "load_from hmac c key i prev ls = Inr xs"
  shows "map snd xs = chain_from hmac c key prev (map fst xs)"
  using assms
proof (induction ls arbitrary: i prev xs)
  case (Cons l ls)
  then obtain r h where l: "uc_parse c l = Inr (r, h)" "compute_chain_hash hmac key prev (uc_record c r) = h"
    by (auto split: sum.splits if_splits)
  then obtain ys where "load_from hmac c key (i + 1) h ls = Inr ys" "xs = (r, h) # ys"
    using Cons.prems by (cases "load_from hmac c key (i + 1) h ls") auto
  then show ?case using Cons.IH l(2) by simp
qed simp

lemma open_chained:
  assumes "open_in hmac co env d = (Inr s, d')"
  shows "fl_hashes s = chain hmac (co_log co) (fl_key s) (fl_log s) \<and>
    (let cp_read = checkpoint_read (co_checkpoint co) (oe_read_error env) (sd_checkpoint d)
     in \<not> (\<exists>m. assess_startup cp_read (record_count s = 0) (head_at s cp_read) = Tampered m))"
proof -
  obtain key k where key: "signer_load_or_create (oe_fresh_key env) (sd_key d) (log_has_records (sd_log d)) = (Inr key, k)"
    using assms by (auto simp: open_in_def split: option.splits prod.splits sum.splits)
  obtain f where f: "file_open hmac (co_log co) (oe_log_error env) key (sd_log d) = (Inr s, f)"
    and cp: "let cp_read = checkpoint_read (co_checkpoint co) (oe_read_error env) (sd_checkpoint d)
     in \<not> (\<exists>m. assess_startup cp_read (record_count s = 0) (head_at s cp_read) = Tampered m)"
    using assms by (auto simp: open_in_def key Let_def split: option.splits prod.splits sum.splits startup_check.splits if_splits)
  obtain xs where "load_log hmac (co_log co) key (case sd_log d of None \<Rightarrow> [] | Some t \<Rightarrow> t) = Inr xs" "s = loaded key xs"
    using f by (cases "load_log hmac (co_log co) key (case sd_log d of None \<Rightarrow> [] | Some t \<Rightarrow> t)")
      (auto simp: file_open_def loaded_def Let_def split: option.splits)
  then show ?thesis using load_from_chained cp by (simp add: load_log_def loaded_def)
qed

definition log_messages :: "(bytes \<Rightarrow> bytes \<Rightarrow> bytes) \<Rightarrow> undo_codec \<Rightarrow> bytes \<Rightarrow> undo_log \<Rightarrow> bytes set" where
  "log_messages hmac c key rs = set (undo_chain.messages c (hmac key) GENESIS_PREV_HASH rs)"

text \<open>
  C28. The checkpoint pins the undo log: when a store opens on a disk whose checkpoint was written for
  some log, the opened log begins with exactly that log, whatever bytes the log file held, unless two
  of the chained messages collide under the key.
\<close>

theorem checkpoint_pins_the_undo_log:
  assumes opened: "open_in hmac co env d = (Inr s, d')" and read: "oe_read_error env = None"
    and cp: "sd_checkpoint d = Some (kc_encode (co_checkpoint co) (head_of s0))"
    and s0: "fl_hashes s0 = chain hmac (co_log co) (fl_key s) (fl_log s0)" "fl_log s0 \<noteq> []" "length (fl_log s0) < 2 ^ 64"
    and codec: "\<forall>x. kc_decode (co_checkpoint co) (kc_encode (co_checkpoint co) x) = Inr x"
    and records: "\<forall>r \<in> set (fl_log s0) \<union> set (fl_log s). record_ok (co_log co) r"
    and mac: "\<forall>m. length (hmac (fl_key s) m) = 32"
    and collide: "inj_on (hmac (fl_key s)) (log_messages hmac (co_log co) (fl_key s) (fl_log s0) \<union>
      log_messages hmac (co_log co) (fl_key s) (take (length (fl_log s0)) (fl_log s)))"
  shows "take (length (fl_log s0)) (fl_log s) = fl_log s0"
proof -
  obtain n where n: "length (fl_log s0) = Suc n" using s0(2) by (cases "fl_log s0") auto
  have u: "unat (of_nat n :: u64) = n" "(of_nat (Suc n) :: u64) - 1 = of_nat n" using n s0(3) by (simp_all add: unat_of_nat)
  have "unat (of_nat (Suc n) :: u64) = Suc n" using n s0(3) by (simp only: unat_of_nat len_num1 len_num0 len_bit0 len_bit1) auto
  then have ge: "1 \<le> (of_nat (Suc n) :: u64)" by (metis One_nat_def Suc_le_mono le0 unat_1 word_le_nat_alt)
  have count: "hc_count (head_of s0) = of_nat (Suc n)" "hc_head_hex (head_of s0) = hex (head_hash s0)"
    using s0(1) n by (simp_all add: head_of_def record_count_def)
  have "hash_at s n = Some (head_hash s0)"
    using open_chained [OF opened] ge u count hex_inj
    by (auto simp: cp codec checkpoint_read_def read assess_startup_def head_at_def Let_def simp del: of_nat_Suc split: option.splits if_splits)
  moreover have "chain hmac (co_log co) (fl_key s) (fl_log s0) \<noteq> []" using s0(2) by (cases "fl_log s0") simp_all
  ultimately have "n < length (fl_log s)" "chain hmac (co_log co) (fl_key s) (fl_log s) ! n = chain hmac (co_log co) (fl_key s) (fl_log s0) ! n"
    using open_chained [OF opened] s0(1) n length_chain [of hmac "co_log co" "fl_key s" GENESIS_PREV_HASH "fl_log s0"]
    by (auto simp: hash_at_def head_hash_def last_conv_nth split: if_splits)
  then have "undo_chain.link (co_log co) (hmac (fl_key s)) GENESIS_PREV_HASH (take (Suc n) (fl_log s)) =
      undo_chain.link (co_log co) (hmac (fl_key s)) GENESIS_PREV_HASH (fl_log s0)"
    using n by (simp add: chain_nth)
  then show ?thesis
    using records mac collide n \<open>n < length (fl_log s)\<close> unfolding log_messages_def
    by (intro undo_chain.same_head_same_log [where mac = "hmac (fl_key s)" and p = GENESIS_PREV_HASH])
      (auto simp: list_all_iff GENESIS_PREV_HASH_def Un_commute dest: in_set_takeD)
qed

text \<open>A MAC of fixed length for the instance.\<close>

definition demo_mac :: "bytes \<Rightarrow> bytes \<Rightarrow> bytes" where
  "demo_mac key m = take 32 (rev m @ replicate 32 CHR 0x00)"

definition demo_head :: file_undo_log where
  "demo_head = \<lparr>fl_key = demo_key, fl_hashes = chain demo_mac demo_codec demo_key [Created demo_entry 5], fl_log = [Created demo_entry 5]\<rparr>"

definition demo_head_disk :: signer_disk where
  "demo_head_disk = \<lparr>sd_log = Some (render demo_mac demo_codec demo_key [Created demo_entry 5]),
     sd_checkpoint = Some (kc_encode demo_checkpoint_codec (head_of demo_head)), sd_key = KeyAt 384 demo_key\<rparr>"

lemma demo_head_opens:
  "open_in demo_mac demo_codecs demo_open demo_head_disk = (Inr demo_head, snd (open_in demo_mac demo_codecs demo_open demo_head_disk))"
proof -
  let ?rs = "[Created demo_entry 5]"
  have co: "co_log demo_codecs = demo_codec" "co_checkpoint demo_codecs = demo_checkpoint_codec" by (simp_all add: demo_codecs_def)
  have loaded: "loaded demo_key (zip ?rs (chain demo_mac demo_codec demo_key ?rs)) = demo_head" by (simp add: loaded_def demo_head_def)
  have load: "load_log demo_mac (co_log demo_codecs) demo_key (log_text demo_head_disk) = Inr (zip ?rs (chain demo_mac demo_codec demo_key ?rs))"
    unfolding co demo_head_disk_def log_text_def signer_disk.simps option.case
    by (intro load_whole) (simp add: demo_undo_codec_ok demo_records_def)
  have "checkpoint_fits demo_mac demo_codecs demo_key ?rs ?rs (sd_checkpoint demo_head_disk)"
    using checkpoint_fits_head [of demo_head demo_mac demo_codecs demo_key] by (simp add: demo_head_disk_def demo_head_def co)
  then have cp: "assess_startup (checkpoint_read demo_checkpoint_codec None (sd_checkpoint demo_head_disk)) False
      (head_at demo_head (checkpoint_read demo_checkpoint_codec None (sd_checkpoint demo_head_disk))) = Consistent"
    using checkpoint_accepted [of demo_mac demo_codecs demo_key ?rs ?rs _ demo_head] demo_checkpoint_reads_back loaded by (simp add: co)
  have "fst (open_in demo_mac demo_codecs demo_open demo_head_disk) = Inr demo_head"
    using cp loaded by (subst open_loaded [OF _ _ _ load])
      (simp_all add: demo_head_disk_def KEY_LEN_def demo_key_def demo_open_def co write_checkpoint_def checkpoint_write_def Let_def)
  then show ?thesis by (simp add: prod_eq_iff)
qed

theorem checkpoint_pins_the_undo_log_witness:
  "fst (open_in demo_mac demo_codecs demo_open demo_head_disk) = Inr demo_head \<and> take (length (fl_log demo_head)) (fl_log demo_head) = fl_log demo_head"
proof
  show "fst (open_in demo_mac demo_codecs demo_open demo_head_disk) = Inr demo_head" using demo_head_opens by (metis fst_conv)
  have log: "fl_log demo_head = [Created demo_entry 5]" "fl_key demo_head = demo_key" by (simp_all add: demo_head_def)
  show "take (length (fl_log demo_head)) (fl_log demo_head) = fl_log demo_head"
  proof (rule checkpoint_pins_the_undo_log [OF demo_head_opens])
    show "oe_read_error demo_open = None" by (simp add: demo_open_def)
    show "sd_checkpoint demo_head_disk = Some (kc_encode (co_checkpoint demo_codecs) (head_of demo_head))"
      by (simp add: demo_head_disk_def demo_codecs_def)
    show "fl_hashes demo_head = chain demo_mac (co_log demo_codecs) (fl_key demo_head) (fl_log demo_head)"
      unfolding log by (simp add: demo_head_def demo_codecs_def)
    show "fl_log demo_head \<noteq> []" "length (fl_log demo_head) < 2 ^ 64" unfolding log by simp_all
    show "\<forall>x. kc_decode (co_checkpoint demo_codecs) (kc_encode (co_checkpoint demo_codecs) x) = Inr x" using demo_checkpoint_reads_back by blast
    show "\<forall>r \<in> set (fl_log demo_head) \<union> set (fl_log demo_head). record_ok (co_log demo_codecs) r"
      unfolding log by (simp add: demo_codecs_def record_ok_def demo_codec_def)
    show "\<forall>m. length (demo_mac (fl_key demo_head) m) = 32" by (auto simp: demo_mac_def min_def)
    show "inj_on (demo_mac (fl_key demo_head)) (log_messages demo_mac (co_log demo_codecs) (fl_key demo_head) (fl_log demo_head) \<union>
        log_messages demo_mac (co_log demo_codecs) (fl_key demo_head) (take (length (fl_log demo_head)) (fl_log demo_head)))"
      unfolding log log_messages_def by simp
  qed
qed

end
