(* ===== verification/Trash.thy ===== *)
theory Trash
  imports Undo_Log
begin

text \<open>
  The trash (\<open>contracts/freedesktop-trash/src/lib.rs\<close>): moving a file into the trash of its volume
  without overwriting anything, and the record that says where it came from.

  The files are a map from canonical absolute paths to what is there, taken as a whole; a directory
  that moves with its contents is one such entry. What the kernel refuses, and which calls fail, is
  chosen by arguments. The devices of paths, which of them are directories, and creating a
  directory are arguments too.
\<close>

section \<open>Paths\<close>

type_synonym files = "string \<Rightarrow> bytes option"

text \<open>\<open>Path::file_name\<close> and \<open>Path::parent\<close>, for absolute paths without empty components.\<close>

definition file_name :: "string \<Rightarrow> string option" where
  "file_name p = (case rsplit_once CHR ''/'' p of Some (_, n) \<Rightarrow> if n = [] \<or> n = ''..'' then None else Some n | None \<Rightarrow> None)"

definition path_parent :: "string \<Rightarrow> string option" where
  "path_parent p = (case rsplit_once CHR ''/'' p of
     Some (d, n) \<Rightarrow> if n = [] then None else Some (if d = [] then ''/'' else d) | None \<Rightarrow> None)"

lemma path_parent_shorter: "path_parent p = Some q \<Longrightarrow> length q < length p"
  by (auto simp: path_parent_def rsplit_once_Some split: option.splits if_splits)

section \<open>Moving without overwriting\<close>

text \<open>The errors of the kernel that the code tells apart.\<close>

datatype errno = EEXIST | EINVAL | ENOSYS | EOPNOTSUPP | EXDEV | Eother string

definition ENOENT_text :: string where
  "ENOENT_text = ''No such file or directory (os error 2)''"

text \<open>\<open>renameat2\<close> with \<open>RENAME_NOREPLACE\<close>: it may fail for a reason of its own; otherwise the source has to be there, and
  the target not.\<close>

definition kernel_rename_noreplace :: "errno option \<Rightarrow> string \<Rightarrow> string \<Rightarrow> files \<Rightarrow> (errno + unit) \<times> files" where
  "kernel_rename_noreplace fault src dst fs =
     (case fault of
        Some e \<Rightarrow> (Inl e, fs)
      | None \<Rightarrow>
          (case fs src of
             None \<Rightarrow> (Inl (Eother ENOENT_text), fs)
           | Some b \<Rightarrow> if fs dst \<noteq> None then (Inl EEXIST, fs) else (Inr (), fs(src := None, dst := Some b))))"

datatype rename_error = DestinationExists | RenameUnsupported | RenameCrossDevice | RenameOther string

fun errno_text :: "errno \<Rightarrow> string" where
  "errno_text EEXIST = ''File exists (os error 17)''"
| "errno_text EINVAL = ''Invalid argument (os error 22)''"
| "errno_text ENOSYS = ''Function not implemented (os error 38)''"
| "errno_text EOPNOTSUPP = ''Operation not supported (os error 95)''"
| "errno_text EXDEV = ''Invalid cross-device link (os error 18)''"
| "errno_text (Eother m) = m"

definition trash_rename_noreplace :: "errno option \<Rightarrow> string \<Rightarrow> string \<Rightarrow> files \<Rightarrow> (rename_error + unit) \<times> files" where
  "trash_rename_noreplace fault src dst fs =
     (if CHR 0x00 \<in> set src \<or> CHR 0x00 \<in> set dst then (Inl (RenameOther ''path contains an interior NUL byte''), fs)
      else case kernel_rename_noreplace fault src dst fs of
          (Inr _, fs') \<Rightarrow> (Inr (), fs')
        | (Inl e, fs') \<Rightarrow>
            (Inl (case e of
                EEXIST \<Rightarrow> DestinationExists
              | EINVAL \<Rightarrow> RenameUnsupported
              | ENOSYS \<Rightarrow> RenameUnsupported
              | EOPNOTSUPP \<Rightarrow> RenameUnsupported
              | EXDEV \<Rightarrow> RenameCrossDevice
              | Eother m \<Rightarrow> RenameOther m), fs'))"

section \<open>The sidecar\<close>

definition percent_byte :: "char \<Rightarrow> string" where
  "percent_byte b =
     (if is_ascii_alphanumeric b \<or> b \<in> set ''-._~/'' then [b]
      else [CHR ''%'', ''0123456789ABCDEF'' ! (of_char b div 16), ''0123456789ABCDEF'' ! (of_char b mod 16)])"

definition percent_encode_path :: "string \<Rightarrow> string" where
  "percent_encode_path path = concat (map percent_byte path)"

text \<open>Days since the epoch as a date. The era is divided towards zero, as in the source.\<close>

definition civil_from_days :: "int \<Rightarrow> int \<times> int \<times> int" where
  "civil_from_days days =
     (let z = days + 719468;
          era = (if z \<ge> 0 then z div 146097 else - ((- (z - 146096)) div 146097));
          doe = z - era * 146097;
          yoe = (doe - doe div 1460 + doe div 36524 - doe div 146096) div 365;
          y = yoe + era * 400;
          doy = doe - (365 * yoe + yoe div 4 - yoe div 100);
          mp = (5 * doy + 2) div 153;
          d = doy - (153 * mp + 2) div 5 + 1;
          m = (if mp < 10 then mp + 3 else mp - 9)
      in (if m \<le> 2 then y + 1 else y, m, d))"

definition pad_left :: "nat \<Rightarrow> string \<Rightarrow> string" where
  "pad_left w s = replicate (w - length s) CHR ''0'' @ s"

text \<open>\<open>secs\<close> is the time since the epoch in seconds.\<close>

definition utc_iso8601 :: "int \<Rightarrow> string" where
  "utc_iso8601 secs =
     (let days = secs div 86400; rem = secs mod 86400; (y, mo, d) = civil_from_days days
      in pad_left 4 (dec_int y) @ ''-'' @ pad_left 2 (dec_int mo) @ ''-'' @ pad_left 2 (dec_int d) @ ''T'' @
         pad_left 2 (dec_int (rem div 3600)) @ '':'' @ pad_left 2 (dec_int (rem mod 3600 div 60)) @ '':'' @ pad_left 2 (dec_int (rem mod 60)))"

definition trashinfo_bytes :: "int \<Rightarrow> string \<Rightarrow> string" where
  "trashinfo_bytes secs original_path =
     ''[Trash Info]'' @ [newline] @ ''Path='' @ percent_encode_path original_path @ [newline] @
     ''DeletionDate='' @ utc_iso8601 secs @ [newline]"

section \<open>Taking a slot\<close>

datatype trash_error = NotFound | TrashUnsupported | NoSlot | NonCanonical | TrashCrossDevice | NoTrashHere string | TrashIo string

record trash_slot =
  ts_trashed :: string
  ts_trash_info :: string

definition MAX_TRASH_DEDUP :: nat where "MAX_TRASH_DEDUP = 10000"

definition dedup_name :: "string \<Rightarrow> nat \<Rightarrow> string" where
  "dedup_name base n =
     (if n = 0 then base
      else case rsplit_once CHR ''.'' base of
          Some (stem, ext) \<Rightarrow> if stem \<noteq> [] then stem @ ''.'' @ dec n @ ''.'' @ ext else base @ ''.'' @ dec n
        | None \<Rightarrow> base @ ''.'' @ dec n)"

text \<open>What goes wrong at one candidate: opening the sidecar, writing it (after some bytes), the rename, and
  whether a sidecar that is to be dropped can be removed.\<close>

record slot_faults =
  sf_open :: "string option"
  sf_write :: "(nat \<times> string) option"
  sf_rename :: "errno option"
  sf_removes :: bool

definition drop_sidecar :: "slot_faults \<Rightarrow> string \<Rightarrow> files \<Rightarrow> files" where
  "drop_sidecar f info fs = (if sf_removes f then fs(info := None) else fs)"

text \<open>The loop over the candidates \<open>n, n + 1, ...\<close>, with the number of them that are left.\<close>

fun trash_candidates :: "int \<Rightarrow> (nat \<Rightarrow> slot_faults) \<Rightarrow> string \<Rightarrow> string \<Rightarrow> string \<Rightarrow> string \<Rightarrow> string \<Rightarrow> nat \<Rightarrow> nat \<Rightarrow> files \<Rightarrow>
    (trash_error + trash_slot) \<times> files" where
  "trash_candidates secs faults files_dir info_dir base_name src recorded_path n 0 fs = (Inl NoSlot, fs)"
| "trash_candidates secs faults files_dir info_dir base_name src recorded_path n (Suc left) fs =
     (let candidate = dedup_name base_name n;
          f = faults n;
          trashed_path = path_join files_dir candidate;
          info_path = path_join info_dir (candidate @ ''.trashinfo'');
          next = trash_candidates secs faults files_dir info_dir base_name src recorded_path (n + 1) left
      in case (canonical_path_new trashed_path, canonical_path_new info_path) of
           (Some trashed, Some info) \<Rightarrow>
             (case sf_open f of
                Some e \<Rightarrow> (Inl (TrashIo e), fs)
              | None \<Rightarrow>
                  if fs info_path \<noteq> None then next fs
                  else (case sf_write f of
                      Some (k, e) \<Rightarrow> (Inl (TrashIo e), drop_sidecar f info_path (fs(info_path := Some (take k (trashinfo_bytes secs recorded_path)))))
                    | None \<Rightarrow>
                        (case trash_rename_noreplace (sf_rename f) src trashed (fs(info_path := Some (trashinfo_bytes secs recorded_path))) of
                           (Inr _, fs') \<Rightarrow> (Inr \<lparr>ts_trashed = trashed, ts_trash_info = info\<rparr>, fs')
                         | (Inl DestinationExists, fs') \<Rightarrow> next (drop_sidecar f info_path fs')
                         | (Inl RenameUnsupported, fs') \<Rightarrow> (Inl TrashUnsupported, drop_sidecar f info_path fs')
                         | (Inl RenameCrossDevice, fs') \<Rightarrow> (Inl TrashCrossDevice, drop_sidecar f info_path fs')
                         | (Inl (RenameOther m), fs') \<Rightarrow>
                             (let fs'' = drop_sidecar f info_path fs' in (Inl (if fs'' src = None then NotFound else TrashIo m), fs'')))))
         | _ \<Rightarrow> (Inl NonCanonical, fs))"

definition trash_into_recording :: "int \<Rightarrow> (nat \<Rightarrow> slot_faults) \<Rightarrow> string \<Rightarrow> string \<Rightarrow> string \<Rightarrow> string \<Rightarrow> string \<Rightarrow> files \<Rightarrow>
    (trash_error + trash_slot) \<times> files" where
  "trash_into_recording secs faults files_dir info_dir base_name src recorded_path fs =
     trash_candidates secs faults files_dir info_dir base_name src recorded_path 0 MAX_TRASH_DEDUP fs"

definition trash_into :: "int \<Rightarrow> (nat \<Rightarrow> slot_faults) \<Rightarrow> string \<Rightarrow> string \<Rightarrow> string \<Rightarrow> string \<Rightarrow> files \<Rightarrow>
    (trash_error + trash_slot) \<times> files" where
  "trash_into secs faults files_dir info_dir base_name src fs = trash_into_recording secs faults files_dir info_dir base_name src src fs"

section \<open>Choosing the trash\<close>

record trash_env =
  te_xdg_data_home :: "string option"
  te_home :: "string option"
  te_dev :: "string \<Rightarrow> u64 option"
  te_is_dir :: "string \<Rightarrow> bool"
  te_admin_trash :: "string \<Rightarrow> bool"
  te_mkdir :: "string \<Rightarrow> string option"
  te_secs :: int
  te_faults :: "nat \<Rightarrow> slot_faults"

definition home_trash_dir :: "trash_env \<Rightarrow> string option" where
  "home_trash_dir env =
     (case te_xdg_data_home env of
        Some p \<Rightarrow> if starts_with p ''/'' then Some (path_join p ''Trash'')
          else map_option (\<lambda>h. path_join (path_join h ''.local/share'') ''Trash'')
            (case te_home env of Some h \<Rightarrow> if starts_with h ''/'' then Some h else None | None \<Rightarrow> None)
      | None \<Rightarrow> map_option (\<lambda>h. path_join (path_join h ''.local/share'') ''Trash'')
            (case te_home env of Some h \<Rightarrow> if starts_with h ''/'' then Some h else None | None \<Rightarrow> None))"

function climb :: "(string \<Rightarrow> u64 option) \<Rightarrow> u64 \<Rightarrow> string \<Rightarrow> string" where
  "climb dev_of dev cursor =
     (case path_parent cursor of
        None \<Rightarrow> cursor
      | Some parent \<Rightarrow> if parent = cursor then cursor else if dev_of parent = Some dev then climb dev_of dev parent else cursor)"
  by pat_completeness auto
termination
  by (relation "measure (\<lambda>(_, _, cursor). length cursor)") (auto simp: path_parent_shorter)

declare climb.simps [simp del]

definition top_directory_from :: "string \<Rightarrow> (string \<Rightarrow> u64 option) \<Rightarrow> string option" where
  "top_directory_from start dev_of = map_option (\<lambda>dev. climb dev_of dev start) (dev_of start)"

definition top_directory_of :: "trash_env \<Rightarrow> string \<Rightarrow> string option" where
  "top_directory_of env path =
     (if te_is_dir env path then top_directory_from path (te_dev env)
      else case path_parent path of Some p \<Rightarrow> top_directory_from p (te_dev env) | None \<Rightarrow> None)"

definition top_trash_dir :: "trash_env \<Rightarrow> string \<Rightarrow> nat \<Rightarrow> string" where
  "top_trash_dir env topdir uid =
     (if te_admin_trash env (path_join topdir ''.Trash'') then path_join (path_join topdir ''.Trash'') (dec uid)
      else path_join topdir (''.Trash-'' @ dec uid))"

text \<open>Creating directories one after another, up to the first that fails.\<close>

fun make_dirs :: "trash_env \<Rightarrow> string list \<Rightarrow> trash_error + unit" where
  "make_dirs env [] = Inr ()"
| "make_dirs env (p # ps) =
     (if te_is_dir env p then make_dirs env ps
      else case te_mkdir env p of Some e \<Rightarrow> Inl (NoTrashHere (p @ '': '' @ e)) | None \<Rightarrow> make_dirs env ps)"

definition ensure_top_trash :: "trash_env \<Rightarrow> string \<Rightarrow> nat \<Rightarrow> trash_error + (string \<times> string)" where
  "ensure_top_trash env topdir uid =
     (let base = top_trash_dir env topdir uid; files_dir = path_join base ''files''; info_dir = path_join base ''info''
      in map_sum id (\<lambda>_. (files_dir, info_dir)) (make_dirs env [base, files_dir, info_dir]))"

definition relative_to_top :: "string \<Rightarrow> string \<Rightarrow> string option" where
  "relative_to_top topdir src =
     (if topdir = ''/'' then strip_prefix src ''/''
      else if src = topdir then Some [] else strip_prefix src (topdir @ ''/''))"

function on_device :: "(string \<Rightarrow> u64 option) \<Rightarrow> u64 \<Rightarrow> string \<Rightarrow> bool" where
  "on_device dev_of src_dev probe =
     (case dev_of probe of
        Some d \<Rightarrow> d = src_dev
      | None \<Rightarrow> (case path_parent probe of Some p \<Rightarrow> if p \<noteq> probe then on_device dev_of src_dev p else False | None \<Rightarrow> False))"
  by pat_completeness auto
termination
  by (relation "measure (\<lambda>(_, _, probe). length probe)") (auto simp: path_parent_shorter)

declare on_device.simps [simp del]

definition volume_trash :: "trash_env \<Rightarrow> string \<Rightarrow> nat \<Rightarrow> string \<Rightarrow> files \<Rightarrow> (trash_error + trash_slot) \<times> files" where
  "volume_trash env src uid base_name fs =
     (case top_directory_of env src of
        None \<Rightarrow> (Inl NotFound, fs)
      | Some topd \<Rightarrow>
          (case ensure_top_trash env topd uid of
             Inl e \<Rightarrow> (Inl e, fs)
           | Inr (files_dir, info_dir) \<Rightarrow>
               (case relative_to_top topd src of
                  None \<Rightarrow> (Inl NonCanonical, fs)
                | Some recorded \<Rightarrow> trash_into_recording (te_secs env) (te_faults env) files_dir info_dir base_name src recorded fs)))"

definition trash :: "trash_env \<Rightarrow> string \<Rightarrow> nat \<Rightarrow> files \<Rightarrow> (trash_error + trash_slot) \<times> files" where
  "trash env src uid fs =
     (case file_name src of
        None \<Rightarrow> (Inl NonCanonical, fs)
      | Some base_name \<Rightarrow>
          (case te_dev env src of
             None \<Rightarrow> (Inl NotFound, fs)
           | Some src_dev \<Rightarrow>
               (case home_trash_dir env of
                  Some home \<Rightarrow>
                    if on_device (te_dev env) src_dev home then
                      (case make_dirs env [path_join home ''files'', path_join home ''info''] of
                         Inl e \<Rightarrow> (Inl e, fs)
                       | Inr _ \<Rightarrow> trash_into (te_secs env) (te_faults env) (path_join home ''files'') (path_join home ''info'') base_name src fs)
                    else volume_trash env src uid base_name fs
                | None \<Rightarrow> volume_trash env src uid base_name fs)))"

end
