(* ===== verification/Trash_Safety.thy ===== *)
theory Trash_Safety
  imports Trash
begin

text \<open>
  What the trash promises: a file is moved whole into a slot that was free, or nothing changes; the
  slot is the first free one; the path recorded in the sidecar reads back; and the recorded date is
  the date.
\<close>

section \<open>Moving without overwriting\<close>

lemma canonical_id: "canonical_path_new p = Some q \<Longrightarrow> q = p"
  by (simp add: canonical_path_new_def split: if_splits)

lemma trash_rename_result:
  assumes "trash_rename_noreplace fault src dst fs = (res, fs')"
  shows "case res of Inl e \<Rightarrow> fs' = fs
    | Inr _ \<Rightarrow> (\<exists>b. fs src = Some b \<and> fs dst = None \<and> fs' = fs(src := None, dst := Some b))"
  using assms
  by (auto simp: trash_rename_noreplace_def kernel_rename_noreplace_def split: if_splits option.splits)

lemma trash_candidates_result:
  assumes "fs src = Some b" and "\<forall>n. sf_removes (faults n)"
    and "trash_candidates secs faults files_dir info_dir base src recorded n k fs = (res, fs')"
  shows "case res of Inl e \<Rightarrow> fs' = fs
    | Inr slot \<Rightarrow> fs (ts_trashed slot) = None \<and> fs (ts_trash_info slot) = None \<and> ts_trashed slot \<noteq> ts_trash_info slot \<and>
        fs' = fs(src := None, ts_trashed slot := Some b, ts_trash_info slot := Some (trashinfo_bytes secs recorded))"
  using assms(3)
proof (induction k arbitrary: n)
  case (Suc k)
  let ?t = "path_join files_dir (dedup_name base n)" and ?i = "path_join info_dir (dedup_name base n @ ''.trashinfo'')"
  let ?fs = "fs(?i := Some (trashinfo_bytes secs recorded))"
  show ?case
  proof (cases "canonical_path_new ?t \<noteq> None \<and> canonical_path_new ?i \<noteq> None \<and> sf_open (faults n) = None \<and> fs ?i = None \<and> sf_write (faults n) = None")
    case False
    then show ?thesis using Suc.prems Suc.IH [of "n + 1"] assms(2)
      by (auto simp: Let_def drop_sidecar_def fun_upd_idem split: option.splits if_splits)
  next
    case True
    then have canon: "canonical_path_new ?t = Some ?t" "canonical_path_new ?i = Some ?i" using canonical_id by fastforce+
    have si: "?i \<noteq> src" using True assms(1) by auto
    have drop: "drop_sidecar (faults n) ?i ?fs = fs" using True assms(2) by (simp add: drop_sidecar_def fun_upd_idem)
    obtain r fs1 where r: "trash_rename_noreplace (sf_rename (faults n)) src ?t ?fs = (r, fs1)" by fastforce
    note rr = trash_rename_result [OF r]
    show ?thesis
    proof (cases r)
      case (Inl e)
      then have "fs1 = ?fs" using rr by simp
      then show ?thesis using Suc.prems Suc.IH [of "n + 1"] True canon r Inl drop assms(1) by (cases e) (auto simp: Let_def)
    next
      case (Inr u)
      then have m: "fs1 = ?fs(src := None, ?t := Some b)" "?fs ?t = None" using rr si assms(1) by auto
      then have ti: "?t \<noteq> ?i" "fs ?t = None" by (auto split: if_splits)
      have "res = Inr \<lparr>ts_trashed = ?t, ts_trash_info = ?i\<rparr>" "fs' = fs1" using Suc.prems True canon r Inr by (simp_all add: Let_def)
      then show ?thesis using True m(1) ti si by (auto simp: fun_upd_twist)
    qed
  qed
qed auto

lemma trash_takes_a_slot:
  assumes "trash env src uid fs = (res, fs')"
  obtains (refused) e where "res = Inl e" "fs' = fs"
  | (slot) fd id base recorded where "trash_into_recording (te_secs env) (te_faults env) fd id base src recorded fs = (res, fs')"
  using assms unfolding trash_def volume_trash_def trash_into_def by (auto split: option.splits sum.splits if_splits prod.splits)

lemma trash_outcome:
  assumes "fs src = Some b" and "\<forall>n. sf_removes (te_faults env n)" and "trash env src uid fs = (res, fs')"
  shows "case res of Inl e \<Rightarrow> fs' = fs
    | Inr slot \<Rightarrow> fs (ts_trashed slot) = None \<and> fs (ts_trash_info slot) = None \<and> ts_trashed slot \<noteq> ts_trash_info slot \<and>
        (\<exists>recorded. fs' = fs(src := None, ts_trashed slot := Some b, ts_trash_info slot := Some (trashinfo_bytes (te_secs env) recorded)))"
  using assms(3)
proof (cases rule: trash_takes_a_slot)
  case (slot fd id base recorded)
  then show ?thesis
    using trash_candidates_result [of fs src b, OF assms(1,2) slot [unfolded trash_into_recording_def]] by (auto split: sum.splits)
qed simp

lemma trash_candidates_nul:
  "trash_candidates secs faults files_dir info_dir base src recorded n k fs = (Inr slot, fs') \<Longrightarrow> CHR 0x00 \<notin> set src \<union> set (ts_trashed slot)"
proof (induction k arbitrary: n fs)
  case (Suc k)
  have nul: "trash_rename_noreplace fault src t f = (Inr u, f') \<Longrightarrow> CHR 0x00 \<notin> set src \<union> set t" for fault t f u f'
    by (auto simp: trash_rename_noreplace_def split: if_splits)
  show ?case using Suc.prems Suc.IH
    by (auto simp: Let_def split: option.splits if_splits prod.splits sum.splits rename_error.splits dest: nul)
qed simp

lemma trash_nul: "trash env src uid fs = (Inr slot, fs') \<Longrightarrow> CHR 0x00 \<notin> set src \<union> set (ts_trashed slot)"
  by (erule trash_takes_a_slot) (auto simp: trash_into_recording_def dest: trash_candidates_nul)

text \<open>
  C23. The trash never overwrites: as long as a sidecar that has to be dropped can be removed, moving a
  file to the trash, whatever else fails, either leaves every file as it was or moves exactly that file,
  whole, into a slot that held nothing, and writes the sidecar into a place that held nothing.
\<close>

theorem trash_never_overwrites:
  assumes "fs src = Some b" and "\<forall>n. sf_removes (te_faults env n)" and "trash env src uid fs = (res, fs')"
  shows "case res of Inl e \<Rightarrow> fs' = fs
    | Inr slot \<Rightarrow> fs (ts_trashed slot) = None \<and> fs (ts_trash_info slot) = None \<and> ts_trashed slot \<noteq> ts_trash_info slot \<and>
        (\<exists>recorded. fs' = fs(src := None, ts_trashed slot := Some b, ts_trash_info slot := Some (trashinfo_bytes (te_secs env) recorded)))"
  using assms by (rule trash_outcome)

section \<open>The first free slot\<close>

definition trashed_at :: "string \<Rightarrow> string \<Rightarrow> nat \<Rightarrow> string" where
  "trashed_at files_dir base n = path_join files_dir (dedup_name base n)"

definition info_at :: "string \<Rightarrow> string \<Rightarrow> nat \<Rightarrow> string" where
  "info_at info_dir base n = path_join info_dir (dedup_name base n @ ''.trashinfo'')"

definition free_slot :: "string \<Rightarrow> string \<Rightarrow> string \<Rightarrow> files \<Rightarrow> nat \<Rightarrow> bool" where
  "free_slot files_dir info_dir base fs n \<longleftrightarrow> fs (trashed_at files_dir base n) = None \<and> fs (info_at info_dir base n) = None"

definition quiet_slots :: "(nat \<Rightarrow> slot_faults) \<Rightarrow> bool" where
  "quiet_slots faults \<longleftrightarrow> (\<forall>n. faults n = \<lparr>sf_open = None, sf_write = None, sf_rename = None, sf_removes = True\<rparr>)"

text \<open>A directory and a name under which canonical paths are built.\<close>

definition plain_dir :: "string \<Rightarrow> bool" where
  "plain_dir d \<longleftrightarrow> canonical_path_new d \<noteq> None \<and> CHR 0x00 \<notin> set d"

definition plain_name :: "string \<Rightarrow> bool" where
  "plain_name c \<longleftrightarrow> c \<noteq> [] \<and> CHR ''/'' \<notin> set c \<and> CHR 0x00 \<notin> set c \<and> c \<noteq> ''.'' \<and> c \<noteq> ''..''"

lemma plain_dir_join:
  assumes "plain_dir d" and "plain_name c"
  shows "path_join d c = d @ ''/'' @ c" "canonical_path_new (path_join d c) = Some (path_join d c)" "CHR 0x00 \<notin> set (path_join d c)"
proof -
  have d: "starts_with d ''/''" "\<forall>comp \<in> set (tl (split_on CHR ''/'' d)). comp \<noteq> [] \<and> comp \<noteq> ''.'' \<and> comp \<noteq> ''..''"
    using assms(1) by (auto simp: plain_dir_def canonical_path_new_def split: if_splits)
  obtain r where r: "d = CHR ''/'' # r" using d(1) by (auto simp: starts_with_iff)
  have "last d \<noteq> CHR ''/''"
  proof
    assume "last d = CHR ''/''"
    then have "d = butlast d @ CHR ''/'' # []" using r append_butlast_last_id [of d] by simp
    then have "split_on CHR ''/'' d = split_on CHR ''/'' (butlast d) @ [[]]" using split_on_append [of "CHR ''/''" "butlast d" "[]"] by simp
    then have "[] \<in> set (tl (split_on CHR ''/'' d))" by (cases "split_on CHR ''/'' (butlast d)") auto
    then show False using d(2) by blast
  qed
  then show j: "path_join d c = d @ ''/'' @ c" using assms(2) r by (auto simp: path_join_def plain_name_def starts_with_iff)
  have "split_on CHR ''/'' (d @ ''/'' @ c) = split_on CHR ''/'' d @ [c]"
    using split_on_append [of "CHR ''/''" d c] split_on_single [of "CHR ''/''" c] assms(2) by (simp add: plain_name_def)
  then have "set (tl (split_on CHR ''/'' (d @ ''/'' @ c))) \<subseteq> insert c (set (tl (split_on CHR ''/'' d)))"
    by (cases "split_on CHR ''/'' d") auto
  then show "canonical_path_new (path_join d c) = Some (path_join d c)"
    unfolding j canonical_path_new_def using d assms(2) r by (auto simp: plain_name_def starts_with_iff)
  show "CHR 0x00 \<notin> set (path_join d c)" unfolding j using assms by (simp add: plain_dir_def plain_name_def)
qed

lemma digit_safe: "is_ascii_digit c \<Longrightarrow> c \<noteq> CHR ''/'' \<and> c \<noteq> CHR 0x00 \<and> c \<noteq> CHR ''.''"
  by (auto simp: is_ascii_digit_def less_eq_char_def)

lemma dedup_plain:
  assumes "plain_name base"
  shows "plain_name (dedup_name base n)" "plain_name (dedup_name base n @ ''.trashinfo'')"
proof -
  have dec: "CHR ''/'' \<notin> set (dec n)" "CHR 0x00 \<notin> set (dec n)" "\<exists>c \<in> set (dec n). c \<noteq> CHR ''.''"
    using digit_safe dec_digits [of _ n] dec_Nil [of n] by (metis, metis, metis list.set_sel(1))
  have "CHR ''/'' \<notin> set (dedup_name base n) \<and> CHR 0x00 \<notin> set (dedup_name base n) \<and> dedup_name base n \<noteq> [] \<and>
      (n \<noteq> 0 \<longrightarrow> (\<exists>c \<in> set (dedup_name base n). c \<noteq> CHR ''.''))"
    using assms dec by (auto simp: dedup_name_def plain_name_def rsplit_once_Some split: option.splits)
  moreover have "dedup_name base 0 = base" by (simp add: dedup_name_def)
  ultimately show "plain_name (dedup_name base n)" "plain_name (dedup_name base n @ ''.trashinfo'')"
    using assms by (cases "n = 0"; auto simp: plain_name_def)+
qed

lemma slot_paths:
  assumes "plain_dir files_dir" "plain_dir info_dir" "plain_name base"
  shows "trashed_at files_dir base n \<noteq> info_at info_dir base n"
proof
  assume "trashed_at files_dir base n = info_at info_dir base n"
  then have e: "files_dir @ ''/'' @ dedup_name base n = info_dir @ ''/'' @ dedup_name base n @ ''.trashinfo''"
    using plain_dir_join(1) [OF assms(1) dedup_plain(1) [OF assms(3)]] plain_dir_join(1) [OF assms(2) dedup_plain(2) [OF assms(3)]]
    by (simp add: trashed_at_def info_at_def)
  have "rsplit_once CHR ''/'' (files_dir @ ''/'' @ dedup_name base n) = Some (files_dir, dedup_name base n)"
    "rsplit_once CHR ''/'' (info_dir @ ''/'' @ dedup_name base n @ ''.trashinfo'') = Some (info_dir, dedup_name base n @ ''.trashinfo'')"
    using dedup_plain [OF assms(3), of n] by (auto simp: rsplit_once_Some plain_name_def)
  then show False using e by simp
qed

lemma trash_candidates_quiet:
  assumes "quiet_slots faults" and dirs: "plain_dir files_dir" "plain_dir info_dir" "plain_name base" and src: "fs src = Some b" "CHR 0x00 \<notin> set src"
  shows "fst (trash_candidates secs faults files_dir info_dir base src recorded n k fs) =
    (case find (free_slot files_dir info_dir base fs) [n..<n + k] of
       None \<Rightarrow> Inl NoSlot
     | Some i \<Rightarrow> Inr \<lparr>ts_trashed = trashed_at files_dir base i, ts_trash_info = info_at info_dir base i\<rparr>)"
proof (induction k arbitrary: n)
  case (Suc k)
  let ?t = "trashed_at files_dir base n" and ?i = "info_at info_dir base n"
  have f: "faults n = \<lparr>sf_open = None, sf_write = None, sf_rename = None, sf_removes = True\<rparr>" using assms(1) by (simp add: quiet_slots_def)
  have c: "canonical_path_new ?t = Some ?t" "canonical_path_new ?i = Some ?i" "CHR 0x00 \<notin> set ?t"
    using plain_dir_join [OF dirs(1) dedup_plain(1) [OF dirs(3)]] plain_dir_join [OF dirs(2) dedup_plain(2) [OF dirs(3)]]
    by (simp_all add: trashed_at_def info_at_def)
  have up: "[n..<n + Suc k] = n # [n + 1..<(n + 1) + k]" by (simp add: upt_rec)
  have "fst (trash_candidates secs faults files_dir info_dir base src recorded n (Suc k) fs) =
      (if free_slot files_dir info_dir base fs n then Inr \<lparr>ts_trashed = ?t, ts_trash_info = ?i\<rparr>
       else fst (trash_candidates secs faults files_dir info_dir base src recorded (n + 1) k fs))"
    using c slot_paths [OF dirs, of n] src f
    by (auto simp: Let_def trashed_at_def [symmetric] info_at_def [symmetric] free_slot_def trash_rename_noreplace_def
        kernel_rename_noreplace_def drop_sidecar_def fun_upd_idem)
  then show ?case unfolding up Suc.IH by simp
qed simp

lemma dedup_inj: "dedup_name base m = dedup_name base n \<Longrightarrow> m = n"
proof -
  have len: "length (dedup_name base k) > length base" if "k \<noteq> 0" for k
    using that by (auto simp: dedup_name_def rsplit_once_Some split: option.splits)
  assume e: "dedup_name base m = dedup_name base n"
  show ?thesis
  proof (cases "m = 0 \<or> n = 0")
    case True
    moreover have "dedup_name base 0 = base" by (simp add: dedup_name_def)
    ultimately show ?thesis using e len [of m] len [of n] by (metis less_irrefl)
  next
    case False
    then have "dec m = dec n" using e by (auto simp: dedup_name_def split: option.splits if_splits)
    then show ?thesis by (rule dec_inj)
  qed
qed

lemma slot_paths_split:
  assumes "plain_dir files_dir" "plain_dir info_dir" "plain_name base"
  shows "rsplit_once CHR ''/'' (trashed_at files_dir base n) = Some (files_dir, dedup_name base n)"
    "rsplit_once CHR ''/'' (info_at info_dir base n) = Some (info_dir, dedup_name base n @ ''.trashinfo'')"
  using dedup_plain [OF assms(3), of n] plain_dir_join(1) [OF assms(1) dedup_plain(1) [OF assms(3)]] plain_dir_join(1) [OF assms(2) dedup_plain(2) [OF assms(3)]]
  by (auto simp: trashed_at_def info_at_def rsplit_once_Some plain_name_def)

lemma some_slot_free:
  assumes dirs: "plain_dir files_dir" "plain_dir info_dir" "plain_name base" and "files_dir \<noteq> info_dir" and "finite (dom fs)" and "card (dom fs) < k"
  shows "\<exists>n < k. free_slot files_dir info_dir base fs n"
proof (rule ccontr)
  assume none: "\<not> (\<exists>n < k. free_slot files_dir info_dir base fs n)"
  define f where "f = (\<lambda>n. if fs (info_at info_dir base n) \<noteq> None then info_at info_dir base n else trashed_at files_dir base n)"
  have "inj_on f {..<k}"
  proof (rule inj_onI)
    fix m n assume "f m = f n"
    then have "rsplit_once CHR ''/'' (f m) = rsplit_once CHR ''/'' (f n)" by simp
    then have "dedup_name base m = dedup_name base n"
      using slot_paths_split [OF dirs] assms(4) by (auto simp: f_def split: if_splits)
    then show "m = n" by (rule dedup_inj)
  qed
  moreover have "f ` {..<k} \<subseteq> dom fs" using none by (auto simp: f_def free_slot_def)
  ultimately have "k \<le> card (dom fs)" using card_inj_on_le [of f "{..<k}" "dom fs"] assms(5) by simp
  then show False using assms(6) by simp
qed

text \<open>
  The trash takes the first free name: when nothing fails, a file goes to the first of the ten
  thousand candidate names neither of whose two paths is taken, and there is one whenever there are
  fewer than ten thousand files.
\<close>

theorem trash_takes_the_first_free_slot:
  assumes "quiet_slots faults" and "plain_dir files_dir" "plain_dir info_dir" "plain_name base" and "fs src = Some b" and "CHR 0x00 \<notin> set src"
  shows "fst (trash_into_recording secs faults files_dir info_dir base src recorded fs) =
      (case find (free_slot files_dir info_dir base fs) [0..<10000] of
         None \<Rightarrow> Inl NoSlot
       | Some i \<Rightarrow> Inr \<lparr>ts_trashed = trashed_at files_dir base i, ts_trash_info = info_at info_dir base i\<rparr>) \<and>
    (files_dir \<noteq> info_dir \<and> finite (dom fs) \<and> card (dom fs) < 10000 \<longrightarrow> find (free_slot files_dir info_dir base fs) [0..<10000] \<noteq> None)"
proof
  show "fst (trash_into_recording secs faults files_dir info_dir base src recorded fs) =
      (case find (free_slot files_dir info_dir base fs) [0..<10000] of
         None \<Rightarrow> Inl NoSlot
       | Some i \<Rightarrow> Inr \<lparr>ts_trashed = trashed_at files_dir base i, ts_trash_info = info_at info_dir base i\<rparr>)"
    unfolding trash_into_recording_def MAX_TRASH_DEDUP_def
    using trash_candidates_quiet [where fs = fs and src = src and n = 0 and k = 10000, OF assms] by (simp only: add_0)
  show "files_dir \<noteq> info_dir \<and> finite (dom fs) \<and> card (dom fs) < 10000 \<longrightarrow> find (free_slot files_dir info_dir base fs) [0..<10000] \<noteq> None"
    using some_slot_free [OF assms(2-4), of fs 10000] by (auto simp: find_None_iff)
qed

section \<open>The sidecar reads back\<close>

text \<open>The decoder of \<open>%XX\<close> (crate \<open>percent-encoding\<close>): a byte other than \<open>%\<close> stands for itself, and \<open>%\<close> with two
  hexadecimal digits for the byte they name.\<close>

definition percent_decoder :: "(bytes \<Rightarrow> bytes) \<Rightarrow> bool" where
  "percent_decoder decode \<longleftrightarrow> decode [] = [] \<and> (\<forall>b s. b \<noteq> CHR ''%'' \<longrightarrow> decode (b # s) = b # decode s) \<and>
     (\<forall>i < 16. \<forall>j < 16. \<forall>s. decode (CHR ''%'' # ''0123456789ABCDEF'' ! i # ''0123456789ABCDEF'' ! j # s) = char_of (16 * i + j) # decode s)"

text \<open>How the file manager reads a sidecar (\<open>apps/files/core/src/ops.rs\<close>).\<close>

definition is_u8_whitespace :: "char \<Rightarrow> bool" where
  "is_u8_whitespace c \<longleftrightarrow> c \<in> {CHR '' '', CHR 0x09, CHR 0x0A, CHR 0x0C, CHR 0x0D}"

definition trim_ascii :: "bytes \<Rightarrow> bytes" where
  "trim_ascii b = rev (dropWhile is_u8_whitespace (rev (dropWhile is_u8_whitespace b)))"

record trash_info =
  ti_original_path :: string
  ti_deletion_date :: string

record trashinfo_scan =
  tc_header :: bool
  tc_path :: "bytes option"
  tc_date :: "string option"

fun scan_trashinfo :: "trashinfo_scan \<Rightarrow> bytes list \<Rightarrow> string + trashinfo_scan" where
  "scan_trashinfo sc [] = Inr sc"
| "scan_trashinfo sc (raw # rest) =
     (let l = trim_ascii raw
      in if l = [] \<or> hd l = CHR 0x23 then scan_trashinfo sc rest
         else if l = ''[Trash Info]'' then scan_trashinfo (sc\<lparr>tc_header := True\<rparr>) rest
         else case split_once CHR ''='' l of
             None \<Rightarrow> scan_trashinfo sc rest
           | Some (key, v) \<Rightarrow>
               if key = ''Path'' then
                 (if tc_path sc \<noteq> None then Inl ''trashinfo has duplicate Path'' else scan_trashinfo (sc\<lparr>tc_path := Some v\<rparr>) rest)
               else if key = ''DeletionDate'' then
                 (if tc_date sc \<noteq> None then Inl ''trashinfo has duplicate DeletionDate'' else scan_trashinfo (sc\<lparr>tc_date := Some v\<rparr>) rest)
               else scan_trashinfo sc rest)"

definition parse_trashinfo :: "(bytes \<Rightarrow> bytes) \<Rightarrow> bytes \<Rightarrow> string + trash_info" where
  "parse_trashinfo percent_decode b =
     (case scan_trashinfo \<lparr>tc_header = False, tc_path = None, tc_date = None\<rparr> (split_on newline b) of
        Inl e \<Rightarrow> Inl e
      | Inr sc \<Rightarrow>
          if \<not> tc_header sc then Inl ''trashinfo missing [Trash Info] header''
          else (case tc_path sc of
              None \<Rightarrow> Inl ''trashinfo missing Path''
            | Some v \<Rightarrow> Inr \<lparr>ti_original_path = percent_decode v, ti_deletion_date = (case tc_date sc of Some d \<Rightarrow> d | None \<Rightarrow> [])\<rparr>))"

text \<open>Characters of the fields: printable, and none of them white space.\<close>

definition visible :: "string \<Rightarrow> bool" where
  "visible s \<longleftrightarrow> (\<forall>c \<in> set s. \<not> is_u8_whitespace c)"

lemma visible_simps [simp]: "visible []" "visible (c # s) \<longleftrightarrow> \<not> is_u8_whitespace c \<and> visible s" "visible (a @ b) \<longleftrightarrow> visible a \<and> visible b"
  by (auto simp: visible_def)

lemma visible_newline: "visible s \<Longrightarrow> newline \<notin> set s"
  unfolding visible_def by (rule notI, drule (1) bspec) (simp add: is_u8_whitespace_def newline_def)

lemma upper_hex_visible: "i < 16 \<Longrightarrow> \<not> is_u8_whitespace (''0123456789ABCDEF'' ! i)"
  by (drule nat_below_16, elim insertE emptyE; simp add: is_u8_whitespace_def)

lemma alphanumeric_visible: "is_ascii_alphanumeric c \<Longrightarrow> \<not> is_u8_whitespace c \<and> c \<noteq> CHR ''%''"
  by (auto simp: ascii_defs less_eq_char_def is_u8_whitespace_def)

lemma high_digit: "of_char b div 16 < (16::nat)"
  using nat_of_char_less_256 [of b] by linarith

lemma visible_byte: "visible (percent_byte b)"
proof (cases "is_ascii_alphanumeric b \<or> b \<in> set ''-._~/''")
  case True
  then have "percent_byte b = [b]" by (simp add: percent_byte_def)
  then show ?thesis using True alphanumeric_visible [of b] by (auto simp: is_u8_whitespace_def)
next
  case False
  then have "percent_byte b = [CHR ''%'', ''0123456789ABCDEF'' ! (of_char b div 16), ''0123456789ABCDEF'' ! (of_char b mod 16)]"
    by (simp add: percent_byte_def)
  moreover have "\<not> is_u8_whitespace CHR ''%''" by (simp add: is_u8_whitespace_def)
  ultimately show ?thesis using upper_hex_visible [OF high_digit [of b]] upper_hex_visible [of "of_char b mod 16"] by simp
qed

lemma visible_percent: "visible (percent_encode_path p)"
  by (induction p) (simp_all add: percent_encode_path_def visible_byte)

lemma decode_byte:
  assumes "percent_decoder decode"
  shows "decode (percent_byte b @ s) = b # decode s"
proof (cases "is_ascii_alphanumeric b \<or> b \<in> set ''-._~/''")
  case True
  then have "b \<noteq> CHR ''%''" using alphanumeric_visible [of b] by auto
  then show ?thesis using True assms by (simp add: percent_byte_def percent_decoder_def)
next
  case False
  then have "percent_byte b @ s = CHR ''%'' # ''0123456789ABCDEF'' ! (of_char b div 16) # ''0123456789ABCDEF'' ! (of_char b mod 16) # s"
    by (simp add: percent_byte_def)
  moreover have "char_of (16 * (of_char b div 16) + of_char b mod 16 :: nat) = b" by (metis char_of_char mult.commute div_mult_mod_eq)
  moreover have "decode (CHR ''%'' # ''0123456789ABCDEF'' ! (of_char b div 16) # ''0123456789ABCDEF'' ! (of_char b mod 16) # s) =
      char_of (16 * (of_char b div 16) + of_char b mod 16 :: nat) # decode s"
    using assms high_digit [of b] unfolding percent_decoder_def by simp
  ultimately show ?thesis by simp
qed

lemma decode_percent:
  assumes "percent_decoder decode"
  shows "decode (percent_encode_path p) = p"
proof (induction p)
  case Nil
  then show ?case using assms by (simp add: percent_encode_path_def percent_decoder_def)
next
  case (Cons b p)
  then show ?case using decode_byte [OF assms] by (simp add: percent_encode_path_def)
qed

lemma trim_visible: "visible l \<Longrightarrow> trim_ascii l = l"
proof -
  assume v: "visible l"
  then have "dropWhile is_u8_whitespace l = l" by (cases l) auto
  moreover have "dropWhile is_u8_whitespace (rev l) = rev l" using v by (cases l rule: rev_cases) auto
  ultimately show ?thesis by (simp add: trim_ascii_def)
qed

lemma visible_dec: "visible (dec n)"
proof -
  have "is_ascii_digit c \<Longrightarrow> \<not> is_u8_whitespace c" for c by (auto simp: is_ascii_digit_def less_eq_char_def is_u8_whitespace_def)
  then show ?thesis unfolding visible_def using dec_digits by blast
qed

lemma visible_padded: "visible (pad_left w (dec_int i))"
proof -
  have "\<not> is_u8_whitespace CHR ''0''" "\<not> is_u8_whitespace CHR ''-''" by (simp_all add: is_u8_whitespace_def)
  then have "visible (dec_int i)" "visible (replicate k CHR ''0'')" for k using visible_dec by (simp_all add: dec_int_def) (simp add: visible_def)
  then show ?thesis by (simp add: pad_left_def)
qed

lemma visible_marks: "\<not> is_u8_whitespace CHR ''-''" "\<not> is_u8_whitespace CHR '':''" "\<not> is_u8_whitespace CHR ''T''"
  by (simp_all add: is_u8_whitespace_def)

lemma visible_date: "visible (utc_iso8601 secs)"
  by (simp add: utc_iso8601_def case_prod_unfold Let_def visible_padded visible_marks)

lemma scan_path:
  assumes "visible v" and "tc_path sc = None"
  shows "scan_trashinfo sc ((''Path='' @ v) # rest) = scan_trashinfo (sc\<lparr>tc_path := Some v\<rparr>) rest"
proof -
  have "trim_ascii (''Path='' @ v) = ''Path='' @ v" using assms(1) by (intro trim_visible) (simp add: is_u8_whitespace_def)
  moreover have "split_once CHR ''='' (''Path='' @ v) = Some (''Path'', v)" by (simp add: split_once_Some)
  ultimately show ?thesis using assms(2) by (simp add: Let_def)
qed

lemma scan_date:
  assumes "visible v" and "tc_date sc = None"
  shows "scan_trashinfo sc ((''DeletionDate='' @ v) # rest) = scan_trashinfo (sc\<lparr>tc_date := Some v\<rparr>) rest"
proof -
  have "trim_ascii (''DeletionDate='' @ v) = ''DeletionDate='' @ v" using assms(1) by (intro trim_visible) (simp add: is_u8_whitespace_def)
  moreover have "split_once CHR ''='' (''DeletionDate='' @ v) = Some (''DeletionDate'', v)" by (simp add: split_once_Some)
  ultimately show ?thesis using assms(2) by (simp add: Let_def)
qed

lemma trim_header: "trim_ascii ''[Trash Info]'' = ''[Trash Info]''"
proof -
  have ends: "\<not> is_u8_whitespace CHR ''[''" "\<not> is_u8_whitespace CHR '']''" by (simp_all add: is_u8_whitespace_def)
  have "rev ''[Trash Info]'' = '']ofnI hsarT[''" by simp
  moreover have "rev '']ofnI hsarT['' = ''[Trash Info]''" by simp
  ultimately show ?thesis unfolding trim_ascii_def using ends by (simp only: dropWhile.simps if_False)
qed

lemma scan_header: "scan_trashinfo sc (''[Trash Info]'' # rest) = scan_trashinfo (sc\<lparr>tc_header := True\<rparr>) rest"
  unfolding scan_trashinfo.simps(2) Let_def trim_header by simp

lemma scan_blank: "scan_trashinfo sc [[]] = Inr sc"
  by (simp add: trim_ascii_def)

lemma trashinfo_lines: "split_on newline (trashinfo_bytes secs path) =
    [''[Trash Info]'', ''Path='' @ percent_encode_path path, ''DeletionDate='' @ utc_iso8601 secs, []]"
proof -
  define a b c where abc: "a = ''[Trash Info]''" "b = ''Path='' @ percent_encode_path path" "c = ''DeletionDate='' @ utc_iso8601 secs"
  have nl: "newline \<notin> set a" "newline \<notin> set b" "newline \<notin> set c"
    using visible_newline [OF visible_percent] visible_newline [OF visible_date] by (simp_all add: abc newline_def)
  have "trashinfo_bytes secs path = a @ newline # (b @ newline # (c @ newline # []))"
    by (simp add: trashinfo_bytes_def abc)
  moreover have "split_on newline \<dots> = [a, b, c, []]"
    using nl by (simp add: split_on_append split_on_single)
  ultimately show ?thesis by (simp only: abc)
qed

text \<open>
  The record of a trashed file reads back: what the trash writes about a file, the file manager
  reads as the same path and date, whatever bytes the path has, with any decoder of percent escapes.
\<close>

theorem trashinfo_reads_back:
  assumes "percent_decoder decode"
  shows "parse_trashinfo decode (trashinfo_bytes secs path) = Inr \<lparr>ti_original_path = path, ti_deletion_date = utc_iso8601 secs\<rparr>"
proof -
  have "scan_trashinfo \<lparr>tc_header = False, tc_path = None, tc_date = None\<rparr> (split_on newline (trashinfo_bytes secs path)) =
      Inr \<lparr>tc_header = True, tc_path = Some (percent_encode_path path), tc_date = Some (utc_iso8601 secs)\<rparr>"
    unfolding trashinfo_lines scan_header by (simp add: scan_path [OF visible_percent] scan_date [OF visible_date] scan_blank del: scan_trashinfo.simps append.simps)
  then show ?thesis unfolding parse_trashinfo_def using decode_percent [OF assms] by simp
qed

section \<open>The trash at work\<close>

definition upper_hex_value :: "char \<Rightarrow> nat" where
  "upper_hex_value c = (if (of_char c :: nat) < 58 then of_char c - 48 else of_char c - 55)"

fun decode_escapes :: "bytes \<Rightarrow> bytes" where
  "decode_escapes [] = []"
| "decode_escapes [b] = [b]"
| "decode_escapes [b, h] = [b, h]"
| "decode_escapes (b # h # l # s) =
     (if b = CHR ''%'' then char_of (16 * upper_hex_value h + upper_hex_value l) # decode_escapes s else b # decode_escapes (h # l # s))"

lemma upper_hex_value_digit: "i < 16 \<Longrightarrow> upper_hex_value (''0123456789ABCDEF'' ! i) = i"
  by (drule nat_below_16, elim insertE emptyE; simp add: upper_hex_value_def)

lemma decode_escapes_plain: "b \<noteq> CHR ''%'' \<Longrightarrow> decode_escapes (b # s) = b # decode_escapes s"
  by (cases s rule: decode_escapes.cases) auto

lemma decode_escapes_decodes: "percent_decoder decode_escapes"
  unfolding percent_decoder_def by (simp add: decode_escapes_plain upper_hex_value_digit del: nth_Cons')

lemma trashinfo_reads_back_witness:
  "percent_decoder decode_escapes \<and>
   parse_trashinfo decode_escapes (trashinfo_bytes 0 ''/home/a b'') = Inr \<lparr>ti_original_path = ''/home/a b'', ti_deletion_date = utc_iso8601 0\<rparr>"
  using trashinfo_reads_back [OF decode_escapes_decodes] decode_escapes_decodes by blast

definition demo_files :: files where
  "demo_files = [''/h/x'' \<mapsto> ''new'', ''/h/T/files/x'' \<mapsto> ''old'', ''/h/T/info/x.trashinfo'' \<mapsto> ''[Trash Info]'']"

definition no_faults :: slot_faults where
  "no_faults = \<lparr>sf_open = None, sf_write = None, sf_rename = None, sf_removes = True\<rparr>"

definition demo_trash_env :: trash_env where
  "demo_trash_env = \<lparr>te_xdg_data_home = None, te_home = Some ''/h'', te_dev = (\<lambda>_. Some 1), te_is_dir = (\<lambda>_. True), te_admin_trash = (\<lambda>_. False),
     te_mkdir = (\<lambda>_. None), te_secs = 0, te_faults = (\<lambda>_. no_faults)\<rparr>"

lemma trash_never_overwrites_witness:
  "(let (res, fs') = trash demo_trash_env ''/h/x'' 1000 demo_files
    in case res of Inl e \<Rightarrow> fs' = demo_files
    | Inr slot \<Rightarrow> demo_files (ts_trashed slot) = None \<and> demo_files (ts_trash_info slot) = None \<and> ts_trashed slot \<noteq> ts_trash_info slot \<and>
        (\<exists>recorded. fs' = demo_files(''/h/x'' := None, ts_trashed slot := Some ''new'', ts_trash_info slot := Some (trashinfo_bytes (te_secs demo_trash_env) recorded))))"
proof -
  have "demo_files ''/h/x'' = Some ''new''" "\<forall>n. sf_removes (te_faults demo_trash_env n)"
    by (simp_all add: demo_files_def demo_trash_env_def no_faults_def)
  then show ?thesis
    using trash_never_overwrites [of demo_files "''/h/x''" "''new''" demo_trash_env 1000, OF _ _ prod.collapse [symmetric]]
    unfolding Let_def split_beta by simp
qed

lemma demo_slots: "\<not> free_slot ''/h/T/files'' ''/h/T/info'' ''x'' demo_files 0" "free_slot ''/h/T/files'' ''/h/T/info'' ''x'' demo_files 1"
  by (simp_all add: free_slot_def trashed_at_def info_at_def dedup_name_def path_join_def starts_with_def dec.simps digit_char_def
      rsplit_once_def demo_files_def)

lemma trash_takes_the_first_free_slot_witness:
  "quiet_slots (\<lambda>_. no_faults) \<and>
   fst (trash_into_recording 0 (\<lambda>_. no_faults) ''/h/T/files'' ''/h/T/info'' ''x'' ''/h/x'' ''/h/x'' demo_files) =
     Inr \<lparr>ts_trashed = trashed_at ''/h/T/files'' ''x'' 1, ts_trash_info = info_at ''/h/T/info'' ''x'' 1\<rparr>"
proof
  show q: "quiet_slots (\<lambda>_. no_faults)" by (simp add: quiet_slots_def no_faults_def)
  have d: "plain_dir ''/h/T/files''" "plain_dir ''/h/T/info''" "plain_name ''x''"
    by (simp_all add: plain_dir_def plain_name_def canonical_path_new_def starts_with_def)
  define m :: nat where "m = 9998"
  have "[0..<Suc (Suc m)] = 0 # 1 # [2..<Suc (Suc m)]" by (simp add: upt_conv_Cons numeral_2_eq_2 del: upt_Suc)
  then have "find (free_slot ''/h/T/files'' ''/h/T/info'' ''x'' demo_files) [0..<Suc (Suc m)] = Some 1"
    using demo_slots by (simp only: find.simps if_False if_True not_False_eq_True)
  then have "find (free_slot ''/h/T/files'' ''/h/T/info'' ''x'' demo_files) [0..<10000] = Some 1" by (simp only: m_def Suc_numeral semiring_norm)
  moreover have "demo_files ''/h/x'' = Some ''new''" by (simp add: demo_files_def)
  ultimately show "fst (trash_into_recording 0 (\<lambda>_. no_faults) ''/h/T/files'' ''/h/T/info'' ''x'' ''/h/x'' ''/h/x'' demo_files) =
      Inr \<lparr>ts_trashed = trashed_at ''/h/T/files'' ''x'' 1, ts_trash_info = info_at ''/h/T/info'' ''x'' 1\<rparr>"
    using trash_takes_the_first_free_slot [OF q d, of demo_files "''/h/x''" "''new''" 0 "''/h/x''", THEN conjunct1]
    by (simp only: option.case) (simp del: upt_rec_numeral)
qed

end
