(* ===== verification/Config_Format.thy ===== *)
theory Config_Format
  imports Prelude
begin

text \<open>
  The format-preserving editor of configuration files (\<open>sdk/config-format/src/\<close>): the value model
  (\<open>model.rs\<close>), the line engine behind the INI, \<open>.env\<close>, flat and Firefox handlers (\<open>line_model.rs\<close>,
  \<open>handlers/\<close>), and the self-check that every edit passes through (\<open>selfcheck.rs\<close>).

  Texts are ASCII, where a character is a byte. Reading and printing a 64-bit float (of the standard
  library) are arguments, a float being its bits; the TOML and JSON handlers, which wrap third-party
  parsers, are arguments of \<open>handler_for\<close>.
\<close>

section \<open>Values and errors\<close>

datatype config_value = CString string | CBool bool | CInt int | CFloat u64 | COpaque

fun same_value :: "config_value \<Rightarrow> config_value \<Rightarrow> bool" where
  "same_value (CFloat a) (CFloat b) \<longleftrightarrow> a = b"
| "same_value a b \<longleftrightarrow> a = b"

type_synonym config_model = "(string \<times> config_value) list"

definition model_get :: "config_model \<Rightarrow> string \<Rightarrow> config_value option" where
  "model_get m key = map_option snd (find (\<lambda>(k, v). k = key) m)"

datatype parse_error = TooLarge | Malformed string string | TooDeep nat | NotUtf8

datatype self_check_error =
    CandidateUnparsable string
  | EditDidNotApply string
  | CollateralChange string
  | UnmodelledContentChanged

datatype edit_error = EditFailed string | OpaqueTarget string | SelfCheck self_check_error

fun parse_error_text :: "parse_error \<Rightarrow> string" where
  "parse_error_text TooLarge = ''config too large''"
| "parse_error_text (Malformed f d) = ''malformed '' @ f @ '': '' @ d"
| "parse_error_text (TooDeep n) = ''config nested too deeply (> '' @ dec n @ '')''"
| "parse_error_text NotUtf8 = ''config is not valid UTF-8''"

definition MAX_CONFIG_BYTES :: nat where "MAX_CONFIG_BYTES = 4 * 1024 * 1024"

text \<open>Reading a float from a text and printing one, on bits.\<close>

record float_ops =
  fo_parse :: "string \<Rightarrow> u64 option"
  fo_display :: "u64 \<Rightarrow> string"

definition is_finite :: "u64 \<Rightarrow> bool" where
  "is_finite w \<longleftrightarrow> unat w div 2 ^ 52 mod 2 ^ 11 \<noteq> 2 ^ 11 - 1"

section \<open>Scalars as text\<close>

definition parse_bool :: "string \<Rightarrow> bool option" where
  "parse_bool s = (if s = ''true'' then Some True else if s = ''false'' then Some False else None)"

definition parse_float :: "float_ops \<Rightarrow> string \<Rightarrow> u64 option" where
  "parse_float fo s =
     (if \<not> (\<exists>c \<in> set s. c \<in> {CHR ''.'', CHR ''e'', CHR ''E''}) then None
      else case fo_parse fo s of Some f \<Rightarrow> if is_finite f then Some f else None | None \<Rightarrow> None)"

definition format_float :: "float_ops \<Rightarrow> u64 \<Rightarrow> string" where
  "format_float fo f =
     (let s = fo_display fo f in if \<exists>c \<in> set s. c \<in> {CHR ''.'', CHR ''e'', CHR ''E''} then s else s @ ''.0'')"

definition bool_text :: "bool \<Rightarrow> string" where
  "bool_text b = (if b then ''true'' else ''false'')"

definition strip_surrounding_quotes :: "string \<Rightarrow> string" where
  "strip_surrounding_quotes s =
     (if length s \<ge> 2 \<and> (hd s = CHR 0x22 \<and> last s = CHR 0x22 \<or> hd s = CHR 0x27 \<and> last s = CHR 0x27) then butlast (tl s) else s)"

definition strip_js_string :: "string \<Rightarrow> string option" where
  "strip_js_string s = (if length s \<ge> 2 \<and> hd s = CHR 0x22 \<and> last s = CHR 0x22 then Some (butlast (tl s)) else None)"

definition shell_quote :: "string \<Rightarrow> char \<Rightarrow> string" where
  "shell_quote s comment_char =
     (if s \<noteq> [] \<and> \<not> (\<exists>c \<in> set s. is_whitespace c \<or> c = CHR 0x22 \<or> c = CHR 0x27 \<or> c = comment_char \<or> c = CHR ''='') then s
      else CHR 0x22 # concat (map (\<lambda>c. if c = CHR 0x22 then [CHR 0x5C, CHR 0x22] else if c = CHR 0x5C then [CHR 0x5C, CHR 0x5C] else [c]) s) @ [CHR 0x22])"

definition upper_digit :: "nat \<Rightarrow> char" where
  "upper_digit d = (if d < 10 then char_of (48 + d) else char_of (55 + d))"

definition js_char :: "char \<Rightarrow> string" where
  "js_char c =
     (if c = CHR 0x22 then [CHR 0x5C, CHR 0x22] else if c = CHR 0x5C then [CHR 0x5C, CHR 0x5C]
      else if c = CHR 0x0A then [CHR 0x5C, CHR ''n''] else if c = CHR 0x0D then [CHR 0x5C, CHR ''r'']
      else if c = CHR 0x09 then [CHR 0x5C, CHR ''t'']
      else if is_ascii_control c then [CHR 0x5C, CHR ''u'', CHR ''0'', CHR ''0'', upper_digit (of_char c div 16), upper_digit (of_char c mod 16)]
      else [c])"

definition js_quote :: "string \<Rightarrow> string" where
  "js_quote s = CHR 0x22 # concat (map js_char s) @ [CHR 0x22]"

fun unescape_shell :: "string \<Rightarrow> string" where
  "unescape_shell (c # n # s) =
     (if c = CHR 0x5C \<and> (n = CHR 0x22 \<or> n = CHR 0x5C) then n # unescape_shell s else c # unescape_shell (n # s))"
| "unescape_shell s = s"

text \<open>\<open>u32::from_str_radix(h, 16)\<close> and \<open>char::from_u32\<close>, for the up to four characters of an escape.\<close>

definition hex_value :: "char \<Rightarrow> nat option" where
  "hex_value c =
     (if is_ascii_digit c then Some (of_char c - 48)
      else if 97 \<le> (of_char c :: nat) \<and> (of_char c :: nat) \<le> 102 then Some (of_char c - 87)
      else if 65 \<le> (of_char c :: nat) \<and> (of_char c :: nat) \<le> 70 then Some (of_char c - 55) else None)"

definition from_hex :: "string \<Rightarrow> nat option" where
  "from_hex s =
     (let ds = (if s \<noteq> [] \<and> hd s = CHR ''+'' then tl s else s)
      in if ds = [] then None
         else fold (\<lambda>c acc. case (acc, hex_value c) of (Some a, Some d) \<Rightarrow> Some (16 * a + d) | _ \<Rightarrow> None) ds (Some 0))"

definition utf8 :: "nat \<Rightarrow> string option" where
  "utf8 n =
     (if n < 128 then Some [char_of n]
      else if n < 2048 then Some [char_of (192 + n div 64), char_of (128 + n mod 64)]
      else if 55296 \<le> n \<and> n < 57344 then None
      else Some [char_of (224 + n div 4096), char_of (128 + n div 64 mod 64), char_of (128 + n mod 64)])"

fun unescape_js :: "string \<Rightarrow> string" where
  "unescape_js [] = []"
| "unescape_js [c] = [c]"
| "unescape_js (c # n # s) =
     (if c \<noteq> CHR 0x5C then c # unescape_js (n # s)
      else if n = CHR ''n'' then CHR 0x0A # unescape_js s
      else if n = CHR ''r'' then CHR 0x0D # unescape_js s
      else if n = CHR ''t'' then CHR 0x09 # unescape_js s
      else if n = CHR 0x22 then CHR 0x22 # unescape_js s
      else if n = CHR 0x5C then CHR 0x5C # unescape_js s
      else if n = CHR ''u'' then
        (case Option.bind (from_hex (take 4 s)) utf8 of
           Some ch \<Rightarrow> ch @ unescape_js (drop 4 s)
         | None \<Rightarrow> CHR 0x5C # CHR ''u'' # take 4 s @ unescape_js (drop 4 s))
      else CHR 0x5C # n # unescape_js s)"

definition parse_scalar :: "float_ops \<Rightarrow> string \<Rightarrow> config_value" where
  "parse_scalar fo raw_value =
     (let unquoted = strip_surrounding_quotes raw_value
      in if length unquoted \<noteq> length raw_value then CString (unescape_shell unquoted)
         else (case parse_bool unquoted of
             Some b \<Rightarrow> CBool b
           | None \<Rightarrow> (case parse_i64 unquoted of
               Some i \<Rightarrow> CInt i
             | None \<Rightarrow> (case parse_float fo unquoted of
                 Some f \<Rightarrow> CFloat f
               | None \<Rightarrow> CString (unescape_shell unquoted)))))"

definition parse_js_scalar :: "float_ops \<Rightarrow> string \<Rightarrow> config_value" where
  "parse_js_scalar fo raw_value =
     (case strip_js_string raw_value of
        Some stripped \<Rightarrow> CString (unescape_js stripped)
      | None \<Rightarrow> (case parse_bool raw_value of
            Some b \<Rightarrow> CBool b
          | None \<Rightarrow> (case parse_i64 raw_value of
              Some i \<Rightarrow> CInt i
            | None \<Rightarrow> (case parse_float fo raw_value of
                Some f \<Rightarrow> CFloat f
              | None \<Rightarrow> CString raw_value))))"

section \<open>The line engine\<close>

datatype quote_style = Bare | Shell | JsLiteral

record line_dialect =
  ld_sections :: bool
  ld_separators :: "char list"
  ld_insert_separator :: string
  ld_comment_char :: char
  ld_quote :: quote_style
  ld_statement :: "string option"

record key_val =
  kv_raw :: string
  kv_key :: string
  kv_value :: config_value
  kv_start :: nat
  kv_stop :: nat

datatype line = SectionLine string string | KeyLine key_val | OtherLine string

fun line_raw :: "line \<Rightarrow> string" where
  "line_raw (SectionLine raw _) = raw"
| "line_raw (KeyLine kv) = kv_raw kv"
| "line_raw (OtherLine raw) = raw"

record line_model =
  lm_dialect :: line_dialect
  lm_lines :: "line list"
  lm_trailing_newline :: bool

definition split_lines :: "string \<Rightarrow> string list" where
  "split_lines s =
     (if s = [] then [] else map strip_cr (split_on newline (if last s = newline then butlast s else s)))"

definition parse_section_header :: "string \<Rightarrow> string option" where
  "parse_section_header trimmed =
     (case strip_prefix trimmed ''['' of
        None \<Rightarrow> None
      | Some rest \<Rightarrow> map_option (\<lambda>(name, _). trim name) (split_once CHR '']'' rest))"

text \<open>Offsets into a text: of the first character that satisfies a predicate, and of the first quote
  that is not escaped.\<close>

fun find_char :: "(char \<Rightarrow> bool) \<Rightarrow> string \<Rightarrow> nat option" where
  "find_char P [] = None"
| "find_char P (c # s) = (if P c then Some 0 else map_option Suc (find_char P s))"

fun find_unescaped :: "bool \<Rightarrow> char \<Rightarrow> string \<Rightarrow> nat option" where
  "find_unescaped escaped q [] = None"
| "find_unescaped escaped q (c # s) =
     (if escaped then map_option Suc (find_unescaped False q s)
      else if c = CHR 0x5C then map_option Suc (find_unescaped True q s)
      else if c = q then Some 0
      else map_option Suc (find_unescaped False q s))"

definition find_unescaped_quote_of :: "string \<Rightarrow> char \<Rightarrow> nat option" where
  "find_unescaped_quote_of s q = find_unescaped False q s"

text \<open>Where a comment that follows a space begins; \<open>spaced\<close> is whether a space was just read.\<close>

fun find_comment :: "bool \<Rightarrow> char \<Rightarrow> string \<Rightarrow> nat option" where
  "find_comment spaced comment [] = None"
| "find_comment spaced comment (c # s) =
     (if c = comment \<and> spaced then Some 0 else map_option Suc (find_comment (c = CHR '' '' \<or> c = CHR 0x09) comment s))"

text \<open>The length of the value run at the start of \<open>region\<close>, the rest of the line.\<close>

definition locate_value_end :: "string \<Rightarrow> line_dialect \<Rightarrow> nat" where
  "locate_value_end region d =
     (case region of
        [] \<Rightarrow> 0
      | first # inner \<Rightarrow>
          if ld_quote d \<in> {Shell, Bare} \<and> first \<in> {CHR 0x22, CHR 0x27} then
            (case find_unescaped_quote_of inner first of Some i \<Rightarrow> i + 2 | None \<Rightarrow> length region)
          else (case find_comment False (ld_comment_char d) region of Some i \<Rightarrow> i | None \<Rightarrow> length region))"

definition parse_plain_key_line :: "float_ops \<Rightarrow> string \<Rightarrow> line_dialect \<Rightarrow> string option \<Rightarrow> key_val option" where
  "parse_plain_key_line fo raw d sec =
     (case find_char (\<lambda>c. c \<in> set (ld_separators d)) raw of
        None \<Rightarrow> None
      | Some sep_pos \<Rightarrow>
          (let key_part = trim (take sep_pos raw);
               key = trim (case strip_prefix key_part ''export '' of Some k \<Rightarrow> k | None \<Rightarrow> key_part)
           in if key = [] then None
              else (let region = trim_start (drop (sep_pos + 1) raw);
                        value_start = length raw - length region;
                        raw_value = trim_end (take (locate_value_end region d) region)
                    in Some \<lparr>kv_raw = raw,
                         kv_key = (case sec of Some s \<Rightarrow> s @ ''.'' @ key | None \<Rightarrow> key),
                         kv_value = parse_scalar fo raw_value,
                         kv_start = value_start, kv_stop = value_start + length raw_value\<rparr>)))"

definition find_statement_value_end :: "string \<Rightarrow> nat option" where
  "find_statement_value_end region =
     (case region of
        [] \<Rightarrow> None
      | first # inner \<Rightarrow>
          if first \<in> {CHR 0x22, CHR 0x27} then map_option (\<lambda>i. i + 2) (find_unescaped_quote_of inner first)
          else find_char (\<lambda>c. c \<in> {CHR '')'', CHR '';''}) region)"

definition parse_statement_line :: "float_ops \<Rightarrow> string \<Rightarrow> string \<Rightarrow> key_val option" where
  "parse_statement_line fo raw func =
     (case strip_prefix (trim_start raw) func of
        None \<Rightarrow> None
      | Some after_fn \<Rightarrow>
     (case strip_prefix (trim_start after_fn) ''('' of
        None \<Rightarrow> None
      | Some after_paren \<Rightarrow>
     (case strip_prefix (trim_start after_paren) [CHR 0x22] of
        None \<Rightarrow> None
      | Some key_quote \<Rightarrow>
     (case find_unescaped_quote_of key_quote (CHR 0x22) of
        None \<Rightarrow> None
      | Some key_end \<Rightarrow>
     (case split_once CHR '','' (drop (key_end + 1) key_quote) of
        None \<Rightarrow> None
      | Some (_, value_region) \<Rightarrow>
     (let region = trim_start value_region; value_start = length raw - length region
      in case find_statement_value_end region of
        None \<Rightarrow> None
      | Some close_rel \<Rightarrow>
          (let raw_value = trim_end (take close_rel region)
           in Some \<lparr>kv_raw = raw, kv_key = unescape_js (take key_end key_quote), kv_value = parse_js_scalar fo raw_value,
                kv_start = value_start, kv_stop = value_start + length raw_value\<rparr>)))))))"

definition parse_key_line :: "float_ops \<Rightarrow> string \<Rightarrow> line_dialect \<Rightarrow> string option \<Rightarrow> key_val option" where
  "parse_key_line fo raw d sec =
     (case ld_statement d of Some func \<Rightarrow> parse_statement_line fo raw func | None \<Rightarrow> parse_plain_key_line fo raw d sec)"

text \<open>One line, with the section it stands in and the section of the next.\<close>

definition parse_line :: "float_ops \<Rightarrow> line_dialect \<Rightarrow> string option \<Rightarrow> string \<Rightarrow> line \<times> string option" where
  "parse_line fo d sec raw =
     (let trimmed = trim_start raw
      in if trimmed = [] \<or> hd trimmed = ld_comment_char d \<or> starts_with trimmed ''//'' then (OtherLine raw, sec)
         else case (if ld_sections d then parse_section_header trimmed else None) of
             Some name \<Rightarrow> (SectionLine raw name, Some name)
           | None \<Rightarrow> (case parse_key_line fo raw d sec of
                 Some kv \<Rightarrow> (KeyLine kv, sec)
               | None \<Rightarrow> (OtherLine raw, sec)))"

fun parse_lines :: "float_ops \<Rightarrow> line_dialect \<Rightarrow> string option \<Rightarrow> string list \<Rightarrow> line list" where
  "parse_lines fo d sec [] = []"
| "parse_lines fo d sec (raw # rest) =
     (let (l, sec') = parse_line fo d sec raw in l # parse_lines fo d sec' rest)"

definition line_model_parse :: "float_ops \<Rightarrow> string \<Rightarrow> line_dialect \<Rightarrow> parse_error + line_model" where
  "line_model_parse fo s d =
     (if length s > MAX_CONFIG_BYTES then Inl TooLarge
      else Inr \<lparr>lm_dialect = d, lm_lines = parse_lines fo d None (split_lines s),
        lm_trailing_newline = (s \<noteq> [] \<and> last s = newline)\<rparr>)"

definition to_model :: "line_model \<Rightarrow> config_model" where
  "to_model m = List.map_filter (\<lambda>l. case l of KeyLine kv \<Rightarrow> Some (kv_key kv, kv_value kv) | _ \<Rightarrow> None) (lm_lines m)"

definition emit :: "line_model \<Rightarrow> line list \<Rightarrow> string" where
  "emit m ls = join [newline] (map line_raw ls) @ (if lm_trailing_newline m \<and> ls \<noteq> [] then [newline] else [])"

fun is_key_line :: "string \<Rightarrow> line \<Rightarrow> bool" where
  "is_key_line key (KeyLine kv) \<longleftrightarrow> kv_key kv = key"
| "is_key_line key _ \<longleftrightarrow> False"

fun position :: "('a \<Rightarrow> bool) \<Rightarrow> 'a list \<Rightarrow> nat option" where
  "position P [] = None"
| "position P (x # xs) = (if P x then Some 0 else map_option Suc (position P xs))"

definition find_key_index :: "line_model \<Rightarrow> string \<Rightarrow> nat option" where
  "find_key_index m key = position (is_key_line key) (lm_lines m)"

fun is_section_line :: "line \<Rightarrow> bool" where
  "is_section_line (SectionLine _ _) \<longleftrightarrow> True"
| "is_section_line _ \<longleftrightarrow> False"

fun is_section_named :: "string \<Rightarrow> line \<Rightarrow> bool" where
  "is_section_named s (SectionLine _ name) \<longleftrightarrow> name = s"
| "is_section_named s _ \<longleftrightarrow> False"

definition last_line_of_section :: "line list \<Rightarrow> string \<Rightarrow> nat option" where
  "last_line_of_section ls s =
     map_option (\<lambda>header. header + length (takeWhile (\<lambda>l. \<not> is_section_line l) (drop (header + 1) ls)))
       (position (is_section_named s) ls)"

definition format_key_line :: "line_dialect \<Rightarrow> string \<Rightarrow> string \<Rightarrow> string" where
  "format_key_line d key token =
     (case ld_statement d of
        Some func \<Rightarrow> func @ ''('' @ [CHR 0x22] @ key @ [CHR 0x22] @ '', '' @ token @ '');''
      | None \<Rightarrow> key @ ld_insert_separator d @ token)"

definition serialize_value :: "float_ops \<Rightarrow> line_dialect \<Rightarrow> config_value \<Rightarrow> string + string" where
  "serialize_value fo d v =
     (case v of
        COpaque \<Rightarrow> Inl ''cannot serialize an opaque (non-scalar) value''
      | CString s \<Rightarrow> Inr (case ld_quote d of Bare \<Rightarrow> s | Shell \<Rightarrow> shell_quote s (ld_comment_char d) | JsLiteral \<Rightarrow> js_quote s)
      | CBool b \<Rightarrow> Inr (bool_text b)
      | CInt i \<Rightarrow> Inr (dec_int i)
      | CFloat f \<Rightarrow> Inr (format_float fo f))"

definition insert_at :: "nat \<Rightarrow> 'a \<Rightarrow> 'a list \<Rightarrow> 'a list" where
  "insert_at i x xs = take i xs @ x # drop i xs"

definition insert_key :: "float_ops \<Rightarrow> line_model \<Rightarrow> string \<Rightarrow> config_value \<Rightarrow> string + string" where
  "insert_key fo m key v =
     (case serialize_value fo (lm_dialect m) v of
        Inl e \<Rightarrow> Inl e
      | Inr token \<Rightarrow>
          if ld_sections (lm_dialect m) then
            (case split_once CHR ''.'' key of
               None \<Rightarrow> Inl (''key-path '' @ key @ '' has no section'')
             | Some (s, local) \<Rightarrow>
                 (let new_line = OtherLine (format_key_line (lm_dialect m) local token)
                  in case last_line_of_section (lm_lines m) s of
                       Some i \<Rightarrow> Inr (emit m (insert_at (i + 1) new_line (lm_lines m)))
                     | None \<Rightarrow> Inr (emit m (lm_lines m @ [OtherLine (''['' @ s @ '']''), new_line]))))
          else Inr (emit m (lm_lines m @ [OtherLine (format_key_line (lm_dialect m) key token)])))"

definition replace_range :: "string \<Rightarrow> nat \<Rightarrow> nat \<Rightarrow> string \<Rightarrow> string" where
  "replace_range s i j new = take i s @ new @ drop j s"

definition line_model_set :: "float_ops \<Rightarrow> line_model \<Rightarrow> string \<Rightarrow> config_value \<Rightarrow> string + string" where
  "line_model_set fo m key v =
     (case find_key_index m key of
        Some i \<Rightarrow>
          (case lm_lines m ! i of
             KeyLine kv \<Rightarrow>
               (case serialize_value fo (lm_dialect m) v of
                  Inl e \<Rightarrow> Inl e
                | Inr token \<Rightarrow>
                    Inr (emit m ((lm_lines m)[i := OtherLine (replace_range (kv_raw kv) (kv_start kv) (kv_stop kv) token)])))
           | _ \<Rightarrow> Inl ''internal: key index did not point at a key line'')
      | None \<Rightarrow> insert_key fo m key v)"

definition line_model_remove :: "line_model \<Rightarrow> string \<Rightarrow> string + string" where
  "line_model_remove m key =
     (case find_key_index m key of
        None \<Rightarrow> Inr (emit m (lm_lines m))
      | Some i \<Rightarrow> Inr (emit m (take i (lm_lines m) @ drop (i + 1) (lm_lines m))))"

section \<open>The handlers\<close>

record format_handler =
  fh_read :: "string \<Rightarrow> parse_error + config_model"
  fh_set :: "string \<Rightarrow> string \<Rightarrow> config_value \<Rightarrow> edit_error + string"
  fh_remove :: "string \<Rightarrow> string \<Rightarrow> edit_error + string"

definition parse_to_edit :: "parse_error \<Rightarrow> edit_error" where
  "parse_to_edit e = EditFailed (''parse: '' @ parse_error_text e)"

definition line_handler :: "float_ops \<Rightarrow> line_dialect \<Rightarrow> format_handler" where
  "line_handler fo d =
     \<lparr>fh_read = (\<lambda>s. map_sum id to_model (line_model_parse fo s d)),
      fh_set = (\<lambda>s key v. case line_model_parse fo s d of
          Inl e \<Rightarrow> Inl (parse_to_edit e) | Inr m \<Rightarrow> map_sum EditFailed id (line_model_set fo m key v)),
      fh_remove = (\<lambda>s key. case line_model_parse fo s d of
          Inl e \<Rightarrow> Inl (parse_to_edit e) | Inr m \<Rightarrow> map_sum EditFailed id (line_model_remove m key))\<rparr>"

definition ini_dialect :: line_dialect where
  "ini_dialect = \<lparr>ld_sections = True, ld_separators = ''=:'', ld_insert_separator = '' = '', ld_comment_char = CHR 0x23,
     ld_quote = Bare, ld_statement = None\<rparr>"

definition env_dialect :: line_dialect where
  "env_dialect = \<lparr>ld_sections = False, ld_separators = ''='', ld_insert_separator = ''='', ld_comment_char = CHR 0x23,
     ld_quote = Shell, ld_statement = None\<rparr>"

definition flat_dialect :: line_dialect where
  "flat_dialect = \<lparr>ld_sections = False, ld_separators = ''=:'', ld_insert_separator = ''='', ld_comment_char = CHR 0x23,
     ld_quote = Bare, ld_statement = None\<rparr>"

definition firefox_dialect :: line_dialect where
  "firefox_dialect = \<lparr>ld_sections = False, ld_separators = '','', ld_insert_separator = '', '', ld_comment_char = CHR 0x23,
     ld_quote = JsLiteral, ld_statement = Some ''user_pref''\<rparr>"

datatype config_format = Toml | Json | Ini | FirefoxPrefs | Env | Flat

definition handler_for :: "float_ops \<Rightarrow> format_handler \<Rightarrow> format_handler \<Rightarrow> config_format \<Rightarrow> format_handler" where
  "handler_for fo toml json f =
     (case f of
        Toml \<Rightarrow> toml
      | Json \<Rightarrow> json
      | Ini \<Rightarrow> line_handler fo ini_dialect
      | FirefoxPrefs \<Rightarrow> line_handler fo firefox_dialect
      | Env \<Rightarrow> line_handler fo env_dialect
      | Flat \<Rightarrow> line_handler fo flat_dialect)"

section \<open>The self-check\<close>

definition check_siblings_unchanged :: "config_model \<Rightarrow> config_model \<Rightarrow> string \<Rightarrow> self_check_error + unit" where
  "check_siblings_unchanged original candidate target =
     (case find (\<lambda>(k, v). k \<noteq> target \<and> \<not> (case map_of candidate k of Some cv \<Rightarrow> same_value cv v | None \<Rightarrow> False)) original of
        Some (k, _) \<Rightarrow> Inl (CollateralChange k)
      | None \<Rightarrow>
          (case find (\<lambda>(k, _). k \<noteq> target \<and> map_of original k = None) candidate of
             Some (k, _) \<Rightarrow> Inl (CollateralChange k)
           | None \<Rightarrow> Inr ()))"

definition line_is_target :: "format_handler \<Rightarrow> string \<Rightarrow> string \<Rightarrow> bool" where
  "line_is_target h l target =
     (case fh_read h l of
        Inr [(only, _)] \<Rightarrow> only = target \<or> (case rsplit_once CHR ''.'' target of Some (_, seg) \<Rightarrow> only = seg | None \<Rightarrow> False)
      | _ \<Rightarrow> False)"

definition lines_excluding_target :: "format_handler \<Rightarrow> string \<Rightarrow> string \<Rightarrow> string list" where
  "lines_excluding_target h s target =
     (if s = [] then [] else filter (\<lambda>l. \<not> line_is_target h l target) (split_on newline s))"

fun is_subsequence :: "'a list \<Rightarrow> 'a list \<Rightarrow> bool" where
  "is_subsequence [] haystack = True"
| "is_subsequence (n # needle) haystack =
     (case dropWhile (\<lambda>h. h \<noteq> n) haystack of [] \<Rightarrow> False | _ # rest \<Rightarrow> is_subsequence needle rest)"

definition check_unmodelled_preserved :: "format_handler \<Rightarrow> string \<Rightarrow> string \<Rightarrow> string \<Rightarrow> self_check_error + unit" where
  "check_unmodelled_preserved h original candidate target =
     (if is_subsequence (lines_excluding_target h original target) (lines_excluding_target h candidate target)
      then Inr () else Inl UnmodelledContentChanged)"

definition verify :: "format_handler \<Rightarrow> string \<Rightarrow> string \<Rightarrow> config_model \<Rightarrow> string \<Rightarrow> config_value option \<Rightarrow> self_check_error + unit" where
  "verify h original candidate original_model key expected =
     (case fh_read h candidate of
        Inl e \<Rightarrow> Inl (CandidateUnparsable (parse_error_text e))
      | Inr m \<Rightarrow>
          if \<not> (case expected of
                  Some want \<Rightarrow> (case model_get m key of Some got \<Rightarrow> same_value got want | None \<Rightarrow> False)
                | None \<Rightarrow> model_get m key = None)
          then Inl (EditDidNotApply key)
          else (case check_siblings_unchanged original_model m key of
              Inl e \<Rightarrow> Inl e
            | Inr _ \<Rightarrow> check_unmodelled_preserved h original candidate key))"

definition checked_set :: "format_handler \<Rightarrow> string \<Rightarrow> string \<Rightarrow> config_value \<Rightarrow> edit_error + string" where
  "checked_set h s key v =
     (case fh_read h s of
        Inl e \<Rightarrow> Inl (EditFailed (''read original: '' @ parse_error_text e))
      | Inr original \<Rightarrow>
          if model_get original key = Some COpaque then Inl (OpaqueTarget key)
          else (case fh_set h s key v of
              Inl e \<Rightarrow> Inl e
            | Inr candidate \<Rightarrow>
                (case verify h s candidate original key (Some v) of
                   Inl e \<Rightarrow> Inl (SelfCheck e) | Inr _ \<Rightarrow> Inr candidate)))"

definition checked_remove :: "format_handler \<Rightarrow> string \<Rightarrow> string \<Rightarrow> edit_error + string" where
  "checked_remove h s key =
     (case fh_read h s of
        Inl e \<Rightarrow> Inl (EditFailed (''read original: '' @ parse_error_text e))
      | Inr original \<Rightarrow>
          (case fh_remove h s key of
             Inl e \<Rightarrow> Inl e
           | Inr candidate \<Rightarrow>
               (case verify h s candidate original key None of
                  Inl e \<Rightarrow> Inl (SelfCheck e) | Inr _ \<Rightarrow> Inr candidate)))"

end
