(* ===== verification/Config_Edits.thy ===== *)
theory Config_Edits
  imports Config_Format "HOL-Library.Sublist"
begin

text \<open>
  What the configuration editor guarantees: an edit that is returned is confined to its key, whatever
  the handler did; the line engine reproduces what it does not touch; strings survive quoting; and
  which documents the editor refuses to edit at all.
\<close>

section \<open>The self-check confines an edit\<close>

lemma same_value_eq [simp]: "same_value a b \<longleftrightarrow> a = b"
  by (cases a; cases b) auto

lemma model_get_map_of: "model_get m k = map_of m k"
  by (induction m) (auto simp: model_get_def)

lemma is_subsequence_subseq: "is_subsequence xs ys \<longleftrightarrow> subseq xs ys"
proof (induction ys arbitrary: xs)
  case Nil
  then show ?case by (cases xs) simp_all
next
  case (Cons y ys)
  have "is_subsequence (x # xs') (y # ys) = (if x = y then is_subsequence xs' ys else is_subsequence (x # xs') ys)" for x xs' by auto
  then show ?case using Cons by (cases xs) (simp_all del: is_subsequence.simps(2))
qed

lemma siblings_unchanged:
  assumes "check_siblings_unchanged original candidate target = Inr ()" and "k \<noteq> target"
  shows "map_of candidate k = map_of original k"
proof (cases "map_of original k")
  case None
  have "find (\<lambda>(k, _). k \<noteq> target \<and> map_of original k = None) candidate = None"
    using assms(1) by (auto simp: check_siblings_unchanged_def split: option.splits)
  then have "map_of candidate k = None" using None assms(2) by (fastforce simp: find_None_iff map_of_eq_None_iff)
  then show ?thesis using None by simp
next
  case (Some v)
  have "find (\<lambda>(k, v). k \<noteq> target \<and> \<not> (case map_of candidate k of Some cv \<Rightarrow> same_value cv v | None \<Rightarrow> False)) original = None"
    using assms(1) unfolding check_siblings_unchanged_def by (rule contrapos_pp) (auto split: prod.split)
  then have "\<forall>(k, v) \<in> set original. k \<noteq> target \<longrightarrow> map_of candidate k = Some v"
    by (auto simp: find_None_iff split: option.splits)
  then show ?thesis using Some assms(2) map_of_SomeD [OF Some] by auto
qed

lemma verified:
  assumes "verify h original candidate m key expected = Inr ()"
  obtains m' where "fh_read h candidate = Inr m'" "model_get m' key = expected" "\<And>k. k \<noteq> key \<Longrightarrow> model_get m' k = model_get m k"
    "subseq (lines_excluding_target h original key) (lines_excluding_target h candidate key)"
proof -
  obtain m' where m': "fh_read h candidate = Inr m'" "check_siblings_unchanged m m' key = Inr ()"
      "check_unmodelled_preserved h original candidate key = Inr ()" "model_get m' key = expected"
    using assms by (auto simp: verify_def split: sum.splits if_splits option.splits)
  then show ?thesis using that siblings_unchanged [OF m'(2)]
    by (auto simp: model_get_map_of check_unmodelled_preserved_def is_subsequence_subseq split: if_splits)
qed


section \<open>The line engine reproduces a document\<close>

text \<open>A document without carriage returns.\<close>

definition lf_only :: "string \<Rightarrow> bool" where
  "lf_only s \<longleftrightarrow> CHR 0x0D \<notin> set s"

lemma parse_line_raw: "line_raw (fst (parse_line fo d sec raw)) = raw"
proof -
  have "parse_plain_key_line fo raw d sec = Some kv \<Longrightarrow> kv_raw kv = raw" for kv
    by (auto simp: parse_plain_key_line_def Let_def split: option.splits if_splits)
  moreover have "parse_statement_line fo raw func = Some kv \<Longrightarrow> kv_raw kv = raw" for func kv
    by (auto simp: parse_statement_line_def Let_def split: option.splits if_splits)
  ultimately show ?thesis
    by (auto simp: parse_line_def parse_key_line_def Let_def split: option.splits)
qed

lemma parse_lines_raw: "map line_raw (parse_lines fo d sec rs) = rs"
proof (induction rs arbitrary: sec)
  case (Cons r rs)
  then show ?case using parse_line_raw [of fo d sec r] by (simp add: case_prod_unfold Let_def)
qed simp

lemma join_split_on: "join [c] (split_on c s) = s"
proof (induction s)
  case (Cons x s)
  obtain p ps where "split_on c s = p # ps" by (cases "split_on c s") simp_all
  then show ?case using Cons by (cases ps) auto
qed simp

lemma split_on_join: "xs \<noteq> [] \<Longrightarrow> \<forall>x \<in> set xs. c \<notin> set x \<Longrightarrow> split_on c (join [c] xs) = xs"
proof (induction "[c]" xs rule: join.induct)
  case (3 x y zs)
  then show ?case by (simp add: split_on_append split_on_single)
qed (simp_all add: split_on_single)

lemma strip_cr_id: "CHR 0x0D \<notin> set l \<Longrightarrow> strip_cr l = l"
  by (metis last_in_set strip_cr_def)

lemma split_on_subset: "l \<in> set (split_on c s) \<Longrightarrow> set l \<subseteq> set s"
  by (induction s arbitrary: l) (force split: list.splits if_splits)+

lemma split_on_free: "l \<in> set (split_on c s) \<Longrightarrow> c \<notin> set l"
  by (induction s arbitrary: l) (force split: list.splits if_splits)+

lemma split_lines_lf:
  assumes "lf_only s" and "s \<noteq> []"
  shows "split_lines s = split_on newline (if last s = newline then butlast s else s)"
proof -
  have "CHR 0x0D \<notin> set l" if "l \<in> set (split_on newline (if last s = newline then butlast s else s))" for l
    using split_on_subset [OF that] assms(1) by (auto simp: lf_only_def split: if_splits dest: in_set_butlastD)
  then show ?thesis using assms(2) by (simp add: split_lines_def strip_cr_id map_idI)
qed

lemma emit_split_lines:
  assumes "lf_only s" and "map line_raw ls = split_lines s" and "lm_trailing_newline m \<longleftrightarrow> s \<noteq> [] \<and> last s = newline"
  shows "emit m ls = s"
proof (cases "s = []")
  case True
  then show ?thesis using assms by (simp add: emit_def split_lines_def)
next
  case False
  then have "ls \<noteq> []" using assms(1,2) split_lines_lf [OF assms(1) False] by (metis list.map(1) split_on_not_Nil)
  moreover have "last s = newline \<Longrightarrow> butlast s @ [newline] = s" using append_butlast_last_id [OF False] by simp
  ultimately show ?thesis using False assms(2,3) split_lines_lf [OF assms(1) False]
    by (auto simp: emit_def join_split_on)
qed

text \<open>
  The line engine is lossless: a document without carriage returns, of any of the four line formats,
  is printed back as it was read, so removing an absent key returns it unchanged.
\<close>

theorem line_model_prints_back:
  assumes "lf_only s" and "line_model_parse fo s d = Inr m"
  shows "emit m (lm_lines m) = s \<and> (find_key_index m key = None \<longrightarrow> line_model_remove m key = Inr s)"
proof -
  have "emit m (lm_lines m) = s"
    using assms(2) by (intro emit_split_lines [OF assms(1)]) (auto simp: line_model_parse_def parse_lines_raw split: if_splits)
  then show ?thesis by (simp add: line_model_remove_def)
qed

section \<open>Documents that cannot be edited\<close>

text \<open>A document with the line ends of DOS: a carriage return only just before a newline or the end.\<close>

definition cr_at_ends :: "string \<Rightarrow> bool" where
  "cr_at_ends s \<longleftrightarrow> (\<forall>l \<in> set (split_on newline s). lf_only (strip_cr l))"

lemma split_lines_subset: "set (split_lines s) \<subseteq> strip_cr ` set (split_on newline s)"
proof (cases "s \<noteq> [] \<and> last s = newline")
  case True
  then have "split_on newline s = split_on newline (butlast s) @ [[]]"
    using split_on_append [of newline "butlast s" "[]"] append_butlast_last_id [of s] by simp
  then show ?thesis using True by (auto simp: split_lines_def)
qed (auto simp: split_lines_def)

lemma emit_lf:
  assumes "\<forall>l \<in> set ls. lf_only (line_raw l)"
  shows "lf_only (emit m ls)"
  using assms set_join [of "[newline]" "map line_raw ls"] by (fastforce simp: lf_only_def emit_def newline_def)

lemma parsed_lf:
  assumes "cr_at_ends s" and "line_model_parse fo s d = Inr m"
  shows "\<forall>l \<in> set (lm_lines m). lf_only (line_raw l)"
proof -
  have "map line_raw (lm_lines m) = split_lines s" using assms(2) by (auto simp: line_model_parse_def parse_lines_raw split: if_splits)
  then have "line_raw l \<in> set (split_lines s)" if "l \<in> set (lm_lines m)" for l using that by (metis image_eqI list.set_map)
  then show ?thesis using split_lines_subset [of s] assms(1) unfolding cr_at_ends_def by (metis imageE subsetD)
qed

lemma map_sum_Inr: "map_sum f g x = Inr y \<longleftrightarrow> (\<exists>z. x = Inr z \<and> y = g z)"
  by (cases x) auto

lemma ball_take: "\<forall>x \<in> set xs. P x \<Longrightarrow> \<forall>x \<in> set (take i xs). P x"
  by (meson in_set_takeD)

lemma ball_drop: "\<forall>x \<in> set xs. P x \<Longrightarrow> \<forall>x \<in> set (drop i xs). P x"
  by (meson in_set_dropD)

lemma removed_lf:
  assumes "cr_at_ends s" and "fh_remove (line_handler fo d) s key = Inr t"
  shows "lf_only t"
proof -
  obtain m where m: "line_model_parse fo s d = Inr m" "line_model_remove m key = Inr t"
    using assms(2) by (auto simp: line_handler_def map_sum_Inr split: sum.splits)
  then show ?thesis using parsed_lf [OF assms(1) m(1)] ball_take [OF parsed_lf [OF assms(1) m(1)]] ball_drop [OF parsed_lf [OF assms(1) m(1)]]
    by (auto simp: line_model_remove_def split: option.splits intro!: emit_lf)
qed

lemma set_lf:
  assumes "cr_at_ends s" and "fh_set (line_handler fo d) s key v = Inr t" and "d \<in> {ini_dialect, env_dialect, flat_dialect, firefox_dialect}"
    and "lf_only key" and "\<forall>token. serialize_value fo d v = Inr token \<longrightarrow> lf_only token"
  shows "lf_only t"
proof -
  obtain m where m: "line_model_parse fo s d = Inr m" "line_model_set fo m key v = Inr t"
    using assms(2) by (auto simp: line_handler_def map_sum_Inr split: sum.splits)
  have d: "lm_dialect m = d" using m(1) by (auto simp: line_model_parse_def split: if_splits)
  note raw = parsed_lf [OF assms(1) m(1)]
  have new: "lf_only (format_key_line d k token)" if "lf_only k" "lf_only token" for k token
    using that assms(3) by (auto simp: format_key_line_def lf_only_def ini_dialect_def env_dialect_def flat_dialect_def firefox_dialect_def)
  show ?thesis
  proof (cases "find_key_index m key")
    case None
    then obtain token where token: "serialize_value fo d v = Inr token" "insert_key fo m key v = Inr t"
      using m(2) d by (auto simp: line_model_set_def insert_key_def split: sum.splits)
    show ?thesis
    proof (cases "ld_sections d")
      case True
      then obtain sec local where "split_once CHR ''.'' key = Some (sec, local)" using token d by (auto simp: insert_key_def split: option.splits)
      moreover from this have "lf_only sec" "lf_only local" using assms(4) by (auto simp: split_once_Some lf_only_def)
      moreover have "lf_only (''['' @ sec @ '']'')" using \<open>lf_only sec\<close> by (simp add: lf_only_def)
      ultimately show ?thesis using token d True raw ball_take [OF raw] ball_drop [OF raw] new assms(5)
        by (auto simp: insert_key_def insert_at_def Let_def split: option.splits intro!: emit_lf)
    next
      case False
      then show ?thesis using token d raw new assms(4,5) by (auto simp: insert_key_def intro!: emit_lf)
    qed
  next
    case (Some i)
    then obtain kv token where kv: "lm_lines m ! i = KeyLine kv" "serialize_value fo d v = Inr token"
        "t = emit m ((lm_lines m)[i := OtherLine (replace_range (kv_raw kv) (kv_start kv) (kv_stop kv) token)])"
      using m(2) d by (auto simp: line_model_set_def split: sum.splits line.splits)
    show ?thesis
    proof (cases "i < length (lm_lines m)")
      case True
      then have "lf_only (kv_raw kv)" using raw kv(1) by (metis line_raw.simps(2) nth_mem)
      then have "lf_only (replace_range (kv_raw kv) (kv_start kv) (kv_stop kv) token)"
        using assms(5) kv(2) by (auto simp: replace_range_def lf_only_def dest: in_set_takeD in_set_dropD)
      then show ?thesis unfolding kv(3) using raw by (intro emit_lf) (auto dest!: set_update_subset_insert [THEN subsetD])
    next
      case False
      then show ?thesis unfolding kv(3) using raw by (intro emit_lf) (simp add: list_update_beyond)
    qed
  qed
qed

lemma not_subseq_cr:
  assumes "l \<in> set (lines_excluding_target h s key)" and "CHR 0x0D \<in> set l" and "lf_only t"
  shows "\<not> subseq (lines_excluding_target h s key) (lines_excluding_target h t key)"
proof
  assume "subseq (lines_excluding_target h s key) (lines_excluding_target h t key)"
  then have "l \<in> set (lines_excluding_target h t key)" using assms(1) by (auto elim: list_emb_set)
  then have "l \<in> set (split_on newline t)" by (auto simp: lines_excluding_target_def split: if_splits)
  then show False using split_on_subset assms(2,3) by (fastforce simp: lf_only_def)
qed

text \<open>
  A document with DOS line ends cannot be edited: the line engine drops the carriage returns of the
  lines it does not touch, and the self-check, which compares those lines as they are, refuses the
  result. With one such line beside the key's own, every removal fails, and every set of a value
  that is itself written without a carriage return.
\<close>

theorem crlf_documents_cannot_be_edited:
  assumes "d \<in> {ini_dialect, env_dialect, flat_dialect, firefox_dialect}" and "cr_at_ends s"
    and "l \<in> set (lines_excluding_target (line_handler fo d) s key)" and "CHR 0x0D \<in> set l"
  shows "isl (checked_remove (line_handler fo d) s key) \<and>
    (lf_only key \<and> (\<forall>token. serialize_value fo d v = Inr token \<longrightarrow> lf_only token) \<longrightarrow> isl (checked_set (line_handler fo d) s key v))"
proof -
  let ?h = "line_handler fo d"
  have no: "lf_only t \<Longrightarrow> verify ?h s t m key e \<noteq> Inr ()" for t m e
    using not_subseq_cr [OF assms(3,4), of t] by (auto elim: verified)
  have "isl (checked_remove ?h s key)"
    using removed_lf [OF assms(2), of fo d key] no by (auto simp: checked_remove_def isl_def split: sum.splits)
  moreover have "isl (checked_set ?h s key v)" if "lf_only key" "\<forall>token. serialize_value fo d v = Inr token \<longrightarrow> lf_only token"
    using set_lf [OF assms(2) _ assms(1) that] no by (auto simp: checked_set_def isl_def split: sum.splits)
  ultimately show ?thesis by blast
qed

text \<open>A setting that occurs twice with different values blocks every edit of the others.\<close>

lemma repeated_setting_blocks_edits:
  assumes "fh_read h s = Inr m" and "(k, a) \<in> set m" and "(k, b) \<in> set m" and "a \<noteq> b" and "k \<noteq> key"
  shows "isl (checked_set h s key v)" "isl (checked_remove h s key)"
proof -
  have "isl (check_siblings_unchanged m m' key)" for m'
  proof (rule ccontr)
    assume "\<not> isl (check_siblings_unchanged m m' key)"
    then have "find (\<lambda>(k, v). k \<noteq> key \<and> \<not> (case map_of m' k of Some cv \<Rightarrow> same_value cv v | None \<Rightarrow> False)) m = None"
      unfolding check_siblings_unchanged_def by (rule contrapos_np) (auto split: prod.split)
    then have "\<forall>(k, v) \<in> set m. k \<noteq> key \<longrightarrow> map_of m' k = Some v" by (auto simp: find_None_iff split: option.splits)
    then have "map_of m' k = Some a" "map_of m' k = Some b" using assms(2,3,5) by auto
    then show False using assms(4) by simp
  qed
  then have "isl (verify h s t m key e)" for t e
    by (auto simp: verify_def isl_def split: sum.splits) (metis sum.distinct(1))+
  then show "isl (checked_set h s key v)" "isl (checked_remove h s key)"
    using assms(1) by (auto simp: checked_set_def checked_remove_def isl_def split: sum.splits) (metis sum.distinct(1))+
qed

section \<open>Quoting\<close>

lemma hex_value_upper: "d < 16 \<Longrightarrow> hex_value (upper_digit d) = Some d"
  by (drule nat_below_16, elim insertE emptyE; simp add: upper_digit_def hex_value_def is_ascii_digit_def less_eq_char_def)

lemma upper_digit_plain: "d < 16 \<Longrightarrow> upper_digit d \<noteq> CHR 0x22 \<and> upper_digit d \<noteq> CHR 0x5C"
proof -
  assume "d < 16"
  moreover have "hex_value CHR 0x22 = None" "hex_value CHR 0x5C = None" by (simp_all add: hex_value_def is_ascii_digit_def less_eq_char_def)
  ultimately show ?thesis by (metis hex_value_upper option.distinct(1))
qed

lemma unescape_js_plain: "c \<noteq> CHR 0x5C \<Longrightarrow> unescape_js (c # t) = c # unescape_js t"
  by (cases t) simp_all

lemma from_hex_control:
  assumes "(n::nat) < 128"
  shows "from_hex [CHR ''0'', CHR ''0'', upper_digit (n div 16), upper_digit (n mod 16)] = Some n"
proof -
  have "hex_value (upper_digit (n div 16)) = Some (n div 16)" "hex_value (upper_digit (n mod 16)) = Some (n mod 16)"
    using assms by (auto intro!: hex_value_upper)
  moreover have "hex_value CHR ''0'' = Some 0" by (simp add: hex_value_def is_ascii_digit_def)
  ultimately show ?thesis by (simp add: from_hex_def)
qed

lemma unescape_js_char: "unescape_js (js_char c @ t) = c # unescape_js t"
proof (cases "is_ascii_control c \<and> c \<notin> {CHR 0x22, CHR 0x5C, CHR 0x0A, CHR 0x0D, CHR 0x09}")
  case True
  then have n: "of_char c < (128::nat)" by (auto simp: is_ascii_control_def)
  have "js_char c = [CHR 0x5C, CHR ''u'', CHR ''0'', CHR ''0'', upper_digit (of_char c div 16), upper_digit (of_char c mod 16)]"
    using True by (simp add: js_char_def)
  then show ?thesis using from_hex_control [OF n] n by (simp add: utf8_def)
next
  case False
  then show ?thesis by (auto simp: js_char_def unescape_js_plain)
qed

lemma unescape_js_quoted: "unescape_js (concat (map js_char s)) = s"
  by (induction s) (simp_all add: unescape_js_char)

text \<open>How a character is written between quotes.\<close>

fun shell_escape :: "char \<Rightarrow> string" where
  "shell_escape c = (if c = CHR 0x22 then [CHR 0x5C, CHR 0x22] else if c = CHR 0x5C then [CHR 0x5C, CHR 0x5C] else [c])"

lemma unescape_shell_plain: "c \<noteq> CHR 0x5C \<Longrightarrow> unescape_shell (c # t) = c # unescape_shell t"
  by (cases t) simp_all

lemma unescape_shell_char: "unescape_shell (shell_escape c @ t) = c # unescape_shell t"
  by (auto simp: unescape_shell_plain)

lemma unescape_shell_quoted: "unescape_shell (concat (map shell_escape s)) = s"
  by (induction s) (simp_all add: unescape_shell_char del: shell_escape.simps)

lemma find_unescaped_escaped:
  assumes "\<And>c t. find_unescaped False q (f c @ t) = map_option (\<lambda>i. i + length (f c)) (find_unescaped False q t)"
  shows "find_unescaped False q (concat (map f s) @ t) = map_option (\<lambda>i. i + length (concat (map f s))) (find_unescaped False q t)"
  by (induction s) (simp_all add: assms option.map_comp comp_def option.map_ident add_ac)

lemma find_unescaped_shell: "find_unescaped False (CHR 0x22) (shell_escape c @ t) = map_option (\<lambda>i. i + length (shell_escape c)) (find_unescaped False (CHR 0x22) t)"
  by (simp add: option.map_comp comp_def)

lemma find_unescaped_js: "find_unescaped False (CHR 0x22) (js_char c @ t) = map_option (\<lambda>i. i + length (js_char c)) (find_unescaped False (CHR 0x22) t)"
proof -
  have "is_ascii_control c \<Longrightarrow> of_char c div 16 < (16::nat)" by (auto simp: is_ascii_control_def)
  then have "is_ascii_control c \<Longrightarrow> upper_digit (of_char c div 16) \<noteq> CHR 0x22 \<and> upper_digit (of_char c div 16) \<noteq> CHR 0x5C"
    "upper_digit (of_char c mod 16) \<noteq> CHR 0x22 \<and> upper_digit (of_char c mod 16) \<noteq> CHR 0x5C"
    by (simp_all add: upper_digit_plain)
  then show ?thesis by (simp add: js_char_def option.map_comp comp_def)
qed


definition needs_quotes :: "char \<Rightarrow> string \<Rightarrow> bool" where
  "needs_quotes comment s \<longleftrightarrow> s = [] \<or> (\<exists>c \<in> set s. is_whitespace c \<or> c = CHR 0x22 \<or> c = CHR 0x27 \<or> c = comment \<or> c = CHR ''='')"

lemma shell_quote_quoted: "needs_quotes cc s \<Longrightarrow> shell_quote s cc = CHR 0x22 # concat (map shell_escape s) @ [CHR 0x22]"
  by (simp only: shell_quote_def needs_quotes_def shell_escape.simps [abs_def]) auto

lemma strip_quotes: "strip_surrounding_quotes (CHR 0x22 # t @ [CHR 0x22]) = t" "strip_js_string (CHR 0x22 # t @ [CHR 0x22]) = Some t"
  by (simp_all add: strip_surrounding_quotes_def strip_js_string_def)

text \<open>
  A quoted string reads back: what the editor writes for a string of a Firefox preference, and for
  one of an environment file that it puts in quotes, is read as that string, and the value run ends
  at its closing quote whatever follows on the line.
\<close>

theorem quoted_strings_read_back:
  "parse_js_scalar fo (js_quote s) = CString s \<and> find_statement_value_end (js_quote s @ rest) = Some (length (js_quote s)) \<and>
   (needs_quotes (CHR 0x23) s \<longrightarrow> parse_scalar fo (shell_quote s (CHR 0x23)) = CString s \<and>
      locate_value_end (shell_quote s (CHR 0x23) @ rest) env_dialect = length (shell_quote s (CHR 0x23)))"
proof (intro conjI impI)
  show "parse_js_scalar fo (js_quote s) = CString s"
    by (simp add: parse_js_scalar_def js_quote_def strip_quotes unescape_js_quoted)
  show "find_statement_value_end (js_quote s @ rest) = Some (length (js_quote s))"
    using find_unescaped_escaped [of "CHR 0x22" js_char s "CHR 0x22 # rest", OF find_unescaped_js]
    by (simp add: find_statement_value_end_def js_quote_def find_unescaped_quote_of_def)
  assume q: "needs_quotes (CHR 0x23) s"
  show "parse_scalar fo (shell_quote s (CHR 0x23)) = CString s"
    unfolding shell_quote_quoted [OF q] by (simp add: parse_scalar_def strip_quotes unescape_shell_quoted Let_def del: shell_escape.simps)
  show "locate_value_end (shell_quote s (CHR 0x23) @ rest) env_dialect = length (shell_quote s (CHR 0x23))"
    using find_unescaped_escaped [of "CHR 0x22" shell_escape s "CHR 0x22 # rest", OF find_unescaped_shell]
    unfolding shell_quote_quoted [OF q]
    by (simp add: locate_value_end_def env_dialect_def find_unescaped_quote_of_def del: shell_escape.simps)
qed

end
