(* ===== verification/Undo_Enact.thy ===== *)
theory Undo_Enact
  imports Trash_Safety Config_Edits
begin

text \<open>
  Capturing and replaying inverses (\<open>daemons/undo-service/src/undo_enact.rs\<close>): moving a file back without
  overwriting, deleting or trashing a created file only while it is the one that was created, and
  restoring a setting through the checked editor.

  SHA-256, the float operations and the TOML and JSON handlers are arguments, collected with what
  the kernel does in the record \<open>enact_env\<close>. Between the check and the rename of the fallback of
  \<open>rename_noreplace\<close> nothing else runs here.
\<close>

section \<open>The environment\<close>

text \<open>How the atomic write of a file goes: the call that fails, if any. A write that fails has put some bytes.\<close>

datatype write_step = WriteOk | CreateFails string | WriteFailsAt nat string | SyncFails string | RenameFails string

record enact_env =
  ee_sha256 :: "bytes \<Rightarrow> bytes"
  ee_read_error :: "string \<Rightarrow> string option"
  ee_renameat2 :: "errno option"
  ee_rename :: "string option"
  ee_remove :: "string option"
  ee_write :: write_step
  ee_tmp_removes :: bool
  ee_float :: float_ops
  ee_toml :: format_handler
  ee_json :: format_handler
  ee_trash :: trash_env
  ee_uid :: nat

definition fs_rename :: "string option \<Rightarrow> string \<Rightarrow> string \<Rightarrow> files \<Rightarrow> (string + unit) \<times> files" where
  "fs_rename fault src dst fs =
     (case fault of
        Some e \<Rightarrow> (Inl e, fs)
      | None \<Rightarrow> (case fs src of None \<Rightarrow> (Inl ENOENT_text, fs) | Some b \<Rightarrow> (Inr (), fs(src := None, dst := Some b))))"

definition remove_file :: "string option \<Rightarrow> string \<Rightarrow> files \<Rightarrow> (string + unit) \<times> files" where
  "remove_file fault path fs =
     (case fault of
        Some e \<Rightarrow> (Inl e, fs)
      | None \<Rightarrow> (case fs path of None \<Rightarrow> (Inl ENOENT_text, fs) | Some _ \<Rightarrow> (Inr (), fs(path := None))))"

section \<open>Outcomes\<close>

datatype enact_outcome = Restored | Deleted | Trashed | RefusedIdentityMismatch | RefusedPriorOccupied | NotFilesystem

datatype enact_error = EnactIo string | EnactUnsupported string

fun enact_error_text :: "enact_error \<Rightarrow> string" where
  "enact_error_text (EnactIo e) = ''undo enact io: '' @ e"
| "enact_error_text (EnactUnsupported why) = ''undo enact unsupported: '' @ why"

fun is_enactable :: "inverse_receipt \<Rightarrow> bool" where
  "is_enactable (RestoreSnapshot _ _) = False"
| "is_enactable _ = True"

fun is_graph_receipt :: "inverse_receipt \<Rightarrow> bool" where
  "is_graph_receipt (RetractGraphEdge _ _ _ _ _ _) = True"
| "is_graph_receipt _ = False"

definition is_enactable_here :: "inverse_receipt \<Rightarrow> bool" where
  "is_enactable_here r \<longleftrightarrow> is_enactable r \<and> \<not> is_graph_receipt r"

section \<open>Files\<close>

text \<open>\<open>fingerprint_file\<close> (\<open>ai/ai-undo-core/src/effect_model.rs\<close>): nothing for a path that cannot be read.\<close>

definition fingerprint_file :: "enact_env \<Rightarrow> string \<Rightarrow> files \<Rightarrow> string option" where
  "fingerprint_file env path fs =
     (case fs path of
        None \<Rightarrow> None
      | Some b \<Rightarrow> if ee_read_error env path \<noteq> None then None else Some (hex (ee_sha256 env b)))"

definition rename_noreplace :: "enact_env \<Rightarrow> string \<Rightarrow> string \<Rightarrow> files \<Rightarrow> (string + bool) \<times> files" where
  "rename_noreplace env src dst fs =
     (if CHR 0x00 \<in> set src \<or> CHR 0x00 \<in> set dst then (Inl ''path contains a nul byte'', fs)
      else case kernel_rename_noreplace (ee_renameat2 env) src dst fs of
          (Inr _, fs') \<Rightarrow> (Inr True, fs')
        | (Inl e, fs') \<Rightarrow>
            if e = EEXIST then (Inr False, fs')
            else if e = EINVAL \<or> e = ENOSYS then
              (if fs' dst \<noteq> None then (Inr False, fs')
               else case fs_rename (ee_rename env) src dst fs' of
                   (Inl m, fs'') \<Rightarrow> (Inl m, fs'')
                 | (Inr _, fs'') \<Rightarrow> (Inr True, fs''))
            else (Inl (errno_text e), fs'))"

definition enact_restore_path :: "enact_env \<Rightarrow> string \<Rightarrow> string \<Rightarrow> files \<Rightarrow> (enact_error + enact_outcome) \<times> files" where
  "enact_restore_path env now prior fs =
     (case rename_noreplace env now prior fs of
        (Inl e, fs') \<Rightarrow> (Inl (EnactIo e), fs')
      | (Inr moved, fs') \<Rightarrow> (Inr (if moved then Restored else RefusedPriorOccupied), fs'))"

definition enact_restore_from_trash :: "enact_env \<Rightarrow> string \<Rightarrow> string \<Rightarrow> string \<Rightarrow> files \<Rightarrow> (enact_error + enact_outcome) \<times> files" where
  "enact_restore_from_trash env original trashed trash_info fs =
     (case rename_noreplace env trashed original fs of
        (Inl e, fs') \<Rightarrow> (Inl (EnactIo e), fs')
      | (Inr moved, fs') \<Rightarrow>
          if \<not> moved then (Inr RefusedPriorOccupied, fs')
          else (Inr Restored, snd (remove_file (ee_remove env) trash_info fs')))"

definition enact_delete_created :: "enact_env \<Rightarrow> string \<Rightarrow> string \<Rightarrow> files \<Rightarrow> (enact_error + enact_outcome) \<times> files" where
  "enact_delete_created env path fingerprint fs =
     (if fingerprint_file env path fs = Some fingerprint then
        (case remove_file (ee_remove env) path fs of
           (Inl e, fs') \<Rightarrow> (Inl (EnactIo e), fs')
         | (Inr _, fs') \<Rightarrow> (Inr Deleted, fs'))
      else (Inr RefusedIdentityMismatch, fs))"

text \<open>The \<open>Debug\<close> text of an error of the trash, for ASCII.\<close>

definition debug_char :: "char \<Rightarrow> string" where
  "debug_char c =
     (if c = CHR 0x22 \<or> c = CHR 0x5C then [CHR 0x5C, c]
      else if c = CHR 0x09 then [CHR 0x5C, CHR ''t'']
      else if c = CHR 0x0D then [CHR 0x5C, CHR ''r'']
      else if c = CHR 0x0A then [CHR 0x5C, CHR ''n'']
      else if c = CHR 0x00 then [CHR 0x5C, CHR ''0'']
      else if is_ascii_control c then CHR 0x5C # ''u{'' @ (if (of_char c :: nat) < 16 then [''0123456789abcdef'' ! of_char c] else hex [c]) @ ''}''
      else [c])"

definition debug_text :: "string \<Rightarrow> string" where
  "debug_text s = CHR 0x22 # concat (map debug_char s) @ [CHR 0x22]"

fun trash_error_debug :: "trash_error \<Rightarrow> string" where
  "trash_error_debug NotFound = ''NotFound''"
| "trash_error_debug TrashUnsupported = ''Unsupported''"
| "trash_error_debug NoSlot = ''NoSlot''"
| "trash_error_debug NonCanonical = ''NonCanonical''"
| "trash_error_debug TrashCrossDevice = ''CrossDevice''"
| "trash_error_debug (NoTrashHere m) = ''NoTrashHere('' @ debug_text m @ '')''"
| "trash_error_debug (TrashIo m) = ''Io('' @ debug_text m @ '')''"

definition enact_trash_created :: "enact_env \<Rightarrow> string \<Rightarrow> string \<Rightarrow> files \<Rightarrow> (enact_error + enact_outcome) \<times> files" where
  "enact_trash_created env path fingerprint fs =
     (if fingerprint_file env path fs = Some fingerprint then
        (case trash (ee_trash env) path (ee_uid env) fs of
           (Inl e, fs') \<Rightarrow> (Inl (EnactIo (''trash: '' @ trash_error_debug e)), fs')
         | (Inr _, fs') \<Rightarrow> (Inr Trashed, fs'))
      else (Inr RefusedIdentityMismatch, fs))"

section \<open>Settings\<close>

definition path_extension :: "string \<Rightarrow> string option" where
  "path_extension p =
     (case file_name p of
        None \<Rightarrow> None
      | Some n \<Rightarrow> (case rsplit_once CHR ''.'' n of Some (stem, ext) \<Rightarrow> if stem = [] then None else Some ext | None \<Rightarrow> None))"

definition format_for_file :: "string \<Rightarrow> config_format option" where
  "format_for_file f =
     (case file_name f of
        None \<Rightarrow> None
      | Some name \<Rightarrow>
          if name = ''prefs.js'' then Some FirefoxPrefs
          else if name = ''.env'' \<or> ends_with name ''.env'' then Some Env
          else (case path_extension f of
              None \<Rightarrow> None
            | Some e \<Rightarrow>
                (let ext = map to_ascii_lowercase e
                 in if ext = ''toml'' then Some Toml
                    else if ext = ''json'' \<or> ext = ''jsonc'' then Some Json
                    else if ext = ''ini'' \<or> ext = ''conf'' \<or> ext = ''cfg'' then Some Ini
                    else None)))"

definition parse_prior :: "float_ops \<Rightarrow> string \<Rightarrow> config_value" where
  "parse_prior fo s =
     (if s = ''true'' then CBool True
      else if s = ''false'' then CBool False
      else case parse_i64 s of
          Some i \<Rightarrow> CInt i
        | None \<Rightarrow> (case fo_parse fo s of Some f \<Rightarrow> CFloat f | None \<Rightarrow> CString s))"

fun value_to_prior_string :: "float_ops \<Rightarrow> config_value \<Rightarrow> string" where
  "value_to_prior_string fo (CString s) = s"
| "value_to_prior_string fo (CBool b) = bool_text b"
| "value_to_prior_string fo (CInt i) = dec_int i"
| "value_to_prior_string fo (CFloat f) = fo_display fo f"
| "value_to_prior_string fo COpaque = []"

definition undo_tmp :: "string \<Rightarrow> string" where
  "undo_tmp path =
     path_join (case path_parent path of Some d \<Rightarrow> d | None \<Rightarrow> ''.'')
       (''.'' @ (case file_name path of Some n \<Rightarrow> n | None \<Rightarrow> ''cfg'') @ ''.undo-tmp'')"

definition atomic_write :: "enact_env \<Rightarrow> string \<Rightarrow> bytes \<Rightarrow> files \<Rightarrow> (enact_error + unit) \<times> files" where
  "atomic_write env path b fs =
     (let tmp = undo_tmp path;
          failed = (\<lambda>e fs'. (Inl (EnactIo e), if ee_tmp_removes env then fs'(tmp := None) else fs'))
      in case ee_write env of
           CreateFails e \<Rightarrow> failed e fs
         | WriteFailsAt k e \<Rightarrow> failed e (fs(tmp := Some (take k b)))
         | SyncFails e \<Rightarrow> failed e (fs(tmp := Some b))
         | RenameFails e \<Rightarrow> failed e (fs(tmp := Some b))
         | WriteOk \<Rightarrow> (Inr (), fs(tmp := None, path := Some b)))"

fun self_check_text :: "self_check_error \<Rightarrow> string" where
  "self_check_text (CandidateUnparsable d) = ''the edited document no longer parses: '' @ d"
| "self_check_text (EditDidNotApply k) = ''the edit did not apply to '' @ k"
| "self_check_text (CollateralChange k) = ''the edit changed an unrelated key: '' @ k"
| "self_check_text UnmodelledContentChanged = ''the edit changed comments or formatting outside the target key''"

fun edit_error_text :: "edit_error \<Rightarrow> string" where
  "edit_error_text (EditFailed d) = ''edit failed: '' @ d"
| "edit_error_text (OpaqueTarget k) = ''refusing to overwrite a non-scalar value at '' @ k"
| "edit_error_text (SelfCheck e) = self_check_text e"

definition setting_handler :: "enact_env \<Rightarrow> config_format \<Rightarrow> format_handler" where
  "setting_handler env f = handler_for (ee_float env) (ee_toml env) (ee_json env) f"

definition restore_candidate :: "enact_env \<Rightarrow> config_format \<Rightarrow> string \<Rightarrow> string \<Rightarrow> string option \<Rightarrow> edit_error + string" where
  "restore_candidate env f s key prior =
     (case prior of
        Some v \<Rightarrow> checked_set (setting_handler env f) s key (parse_prior (ee_float env) v)
      | None \<Rightarrow> checked_remove (setting_handler env f) s key)"

definition write_candidate :: "enact_env \<Rightarrow> string \<Rightarrow> edit_error + string \<Rightarrow> files \<Rightarrow> (enact_error + enact_outcome) \<times> files" where
  "write_candidate env f candidate fs =
     (case candidate of
        Inl e \<Rightarrow> (Inl (EnactIo (edit_error_text e)), fs)
      | Inr t \<Rightarrow> (case atomic_write env f t fs of (Inl e, fs') \<Rightarrow> (Inl e, fs') | (Inr _, fs') \<Rightarrow> (Inr Restored, fs')))"

definition enact_restore_value :: "enact_env \<Rightarrow> string \<Rightarrow> string \<Rightarrow> string option \<Rightarrow> files \<Rightarrow> (enact_error + enact_outcome) \<times> files" where
  "enact_restore_value env f key prior fs =
     (case format_for_file f of
        None \<Rightarrow> (Inl (EnactUnsupported ''unrecognized setting file format''), fs)
      | Some format \<Rightarrow>
          (case fs f of
             None \<Rightarrow> if prior = None then (Inr Restored, fs) else write_candidate env f (restore_candidate env format [] key prior) fs
           | Some s \<Rightarrow>
               (case ee_read_error env f of
                  Some e \<Rightarrow> (Inl (EnactIo e), fs)
                | None \<Rightarrow> write_candidate env f (restore_candidate env format s key prior) fs)))"

definition apply_setting_value :: "enact_env \<Rightarrow> string \<Rightarrow> string \<Rightarrow> string \<Rightarrow> files \<Rightarrow> (enact_error + enact_outcome) \<times> files" where
  "apply_setting_value env f key v fs = enact_restore_value env f key (Some v) fs"

section \<open>Replaying an inverse\<close>

fun enact_inverse :: "enact_env \<Rightarrow> inverse_receipt \<Rightarrow> files \<Rightarrow> (enact_error + enact_outcome) \<times> files" where
  "enact_inverse env (RestorePath now prior) fs = enact_restore_path env now prior fs"
| "enact_inverse env (RestoreFromTrash original trashed trash_info) fs = enact_restore_from_trash env original trashed trash_info fs"
| "enact_inverse env (DeleteCreated created) fs = enact_delete_created env (ci_path created) (ci_fingerprint created) fs"
| "enact_inverse env (TrashCreated created) fs = enact_trash_created env (ci_path created) (ci_fingerprint created) fs"
| "enact_inverse env (RestoreValue target prior) fs = enact_restore_value env (st_file target) (st_key target) prior fs"
| "enact_inverse env (RestoreSnapshot _ _) fs = (Inl (EnactUnsupported ''snapshot restore is gated on a snapshot-capable filesystem''), fs)"
| "enact_inverse env (RetractGraphEdge _ _ _ _ _ _) fs = (Inr NotFilesystem, fs)"

record recovery_outcome =
  ro_recovered :: "string list"
  ro_deferred :: "(string \<times> string) list"

text \<open>The enactment may change what it acts on, which is passed along.\<close>

fun drive_compensation_recovery :: "(inverse_receipt \<Rightarrow> 's \<Rightarrow> (enact_error + enact_outcome) \<times> 's) \<Rightarrow> undo_entry list \<Rightarrow> 's \<Rightarrow> recovery_outcome \<times> 's" where
  "drive_compensation_recovery enact [] s = (\<lparr>ro_recovered = [], ro_deferred = []\<rparr>, s)"
| "drive_compensation_recovery enact (e # es) s =
     (let (res, s') = enact (ue_inverse e) s; (out, s'') = drive_compensation_recovery enact es s'
      in ((case res of
             Inr _ \<Rightarrow> out\<lparr>ro_recovered := ue_op_id e # ro_recovered out\<rparr>
           | Inl m \<Rightarrow> out\<lparr>ro_deferred := (ue_op_id e, enact_error_text m) # ro_deferred out\<rparr>), s''))"

section \<open>Capturing an inverse\<close>

definition inverse_of_move :: "string \<Rightarrow> string \<Rightarrow> inverse_receipt option" where
  "inverse_of_move src dst =
     (case (canonical_path_new dst, canonical_path_new src) of (Some now, Some prior) \<Rightarrow> Some (RestorePath now prior) | _ \<Rightarrow> None)"

definition capture_created :: "enact_env \<Rightarrow> string \<Rightarrow> files \<Rightarrow> enact_error + inverse_receipt" where
  "capture_created env path fs =
     (case fingerprint_file env path fs of
        None \<Rightarrow> Inl (EnactIo (''created file unreadable: '' @ path))
      | Some fp \<Rightarrow>
          (case canonical_path_new path of
             None \<Rightarrow> Inl (EnactUnsupported ''created path is not canonical-absolute'')
           | Some canon \<Rightarrow>
               (case created_identity_new canon fp of
                  None \<Rightarrow> Inl (EnactUnsupported ''empty fingerprint'')
                | Some created \<Rightarrow> Inr (DeleteCreated created))))"

definition read_prior :: "enact_env \<Rightarrow> config_format \<Rightarrow> string \<Rightarrow> string \<Rightarrow> enact_error + string option" where
  "read_prior env f s key =
     (case fh_read (setting_handler env f) s of
        Inl e \<Rightarrow> Inl (EnactIo (''read setting: '' @ parse_error_text e))
      | Inr m \<Rightarrow>
          (case model_get m key of
             None \<Rightarrow> Inr None
           | Some v \<Rightarrow> if v = COpaque then Inl (EnactUnsupported ''current value is non-scalar'') else Inr (Some (value_to_prior_string (ee_float env) v))))"

definition capture_prior_value :: "enact_env \<Rightarrow> string \<Rightarrow> string \<Rightarrow> files \<Rightarrow> enact_error + inverse_receipt" where
  "capture_prior_value env f key fs =
     (case format_for_file f of
        None \<Rightarrow> Inl (EnactUnsupported ''unrecognized setting file format'')
      | Some format \<Rightarrow>
          (case setting_target_new f key of
             None \<Rightarrow> Inl (EnactUnsupported ''empty file or key'')
           | Some target \<Rightarrow>
               map_sum id (RestoreValue target)
                 (case fs f of
                    None \<Rightarrow> Inr None
                  | Some s \<Rightarrow> (case ee_read_error env f of Some e \<Rightarrow> Inl (EnactIo e) | None \<Rightarrow> read_prior env format s key))))"

end
