(* ===== verification/Config_Sets.thy ===== *)
theory Config_Sets
  imports Config_Edits
begin

text \<open>
  Setting an existing key of an \<open>.env\<close> or flat document to a number or a boolean: the edit is made, passes
  its self-check, and replaces the old value and nothing else.
\<close>

section \<open>Tokens\<close>

text \<open>A text that stands for itself on a line: not empty, no space, quote or comment sign.\<close>

definition plain_token :: "string \<Rightarrow> bool" where
  "plain_token token \<longleftrightarrow> token \<noteq> [] \<and> (\<forall>c \<in> set token. \<not> is_whitespace c \<and> c \<notin> {CHR 0x22, CHR 0x27, CHR 0x23})"

fun plain_value :: "config_value \<Rightarrow> bool" where
  "plain_value (CBool b) \<longleftrightarrow> True"
| "plain_value (CInt i) \<longleftrightarrow> - (2 ^ 63) \<le> i \<and> i < 2 ^ 63"
| "plain_value _ \<longleftrightarrow> False"

lemma digit_plain: "is_ascii_digit c \<Longrightarrow> \<not> is_whitespace c \<and> c \<notin> {CHR 0x22, CHR 0x27, CHR 0x23}"
  by (auto simp: is_ascii_digit_def is_whitespace_def less_eq_char_def)

lemma plain_value_token:
  assumes "plain_value v"
  obtains token where "serialize_value fo d v = Inr token" "plain_token token" "parse_scalar fo token = v" "length token \<le> 20" "lf_only token" "newline \<notin> set token"
proof (cases v)
  case (CBool b)
  have "plain_token (bool_text b)" "lf_only (bool_text b)" "newline \<notin> set (bool_text b)" "length (bool_text b) \<le> 20"
    by (simp_all add: bool_text_def plain_token_def is_whitespace_def lf_only_def newline_def)
  moreover have "parse_scalar fo (bool_text b) = v"
    by (simp add: CBool bool_text_def parse_scalar_def strip_surrounding_quotes_def parse_bool_def)
  ultimately show ?thesis using CBool by (intro that [of "bool_text b"]) (simp_all add: serialize_value_def)
next
  case (CInt i)
  then have i: "- (2 ^ 63) \<le> i" "i < 2 ^ 63" using assms by simp_all
  have chars: "\<forall>c \<in> set (dec_int i). c = CHR ''-'' \<or> is_ascii_digit c" by (auto simp: dec_int_def dest: dec_digits)
  have "\<not> is_whitespace CHR ''-''" "is_whitespace CHR 0x0D" "is_whitespace newline" by (simp_all add: is_whitespace_def newline_def)
  moreover have "dec_int i \<noteq> []" by (simp add: dec_int_def)
  ultimately have plain: "plain_token (dec_int i)" unfolding plain_token_def using chars digit_plain by fastforce
  have cr: "CHR 0x0D \<notin> set (dec_int i)" "newline \<notin> set (dec_int i)"
    using plain \<open>is_whitespace CHR 0x0D\<close> \<open>is_whitespace newline\<close> unfolding plain_token_def by blast+
  have "nat i < 10 ^ 19" "nat (- i) < 10 ^ 19" using i by simp_all
  then have "length (dec_int i) \<le> 20"
    using length_dec [of "nat i" 19] length_dec [of "nat (- i)" 19] by (simp add: dec_int_def)
  have "hd (dec_int i) \<in> set (dec_int i)" by (simp add: dec_int_def)
  then have "hd (dec_int i) \<noteq> CHR 0x22" "hd (dec_int i) \<noteq> CHR 0x27" using plain unfolding plain_token_def by blast+
  moreover have "\<not> is_ascii_digit CHR ''t''" "\<not> is_ascii_digit CHR ''f''" by (simp_all add: is_ascii_digit_def less_eq_char_def)
  then have "hd (dec_int i) \<noteq> CHR ''t''" "hd (dec_int i) \<noteq> CHR ''f''"
    using bspec [OF chars \<open>hd (dec_int i) \<in> set (dec_int i)\<close>] by auto
  then have "dec_int i \<noteq> ''true''" "dec_int i \<noteq> ''false''" by auto
  ultimately have "parse_scalar fo (dec_int i) = v"
    using parse_i64_dec_int [OF i] CInt by (simp add: parse_scalar_def strip_surrounding_quotes_def parse_bool_def)
  then show ?thesis using CInt plain cr \<open>length (dec_int i) \<le> 20\<close>
    by (intro that [of "dec_int i"]) (simp_all add: serialize_value_def lf_only_def)
qed (use assms in auto)

section \<open>One line\<close>

lemma find_comment_free: "c \<notin> set s \<Longrightarrow> find_comment sp c s = None"
  by (induction s arbitrary: sp) auto

lemma find_comment_at:
  "c \<notin> set a \<Longrightarrow> a \<noteq> [] \<Longrightarrow> last a = CHR '' '' \<or> last a = CHR 0x09 \<Longrightarrow> find_comment sp c (a @ c # b) = Some (length a)"
proof (induction a arbitrary: sp)
  case (Cons x a)
  then show ?case by (cases a) auto
qed simp

lemma find_comment_Some:
  "find_comment sp c s = Some i \<Longrightarrow> \<exists>a b. s = a @ c # b \<and> length a = i \<and> (a = [] \<and> sp \<or> a \<noteq> [] \<and> (last a = CHR '' '' \<or> last a = CHR 0x09))"
proof (induction s arbitrary: sp i)
  case (Cons x s)
  show ?case
  proof (cases "x = c \<and> sp")
    case True
    then show ?thesis using Cons.prems by auto
  next
    case False
    then obtain j where j: "find_comment (x = CHR '' '' \<or> x = CHR 0x09) c s = Some j" "i = Suc j" using Cons.prems by auto
    from Cons.IH [OF j(1)] obtain a b where "s = a @ c # b" "length a = j" "a = [] \<and> (x = CHR '' '' \<or> x = CHR 0x09) \<or> a \<noteq> [] \<and> (last a = CHR '' '' \<or> last a = CHR 0x09)"
      by blast
    then show ?thesis using j(2) by (intro exI [of _ "x # a"] exI [of _ b]) auto
  qed
qed simp

text \<open>A text is its trimmed part and the white space after it.\<close>

lemma trim_end_split: obtains w where "s = trim_end s @ w" "\<forall>c \<in> set w. is_whitespace c" "s \<noteq> [] \<and> is_whitespace (last s) \<longrightarrow> w \<noteq> [] \<and> last w = last s"
proof -
  let ?w = "rev (takeWhile is_whitespace (rev s))"
  have s: "s = trim_end s @ ?w" unfolding trim_end_def trim_start_def by (metis rev_append rev_rev_ident takeWhile_dropWhile_id)
  have "s \<noteq> [] \<and> is_whitespace (last s) \<longrightarrow> ?w \<noteq> []" by (cases s rule: rev_cases) auto
  then show ?thesis using that [OF s] s by (metis last_appendR rev_rev_ident set_rev set_takeWhileD)
qed

lemma trim_end_plain: "token \<noteq> [] \<Longrightarrow> \<not> is_whitespace (last token) \<Longrightarrow> \<forall>c \<in> set w. is_whitespace c \<Longrightarrow> trim_end (token @ w) = token"
  by (cases token rule: rev_cases) (auto simp: trim_end_def trim_start_def dropWhile_append)

lemma plain_token_ends:
  assumes "plain_token token"
  shows "token \<noteq> []" "CHR 0x23 \<notin> set token" "\<not> is_whitespace (last token)" "\<not> is_whitespace (hd token)" "hd token \<noteq> CHR 0x22" "hd token \<noteq> CHR 0x27"
proof -
  show ne: "token \<noteq> []" using assms by (simp add: plain_token_def)
  have "c \<in> set token \<Longrightarrow> \<not> is_whitespace c \<and> c \<noteq> CHR 0x22 \<and> c \<noteq> CHR 0x27 \<and> c \<noteq> CHR 0x23" for c
    using assms unfolding plain_token_def by blast
  from this [of "last token"] this [of "hd token"] this [of "CHR 0x23"]
  show "CHR 0x23 \<notin> set token" "\<not> is_whitespace (last token)" "\<not> is_whitespace (hd token)" "hd token \<noteq> CHR 0x22" "hd token \<noteq> CHR 0x27"
    using ne by auto
qed

lemma no_sharp: "\<forall>c \<in> set w. is_whitespace c \<Longrightarrow> CHR 0x23 \<notin> set w"
  by (rule notI, drule (1) bspec) (simp add: is_whitespace_def)

lemma locate_unquoted:
  assumes "ld_comment_char d = CHR 0x23" and "region = [] \<or> hd region \<noteq> CHR 0x22 \<and> hd region \<noteq> CHR 0x27"
  shows "locate_value_end region d = (case find_comment False (CHR 0x23) region of Some i \<Rightarrow> i | None \<Rightarrow> length region)"
proof (cases region)
  case (Cons x xs)
  then have "\<not> (ld_quote d \<in> {Shell, Bare} \<and> x \<in> {CHR 0x22, CHR 0x27})" using assms(2) by simp
  then show ?thesis unfolding Cons locate_value_end_def assms(1) by (simp only: list.case if_False)
qed (simp add: locate_value_end_def)

lemma run_then_space:
  assumes "ld_comment_char d = CHR 0x23" and token: "plain_token token" and w: "\<forall>c \<in> set w. is_whitespace c"
  shows "trim_end (take (locate_value_end (token @ w) d) (token @ w)) = token"
proof -
  note t = plain_token_ends [OF token]
  have "find_comment False (CHR 0x23) (token @ w) = None" using t(2) no_sharp [OF w] by (simp add: find_comment_free)
  moreover have "locate_value_end (token @ w) d = (case find_comment False (CHR 0x23) (token @ w) of Some i \<Rightarrow> i | None \<Rightarrow> length (token @ w))"
    using t by (intro locate_unquoted [OF assms(1)]) simp
  ultimately show ?thesis using trim_end_plain [OF t(1,3) w] by simp
qed

lemma run_then_comment:
  assumes "ld_comment_char d = CHR 0x23" and token: "plain_token token" and w: "\<forall>c \<in> set w. is_whitespace c"
    and "w \<noteq> []" and "last w = CHR '' '' \<or> last w = CHR 0x09"
  shows "trim_end (take (locate_value_end (token @ w @ CHR 0x23 # b) d) (token @ w @ CHR 0x23 # b)) = token"
proof -
  note t = plain_token_ends [OF token]
  have "find_comment False (CHR 0x23) ((token @ w) @ CHR 0x23 # b) = Some (length (token @ w))"
    using t(1,2) no_sharp [OF w] assms(4,5) by (intro find_comment_at) simp_all
  moreover have "locate_value_end (token @ w @ CHR 0x23 # b) d =
      (case find_comment False (CHR 0x23) (token @ w @ CHR 0x23 # b) of Some i \<Rightarrow> i | None \<Rightarrow> length (token @ w @ CHR 0x23 # b))"
    using t by (intro locate_unquoted [OF assms(1)]) simp
  ultimately show ?thesis using trim_end_plain [OF t(1,3) w] by simp
qed

lemma value_run_replaced:
  assumes "ld_comment_char d = CHR 0x23" and "region = [] \<or> hd region \<noteq> CHR 0x22 \<and> hd region \<noteq> CHR 0x27"
    and "raw_value = trim_end (take (locate_value_end region d) region)" and token: "plain_token token"
  shows "trim_end (take (locate_value_end (token @ drop (length raw_value) region) d) (token @ drop (length raw_value) region)) = token"
proof (cases "find_comment False (CHR 0x23) region")
  case None
  obtain w where w: "region = trim_end region @ w" "\<forall>c \<in> set w. is_whitespace c" by (rule trim_end_split)
  have "raw_value = trim_end region" using assms(3) locate_unquoted [OF assms(1,2)] None by simp
  then have "drop (length raw_value) region = w" using w(1) by (metis append_eq_conv_conj)
  then show ?thesis using run_then_space [OF assms(1) token w(2)] by simp
next
  case (Some i)
  obtain a b where ab: "region = a @ CHR 0x23 # b" "length a = i" "a \<noteq> []" "last a = CHR '' '' \<or> last a = CHR 0x09"
    using find_comment_Some [OF Some] by auto
  obtain w where w: "a = trim_end a @ w" "\<forall>c \<in> set w. is_whitespace c" "a \<noteq> [] \<and> is_whitespace (last a) \<longrightarrow> w \<noteq> [] \<and> last w = last a"
    by (rule trim_end_split)
  have "is_whitespace (last a)" using ab(4) by (auto simp: is_whitespace_def)
  then have wl: "w \<noteq> []" "last w = CHR '' '' \<or> last w = CHR 0x09" using w(3) ab(3,4) by simp_all
  have "raw_value = trim_end a" using assms(3) locate_unquoted [OF assms(1,2)] Some ab(1,2) by simp
  moreover have "region = trim_end a @ (w @ CHR 0x23 # b)" using w(1) ab(1) by (metis append.assoc)
  ultimately have "drop (length raw_value) region = w @ CHR 0x23 # b" by (metis append_eq_conv_conj)
  then show ?thesis using run_then_comment [OF assms(1) token w(2) wl] by simp
qed

lemma find_char_prefix: "find_char P s = Some i \<Longrightarrow> i < length s \<and> P (s ! i) \<and> find_char P (take (Suc i) s @ x) = Some i"
proof (induction s arbitrary: i)
  case (Cons c s)
  then show ?case by (cases "P c") auto
qed simp

lemma trim_start_append: "\<exists>c \<in> set p. \<not> is_whitespace c \<Longrightarrow> trim_start (p @ x) = trim_start p @ x"
  by (auto simp: trim_start_def dropWhile_append)

lemma trim_start_space: "\<forall>c \<in> set w. is_whitespace c \<Longrightarrow> x = [] \<or> \<not> is_whitespace (hd x) \<Longrightarrow> trim_start (w @ x) = x"
  by (cases x) (auto simp: trim_start_def dropWhile_append)

lemma trim_start_split: obtains w where "s = w @ trim_start s" "\<forall>c \<in> set w. is_whitespace c"
  using that [of "takeWhile is_whitespace s"] by (simp add: trim_start_def) (meson set_takeWhileD)

text \<open>The parts of a key line: up to the separator, white space, the value region.\<close>

lemma plain_line_parts:
  assumes "parse_plain_key_line fo raw d sec = Some kv"
  obtains sep pre w region where "find_char (\<lambda>c. c \<in> set (ld_separators d)) raw = Some sep" "pre = take (Suc sep) raw" "raw = pre @ w @ region"
    "\<forall>c \<in> set w. is_whitespace c" "region = trim_start (drop (Suc sep) raw)" "kv_start kv = length (pre @ w)"
    "kv_stop kv = kv_start kv + length (trim_end (take (locate_value_end region d) region))" "\<exists>c \<in> set (take sep raw). \<not> is_whitespace c"
proof -
  obtain sep where sep: "find_char (\<lambda>c. c \<in> set (ld_separators d)) raw = Some sep"
    using assms by (auto simp: parse_plain_key_line_def split: option.splits)
  define region where "region = trim_start (drop (Suc sep) raw)"
  obtain w where w: "drop (Suc sep) raw = w @ region" "\<forall>c \<in> set w. is_whitespace c"
    using trim_start_split [of "drop (Suc sep) raw"] region_def by metis
  have raw: "raw = take (Suc sep) raw @ w @ region" using w(1) append_take_drop_id [of "Suc sep" raw] by simp
  have start: "length raw - length region = length (take (Suc sep) raw @ w)" by (subst (1) raw) simp
  have kv: "kv_start kv = length raw - length region"
    "kv_stop kv = length raw - length region + length (trim_end (take (locate_value_end region d) region))"
    and key: "trim (case strip_prefix (trim (take sep raw)) ''export '' of Some k \<Rightarrow> k | None \<Rightarrow> trim (take sep raw)) \<noteq> []"
    using assms sep by (auto simp: parse_plain_key_line_def Let_def region_def split: if_splits)
  have "\<exists>c \<in> set (take sep raw). \<not> is_whitespace c"
  proof (rule ccontr)
    assume "\<not> (\<exists>c \<in> set (take sep raw). \<not> is_whitespace c)"
    then have "trim (take sep raw) = []" by (simp add: trim_empty_iff)
    moreover have "trim [] = []" "strip_prefix [] ''export '' = None" by (simp_all add: trim_def trim_start_def strip_prefix_def starts_with_def)
    ultimately show False using key by simp
  qed
  then show ?thesis using that [OF sep refl raw w(2) region_def] kv start by simp
qed

text \<open>The documents without sections and statements.\<close>

definition plain_dialect :: "line_dialect \<Rightarrow> bool" where
  "plain_dialect d \<longleftrightarrow> ld_comment_char d = CHR 0x23 \<and> \<not> ld_sections d \<and> ld_statement d = None \<and>
     (\<forall>c \<in> set (ld_separators d). \<not> is_whitespace c)"

lemma parse_line_plain:
  assumes "plain_dialect d"
  shows "parse_line fo d sec raw =
    (if trim_start raw = [] \<or> hd (trim_start raw) = CHR 0x23 \<or> starts_with (trim_start raw) ''//'' then OtherLine raw
     else case parse_plain_key_line fo raw d sec of Some kv \<Rightarrow> KeyLine kv | None \<Rightarrow> OtherLine raw, sec)"
  using assms by (simp add: parse_line_def plain_dialect_def parse_key_line_def Let_def split: option.split)

lemma starts_with_two: "length p \<ge> 2 \<Longrightarrow> starts_with (p @ x) [a, b] \<longleftrightarrow> take 2 p = [a, b]"
  by (simp add: starts_with_def numeral_2_eq_2)

definition key_text :: "string \<Rightarrow> string" where
  "key_text p = trim (case strip_prefix (trim p) ''export '' of Some k \<Rightarrow> k | None \<Rightarrow> trim p)"

lemma parse_plain_at:
  assumes "find_char (\<lambda>c. c \<in> set (ld_separators d)) raw = Some sep" and "trim_start (drop (Suc sep) raw) = region"
    and "trim_end (take (locate_value_end region d) region) = rv"
  shows "parse_plain_key_line fo raw d None = (if key_text (take sep raw) = [] then None
    else Some \<lparr>kv_raw = raw, kv_key = key_text (take sep raw), kv_value = parse_scalar fo rv, kv_start = length raw - length region,
      kv_stop = length raw - length region + length rv\<rparr>)"
  using assms by (simp add: parse_plain_key_line_def key_text_def Let_def)

lemma replaced_line:
  assumes d: "plain_dialect d" and line: "parse_line fo d None raw = (KeyLine kv, None)" and token: "plain_token token"
    and unquoted: "kv_start kv < length raw \<longrightarrow> raw ! kv_start kv \<noteq> CHR 0x22 \<and> raw ! kv_start kv \<noteq> CHR 0x27"
  shows "\<exists>kv'. parse_line fo d None (replace_range raw (kv_start kv) (kv_stop kv) token) = (KeyLine kv', None) \<and>
    kv_key kv' = kv_key kv \<and> kv_value kv' = parse_scalar fo token"
proof -
  have head: "hd (trim_start raw) \<noteq> CHR 0x23" "\<not> starts_with (trim_start raw) ''//''" and kv: "parse_plain_key_line fo raw d None = Some kv"
    using line unfolding parse_line_plain [OF d] by (auto split: if_splits option.splits)
  obtain sep pre w region where p: "find_char (\<lambda>c. c \<in> set (ld_separators d)) raw = Some sep" "pre = take (Suc sep) raw" "raw = pre @ w @ region"
    "\<forall>c \<in> set w. is_whitespace c" "region = trim_start (drop (Suc sep) raw)" "kv_start kv = length (pre @ w)"
    "kv_stop kv = kv_start kv + length (trim_end (take (locate_value_end region d) region))" "\<exists>c \<in> set (take sep raw). \<not> is_whitespace c"
    using plain_line_parts [OF kv] by metis
  define rest where "rest = drop (length (trim_end (take (locate_value_end region d) region))) region"
  have new: "replace_range raw (kv_start kv) (kv_stop kv) token = pre @ w @ token @ rest"
    unfolding replace_range_def p(6,7) rest_def by (subst (1 2) p(3)) simp
  have sep: "sep < length raw" "raw ! sep \<in> set (ld_separators d)" "find_char (\<lambda>c. c \<in> set (ld_separators d)) (pre @ x) = Some sep" for x
    using find_char_prefix [OF p(1), of x] p(2) by auto
  have pre: "pre = take sep raw @ [raw ! sep]" using sep(1) p(2) by (simp add: take_Suc_conv_app_nth)
  have lp: "length pre = Suc sep" using sep(1) p(2) by simp
  have "region = [] \<or> hd region \<noteq> CHR 0x22 \<and> hd region \<noteq> CHR 0x27"
    using unquoted p(6) by (subst (asm) p(3), subst (asm) p(3), subst (asm) p(3)) (cases region; simp add: nth_append)
  note run = value_run_replaced [OF _ this refl token]
  note t = plain_token_ends [OF token]
  have after: "trim_start (drop (Suc sep) (pre @ w @ token @ rest)) = token @ rest"
    using lp t(1,4) trim_start_space [OF p(4), of "token @ rest"] by simp
  have ex: "\<exists>c \<in> set pre. \<not> is_whitespace c" using p(8) pre by auto
  have trims: "trim_start (pre @ x) = trim_start pre @ x" for x by (rule trim_start_append [OF ex])
  have "trim_start pre = trim_start (take sep raw) @ [raw ! sep]" unfolding pre by (rule trim_start_append [OF p(8)])
  moreover have "trim_start (take sep raw) \<noteq> []" using p(8) by (auto simp: trim_start_def dropWhile_eq_Nil_conv)
  ultimately have two: "length (trim_start pre) \<ge> 2" by (cases "trim_start (take sep raw)") auto
  then have ne: "trim_start pre \<noteq> []" by auto
  have head': "hd (trim_start (pre @ x)) = hd (trim_start raw)" "starts_with (trim_start (pre @ x)) ''//'' = starts_with (trim_start raw) ''//''" for x
    unfolding trims using p(3) trims [of "w @ region"] ne starts_with_two [OF two] by auto
  have take: "take sep (pre @ x) = take sep raw" for x using lp p(2) by (simp add: min_def)
  have "ld_comment_char d = CHR 0x23" using d by (simp add: plain_dialect_def)
  note new' = parse_plain_at [OF sep(3) after run [OF this, folded rest_def], of fo, unfolded take]
  have "key_text (take sep raw) \<noteq> []" "kv_key kv = key_text (take sep raw)"
    using kv parse_plain_at [OF p(1) p(5) [symmetric] refl, of fo] by (auto split: if_splits)
  then obtain kv' where "parse_plain_key_line fo (pre @ w @ token @ rest) d None = Some kv'" "kv_key kv' = kv_key kv" "kv_value kv' = parse_scalar fo token"
    using new' by simp
  moreover have "trim_start (pre @ w @ token @ rest) \<noteq> []" unfolding trims using ne by simp
  ultimately show ?thesis using head head' unfolding new parse_line_plain [OF d] by simp
qed

section \<open>The document\<close>

lemma join_snoc_empty: "xs \<noteq> [] \<Longrightarrow> join [c] (xs @ [[]]) = join [c] xs @ [c]"
  by (induction "[c]" xs rule: join.induct) simp_all

lemma last_join: "xs \<noteq> [] \<Longrightarrow> last xs \<noteq> [] \<Longrightarrow> join [c] xs \<noteq> [] \<and> last (join [c] xs) = last (last xs)"
  by (induction "[c]" xs rule: join.induct) auto

lemma parse_lines_plain: "plain_dialect d \<Longrightarrow> parse_lines fo d None rs = map (\<lambda>r. fst (parse_line fo d None r)) rs"
  by (induction rs) (simp_all add: parse_line_plain)

text \<open>Replacing one line of a document.\<close>

lemma split_lines_parts:
  assumes "lf_only s" and "s \<noteq> []"
  shows "split_on newline s = split_lines s @ (if last s = newline then [[]] else [])" "split_lines s \<noteq> []" "last s \<noteq> newline \<longrightarrow> last (split_lines s) \<noteq> []"
proof -
  show L: "split_on newline s = split_lines s @ (if last s = newline then [[]] else [])"
  proof (cases "last s = newline")
    case True
    then have "s = butlast s @ newline # []" using append_butlast_last_id [OF assms(2)] by simp
    then have "split_on newline s = split_on newline (butlast s) @ [[]]" using split_on_append [of newline "butlast s" "[]"] by simp
    then show ?thesis using True split_lines_lf [OF assms] by simp
  qed (simp add: split_lines_lf [OF assms])
  show ne: "split_lines s \<noteq> []" using split_lines_lf [OF assms] by simp
  show "last s \<noteq> newline \<longrightarrow> last (split_lines s) \<noteq> []"
  proof
    assume "last s \<noteq> newline"
    then have s: "s = join [newline] (split_lines s)" using L join_split_on [of newline s] by simp
    show "last (split_lines s) \<noteq> []"
    proof
      assume "last (split_lines s) = []"
      then have e: "split_lines s = butlast (split_lines s) @ [[]]" using append_butlast_last_id [OF ne] by simp
      show False
      proof (cases "butlast (split_lines s) = []")
        case True
        then have "join [newline] (split_lines s) = []" by (subst e) simp
        then show False using s assms(2) by simp
      next
        case False
        then have "s = join [newline] (butlast (split_lines s)) @ [newline]" using join_snoc_empty [OF False, of newline] e s by simp
        then show False using \<open>last s \<noteq> newline\<close> by (metis last_snoc)
      qed
    qed
  qed
qed

lemma emit_replaced:
  assumes "lf_only s" and "s \<noteq> []" and "lm_trailing_newline m \<longleftrightarrow> last s = newline" and "i < length (split_lines s)"
    and "map line_raw ls = (split_lines s)[i := r]" and r: "r \<noteq> []" "lf_only r" "newline \<notin> set r"
  shows "lf_only (emit m ls)" "emit m ls \<noteq> []" "last (emit m ls) = newline \<longleftrightarrow> last s = newline" "split_lines (emit m ls) = (split_lines s)[i := r]"
    "split_on newline (emit m ls) = (split_on newline s)[i := r]"
proof -
  let ?ls = "(split_lines s)[i := r]"
  note parts = split_lines_parts [OF assms(1,2)]
  have ne: "?ls \<noteq> []" using parts(2) by simp
  then have ls: "ls \<noteq> []" using assms(5) by (metis list.map_disc_iff)
  have free: "newline \<notin> set l \<and> lf_only l" if "l \<in> set ?ls" for l
  proof -
    have "l = r \<or> l \<in> set (split_lines s)" using that set_update_subset_insert by fastforce
    then have "l = r \<or> l \<in> set (split_on newline s)" using parts(1) by auto
    then show ?thesis using r split_on_free [of l newline s] split_on_subset [of l newline s] assms(1) by (auto simp: lf_only_def)
  qed
  have emit: "emit m ls = join [newline] ?ls @ (if last s = newline then [newline] else [])"
    using assms(3,5) ls by (simp add: emit_def)
  show lf: "lf_only (emit m ls)"
    using free set_join [of "[newline]" ?ls] unfolding emit lf_only_def by (fastforce simp: newline_def)
  have last: "last s \<noteq> newline \<longrightarrow> last ?ls \<noteq> []" using parts(2,3) r(1) by (simp add: last_list_update)
  have lj: "last s \<noteq> newline \<Longrightarrow> join [newline] ?ls \<noteq> [] \<and> last (join [newline] ?ls) \<noteq> newline"
    using last_join [OF ne, of newline] last free [of "last ?ls"] ne by (metis last_in_set)
  then show e: "emit m ls \<noteq> []" and l: "last (emit m ls) = newline \<longleftrightarrow> last s = newline" unfolding emit by auto
  show "split_lines (emit m ls) = ?ls"
    using split_lines_lf [OF lf e] l free split_on_join [OF ne, of newline] unfolding emit by auto
  then show "split_on newline (emit m ls) = (split_on newline s)[i := r]"
    using split_lines_parts(1) [OF lf e] l parts(1) assms(4) by (simp add: list_update_append)
qed

lemma siblings_ok:
  assumes "distinct (map fst (a @ (key, old) # b))"
  shows "check_siblings_unchanged (a @ (key, old) # b) (a @ (key, v) # b) key = Inr ()"
proof -
  have "map_of (a @ (key, v) # b) k = Some x" if "(k, x) \<in> set (a @ (key, old) # b)" "k \<noteq> key" for k x
    using that assms by (intro map_of_is_SomeI) auto
  then have "find (\<lambda>(k, x). k \<noteq> key \<and> \<not> (case map_of (a @ (key, v) # b) k of Some cv \<Rightarrow> same_value cv x | None \<Rightarrow> False)) (a @ (key, old) # b) = None"
    unfolding find_None_iff by fastforce
  moreover have "find (\<lambda>(k, _). k \<noteq> key \<and> map_of (a @ (key, old) # b) k = None) (a @ (key, v) # b) = None"
    unfolding find_None_iff map_of_eq_None_iff by force
  ultimately show ?thesis unfolding check_siblings_unchanged_def by simp
qed

lemma position_split:
  "position P xs = Some i \<Longrightarrow> i < length xs \<and> P (xs ! i) \<and> (\<forall>x \<in> set (take i xs). \<not> P x)"
proof (induction xs arbitrary: i)
  case (Cons x xs)
  then show ?case by (cases "P x") auto
qed simp

lemma read_one_line:
  assumes "plain_dialect d" and "lf_only r" "newline \<notin> set r" "length r \<le> MAX_CONFIG_BYTES" and "fst (parse_line fo d None r) = KeyLine kv"
  shows "line_is_target (line_handler fo d) r (kv_key kv)"
proof -
  have "r \<noteq> []" using assms(5) by (auto simp: parse_line_plain [OF assms(1)] trim_start_def)
  then have "last r \<noteq> newline" using assms(3) by (metis last_in_set)
  then have "split_lines r = [r]" using split_lines_lf [OF assms(2) \<open>r \<noteq> []\<close>] split_on_single [OF assms(3)] by simp
  then have "fh_read (line_handler fo d) r = Inr [(kv_key kv, kv_value kv)]"
    using assms(4,5) by (simp add: line_handler_def line_model_parse_def to_model_def List.map_filter_simps case_prod_unfold)
  then show ?thesis by (simp add: line_is_target_def)
qed

lemma filter_update: "i < length xs \<Longrightarrow> \<not> P (xs ! i) \<Longrightarrow> \<not> P y \<Longrightarrow> filter P (xs[i := y]) = filter P xs"
proof (induction xs arbitrary: i)
  case (Cons x xs)
  then show ?case by (cases i) auto
qed simp

lemma length_split_on: "l \<in> set (split_on c s) \<Longrightarrow> length l \<le> length s"
proof (induction s arbitrary: l)
  case (Cons x s)
  then show ?case by (cases "split_on c s") (auto split: if_splits intro: le_SucI)
qed simp

lemma length_join_update: "i < length xs \<Longrightarrow> length (join [c] (xs[i := y])) + length (xs ! i) = length (join [c] xs) + length y"
proof (induction "[c]" xs arbitrary: i rule: join.induct)
  case (3 x z zs)
  show ?case
  proof (cases i)
    case (Suc j)
    then have "j < length (z # zs)" using 3 by simp
    moreover obtain a as where "(z # zs)[j := y] = a # as" by (cases j) auto
    ultimately show ?thesis using "3.hyps" [of j] Suc by simp
  qed simp
qed auto

lemma parse_scalar_not_opaque: "parse_scalar fo s \<noteq> COpaque"
  by (simp add: parse_scalar_def Let_def split: option.split)

lemma plain_kv_value:
  assumes "plain_dialect d" and "fst (parse_line fo d None r) = KeyLine kv"
  shows "kv_value kv \<noteq> COpaque" "kv_start kv \<le> kv_stop kv" "parse_line fo d None r = (KeyLine kv, None)"
proof -
  have "parse_plain_key_line fo r d None = Some kv"
    using assms(2) unfolding parse_line_plain [OF assms(1)] by (auto split: if_splits option.splits)
  then show "kv_value kv \<noteq> COpaque" "kv_start kv \<le> kv_stop kv"
    using parse_scalar_not_opaque by (auto simp: parse_plain_key_line_def Let_def split: option.splits if_splits)
  show "parse_line fo d None r = (KeyLine kv, None)" using assms(2) parse_line_plain [OF assms(1), of fo None r] by (metis fst_conv)
qed

abbreviation line_entry :: "line \<Rightarrow> (string \<times> config_value) option" where
  "line_entry l \<equiv> (case l of KeyLine kv \<Rightarrow> Some (kv_key kv, kv_value kv) | _ \<Rightarrow> None)"

lemma entries_at:
  assumes "i < length ls" and "ls ! i = KeyLine kv"
  shows "List.map_filter line_entry ls = List.map_filter line_entry (take i ls) @ (kv_key kv, kv_value kv) # List.map_filter line_entry (drop (Suc i) ls)"
proof -
  have "ls = take i ls @ KeyLine kv # drop (Suc i) ls" using id_take_nth_drop [OF assms(1)] assms(2) by simp
  then have "List.map_filter line_entry ls = List.map_filter line_entry (take i ls @ KeyLine kv # drop (Suc i) ls)" by simp
  then show ?thesis by (simp add: List.map_filter_def)
qed

lemma replaced_entries:
  assumes "i < length ls" and "ls ! i = KeyLine kv" and "kv_key kv' = kv_key kv"
  obtains a b where "List.map_filter line_entry ls = a @ (kv_key kv, kv_value kv) # b"
    "List.map_filter line_entry (ls[i := KeyLine kv']) = a @ (kv_key kv, kv_value kv') # b"
  using that [OF entries_at [OF assms(1,2)]] entries_at [of i "ls[i := KeyLine kv']" kv'] assms by simp

lemma replaced_length:
  assumes "lf_only s" and "s \<noteq> []" and "i < length (split_lines s)" and "split_on newline t = (split_on newline s)[i := r]"
  shows "length t + length (split_lines s ! i) = length s + length r"
proof -
  have "i < length (split_on newline s)" "split_on newline s ! i = split_lines s ! i"
    using assms(3) split_lines_parts(1) [OF assms(1,2)] by (simp_all add: nth_append)
  then show ?thesis
    using length_join_update [of i "split_on newline s" newline r] join_split_on [of newline s] join_split_on [of newline t] assms(4) by simp
qed

lemma replaced_verifies:
  assumes "distinct (map fst (a @ (key, old) # b))" and "fh_read h t = Inr (a @ (key, v) # b)"
    and "lines_excluding_target h t key = lines_excluding_target h s key"
  shows "verify h s t (a @ (key, old) # b) key (Some v) = Inr ()"
proof -
  have "key \<notin> fst ` set a" using assms(1) by auto
  then have "model_get (a @ (key, v) # b) key = Some v" by (simp add: model_get_map_of map_add_Some_iff map_of_eq_None_iff)
  then show ?thesis using assms siblings_ok [OF assms(1), of v] by (simp add: verify_def check_unmodelled_preserved_def is_subsequence_subseq)
qed

text \<open>
  C31. An existing setting can be set: in an environment or flat document (without carriage returns, with
  no setting twice, and room for the new text) whose value is not quoted, setting a key that is there
  to a boolean or a 64-bit integer succeeds, and the document that is returned is the original with
  that value's characters replaced.
\<close>

theorem existing_setting_can_be_set:
  assumes d: "d \<in> {env_dialect, flat_dialect}" and lf: "lf_only s" and room: "length s + 20 \<le> MAX_CONFIG_BYTES"
    and m: "line_model_parse fo s d = Inr m" and once: "distinct (map fst (to_model m))"
    and key: "find_key_index m key = Some i" "lm_lines m ! i = KeyLine kv"
    and unquoted: "kv_start kv < length (kv_raw kv) \<longrightarrow> kv_raw kv ! kv_start kv \<noteq> CHR 0x22 \<and> kv_raw kv ! kv_start kv \<noteq> CHR 0x27"
    and v: "plain_value v" "serialize_value fo d v = Inr token"
  shows "checked_set (line_handler fo d) s key v =
    Inr (emit m ((lm_lines m)[i := OtherLine (replace_range (kv_raw kv) (kv_start kv) (kv_stop kv) token)]))" (is "_ = Inr ?t")
proof -
  have pd: "plain_dialect d" using d by (auto simp: plain_dialect_def env_dialect_def flat_dialect_def is_whitespace_def)
  have tok: "plain_token token" "parse_scalar fo token = v" "length token \<le> 20" "lf_only token" "newline \<notin> set token"
    using plain_value_token [OF v(1), of fo d] v(2) by (metis Inr_inject)+
  have mm: "lm_dialect m = d" "lm_lines m = map (\<lambda>r. fst (parse_line fo d None r)) (split_lines s)" "lm_trailing_newline m \<longleftrightarrow> s \<noteq> [] \<and> last s = newline"
    using m by (auto simp: line_model_parse_def parse_lines_plain [OF pd] split: if_splits)
  have i: "i < length (split_lines s)" "kv_key kv = key" and firsts: "\<forall>l \<in> set (take i (lm_lines m)). \<not> is_key_line key l"
    using position_split [OF key(1) [unfolded find_key_index_def]] mm(2) key(2) by auto
  then have "s \<noteq> []" by (auto simp: split_lines_def)
  define r where "r = split_lines s ! i"
  have line: "fst (parse_line fo d None r) = KeyLine kv" using key(2) mm(2) i(1) by (simp add: r_def)
  then have raw: "kv_raw kv = r" using parse_line_raw [of fo d None r] by simp
  have "r \<in> set (split_on newline s)" using i(1) split_lines_parts(1) [OF lf \<open>s \<noteq> []\<close>] by (auto simp: r_def)
  then have rf: "lf_only r" "newline \<notin> set r" "length r \<le> length s"
    using split_on_subset [of r newline s] split_on_free [of r newline s] length_split_on [of r newline s] lf by (auto simp: lf_only_def)
  note kv = plain_kv_value [OF pd line]
  define r' where "r' = replace_range r (kv_start kv) (kv_stop kv) token"
  obtain kv' where kv': "parse_line fo d None r' = (KeyLine kv', None)" "kv_key kv' = key" "kv_value kv' = v"
    using replaced_line [OF pd kv(3) tok(1)] unquoted raw i(2) tok(2) unfolding r'_def by auto
  have rf': "r' \<noteq> []" "lf_only r'" "newline \<notin> set r'" "length r' \<le> length r + 20"
    using tok rf kv(2) plain_token_ends(1) [OF tok(1)] unfolding r'_def replace_range_def lf_only_def
    by (auto dest: in_set_takeD in_set_dropD)
  let ?ls = "(lm_lines m)[i := OtherLine r']"
  have t: "?t = emit m ?ls" using raw by (simp add: r'_def)
  have ls: "map line_raw ?ls = (split_lines s)[i := r']"
    using parse_line_raw [of fo d None] by (simp add: map_update mm(2) comp_def)
  note doc = emit_replaced [OF lf \<open>s \<noteq> []\<close> _ i(1) ls rf'(1-3)]
  have trail: "lm_trailing_newline m \<longleftrightarrow> last s = newline" using mm(3) \<open>s \<noteq> []\<close> by simp
  note doc = doc [OF trail]
  have len: "length (emit m ?ls) \<le> MAX_CONFIG_BYTES"
    using replaced_length [OF lf \<open>s \<noteq> []\<close> i(1) doc(5)] rf'(4) room by (simp add: r_def)
  obtain a b where old: "to_model m = a @ (key, kv_value kv) # b" and "List.map_filter line_entry ((lm_lines m)[i := KeyLine kv']) = a @ (key, v) # b"
    using replaced_entries [of i "lm_lines m" kv kv'] key(2) i mm(2) kv'(2,3) by (auto simp: to_model_def)
  moreover have "map (\<lambda>r. fst (parse_line fo d None r)) ((split_lines s)[i := r']) = (lm_lines m)[i := KeyLine kv']"
    using kv'(1) by (simp add: map_update mm(2))
  ultimately have new: "fh_read (line_handler fo d) (emit m ?ls) = Inr (a @ (key, v) # b)"
    using len doc(4) by (simp add: line_handler_def line_model_parse_def parse_lines_plain [OF pd] to_model_def)
  have "key \<notin> fst ` set a" using once old by auto
  then have get: "model_get (to_model m) key = Some (kv_value kv)"
    by (simp add: old model_get_map_of map_add_Some_iff map_of_eq_None_iff)
  have "line_is_target (line_handler fo d) r key" "line_is_target (line_handler fo d) r' key"
    using read_one_line [OF pd rf(1,2), of fo kv] read_one_line [OF pd rf'(2,3), of fo kv'] line kv' i(2) rf(3) rf'(4) room by simp_all
  then have kept: "lines_excluding_target (line_handler fo d) (emit m ?ls) key = lines_excluding_target (line_handler fo d) s key"
    using \<open>s \<noteq> []\<close> doc(2,5) i(1) split_lines_parts(1) [OF lf \<open>s \<noteq> []\<close>]
    by (simp add: lines_excluding_target_def filter_update r_def nth_append)
  have "verify (line_handler fo d) s (emit m ?ls) (to_model m) key (Some v) = Inr ()"
    using replaced_verifies [OF _ new kept] once unfolding old by blast
  moreover have "fh_read (line_handler fo d) s = Inr (to_model m)" "fh_set (line_handler fo d) s key v = Inr (emit m ?ls)"
    using m key v(2) mm(1) raw by (simp_all add: line_handler_def line_model_set_def r'_def)
  ultimately show ?thesis using get kv(1) unfolding t by (simp add: checked_set_def)
qed

section \<open>Edits that are always refused\<close>

text \<open>
  The only setting of a document cannot be removed: when an environment or flat document is one line
  with its newline, removing the key of that line is refused by the self-check, since the empty
  document that would remain has no line for the empty text after that newline.
\<close>

theorem only_setting_cannot_be_removed:
  assumes "d \<in> {env_dialect, flat_dialect}" and "lf_only r" and "newline \<notin> set r" and "length r < MAX_CONFIG_BYTES"
    and "fst (parse_line fo d None r) = KeyLine kv"
  shows "checked_remove (line_handler fo d) (r @ [newline]) (kv_key kv) = Inl (SelfCheck UnmodelledContentChanged)"
proof -
  let ?h = "line_handler fo d"
  have pd: "plain_dialect d" using assms(1) by (auto simp: plain_dialect_def env_dialect_def flat_dialect_def is_whitespace_def)
  have lf: "lf_only (r @ [newline])" using assms(2) by (simp add: lf_only_def newline_def)
  have one: "split_lines (r @ [newline]) = [r]" using split_lines_lf [OF lf] split_on_single [OF assms(3)] by simp
  have m: "line_model_parse fo (r @ [newline]) d = Inr \<lparr>lm_dialect = d, lm_lines = [KeyLine kv], lm_trailing_newline = True\<rparr>"
    using assms(4,5) one by (simp add: line_model_parse_def parse_lines_plain [OF pd] del: parse_lines.simps)
  then have rm: "fh_remove ?h (r @ [newline]) (kv_key kv) = Inr []"
    by (simp add: line_handler_def line_model_remove_def find_key_index_def emit_def)
  have rd: "fh_read ?h (r @ [newline]) = Inr [(kv_key kv, kv_value kv)]" "fh_read ?h [] = Inr []"
    using m by (simp_all add: line_handler_def to_model_def List.map_filter_simps line_model_parse_def split_lines_def)
  have "\<not> line_is_target ?h [] (kv_key kv)" using rd(2) by (simp add: line_is_target_def)
  moreover have "split_on newline (r @ [newline]) = [r, []]" using split_on_append [of newline r "[]"] split_on_single [OF assms(3)] by simp
  moreover have "line_is_target ?h r (kv_key kv)" using read_one_line [OF pd assms(2,3) _ assms(5)] assms(4) by simp
  ultimately have "lines_excluding_target ?h (r @ [newline]) (kv_key kv) = [[]]" by (simp add: lines_excluding_target_def)
  then have "check_unmodelled_preserved ?h (r @ [newline]) [] (kv_key kv) = Inl UnmodelledContentChanged"
    by (simp add: check_unmodelled_preserved_def lines_excluding_target_def)
  then show ?thesis using rm rd by (simp add: checked_remove_def verify_def model_get_def check_siblings_unchanged_def)
qed

section \<open>The properties at concrete inputs\<close>

definition demo_floats :: float_ops where
  "demo_floats = \<lparr>fo_parse = (\<lambda>s. None), fo_display = (\<lambda>w. ''0.0'')\<rparr>"

lemmas editor_defs = checked_set_def checked_remove_def line_handler_def line_model_parse_def MAX_CONFIG_BYTES_def split_lines_def newline_def
  strip_cr_def parse_line_def trim_start_def trim_def trim_end_def is_whitespace_def starts_with_def strip_prefix_def parse_key_line_def
  parse_plain_key_line_def locate_value_end_def parse_scalar_def strip_surrounding_quotes_def parse_bool_def parse_i64_def is_ascii_digit_def
  less_eq_char_def to_model_def List.map_filter_simps verify_def model_get_def check_siblings_unchanged_def check_unmodelled_preserved_def
  lines_excluding_target_def line_is_target_def rsplit_once_def line_model_set_def line_model_remove_def find_key_index_def serialize_value_def
  dec_int_def dec.simps digit_char_def replace_range_def emit_def flat_dialect_def env_dialect_def ini_dialect_def demo_floats_def
  parse_section_header_def find_unescaped_quote_of_def parse_float_def shell_quote_def

text \<open>A key of an INI section whose own name has a dot, and a value with two backslashes in a row, are
  refused as well.\<close>

lemma dotted_ini_key_refused:
  "checked_set (line_handler demo_floats ini_dialect) (''[s]'' @ [newline] @ ''a.b=1'') ''s.a.b'' (CInt 2) = Inl (SelfCheck UnmodelledContentChanged)"
  by (simp add: editor_defs)

lemma double_backslash_refused:
  "checked_set (line_handler demo_floats env_dialect) ''A=1'' ''A'' (CString [CHR ''x'', CHR 0x5C, CHR 0x5C]) = Inl (SelfCheck (EditDidNotApply ''A''))"
  by (simp add: editor_defs)

lemma comment_read_as_value:
  "fh_read (line_handler demo_floats env_dialect) ''A= # unset'' = Inr [(''A'', CString ''# unset'')]"
  by (simp add: editor_defs Let_def)

definition demo_document :: string where
  "demo_document = ''a = 1 # one'' @ [newline] @ ''b=2'' @ [newline]"


theorem line_model_prints_back_witness:
  "\<exists>m. line_model_parse demo_floats demo_document flat_dialect = Inr m \<and> emit m (lm_lines m) = demo_document"
proof -
  have lf: "lf_only demo_document" by (simp add: demo_document_def lf_only_def newline_def)
  obtain m where m: "line_model_parse demo_floats demo_document flat_dialect = Inr m"
    by (simp add: line_model_parse_def MAX_CONFIG_BYTES_def demo_document_def)
  show ?thesis using m line_model_prints_back [OF lf m] by blast
qed

theorem crlf_documents_cannot_be_edited_witness:
  "isl (checked_remove (line_handler demo_floats flat_dialect) (''x=1'' @ [CHR 0x0D, newline] @ ''y=2'') ''y'') \<and>
   isl (checked_set (line_handler demo_floats flat_dialect) (''x=1'' @ [CHR 0x0D, newline] @ ''y=2'') ''y'' (CInt 3))"
proof -
  let ?s = "''x=1'' @ [CHR 0x0D, newline] @ ''y=2''"
  have "cr_at_ends ?s" by (simp add: cr_at_ends_def newline_def strip_cr_def lf_only_def)
  moreover have "''x=1'' @ [CHR 0x0D] \<in> set (lines_excluding_target (line_handler demo_floats flat_dialect) ?s ''y'')" by (simp add: editor_defs Let_def)
  moreover have "serialize_value demo_floats flat_dialect (CInt 3) = Inr ''3''" by (simp add: editor_defs)
  ultimately show ?thesis
    using crlf_documents_cannot_be_edited [of flat_dialect ?s "''x=1'' @ [CHR 0x0D]" demo_floats "''y''" "CInt 3"] by (simp add: lf_only_def)
qed

theorem quoted_strings_read_back_witness:
  "parse_scalar demo_floats (shell_quote ''two words'' (CHR 0x23)) = CString ''two words''"
  using quoted_strings_read_back [of demo_floats "''two words''" "[]"] by (simp add: needs_quotes_def is_whitespace_def)

theorem existing_setting_can_be_set_witness:
  "checked_set (line_handler demo_floats flat_dialect) demo_document ''a'' (CInt 5) = Inr (''a = 5 # one'' @ [newline] @ ''b=2'' @ [newline])"
proof -
  obtain m where m: "line_model_parse demo_floats demo_document flat_dialect = Inr m" "distinct (map fst (to_model m))" "find_key_index m ''a'' = Some 0"
      "lm_lines m ! 0 = KeyLine \<lparr>kv_raw = ''a = 1 # one'', kv_key = ''a'', kv_value = CInt 1, kv_start = 4, kv_stop = 5\<rparr>"
      "emit m ((lm_lines m)[0 := OtherLine (replace_range ''a = 1 # one'' 4 5 ''5'')]) = ''a = 5 # one'' @ [newline] @ ''b=2'' @ [newline]"
    by (simp add: editor_defs demo_document_def Let_def)
  have "serialize_value demo_floats flat_dialect (CInt 5) = Inr ''5''" by (simp add: editor_defs)
  moreover have "lf_only demo_document" "length demo_document + 20 \<le> MAX_CONFIG_BYTES" by (simp_all add: demo_document_def lf_only_def newline_def MAX_CONFIG_BYTES_def)
  ultimately show ?thesis
    using existing_setting_can_be_set [of flat_dialect demo_document demo_floats m "''a''" 0 _ "CInt 5" "''5''", OF _ _ _ m(1-4)] m(5) by simp
qed

theorem only_setting_cannot_be_removed_witness:
  "checked_remove (line_handler demo_floats env_dialect) (''A=1'' @ [newline]) ''A'' = Inl (SelfCheck UnmodelledContentChanged)"
proof -
  have "fst (parse_line demo_floats env_dialect None ''A=1'') = KeyLine \<lparr>kv_raw = ''A=1'', kv_key = ''A'', kv_value = CInt 1, kv_start = 2, kv_stop = 3\<rparr>"
    by (simp add: editor_defs Let_def)
  from only_setting_cannot_be_removed [OF _ _ _ _ this] show ?thesis by (simp add: lf_only_def newline_def MAX_CONFIG_BYTES_def)
qed

end
