(* ===== verification/Undo_Replay.thy ===== *)
theory Undo_Replay
  imports Undo_Enact Config_Sets
begin

text \<open>
  What replaying an inverse does: it puts back what the action changed, it touches nothing but what
  its receipt names, and a restored setting reads as it read when the receipt was captured.
\<close>

section \<open>Moving without overwriting\<close>

lemma rename_noreplace_result:
  assumes "rename_noreplace env src dst fs = (res, fs')"
  shows "if res = Inr True then CHR 0x00 \<notin> set src \<union> set dst \<and> fs dst = None \<and> fs src \<noteq> None \<and> fs' = fs(src := None, dst := fs src) else fs' = fs"
  using assms
  by (auto simp: rename_noreplace_def kernel_rename_noreplace_def fs_rename_def split: if_splits option.splits sum.splits)

text \<open>The kernel does what it is asked, if perhaps without \<open>RENAME_NOREPLACE\<close>.\<close>

definition calm :: "enact_env \<Rightarrow> bool" where
  "calm env \<longleftrightarrow> ee_renameat2 env \<in> {None, Some EINVAL, Some ENOSYS} \<and> ee_rename env = None \<and> ee_remove env = None \<and> (\<forall>p. ee_read_error env p = None)"

lemma rename_noreplace_moves:
  assumes "calm env" and "CHR 0x00 \<notin> set src \<union> set dst" and "fs src = Some b" and "fs dst = None"
  shows "rename_noreplace env src dst fs = (Inr True, fs(src := None, dst := Some b))"
  using assms by (auto simp: rename_noreplace_def kernel_rename_noreplace_def fs_rename_def calm_def)

section \<open>Replaying undoes\<close>

text \<open>An action with its receipt, and the files before and after it: a move, a move to the trash, a new file.\<close>

inductive performed :: "enact_env \<Rightarrow> files \<Rightarrow> inverse_receipt \<Rightarrow> files \<Rightarrow> bool" for env where
  performed_move: "rename_noreplace env src dst fs = (Inr True, fs') \<Longrightarrow> inverse_of_move src dst = Some r \<Longrightarrow> performed env fs r fs'"
| performed_trash: "fs src = Some b \<Longrightarrow> \<forall>n. sf_removes (te_faults (ee_trash env) n) \<Longrightarrow> trash (ee_trash env) src (ee_uid env) fs = (Inr slot, fs') \<Longrightarrow>
    performed env fs (RestoreFromTrash src (ts_trashed slot) (ts_trash_info slot)) fs'"
| performed_create: "fs path = None \<Longrightarrow> capture_created env path (fs(path := Some b)) = Inr r \<Longrightarrow> performed env fs r (fs(path := Some b))"

lemma capture_created_Inr:
  assumes "capture_created env path fs = Inr r"
  obtains fp where "r = DeleteCreated \<lparr>ci_path = path, ci_fingerprint = fp\<rparr>" "fingerprint_file env path fs = Some fp"
  using assms by (auto simp: capture_created_def created_identity_new_def dest: canonical_id split: option.splits if_splits)

lemma undo_move:
  assumes "calm env'" and "rename_noreplace env src dst fs = (Inr True, fs')"
  shows "enact_restore_path env' dst src fs' = (Inr Restored, fs)"
proof -
  have m: "CHR 0x00 \<notin> set dst \<union> set src" "fs dst = None" "fs src \<noteq> None" "fs' = fs(src := None, dst := fs src)"
    using rename_noreplace_result [OF assms(2)] by auto
  then obtain b where b: "fs src = Some b" by blast
  then have ne: "src \<noteq> dst" using m(2) by auto
  then have f: "fs' dst = Some b" "fs' src = None" using m(4) b by simp_all
  have "fs'(dst := None, src := Some b) = fs" unfolding m(4) using m(2) b ne by (simp add: fun_eq_iff)
  then show ?thesis using rename_noreplace_moves [OF assms(1) m(1) f] by (simp add: enact_restore_path_def)
qed

lemma undo_trash:
  assumes "calm env'" and "fs src = Some b" and "\<forall>n. sf_removes (te_faults te n)" and "trash te src uid fs = (Inr slot, fs')"
  shows "enact_restore_from_trash env' src (ts_trashed slot) (ts_trash_info slot) fs' = (Inr Restored, fs)"
proof -
  let ?t = "ts_trashed slot" and ?i = "ts_trash_info slot"
  obtain info where m: "fs ?t = None" "fs ?i = None" "?t \<noteq> ?i" "fs' = fs(src := None, ?t := Some b, ?i := Some info)"
    using trash_outcome [OF assms(2-4)] by auto
  then have "?t \<noteq> src" "?i \<noteq> src" using assms(2) by auto
  then have f: "fs' ?t = Some b" "fs' src = None" "fs' ?i = Some info" using m(3,4) by auto
  have "(fs'(?t := None, src := Some b))(?i := None) = fs" using m \<open>?t \<noteq> src\<close> \<open>?i \<noteq> src\<close> assms(2) by (auto simp: fun_eq_iff)
  moreover have "rename_noreplace env' ?t src fs' = (Inr True, fs'(?t := None, src := Some b))"
    using rename_noreplace_moves [where env = env' and src = ?t and dst = src, OF assms(1) _ f(1,2)] trash_nul [OF assms(4)] by (simp add: Un_commute)
  ultimately show ?thesis using assms(1) f(3) m(3) \<open>?i \<noteq> src\<close> by (simp add: enact_restore_from_trash_def remove_file_def calm_def)
qed

lemma undo_create:
  assumes "calm env'" and "ee_sha256 env' = ee_sha256 env" and "fs path = None" and "fingerprint_file env path (fs(path := Some b)) = Some fp"
  shows "enact_delete_created env' path fp (fs(path := Some b)) = (Inr Deleted, fs)"
  using assms by (auto simp: enact_delete_created_def fingerprint_file_def remove_file_def calm_def fun_upd_idem split: if_splits)

text \<open>
  C17. Undo puts the files back: after a move, a move to the trash or the creation of a file,
  replaying the receipt captured for it on the files as the action left them restores every
  file to what it was before the action, also on a kernel without the flag that refuses to overwrite.
\<close>

theorem undo_puts_the_files_back:
  assumes "performed env fs r fs'" and "calm env'" and "ee_sha256 env' = ee_sha256 env"
  shows "\<exists>out \<in> {Restored, Deleted}. enact_inverse env' r fs' = (Inr out, fs)"
  using assms(1)
proof cases
  case (performed_move src dst)
  then have "r = RestorePath dst src" by (auto simp: inverse_of_move_def dest: canonical_id split: option.splits)
  then show ?thesis using undo_move [OF assms(2) performed_move(1)] by simp
next
  case (performed_trash src b slot)
  then show ?thesis using undo_trash [OF assms(2)] by simp
next
  case (performed_create path b)
  then obtain fp where "r = DeleteCreated \<lparr>ci_path = path, ci_fingerprint = fp\<rparr>" "fingerprint_file env path (fs(path := Some b)) = Some fp"
    by (elim capture_created_Inr)
  then show ?thesis using undo_create [where fs = fs and path = path and b = b, OF assms(2,3)] performed_create by simp
qed

section \<open>Replaying touches what the receipt names\<close>

lemma rsplit_slash: "rsplit_once CHR ''/'' p = Some (d, n) \<Longrightarrow> p = d @ ''/'' @ n"
  by (simp add: rsplit_once_Some)

lemma undo_tmp_other:
  assumes "format_for_file f = Some fmt"
  shows "undo_tmp f \<noteq> f"
proof -
  obtain d n where dn: "rsplit_once CHR ''/'' f = Some (d, n)" "n \<noteq> []" "file_name f = Some n"
    using assms by (auto simp: format_for_file_def file_name_def split: option.splits if_splits)
  have tmp: "undo_tmp f = path_join (if d = [] then ''/'' else d) (''.'' @ n @ ''.undo-tmp'')"
    using dn by (simp add: undo_tmp_def path_parent_def)
  have "length (undo_tmp f) > length (d @ ''/'' @ n)"
    unfolding tmp path_join_def by (auto simp: starts_with_def)
  then show ?thesis using rsplit_slash [OF dn(1)] by auto
qed

lemma atomic_write_effect:
  assumes "atomic_write env f b fs = (res, fs')" and "undo_tmp f \<noteq> f"
  shows "(\<forall>q. q \<notin> {f, undo_tmp f} \<longrightarrow> fs' q = fs q) \<and> fs' f = (case res of Inl e \<Rightarrow> fs f | Inr _ \<Rightarrow> Some b)"
  using assms by (auto simp: atomic_write_def Let_def split: write_step.splits if_splits)

lemma write_candidate_effect:
  assumes "write_candidate env f cand fs = (res, fs')" and "undo_tmp f \<noteq> f"
  shows "(\<forall>q. q \<notin> {f, undo_tmp f} \<longrightarrow> fs' q = fs q) \<and> (if res = Inr Restored then \<exists>t. cand = Inr t \<and> fs' f = Some t else fs' f = fs f)"
  using assms atomic_write_effect [of env f "projr cand" fs]
  by (auto simp: write_candidate_def split: sum.splits prod.splits)

definition restored_text :: "enact_env \<Rightarrow> string \<Rightarrow> string \<Rightarrow> string option \<Rightarrow> files \<Rightarrow> string \<Rightarrow> bool" where
  "restored_text env f key prior fs t \<longleftrightarrow>
     (\<exists>fmt. format_for_file f = Some fmt \<and> restore_candidate env fmt (case fs f of Some s \<Rightarrow> s | None \<Rightarrow> []) key prior = Inr t)"

lemma restore_value_effect:
  assumes "enact_restore_value env f key prior fs = (res, fs')"
  shows "fs' = fs \<and> (res = Inr Restored \<longrightarrow> fs f = None \<and> prior = None) \<or>
    (\<forall>q. q \<notin> {f, undo_tmp f} \<longrightarrow> fs' q = fs q) \<and>
    (if res = Inr Restored then \<exists>t. fs' f = Some t \<and> restored_text env f key prior fs t else fs' f = fs f)"
proof (cases "format_for_file f")
  case (Some fmt)
  note eff = write_candidate_effect [OF _ undo_tmp_other [OF Some]]
  consider "fs' = fs" "res = Inr Restored \<longrightarrow> fs f = None \<and> prior = None"
    | "write_candidate env f (restore_candidate env fmt (case fs f of Some s \<Rightarrow> s | None \<Rightarrow> []) key prior) fs = (res, fs')"
    using assms Some by (auto simp: enact_restore_value_def split: option.splits if_splits)
  then show ?thesis
  proof cases
    case 2
    then show ?thesis using eff [OF 2] Some by (auto simp: restored_text_def split: if_splits)
  qed blast
qed (use assms in \<open>auto simp: enact_restore_value_def\<close>)

lemma restore_path_effect:
  assumes "enact_restore_path env now prior fs = (res, fs')"
  shows "fs' = fs \<or> res = Inr Restored \<and> fs prior = None \<and> fs now \<noteq> None \<and> fs' = fs(now := None, prior := fs now)"
  using assms rename_noreplace_result [of env now prior fs]
  by (auto simp: enact_restore_path_def split: prod.splits sum.splits if_splits)

lemma restore_from_trash_effect:
  assumes "enact_restore_from_trash env original trashed info fs = (res, fs')"
  shows "fs' = fs \<or> res = Inr Restored \<and> fs original = None \<and> fs trashed \<noteq> None \<and>
    fs' \<in> {fs(trashed := None, original := fs trashed), (fs(trashed := None, original := fs trashed))(info := None)}"
proof -
  obtain r fs1 where r: "rename_noreplace env trashed original fs = (r, fs1)" by fastforce
  then show ?thesis using assms rename_noreplace_result [OF r]
    by (auto simp: enact_restore_from_trash_def remove_file_def split: sum.splits if_splits option.splits)
qed

lemma delete_created_effect:
  assumes "enact_delete_created env path fp fs = (res, fs')"
  shows "fs' = fs \<or> res = Inr Deleted \<and> fingerprint_file env path fs = Some fp \<and> fs' = fs(path := None)"
  using assms by (auto simp: enact_delete_created_def remove_file_def split: sum.splits if_splits option.splits prod.splits)

lemma trash_created_effect:
  assumes "\<forall>n. sf_removes (te_faults (ee_trash env) n)" and "enact_trash_created env path fp fs = (res, fs')"
  shows "fs' = fs \<or> res = Inr Trashed \<and> fingerprint_file env path fs = Some fp \<and>
    (\<exists>(slot :: trash_slot) info. fs (ts_trashed slot) = None \<and> fs (ts_trash_info slot) = None \<and> ts_trashed slot \<noteq> ts_trash_info slot \<and>
      fs' = fs(path := None, ts_trashed slot := fs path, ts_trash_info slot := Some info))"
proof (cases "fingerprint_file env path fs = Some fp")
  case True
  then obtain b where b: "fs path = Some b" by (auto simp: fingerprint_file_def split: option.splits)
  obtain r fs1 where r: "trash (ee_trash env) path (ee_uid env) fs = (r, fs1)" by fastforce
  show ?thesis
  proof (cases r)
    case (Inl e)
    then show ?thesis using trash_outcome [OF b assms(1) r] assms(2) True r by (simp add: enact_trash_created_def)
  next
    case (Inr slot)
    then have "res = Inr Trashed" "fs' = fs1" using assms(2) True r by (simp_all add: enact_trash_created_def)
    moreover have "\<exists>recorded. fs1 = fs(path := None, ts_trashed slot := fs path, ts_trash_info slot := Some (trashinfo_bytes (te_secs (ee_trash env)) recorded))"
      and "fs (ts_trashed slot) = None" "fs (ts_trash_info slot) = None" "ts_trashed slot \<noteq> ts_trash_info slot"
      using trash_outcome [OF b assms(1) r] Inr b by simp_all
    ultimately show ?thesis using True by metis
  qed
qed (use assms in \<open>simp add: enact_trash_created_def\<close>)


section \<open>A restored setting\<close>

lemma restore_candidate_edits:
  assumes "restore_candidate env fmt s key prior = Inr t"
  obtains m m' where "fh_read (setting_handler env fmt) s = Inr m" "fh_read (setting_handler env fmt) t = Inr m'"
    "model_get m' key = map_option (parse_prior (ee_float env)) prior" "\<forall>k. k \<noteq> key \<longrightarrow> model_get m' k = model_get m k"
proof -
  obtain m where m: "fh_read (setting_handler env fmt) s = Inr m"
      "verify (setting_handler env fmt) s t m key (map_option (parse_prior (ee_float env)) prior) = Inr ()"
    using assms by (auto simp: restore_candidate_def checked_set_def checked_remove_def split: sum.splits if_splits option.splits)
  then show ?thesis using that by (elim verified) blast
qed

text \<open>What a setting was when it was captured; a file that is not there has no setting.\<close>

definition captured :: "enact_env \<Rightarrow> config_format \<Rightarrow> string \<Rightarrow> string \<Rightarrow> files \<Rightarrow> config_value option" where
  "captured env fmt f key fs =
     (case fs f of None \<Rightarrow> None | Some s \<Rightarrow> (case fh_read (setting_handler env fmt) s of Inr m \<Rightarrow> model_get m key | Inl _ \<Rightarrow> None))"

lemma map_sum_Inr_iff: "map_sum h g x = Inr r \<longleftrightarrow> (\<exists>p. x = Inr p \<and> r = g p)"
  by (cases x) auto

lemma capture_prior_value_Inr:
  assumes "capture_prior_value env f key fs = Inr r" and "format_for_file f = Some fmt"
  shows "r = RestoreValue \<lparr>st_file = f, st_key = key\<rparr> (map_option (value_to_prior_string (ee_float env)) (captured env fmt f key fs))"
proof -
  obtain p where p: "r = RestoreValue \<lparr>st_file = f, st_key = key\<rparr> p"
    "(case fs f of None \<Rightarrow> Inr None | Some s \<Rightarrow> (case ee_read_error env f of Some e \<Rightarrow> Inl (EnactIo e) | None \<Rightarrow> read_prior env fmt s key)) = Inr p"
    using assms unfolding capture_prior_value_def setting_target_new_def
    by (simp add: map_sum_Inr_iff split: if_splits) blast
  then show ?thesis by (auto simp: captured_def read_prior_def split: option.splits sum.splits if_splits)
qed

text \<open>The values that survive the passage through a text.\<close>

definition exact_prior :: "float_ops \<Rightarrow> config_value \<Rightarrow> bool" where
  "exact_prior fo v =
     (case v of
        CString s \<Rightarrow> s \<notin> {''true'', ''false''} \<and> parse_i64 s = None \<and> fo_parse fo s = None
      | CBool b \<Rightarrow> True
      | CInt i \<Rightarrow> - (2 ^ 63) \<le> i \<and> i < 2 ^ 63
      | CFloat f \<Rightarrow> fo_display fo f \<notin> {''true'', ''false''} \<and> parse_i64 (fo_display fo f) = None \<and> fo_parse fo (fo_display fo f) = Some f
      | COpaque \<Rightarrow> False)"

lemma dec_int_not_bool: "dec_int i \<noteq> ''true''" "dec_int i \<noteq> ''false''"
proof -
  have "hd (dec_int i) = CHR ''-'' \<or> is_ascii_digit (hd (dec_int i))"
    using dec_digits [of _ "nat i"] by (auto simp: dec_int_def)
  then show "dec_int i \<noteq> ''true''" "dec_int i \<noteq> ''false''" by (auto simp: is_ascii_digit_def less_eq_char_def)
qed

lemma prior_reads_back:
  assumes "exact_prior fo v"
  shows "parse_prior fo (value_to_prior_string fo v) = v"
proof (cases v)
  case (CInt i)
  then show ?thesis using assms parse_i64_dec_int [of i] dec_int_not_bool [of i] by (simp add: exact_prior_def parse_prior_def)
qed (use assms in \<open>simp_all add: exact_prior_def parse_prior_def bool_text_def\<close>)

text \<open>Not among them: a whole float, which prints without a point, comes back as an integer.\<close>

lemma whole_float_restores_as_integer:
  assumes "fo_display fo f = dec_int i" and "- (2 ^ 63) \<le> i" "i < 2 ^ 63"
  shows "parse_prior fo (value_to_prior_string fo (CFloat f)) = CInt i"
  using assms parse_i64_dec_int [of i] dec_int_not_bool [of i] by (simp add: parse_prior_def)

text \<open>
  A restored setting reads as it was captured: when restoring a captured setting succeeds on the
  files as they are by then, the setting's file reads and in it the setting has the value it had when it was
  captured (retyped from its text, which is the value itself for booleans, integers, floats that
  print with a fraction and strings that do not read as one of these), or is absent if it was, and
  every other setting has the value it had before the undo. Only where there is no file and the setting was
  absent is nothing written.
\<close>

theorem restored_setting_reads_as_captured:
  assumes "capture_prior_value env f key fs0 = Inr r" and "enact_inverse env r fs = (Inr Restored, fs')" and "format_for_file f = Some fmt"
  shows "if fs f = None \<and> captured env fmt f key fs0 = None then fs' = fs
    else \<exists>s m m'. fs' f = Some s \<and> fh_read (setting_handler env fmt) (case fs f of Some s \<Rightarrow> s | None \<Rightarrow> []) = Inr m \<and>
      fh_read (setting_handler env fmt) s = Inr m' \<and> (\<forall>k. k \<noteq> key \<longrightarrow> model_get m' k = model_get m k) \<and>
      model_get m' key = map_option (parse_prior (ee_float env) \<circ> value_to_prior_string (ee_float env)) (captured env fmt f key fs0) \<and>
      (\<forall>v. captured env fmt f key fs0 = Some v \<and> exact_prior (ee_float env) v \<longrightarrow> model_get m' key = Some v)"
proof -
  let ?p = "map_option (value_to_prior_string (ee_float env)) (captured env fmt f key fs0)"
  have e: "enact_restore_value env f key ?p fs = (Inr Restored, fs')"
    using assms(2) capture_prior_value_Inr [OF assms(1,3)] by simp
  show ?thesis
  proof (cases "fs f = None \<and> captured env fmt f key fs0 = None")
    case True
    then show ?thesis using e assms(3) by (simp add: enact_restore_value_def)
  next
    case False
    then obtain s where s: "fs' f = Some s" "restored_text env f key ?p fs s" using restore_value_effect [OF e] by auto
    then have "restore_candidate env fmt (case fs f of Some s \<Rightarrow> s | None \<Rightarrow> []) key ?p = Inr s" using assms(3) by (simp add: restored_text_def)
    then obtain m m' where mm: "fh_read (setting_handler env fmt) (case fs f of Some s \<Rightarrow> s | None \<Rightarrow> []) = Inr m"
        "fh_read (setting_handler env fmt) s = Inr m'" "model_get m' key = map_option (parse_prior (ee_float env)) ?p"
        "\<forall>k. k \<noteq> key \<longrightarrow> model_get m' k = model_get m k"
      by (elim restore_candidate_edits) blast
    have key: "model_get m' key = map_option (parse_prior (ee_float env) \<circ> value_to_prior_string (ee_float env)) (captured env fmt f key fs0)"
      using mm(3) by (simp add: option.map_comp)
    have "\<forall>v. captured env fmt f key fs0 = Some v \<and> exact_prior (ee_float env) v \<longrightarrow> model_get m' key = Some v"
      using key prior_reads_back by auto
    then show ?thesis using False s(1) mm key by auto
  qed
qed

section \<open>Captured receipts are well formed\<close>

text \<open>What the constructors of the Rust types enforce: canonical absolute paths, a fingerprint, a file and a key.\<close>

fun receipt_ok :: "inverse_receipt \<Rightarrow> bool" where
  "receipt_ok (RestorePath now prior) \<longleftrightarrow> canonical_path_new now \<noteq> None \<and> canonical_path_new prior \<noteq> None"
| "receipt_ok (RestoreFromTrash original trashed info) \<longleftrightarrow>
     canonical_path_new original \<noteq> None \<and> canonical_path_new trashed \<noteq> None \<and> canonical_path_new info \<noteq> None"
| "receipt_ok (RestoreValue t _) \<longleftrightarrow> st_file t \<noteq> [] \<and> st_key t \<noteq> []"
| "receipt_ok (DeleteCreated c) \<longleftrightarrow> canonical_path_new (ci_path c) \<noteq> None \<and> ci_fingerprint c \<noteq> []"
| "receipt_ok (TrashCreated c) \<longleftrightarrow> canonical_path_new (ci_path c) \<noteq> None \<and> ci_fingerprint c \<noteq> []"
| "receipt_ok (RestoreSnapshot snapshot scope) \<longleftrightarrow> snapshot \<noteq> []"
| "receipt_ok (RetractGraphEdge _ _ _ _ _ _) \<longleftrightarrow> True"

lemma trash_candidates_canonical:
  "trash_candidates secs faults files_dir info_dir base src recorded n k fs = (Inr slot, fs') \<Longrightarrow>
    canonical_path_new (ts_trashed slot) \<noteq> None \<and> canonical_path_new (ts_trash_info slot) \<noteq> None"
proof (induction k arbitrary: n fs)
  case (Suc k)
  have canon: "canonical_path_new p = Some q \<Longrightarrow> canonical_path_new q \<noteq> None" for p q using canonical_id by fastforce
  show ?case using Suc.prems Suc.IH
    by (auto simp: Let_def split: option.splits if_splits prod.splits sum.splits rename_error.splits dest: canon)
qed simp

lemma trash_slot_canonical:
  "trash env src uid fs = (Inr slot, fs') \<Longrightarrow> canonical_path_new (ts_trashed slot) \<noteq> None \<and> canonical_path_new (ts_trash_info slot) \<noteq> None"
  by (erule trash_takes_a_slot) (auto simp: trash_into_recording_def dest: trash_candidates_canonical)



section \<open>Witnesses\<close>

definition quiet_enact :: enact_env where
  "quiet_enact = \<lparr>ee_sha256 = (\<lambda>b. b), ee_read_error = (\<lambda>_. None), ee_renameat2 = None, ee_rename = None, ee_remove = None, ee_write = WriteOk,
     ee_tmp_removes = True, ee_float = demo_floats,
     ee_toml = line_handler demo_floats flat_dialect,
     ee_json = line_handler demo_floats flat_dialect, ee_trash = demo_trash_env, ee_uid = 1000\<rparr>"

lemma quiet_enact_calm: "calm quiet_enact"
  by (simp add: calm_def quiet_enact_def)

definition one_file :: files where "one_file = [''/a'' \<mapsto> ''x'']"

lemma demo_move: "rename_noreplace quiet_enact ''/a'' ''/b'' one_file = (Inr True, one_file(''/a'' := None, ''/b'' := Some ''x''))"
  by (simp add: rename_noreplace_def kernel_rename_noreplace_def quiet_enact_def one_file_def)

theorem undo_puts_the_files_back_witness:
  "performed quiet_enact one_file (RestorePath ''/b'' ''/a'') (one_file(''/a'' := None, ''/b'' := Some ''x'')) \<and>
   snd (enact_inverse quiet_enact (RestorePath ''/b'' ''/a'') (one_file(''/a'' := None, ''/b'' := Some ''x''))) = one_file"
proof -
  have "inverse_of_move ''/a'' ''/b'' = Some (RestorePath ''/b'' ''/a'')" by (simp add: inverse_of_move_def canonical_path_new_def starts_with_def)
  then have p: "performed quiet_enact one_file (RestorePath ''/b'' ''/a'') (one_file(''/a'' := None, ''/b'' := Some ''x''))"
    by (rule performed_move [OF demo_move])
  then show ?thesis using undo_puts_the_files_back [OF p quiet_enact_calm refl] by (metis snd_conv)
qed


lemma demo_setting:
  "format_for_file ''/e/.env'' = Some Env"
  "capture_prior_value quiet_enact ''/e/.env'' ''A'' [''/e/.env'' \<mapsto> ''A=1''] = Inr (RestoreValue \<lparr>st_file = ''/e/.env'', st_key = ''A''\<rparr> (Some ''1''))"
  "\<exists>fs'. enact_inverse quiet_enact (RestoreValue \<lparr>st_file = ''/e/.env'', st_key = ''A''\<rparr> (Some ''1'')) [''/e/.env'' \<mapsto> ''A=2''] = (Inr Restored, fs')"
  "captured quiet_enact Env ''/e/.env'' ''A'' [''/e/.env'' \<mapsto> ''A=1''] = Some (CInt 1)"
proof -
  show f: "format_for_file ''/e/.env'' = Some Env" by (simp add: format_for_file_def file_name_def rsplit_once_def)
  have h: "setting_handler quiet_enact Env = line_handler demo_floats env_dialect" by (simp add: setting_handler_def quiet_enact_def handler_for_def)
  have fl: "ee_float quiet_enact = demo_floats" "\<And>p. ee_read_error quiet_enact p = None" by (simp_all add: quiet_enact_def)
  have rd: "fh_read (line_handler demo_floats env_dialect) ''A=1'' = Inr [(''A'', CInt 1)]" by (simp add: editor_defs Let_def)
  then show "captured quiet_enact Env ''/e/.env'' ''A'' [''/e/.env'' \<mapsto> ''A=1''] = Some (CInt 1)" by (simp add: captured_def h model_get_def)
  show "capture_prior_value quiet_enact ''/e/.env'' ''A'' [''/e/.env'' \<mapsto> ''A=1''] = Inr (RestoreValue \<lparr>st_file = ''/e/.env'', st_key = ''A''\<rparr> (Some ''1''))"
    using rd by (simp add: capture_prior_value_def f setting_target_new_def fl read_prior_def h model_get_def dec_int_def dec.simps digit_char_def)
  have "parse_prior demo_floats ''1'' = CInt 1" by (simp add: parse_prior_def parse_i64_def is_ascii_digit_def less_eq_char_def)
  moreover have "checked_set (line_handler demo_floats env_dialect) ''A=2'' ''A'' (CInt 1) = Inr ''A=1''" by (simp add: editor_defs)
  ultimately show "\<exists>fs'. enact_inverse quiet_enact (RestoreValue \<lparr>st_file = ''/e/.env'', st_key = ''A''\<rparr> (Some ''1'')) [''/e/.env'' \<mapsto> ''A=2''] = (Inr Restored, fs')"
    by (simp add: enact_restore_value_def f fl restore_candidate_def h write_candidate_def atomic_write_def) (simp add: quiet_enact_def)
qed

theorem restored_setting_reads_as_captured_witness:
  "\<exists>fs' s m'. enact_inverse quiet_enact (RestoreValue \<lparr>st_file = ''/e/.env'', st_key = ''A''\<rparr> (Some ''1'')) [''/e/.env'' \<mapsto> ''A=2''] = (Inr Restored, fs') \<and>
     fs' ''/e/.env'' = Some s \<and> fh_read (setting_handler quiet_enact Env) s = Inr m' \<and> model_get m' ''A'' = Some (CInt 1)"
proof -
  obtain fs' where e: "enact_inverse quiet_enact (RestoreValue \<lparr>st_file = ''/e/.env'', st_key = ''A''\<rparr> (Some ''1'')) [''/e/.env'' \<mapsto> ''A=2''] = (Inr Restored, fs')"
    using demo_setting(3) by blast
  have x: "exact_prior (ee_float quiet_enact) (CInt 1)" by (simp add: exact_prior_def)
  show ?thesis using restored_setting_reads_as_captured [OF demo_setting(2) e demo_setting(1)] e x demo_setting(4) by auto
qed

end
