(* ===== verification/AI_Events.thy ===== *)
theory AI_Events
  imports Audit_Proto
begin

text \<open>
  The audit events of the AI components (\<open>ai/ai-core/src/audit.rs\<close>): one builder per kind of event, each
  of which keeps free text out of the always-recorded part, and the client that submits them
  (\<open>contracts/audit-proto/src/client.rs\<close>).
\<close>

section \<open>Events\<close>

text \<open>A record with nothing but a subject and an outcome.\<close>

definition plain_structural :: "string \<Rightarrow> string \<Rightarrow> structural_record" where
  "plain_structural subject outcome =
     \<lparr>sr_subject = subject, sr_node_types = [], sr_relations = [], sr_result_count = None, sr_duration_ms = None,
      sr_outcome = outcome, sr_depth = None, sr_capability_change = None\<rparr>"

definition query_event :: "string \<Rightarrow> u64 option \<Rightarrow> string \<Rightarrow> ingest_request" where
  "query_event outcome duration_ms query_id =
     \<lparr>ir_kind = Query, ir_structural = (plain_structural ''ai.query'' outcome)\<lparr>sr_duration_ms := duration_ms\<rparr>,
      ir_forensic = None, ir_call_chain_id = Some query_id, ir_project_id = None\<rparr>"

definition explain_event :: "string \<Rightarrow> u64 option \<Rightarrow> string \<Rightarrow> ingest_request" where
  "explain_event outcome duration_ms explain_id =
     \<lparr>ir_kind = Query, ir_structural = (plain_structural ''ai.explain'' outcome)\<lparr>sr_duration_ms := duration_ms\<rparr>,
      ir_forensic = None, ir_call_chain_id = Some explain_id, ir_project_id = None\<rparr>"

definition mcp_event :: "string \<Rightarrow> string \<Rightarrow> u8 \<Rightarrow> string \<Rightarrow> bool \<Rightarrow> ingest_request" where
  "mcp_event server outcome depth call_chain_id resolved =
     \<lparr>ir_kind = (if outcome = ''depth-exceeded'' \<or> outcome = ''policy-denied'' then PolicyViolation else ToolCall),
      ir_structural = (plain_structural (if resolved then server else ''mcp-call'') outcome)\<lparr>sr_depth := Some depth\<rparr>,
      ir_forensic = None, ir_call_chain_id = Some call_chain_id, ir_project_id = None\<rparr>"

text \<open>Whether a text contains \<open>--\<close>.\<close>

fun doubled_hyphen :: "string \<Rightarrow> bool" where
  "doubled_hyphen (a # b # s) \<longleftrightarrow> a = CHR ''-'' \<and> b = CHR ''-'' \<or> doubled_hyphen (b # s)"
| "doubled_hyphen _ \<longleftrightarrow> False"

definition is_safe_behaviour_subject :: "string \<Rightarrow> bool" where
  "is_safe_behaviour_subject s \<longleftrightarrow> s \<noteq> [] \<and> length s \<le> 64 \<and> \<not> starts_with s ''-'' \<and> \<not> ends_with s ''-'' \<and> \<not> doubled_hyphen s \<and>
     list_all (\<lambda>b. is_ascii_lowercase b \<or> is_ascii_digit b \<or> b = CHR ''-'') s"

definition behaviour_event :: "audit_kind \<Rightarrow> string \<Rightarrow> string \<Rightarrow> string \<Rightarrow> ingest_request" where
  "behaviour_event kind behaviour outcome correlation_id =
     \<lparr>ir_kind = kind,
      ir_structural = plain_structural (if is_safe_behaviour_subject behaviour then ''agent.'' @ behaviour else ''agent.behaviour'') outcome,
      ir_forensic = None, ir_call_chain_id = Some correlation_id, ir_project_id = None\<rparr>"

definition behaviour_action_event :: "string \<Rightarrow> string \<Rightarrow> string \<Rightarrow> ingest_request" where
  "behaviour_action_event = behaviour_event AuditPermission"

definition behaviour_policy_violation_event :: "string \<Rightarrow> string \<Rightarrow> string \<Rightarrow> ingest_request" where
  "behaviour_policy_violation_event = behaviour_event PolicyViolation"

definition behaviour_graph_access_event :: "string \<Rightarrow> string \<Rightarrow> string \<Rightarrow> ingest_request" where
  "behaviour_graph_access_event = behaviour_event GraphAccess"

definition is_safe_config_key :: "string \<Rightarrow> bool" where
  "is_safe_config_key key \<longleftrightarrow>
     key \<in> set [''enabled'', ''access_level'', ''executor_live'', ''provider'', ''autonomous_apps'', ''action_mode'']"

definition config_change_event :: "string \<Rightarrow> string \<Rightarrow> ingest_request" where
  "config_change_event key change =
     \<lparr>ir_kind = AuditPermission,
      ir_structural = plain_structural (if is_safe_config_key key then ''ai.config.'' @ key else ''ai.config'')
        (take 64 (filter (\<lambda>c. \<not> is_ascii_control c) change)),
      ir_forensic = None, ir_call_chain_id = None, ir_project_id = None\<rparr>"

section \<open>The client\<close>

datatype audit_client_error = AuditTransport string | AuditUnavailable string | AuditTimeout

text \<open>
  One submission: \<open>connect\<close> is the error of connecting, \<open>serve\<close> what the daemon does with the bytes of
  the connection (the responses it writes and its new state), and \<open>timed_out\<close> whether the client
  gives up waiting, which does not undo what the daemon did. \<open>encode\<close> is the JSON of a request.
\<close>

definition client_exchange :: "(ingest_request \<Rightarrow> bytes) \<Rightarrow> string option \<Rightarrow> (bytes \<Rightarrow> 'a \<Rightarrow> ingest_response list \<times> 'a) \<Rightarrow>
    ingest_request \<Rightarrow> 'a \<Rightarrow> (audit_client_error + u64) \<times> 'a" where
  "client_exchange encode connect serve request a =
     (case connect of
        Some e \<Rightarrow> (Inl (AuditTransport (''connect: '' @ e)), a)
      | None \<Rightarrow>
          (case write_frame (encode request) of
             Inl e \<Rightarrow> (Inl (AuditTransport (proto_error_text e)), a)
           | Inr stream \<Rightarrow>
               (case serve stream a of
                  ([], a') \<Rightarrow> (Inl (AuditTransport (proto_error_text ProtoIo)), a')
                | (Appended index # _, a') \<Rightarrow> (Inr index, a')
                | (Unavailable reason # _, a') \<Rightarrow> (Inl (AuditUnavailable reason), a'))))"

definition client_submit :: "(ingest_request \<Rightarrow> bytes) \<Rightarrow> string option \<Rightarrow> bool \<Rightarrow> (bytes \<Rightarrow> 'a \<Rightarrow> ingest_response list \<times> 'a) \<Rightarrow>
    ingest_request \<Rightarrow> 'a \<Rightarrow> (audit_client_error + u64) \<times> 'a" where
  "client_submit encode connect timed_out serve request a =
     (let (res, a') = client_exchange encode connect serve request a in (if timed_out then Inl AuditTimeout else res, a'))"

section \<open>The recorded part is content-free\<close>

definition subject_char :: "char \<Rightarrow> bool" where
  "subject_char c \<longleftrightarrow> is_ascii_lowercase c \<or> is_ascii_digit c \<or> c \<in> {CHR ''-'', CHR ''.'', CHR ''_''}"

lemma literal_labels:
  "list_all subject_char ''agent.behaviour''" "list_all subject_char ''agent.''" "list_all subject_char ''ai.config''"
  "list_all subject_char ''ai.query''" "list_all subject_char ''ai.explain''"
  by (simp_all add: subject_char_def is_ascii_lowercase_def less_eq_char_def)

lemma behaviour_subject:
  "list_all subject_char (sr_subject (ir_structural (behaviour_event k b out c))) \<and> length (sr_subject (ir_structural (behaviour_event k b out c))) \<le> 70"
proof -
  have "is_safe_behaviour_subject b \<Longrightarrow> list_all subject_char b \<and> length b \<le> 64"
    by (auto simp: is_safe_behaviour_subject_def subject_char_def list_all_iff)
  then show ?thesis using literal_labels by (simp add: behaviour_event_def plain_structural_def)
qed

lemma config_subject:
  "list_all subject_char (sr_subject (ir_structural (config_change_event key ch))) \<and> length (sr_subject (ir_structural (config_change_event key ch))) \<le> 70"
proof -
  have "list_all subject_char (''ai.config.'' @ k) \<and> length (''ai.config.'' @ k) \<le> 70"
    if "k \<in> set [''enabled'', ''access_level'', ''executor_live'', ''provider'', ''autonomous_apps'', ''action_mode'']" for k
    using that by (auto simp: subject_char_def is_ascii_lowercase_def less_eq_char_def)
  then show ?thesis using literal_labels unfolding config_change_event_def plain_structural_def is_safe_config_key_def by (simp del: list.set)
qed

text \<open>
  The AI's audit events carry no free text: whatever name a behaviour has and whatever key or value a
  configuration change names, the recorded subject is a label of at most 70 lower-case letters, digits
  and marks, there is no forensic part, and the daemon's size caps accept the event, as long as the
  outcome and the correlation id a behaviour passes are within theirs.
\<close>

theorem ai_events_are_content_free:
  assumes "length out \<le> 128" and "length cid \<le> 256" and "ev \<in> {behaviour_event k b out cid, config_change_event key change}"
  shows "validate_request ev = Inr () \<and> ir_forensic ev = None \<and>
    list_all subject_char (sr_subject (ir_structural ev)) \<and> length (sr_subject (ir_structural ev)) \<le> 70"
proof -
  have subject: "list_all subject_char (sr_subject (ir_structural ev)) \<and> length (sr_subject (ir_structural ev)) \<le> 70"
    using assms(3) behaviour_subject config_subject by auto
  have "length (sr_outcome (ir_structural ev)) \<le> 128" "sr_node_types (ir_structural ev) = []" "sr_relations (ir_structural ev) = []"
      "ir_project_id ev = None" "ir_forensic ev = None" "ir_call_chain_id ev \<in> {None, Some cid}"
    using assms by (auto simp: behaviour_event_def config_change_event_def plain_structural_def)
  moreover from this have "list_all (\<lambda>i. length i \<le> 256) (List.map_filter id [ir_call_chain_id ev, ir_project_id ev])"
    using assms(2) by (auto simp: List.map_filter_simps)
  ultimately show ?thesis using subject
    by (auto simp: validate_request_def Let_def MAX_SUBJECT_LEN_def MAX_OUTCOME_LEN_def MAX_LABELS_def MAX_ID_LEN_def list_all_iff list_ex_iff not_less)
qed

theorem ai_events_are_content_free_witness:
  "validate_request (behaviour_event AuditPermission ''Mail Bob <b@x>'' ''propose'' ''run-7'') = Inr () \<and>
   sr_subject (ir_structural (behaviour_event AuditPermission ''Mail Bob <b@x>'' ''propose'' ''run-7'')) = ''agent.behaviour''"
  using ai_events_are_content_free [of "''propose''" "''run-7''" "behaviour_event AuditPermission ''Mail Bob <b@x>'' ''propose'' ''run-7''"
      AuditPermission "''Mail Bob <b@x>''" "[]" "[]"]
  by (simp add: behaviour_event_def plain_structural_def is_safe_behaviour_subject_def is_ascii_lowercase_def is_ascii_digit_def less_eq_char_def)

end
