(* ===== verification/Undo_Service.thy ===== *)
theory Undo_Service
  imports Undo_Replay Undo_Runs AI_Events Audit_Daemon
begin

text \<open>
  The session's undo service (\<open>daemons/undo-service/src/\<close>): the client of the undo signer
  (\<open>undo_signer.rs\<close>), the list of recent actions joined to the audit ledger (\<open>undo_history.rs\<close>), the
  surfaces that may use the service (\<open>sdk/permissions/src/identity.rs\<close>) and the D-Bus methods
  (\<open>iface.rs\<close>), wired to the models of the signer and of the audit daemon.

  The caller's identity (resolved by the bus and the kernel), the JSON codecs, connection errors and
  timeouts are arguments.
\<close>

section \<open>The client of the signer\<close>

text \<open>A call to the signer, over a state of its own.\<close>

type_synonym 's signer_link = "undo_request \<Rightarrow> 's \<Rightarrow> (string + undo_response) \<times> 's"

text \<open>What all calls share: a response of the expected shape is unpacked, any other is an error with its debug text.\<close>

definition expect :: "(undo_response \<Rightarrow> 'r option) \<Rightarrow> string \<Rightarrow> (undo_response \<Rightarrow> string) \<Rightarrow> 's signer_link \<Rightarrow> undo_request \<Rightarrow> 's \<Rightarrow> (string + 'r) \<times> 's" where
  "expect pick what dbg link req s =
     (case link req s of
        (Inl e, s') \<Rightarrow> (Inl e, s')
      | (Inr r, s') \<Rightarrow> (case pick r of Some x \<Rightarrow> Inr x | None \<Rightarrow> Inl (''signer did not '' @ what @ '': '' @ dbg r), s'))"

fun pick_sealed :: "undo_response \<Rightarrow> unit option" where
  "pick_sealed Sealed = Some ()" | "pick_sealed _ = None"

fun pick_entries :: "undo_response \<Rightarrow> undo_entry list option" where
  "pick_entries (ReplyEntries es) = Some es" | "pick_entries _ = None"

fun pick_recent :: "undo_response \<Rightarrow> recent_entry list option" where
  "pick_recent (ReplyRecent es) = Some es" | "pick_recent _ = None"

fun pick_entry :: "undo_response \<Rightarrow> undo_entry option option" where
  "pick_entry (ReplyEntry e) = Some e" | "pick_entry _ = None"

fun pick_state :: "undo_response \<Rightarrow> state_reply option" where
  "pick_state (ReplyState r) = Some r" | "pick_state _ = None"

definition client_submit_created :: "(undo_response \<Rightarrow> string) \<Rightarrow> 's signer_link \<Rightarrow> undo_entry \<Rightarrow> 's \<Rightarrow> (string + unit) \<times> 's" where
  "client_submit_created dbg link e = expect pick_sealed ''seal the entry'' dbg link (SubmitCreated e)"

definition client_transition :: "(undo_response \<Rightarrow> string) \<Rightarrow> 's signer_link \<Rightarrow> string \<Rightarrow> undo_state \<Rightarrow> 's \<Rightarrow> (string + unit) \<times> 's" where
  "client_transition dbg link op st = expect pick_sealed ''seal the transition'' dbg link (RequestTransition op st)"

definition fetch_live :: "(undo_response \<Rightarrow> string) \<Rightarrow> 's signer_link \<Rightarrow> 's \<Rightarrow> (string + undo_entry list) \<times> 's" where
  "fetch_live dbg link = expect pick_entries ''return live entries'' dbg link LiveEntries"

definition fetch_compensating :: "(undo_response \<Rightarrow> string) \<Rightarrow> 's signer_link \<Rightarrow> 's \<Rightarrow> (string + undo_entry list) \<times> 's" where
  "fetch_compensating dbg link = expect pick_entries ''return compensating entries'' dbg link CompensatingEntries"

definition fetch_recent :: "(undo_response \<Rightarrow> string) \<Rightarrow> 's signer_link \<Rightarrow> u32 \<Rightarrow> 's \<Rightarrow> (string + recent_entry list) \<times> 's" where
  "fetch_recent dbg link limit = expect pick_recent ''return recent entries'' dbg link (ListRecent limit)"

definition lookup_entry :: "(undo_response \<Rightarrow> string) \<Rightarrow> 's signer_link \<Rightarrow> string \<Rightarrow> 's \<Rightarrow> (string + undo_entry option) \<times> 's" where
  "lookup_entry dbg link op = expect pick_entry ''return an entry'' dbg link (LookupEntry op)"

definition lookup_state :: "(undo_response \<Rightarrow> string) \<Rightarrow> 's signer_link \<Rightarrow> string \<Rightarrow> 's \<Rightarrow> (string + state_reply) \<times> 's" where
  "lookup_state dbg link op = expect pick_state ''return a state'' dbg link (LookupState op)"

text \<open>
  The link to the signer of \<open>Undo_Signer\<close>: one connection that sends one request. Requests and
  responses travel in frames of at most 64 KiB (\<open>ai/ai-undo-proto/src/lib.rs\<close>): the signer drops the connection when
  its response does not fit. \<open>ca_connect\<close> is the text of a connection that fails, \<open>ca_timeout\<close> that of
  a call the client gives up on, which the signer may have served.
\<close>

definition UNDO_MAX_FRAME :: nat where "UNDO_MAX_FRAME = 64 * 1024"

definition undo_frame_fits :: "bytes \<Rightarrow> bool" where
  "undo_frame_fits body \<longleftrightarrow> body \<noteq> [] \<and> length body \<le> UNDO_MAX_FRAME"

record undo_wire =
  uw_request :: "undo_request \<Rightarrow> bytes"
  uw_response :: "undo_response \<Rightarrow> bytes"

record call_env =
  ca_connect :: "string option"
  ca_timeout :: "string option"
  ca_seal :: seal_env

definition undo_frame_error :: "bytes \<Rightarrow> string" where
  "undo_frame_error body = ''frame error: frame length '' @ dec (length body) @ '' out of range (1..='' @ dec UNDO_MAX_FRAME @ '')''"

definition signer_call :: "(bytes \<Rightarrow> bytes \<Rightarrow> bytes) \<Rightarrow> signer_codecs \<Rightarrow> bool \<Rightarrow> string \<Rightarrow> undo_wire \<Rightarrow> call_env \<Rightarrow> (signer_disk \<times> file_undo_log) signer_link" where
  "signer_call hmac co debug app w env req ds =
     (case ca_connect env of
        Some e \<Rightarrow> (Inl e, ds)
      | None \<Rightarrow>
          if \<not> undo_frame_fits (uw_request w req) then (Inl (''write: '' @ undo_frame_error (uw_request w req)), ds)
          else (let (resps, ds') = handle_signer_connection hmac co debug (Some app)
                      [\<lparr>tu_alive = True, tu_request = Some req, tu_env = ca_seal env, tu_written = True\<rparr>] (fst ds) (snd ds);
                    res = (case resps of
                        [] \<Rightarrow> Inl ''read: early eof''
                      | r # _ \<Rightarrow> if undo_frame_fits (uw_response w r) then Inr r else Inl ''read: early eof'')
                in (case ca_timeout env of Some e \<Rightarrow> Inl e | None \<Rightarrow> res, ds')))"

section \<open>The recent actions\<close>

record action_description =
  ad_actor :: string
  ad_kind :: string
  ad_subject :: string
  ad_timestamp_micros :: int

record undo_row =
  ur_op_id :: string
  ur_correlation_id :: string
  ur_state :: undo_state
  ur_inverse_kind :: string
  ur_object :: string
  ur_description :: "action_description option"
  ur_enactable :: bool
  ur_sealed_at_micros :: int

definition earlier :: "structural_view \<Rightarrow> structural_view \<Rightarrow> bool" where
  "earlier a b \<longleftrightarrow> sint (sv_timestamp_micros a) < sint (sv_timestamp_micros b) \<or>
     sv_timestamp_micros a = sv_timestamp_micros b \<and> sv_index a < sv_index b"

text \<open>\<open>min_by_key\<close>: the first of the least elements.\<close>

fun earliest :: "structural_view list \<Rightarrow> structural_view option" where
  "earliest [] = None"
| "earliest (e # es) = (case earliest es of None \<Rightarrow> Some e | Some m \<Rightarrow> Some (if earlier m e then m else e))"

definition describe :: "string \<Rightarrow> structural_view list \<Rightarrow> action_description option" where
  "describe correlation_id audit =
     map_option (\<lambda>e. \<lparr>ad_actor = sv_actor e, ad_kind = as_str (sv_kind e), ad_subject = sr_subject (sv_structural e),
         ad_timestamp_micros = sint (sv_timestamp_micros e)\<rparr>)
       (earliest (filter (\<lambda>e. sv_call_chain_id e = Some correlation_id) audit))"

definition join_rows :: "recent_entry list \<Rightarrow> structural_view list \<Rightarrow> undo_row list" where
  "join_rows recent audit =
     map (\<lambda>r. let e = re_entry r in
       \<lparr>ur_op_id = ue_op_id e, ur_correlation_id = ue_correlation_id e, ur_state = re_state r,
        ur_inverse_kind = inverse_kind (ue_inverse e), ur_object = receipt_object (ue_inverse e),
        ur_description = describe (ue_correlation_id e) audit, ur_enactable = is_enactable_here (ue_inverse e),
        ur_sealed_at_micros = re_sealed_at_micros r\<rparr>) recent"

text \<open>A reader of one call chain of the ledger, which may fail.\<close>

type_synonym audit_chains = "string \<Rightarrow> string + structural_view list"

definition chain_of :: "audit_chains \<Rightarrow> string \<Rightarrow> structural_view list" where
  "chain_of try_chain correlation_id = (case try_chain correlation_id of Inr es \<Rightarrow> es | Inl _ \<Rightarrow> [])"

text \<open>The reader against the audit daemon's read socket; \<open>serve\<close> answers a request, or not at all.\<close>

definition CHAIN_LIMIT :: u64 where "CHAIN_LIMIT = 32"

definition for_call_chain :: "(read_request \<Rightarrow> bytes) \<Rightarrow> string option \<Rightarrow> bool \<Rightarrow> (read_request \<Rightarrow> read_response option) \<Rightarrow> string \<Rightarrow> u64 \<Rightarrow>
    string + structural_view list" where
  "for_call_chain encode connect timed_out serve call_chain_id limit =
     (let req = \<lparr>rr_from = 0, rr_to = - 1, rr_limit = limit, rr_project_id = None, rr_call_chain_id = Some call_chain_id, rr_actor = None\<rparr>
      in if timed_out then Inl ''read timed out''
         else case connect of
             Some e \<Rightarrow> Inl (''read transport: connect: '' @ e)
           | None \<Rightarrow>
               (case write_frame (encode req) of
                  Inl e \<Rightarrow> Inl (''read transport: '' @ proto_error_text e)
                | Inr _ \<Rightarrow>
                    (case serve req of
                       None \<Rightarrow> Inl (''read transport: '' @ proto_error_text ProtoIo)
                     | Some (Page entries _ _ _) \<Rightarrow> Inr entries
                     | Some (ReadError reason) \<Rightarrow> Inl (''read rejected: '' @ reason))))"

definition recent_rows :: "(undo_response \<Rightarrow> string) \<Rightarrow> 's signer_link \<Rightarrow> audit_chains \<Rightarrow> u32 \<Rightarrow> 's \<Rightarrow> (string + undo_row list) \<times> 's" where
  "recent_rows dbg link try_chain limit s =
     (case fetch_recent dbg link limit s of
        (Inl e, s') \<Rightarrow> (Inl (''the undo log could not be read: '' @ e), s')
      | (Inr recent, s') \<Rightarrow>
          (let chains = sorted_list_of_set (set (map (\<lambda>r. ue_correlation_id (re_entry r)) recent))
           in (Inr (join_rows recent (concat (map (chain_of try_chain) chains))), s')))"

record undo_step =
  us_actor :: string
  us_kind :: string
  us_subject :: string
  us_timestamp_micros :: int

record undo_detail =
  ud_op_id :: string
  ud_steps :: "undo_step list"

definition step_of :: "structural_view \<Rightarrow> undo_step" where
  "step_of e = \<lparr>us_actor = sv_actor e, us_kind = as_str (sv_kind e), us_subject = sr_subject (sv_structural e),
     us_timestamp_micros = sint (sv_timestamp_micros e)\<rparr>"

definition detail_of :: "(undo_response \<Rightarrow> string) \<Rightarrow> 's signer_link \<Rightarrow> audit_chains \<Rightarrow> string \<Rightarrow> u32 \<Rightarrow> 's \<Rightarrow> (string + undo_detail) \<times> 's" where
  "detail_of dbg link try_chain op_id limit s =
     (case fetch_recent dbg link limit s of
        (Inl e, s') \<Rightarrow> (Inl (''the undo log could not be read: '' @ e), s')
      | (Inr recent, s') \<Rightarrow>
          ((case find (\<lambda>r. ue_op_id (re_entry r) = op_id) recent of
              None \<Rightarrow> Inl ''no such action in the recent log''
            | Some r \<Rightarrow>
                (case try_chain (ue_correlation_id (re_entry r)) of
                   Inl e \<Rightarrow> Inl (''the record could not be read: '' @ e)
                 | Inr es \<Rightarrow> Inr \<lparr>ud_op_id = op_id, ud_steps = sort_key us_timestamp_micros (map step_of es)\<rparr>)), s'))"

section \<open>Who may use the service\<close>

definition USER_SURFACES :: "string list" where
  "USER_SURFACES = [''dev.arlen.desktop-shell'', ''dev.arlen.harness'', ''dev.arlen.settings'']"

definition USER_SURFACES_DEV :: "string list" where
  "USER_SURFACES_DEV = [''dev.arlen-desktop-shell'', ''dev.arlen-settings'', ''dev.arlen-harness'']"

definition dev_extra_user_surface :: "string option \<Rightarrow> string \<Rightarrow> bool" where
  "dev_extra_user_surface env_var app \<longleftrightarrow> env_var = Some app"

text \<open>The policy file an image may ship: who owns it, its mode, and its text when it can be read.\<close>

record surfaces_file =
  sf_uid :: nat
  sf_mode :: nat
  sf_text :: "string option"

definition extra_user_surfaces :: "surfaces_file option \<Rightarrow> string list" where
  "extra_user_surfaces f =
     (case f of
        None \<Rightarrow> []
      | Some m \<Rightarrow>
          if sf_uid m \<noteq> 0 \<or> and (sf_mode m) 18 \<noteq> 0 then []
          else (case sf_text m of
              None \<Rightarrow> []
            | Some s \<Rightarrow> filter (\<lambda>l. l \<noteq> []) (map (\<lambda>l. trim (hd (split_on CHR 0x23 l))) (lines s))))"

definition is_user_surface :: "bool \<Rightarrow> string option \<Rightarrow> surfaces_file option \<Rightarrow> string \<Rightarrow> bool" where
  "is_user_surface debug env_var f app =
     (if app \<in> set USER_SURFACES then True
      else if debug \<and> (app \<in> set USER_SURFACES_DEV \<or> dev_extra_user_surface env_var app) then True
      else app \<in> set (extra_user_surfaces f))"

datatype fdo_error = AccessDenied string | Failed string

text \<open>\<open>resolved\<close> is the identity the bus and the kernel attest for the caller, or why there is none.\<close>

definition admitted :: "(string \<Rightarrow> bool) \<Rightarrow> string + string \<Rightarrow> fdo_error + string" where
  "admitted surface resolved =
     (case resolved of
        Inr caller \<Rightarrow> if surface caller then Inr caller else Inl (AccessDenied (caller @ '' may not read or reverse this session'' @ [CHR 0x27] @ ''s actions''))
      | Inl e \<Rightarrow> Inl (AccessDenied e))"

section \<open>The methods\<close>

definition RECENT_LIMIT :: u32 where "RECENT_LIMIT = 50"

definition iface_recent :: "(undo_response \<Rightarrow> string) \<Rightarrow> (string \<Rightarrow> bool) \<Rightarrow> string + string \<Rightarrow> 's signer_link \<Rightarrow> audit_chains \<Rightarrow> 's \<Rightarrow> (fdo_error + undo_row list) \<times> 's" where
  "iface_recent dbg surface resolved link try_chain s =
     (case admitted surface resolved of
        Inl e \<Rightarrow> (Inl e, s)
      | Inr _ \<Rightarrow> (let (res, s') = recent_rows dbg link try_chain RECENT_LIMIT s in (map_sum Failed id res, s')))"

definition iface_detail :: "(undo_response \<Rightarrow> string) \<Rightarrow> (string \<Rightarrow> bool) \<Rightarrow> string + string \<Rightarrow> 's signer_link \<Rightarrow> audit_chains \<Rightarrow> string \<Rightarrow> 's \<Rightarrow> (fdo_error + undo_detail) \<times> 's" where
  "iface_detail dbg surface resolved link try_chain op_id s =
     (case admitted surface resolved of
        Inl e \<Rightarrow> (Inl e, s)
      | Inr _ \<Rightarrow> (let (res, s') = detail_of dbg link try_chain op_id RECENT_LIMIT s in (map_sum Failed id res, s')))"

fun outcome_wire :: "enact_outcome \<Rightarrow> string" where
  "outcome_wire Restored = ''restored''"
| "outcome_wire Deleted = ''deleted''"
| "outcome_wire Trashed = ''trashed''"
| "outcome_wire RefusedIdentityMismatch = ''refused-replaced''"
| "outcome_wire RefusedPriorOccupied = ''refused-occupied''"
| "outcome_wire NotFilesystem = ''not-a-file-change''"

definition undo_event :: "string \<Rightarrow> undo_entry \<Rightarrow> ingest_request" where
  "undo_event caller e = behaviour_action_event ''undo'' (''enact-inverse:by='' @ caller) (ue_correlation_id e)"

text \<open>
  One enactment. Its world is the signer's state, the ledger's state and the files; \<open>link1\<close> and \<open>link2\<close> are
  the two calls to the signer, \<open>submit\<close> the call to the ledger.
\<close>

definition enact_entry :: "(ingest_request \<Rightarrow> 'a \<Rightarrow> (audit_client_error + u64) \<times> 'a) \<Rightarrow> enact_env \<Rightarrow> string \<Rightarrow> undo_entry \<Rightarrow> 's \<times> 'a \<times> files \<Rightarrow>
    string \<times> 's \<times> 'a \<times> files" where
  "enact_entry submit env caller e w =
     (case w of (s, a, fs) \<Rightarrow>
        if \<not> is_enactable_here (ue_inverse e) then (''not-reversible'', s, a, fs)
        else (case submit (undo_event caller e) a of
            (Inl _, a') \<Rightarrow> (''unavailable'', s, a', fs)
          | (Inr _, a') \<Rightarrow>
              (case enact_inverse env (ue_inverse e) fs of
                 (Inr outcome, fs') \<Rightarrow> (outcome_wire outcome, s, a', fs')
               | (Inl _, fs') \<Rightarrow> (''failed'', s, a', fs'))))"

definition iface_enact :: "(undo_response \<Rightarrow> string) \<Rightarrow> (string \<Rightarrow> bool) \<Rightarrow> string + string \<Rightarrow> 's signer_link \<Rightarrow> 's signer_link \<Rightarrow>
    (ingest_request \<Rightarrow> 'a \<Rightarrow> (audit_client_error + u64) \<times> 'a) \<Rightarrow> enact_env \<Rightarrow> string \<Rightarrow> 's \<times> 'a \<times> files \<Rightarrow>
    (fdo_error + string) \<times> 's \<times> 'a \<times> files" where
  "iface_enact dbg surface resolved link1 link2 submit env op_id w =
     (case w of (s, a, fs) \<Rightarrow>
       (case admitted surface resolved of
          Inl e \<Rightarrow> (Inl e, s, a, fs)
        | Inr caller \<Rightarrow>
            (case lookup_state dbg link1 op_id s of
               (Inl _, s1) \<Rightarrow> (Inr ''unavailable'', s1, a, fs)
             | (Inr state_reply.Absent, s1) \<Rightarrow> (Inr ''no-such-action'', s1, a, fs)
             | (Inr state_reply.Corrupt, s1) \<Rightarrow> (Inr ''unavailable'', s1, a, fs)
             | (Inr (state_reply.Present st), s1) \<Rightarrow>
                 if is_terminal st then (Inr ''already-undone'', s1, a, fs)
                 else (case fetch_live dbg link2 s1 of
                     (Inl _, s2) \<Rightarrow> (Inr ''unavailable'', s2, a, fs)
                   | (Inr es, s2) \<Rightarrow>
                       (case find (\<lambda>e. ue_op_id e = op_id) es of
                          None \<Rightarrow> (Inr ''no-such-action'', s2, a, fs)
                        | Some e \<Rightarrow> (let (word, w') = enact_entry submit env caller e (s2, a, fs) in (Inr word, w')))))))"

text \<open>The ledger of \<open>Audit_Daemon\<close> behind its client: one connection, one request.\<close>

definition ledger_submit :: "mac \<Rightarrow> json_codec \<Rightarrow> (bytes \<Rightarrow> string + ingest_request) \<Rightarrow> (ingest_request \<Rightarrow> bytes) \<Rightarrow> bool \<Rightarrow> string option \<Rightarrow>
    string option \<Rightarrow> bool \<Rightarrow> append_env \<Rightarrow> string \<Rightarrow> ingest_request \<Rightarrow> disk \<times> daemon \<Rightarrow> (audit_client_error + u64) \<times> disk \<times> daemon" where
  "ledger_submit hmac c dec_req encode debug env_var connect timed_out env app request dd =
     client_submit encode connect timed_out
       (\<lambda>stream (d, dm). case handle_ingest hmac c dec_req debug env_var d dm (Inr app) [env] stream of (resps, d', dm') \<Rightarrow> (resps, d', dm'))
       request dd"

end
