(* ===== verification/Undo_Surface.thy ===== *)
theory Undo_Surface
  imports Undo_Service Audit_Runs
begin

text \<open>
  The undo service at work with the undo signer and the audit daemon: what an enactment needs, what it
  leaves in the ledger, and what keeps it from happening.
\<close>

section \<open>The service with its daemons\<close>

text \<open>
  What one enactment meets: the signer's keys and codecs, the two calls to it, the identity the service
  has and the build it is, the ledger's codecs and the call to it, the policy of user surfaces, and
  the file system.
\<close>

record service_env =
  ve_hmac :: "bytes \<Rightarrow> bytes \<Rightarrow> bytes"
  ve_codecs :: signer_codecs
  ve_wire :: undo_wire
  ve_call1 :: call_env
  ve_call2 :: call_env
  ve_debug :: bool
  ve_app :: string
  ve_mac :: mac
  ve_json :: json_codec
  ve_decode :: "bytes \<Rightarrow> string + ingest_request"
  ve_encode :: "ingest_request \<Rightarrow> bytes"
  ve_audit_var :: "string option"
  ve_audit_connect :: "string option"
  ve_audit_timeout :: bool
  ve_append :: append_env
  ve_response_debug :: "undo_response \<Rightarrow> string"
  ve_surface_var :: "string option"
  ve_surface_file :: "surfaces_file option"
  ve_enact :: enact_env

definition service_surface :: "service_env \<Rightarrow> string \<Rightarrow> bool" where
  "service_surface v = is_user_surface (ve_debug v) (ve_surface_var v) (ve_surface_file v)"

definition service_call :: "service_env \<Rightarrow> call_env \<Rightarrow> (signer_disk \<times> file_undo_log) signer_link" where
  "service_call v = signer_call (ve_hmac v) (ve_codecs v) (ve_debug v) (ve_app v) (ve_wire v)"

definition service_submit :: "service_env \<Rightarrow> ingest_request \<Rightarrow> disk \<times> daemon \<Rightarrow> (audit_client_error + u64) \<times> disk \<times> daemon" where
  "service_submit v = ledger_submit (ve_mac v) (ve_json v) (ve_decode v) (ve_encode v) (ve_debug v) (ve_audit_var v) (ve_audit_connect v)
     (ve_audit_timeout v) (ve_append v) (ve_app v)"

definition undo_service :: "service_env \<Rightarrow> string + string \<Rightarrow> string \<Rightarrow> (signer_disk \<times> file_undo_log) \<times> (disk \<times> daemon) \<times> files \<Rightarrow>
    (fdo_error + string) \<times> (signer_disk \<times> file_undo_log) \<times> (disk \<times> daemon) \<times> files" where
  "undo_service v resolved op_id =
     iface_enact (ve_response_debug v) (service_surface v) resolved (service_call v (ve_call1 v)) (service_call v (ve_call2 v))
       (service_submit v) (ve_enact v) op_id"

section \<open>What the signer answers\<close>

lemma signer_call_reads:
  assumes "\<And>e d s. dispatch hmac co e req d s = (reply s, d, s)"
  shows "snd (signer_call hmac co debug app w env req ds) = ds"
    and "fst (signer_call hmac co debug app w env req ds) = Inr r \<Longrightarrow>
      signer_caller_is_admitted debug app \<and> undo_frame_fits (uw_response w r) \<and> (r = reply (snd ds) \<or> (\<exists>m. r = ReplyError m))"
  using assms
  by (auto simp: signer_call_def handle_signer_connection_def Let_def split_beta split: option.splits sum.splits if_splits)

lemma lookup_state_reply:
  "snd (lookup_state dbg (service_call v env) op ds) = ds"
  "fst (lookup_state dbg (service_call v env) op ds) = Inr r \<Longrightarrow>
    r = (case current_state (fl_log (snd ds)) op of None \<Rightarrow> state_reply.Absent | Some (Inr st) \<Rightarrow> state_reply.Present st | Some (Inl _) \<Rightarrow> state_reply.Corrupt)"
proof -
  let ?reply = "\<lambda>s. ReplyState (case current_state (fl_log s) op of None \<Rightarrow> state_reply.Absent | Some (Inr st) \<Rightarrow> state_reply.Present st | Some (Inl _) \<Rightarrow> state_reply.Corrupt)"
  have d: "Undo_Signer.dispatch (ve_hmac v) (ve_codecs v) e (LookupState op) d s = (?reply s, d, s)" for e d s
    by (simp add: Undo_Signer.dispatch_def)
  note read = signer_call_reads [of "ve_hmac v" "ve_codecs v" "LookupState op" ?reply "ve_debug v" "ve_app v" "ve_wire v" env ds, OF d, folded service_call_def]
  show "snd (lookup_state dbg (service_call v env) op ds) = ds"
    using read(1) by (auto simp: lookup_state_def expect_def split: prod.splits sum.splits)
  show "r = (case current_state (fl_log (snd ds)) op of None \<Rightarrow> state_reply.Absent | Some (Inr st) \<Rightarrow> state_reply.Present st | Some (Inl _) \<Rightarrow> state_reply.Corrupt)"
    if "fst (lookup_state dbg (service_call v env) op ds) = Inr r"
    using read(2) that by (auto simp: lookup_state_def expect_def split: prod.splits sum.splits option.splits elim!: pick_state.elims)
qed

lemma fetch_live_reply:
  "snd (fetch_live dbg (service_call v env) ds) = ds"
  "fst (fetch_live dbg (service_call v env) ds) = Inr es \<Longrightarrow>
    es = Undo_Log.live_entries (fl_log (snd ds)) \<and> undo_frame_fits (uw_response (ve_wire v) (ReplyEntries es))"
proof -
  let ?reply = "\<lambda>s. ReplyEntries (Undo_Log.live_entries (fl_log s))"
  have d: "Undo_Signer.dispatch (ve_hmac v) (ve_codecs v) e LiveEntries d s = (?reply s, d, s)" for e d s
    by (simp add: Undo_Signer.dispatch_def)
  note read = signer_call_reads [of "ve_hmac v" "ve_codecs v" LiveEntries ?reply "ve_debug v" "ve_app v" "ve_wire v" env ds, OF d, folded service_call_def]
  show "snd (fetch_live dbg (service_call v env) ds) = ds"
    using read(1) by (auto simp: fetch_live_def expect_def split: prod.splits sum.splits)
  show "es = Undo_Log.live_entries (fl_log (snd ds)) \<and> undo_frame_fits (uw_response (ve_wire v) (ReplyEntries es))"
    if "fst (fetch_live dbg (service_call v env) ds) = Inr es"
    using read(2) that by (auto simp: fetch_live_def expect_def split: prod.splits sum.splits option.splits elim!: pick_entries.elims)
qed

section \<open>What the ledger holds\<close>

lemma read_frames_single:
  assumes "write_frame body = Inr f"
  shows "read_frames f = [body]"
proof -
  have "read_frame f = Inr (body, [])" using read_frame_write_frame [OF assms, of "[]"] by simp
  moreover have "read_frames [] = []" by (simp add: read_frames.simps [of "[]"] read_frame_def)
  ultimately show ?thesis by (simp add: read_frames.simps [of f])
qed

lemma append_acknowledged:
  assumes "Audit_Ledger.append hmac c env d l k a s f cc p = (Inr i, d', l')"
  shows "dk_rows d' = dk_rows d @ [new_row hmac c env l k a s f cc p]"
  using assms
  by (auto simp: Audit_Ledger.append_def Let_def insert_row_def new_row_def split: option.splits sum.splits if_splits prod.splits)

lemma record_acknowledged:
  assumes "record_event hmac c decode env d dm actor body = (Appended i, events, d', dm')"
  obtains req where "decode body = Inr req" "validate_request req = Inr ()" "\<not> dm_tampered dm"
    "dk_rows d' = dk_rows d @ [new_row hmac c env (dm_ledger dm) (ir_kind req) actor (ir_structural req) (ir_forensic req) (ir_call_chain_id req) (ir_project_id req)]"
  using assms by (auto simp: record_event_def dest: append_acknowledged split: if_splits sum.splits prod.splits)

lemma ledger_submit_acknowledged:
  assumes "ledger_submit hmac c dec_req encode debug var connect timed_out env app req (d, dm) = (Inr i, d', dm')"
  shows "\<exists>req'. dec_req (encode req) = Inr req' \<and> validate_request req' = Inr () \<and> caller_is_admitted debug var app \<and> \<not> dm_tampered dm \<and>
    dk_rows d' = dk_rows d @ [new_row hmac c env (dm_ledger dm) (ir_kind req') app (ir_structural req') (ir_forensic req') (ir_call_chain_id req') (ir_project_id req')]"
proof -
  obtain stream resps where s: "write_frame (encode req) = Inr stream"
      "handle_ingest hmac c dec_req debug var d dm (Inr app) [env] stream = (Appended i # resps, d', dm')"
    using assms(1)
    by (auto simp: ledger_submit_def client_submit_def client_exchange_def Let_def
        split: option.splits sum.splits if_splits prod.splits list.splits ingest_response.splits)
  then have adm: "caller_is_admitted debug var app" by (auto simp: handle_ingest_def split: if_splits)
  then obtain ev where "record_event hmac c dec_req env d dm app (encode req) = (Appended i, ev, d', dm')"
    using s by (auto simp: handle_ingest_def read_frames_single split: prod.splits)
  then show ?thesis using adm by (elim record_acknowledged) auto
qed

lemma submit_acknowledged:
  assumes "service_submit v req (d, dm) = (Inr i, d', dm')" and "ve_decode v (ve_encode v req) = Inr req"
  shows "caller_is_admitted (ve_debug v) (ve_audit_var v) (ve_app v) \<and> \<not> dm_tampered dm \<and>
    dk_rows d' = dk_rows d @ [new_row (ve_mac v) (ve_json v) (ve_append v) (dm_ledger dm) (ir_kind req) (ve_app v) (ir_structural req) (ir_forensic req)
      (ir_call_chain_id req) (ir_project_id req)]"
  using ledger_submit_acknowledged [OF assms(1) [unfolded service_submit_def]] assms(2) by auto

section \<open>What an enactment does\<close>

lemma enact_entry_signer: "fst (snd (enact_entry submit env caller e (s, a, fs))) = s"
  by (auto simp: enact_entry_def split: prod.splits sum.splits)

text \<open>An enactment stops before the ledger, without a change, or goes on with a live entry of the signer.\<close>

lemma undo_service_cases:
  assumes "undo_service v resolved op (ds, dd, fs) = (r, ds', dd', fs')"
  obtains (stopped) "ds' = ds" "dd' = dd" "fs' = fs" "isl r \<or> r \<in> {Inr ''unavailable'', Inr ''no-such-action''} \<or>
      r = Inr ''already-undone'' \<and> (\<exists>st. current_state (fl_log (snd ds)) op = Some (Inr st) \<and> is_terminal st)"
  | (entry) caller e word where "resolved = Inr caller" "service_surface v caller"
      "e \<in> set (Undo_Log.live_entries (fl_log (snd ds)))" "ue_op_id e = op"
      "undo_frame_fits (uw_response (ve_wire v) (ReplyEntries (Undo_Log.live_entries (fl_log (snd ds)))))"
      "enact_entry (service_submit v) (ve_enact v) caller e (ds, dd, fs) = (word, ds', dd', fs')" "r = Inr word"
proof (cases "admitted (service_surface v) resolved")
  case (Inl e)
  have "(Inl e, ds, dd, fs) = (r, ds', dd', fs')" using assms [unfolded undo_service_def iface_enact_def prod.case Inl sum.case] by simp
  then show ?thesis using stopped by auto
next
  case (Inr caller)
  then have c: "resolved = Inr caller" "service_surface v caller" by (auto simp: admitted_def split: sum.splits if_splits)
  obtain q1 where q1: "lookup_state (ve_response_debug v) (service_call v (ve_call1 v)) op ds = (q1, ds)"
    using lookup_state_reply(1) by (metis prod.collapse)
  obtain q2 where q2: "fetch_live (ve_response_debug v) (service_call v (ve_call2 v)) ds = (q2, ds)"
    using fetch_live_reply(1) by (metis prod.collapse)
  note reply = lookup_state_reply(2) [of "ve_response_debug v" v "ve_call1 v" op ds, unfolded q1 fst_conv]
  note live = fetch_live_reply(2) [of "ve_response_debug v" v "ve_call2 v" ds, unfolded q2 fst_conv]
  note run = assms [unfolded undo_service_def iface_enact_def prod.case Inr sum.case q1]
  show ?thesis
  proof (cases q1)
    case (Inl e)
    then show ?thesis using run stopped by simp
  next
    case st: (Inr sr)
    show ?thesis
    proof (cases sr)
      case (Present st')
      show ?thesis
      proof (cases "is_terminal st'")
        case True
        then show ?thesis using run st Present reply stopped by (auto split: option.splits sum.splits)
      next
        case False
        then have run2: "(case q2 of Inl _ \<Rightarrow> (Inr ''unavailable'', ds, dd, fs) | Inr es \<Rightarrow>
            (case find (\<lambda>e. ue_op_id e = op) es of None \<Rightarrow> (Inr ''no-such-action'', ds, dd, fs)
             | Some e \<Rightarrow> (let (word, w') = enact_entry (service_submit v) (ve_enact v) caller e (ds, dd, fs) in (Inr word, w')))) = (r, ds', dd', fs')"
          using run st Present q2 by (auto split: sum.splits)
        show ?thesis
        proof (cases q2)
          case (Inl e)
          then show ?thesis using run2 stopped by simp
        next
          case es: (Inr es)
          show ?thesis
          proof (cases "find (\<lambda>e. ue_op_id e = op) es")
            case None
            then show ?thesis using run2 es stopped by simp
          next
            case (Some e)
            have "e \<in> set es" "ue_op_id e = op" using Some by (auto simp: find_Some_iff)
            moreover obtain word w' where "enact_entry (service_submit v) (ve_enact v) caller e (ds, dd, fs) = (word, w')" by (rule prod.exhaust)
            moreover have "es = Undo_Log.live_entries (fl_log (snd ds))" "undo_frame_fits (uw_response (ve_wire v) (ReplyEntries es))"
              using live [OF es] by blast+
            ultimately show ?thesis using entry [OF c, of e word] run2 es Some by simp
          qed
        qed
      qed
    qed (use run st stopped in simp_all)
  qed
qed

text \<open>The words with which an enactment that never reached a file is answered.\<close>

definition pre_enact :: "(fdo_error + string) set" where
  "pre_enact = range Inl \<union> Inr ` {''unavailable'', ''no-such-action'', ''already-undone'', ''not-reversible''}"

lemma outcome_not_pre_enact: "Inr (outcome_wire out) \<notin> pre_enact" "Inr ''failed'' \<notin> pre_enact"
  by (cases out) (auto simp: pre_enact_def)

lemma enact_entry_cases:
  assumes "enact_entry submit env caller e (s, a, fs) = (word, s', a', fs')"
  obtains (refused) "word \<in> {''unavailable'', ''not-reversible''}" "fs' = fs" "a' = a \<or> a' = snd (submit (undo_event caller e) a)"
  | (enacted) i res where "submit (undo_event caller e) a = (Inr i, a')" "enact_inverse env (ue_inverse e) fs = (res, fs')"
      "word = (case res of Inr out \<Rightarrow> outcome_wire out | Inl _ \<Rightarrow> ''failed'')" "is_enactable_here (ue_inverse e)"
  using assms by (auto simp: enact_entry_def split: if_splits prod.splits sum.splits)

text \<open>
  C3. An undo is authorised and on record before it happens: when an enactment changes any file, the
  caller was attested as a user surface, the action is a live entry of the signed log, the change is
  exactly what replaying the inverse recorded there does, and the ledger, which was not frozen,
  has taken a new row in the service's name with the caller and the correlation id of the action.
\<close>

theorem undo_is_authorised_and_recorded:
  assumes "undo_service v resolved op (ds, (d, dm), fs) = (r, ds', (d', dm'), fs')" and "fs' \<noteq> fs"
    and "\<forall>caller e. resolved = Inr caller \<and> e \<in> set (Undo_Log.live_entries (fl_log (snd ds))) \<longrightarrow>
      ve_decode v (ve_encode v (undo_event caller e)) = Inr (undo_event caller e)"
  shows "\<exists>caller e row. resolved = Inr caller \<and> service_surface v caller \<and>
    e \<in> set (Undo_Log.live_entries (fl_log (snd ds))) \<and> ue_op_id e = op \<and> is_enactable_here (ue_inverse e) \<and>
    snd (enact_inverse (ve_enact v) (ue_inverse e) fs) = fs' \<and>
    \<not> dm_tampered dm \<and> dk_rows d' = dk_rows d @ [row] \<and> row_actor row = ve_app v \<and> row_call_chain_id row = Some (ue_correlation_id e) \<and>
    row_structural row = jc_structural (ve_json v) (plain_structural ''agent.undo'' (''enact-inverse:by='' @ caller))"
  using assms(1)
proof (cases rule: undo_service_cases)
  case (entry caller e word)
  from entry(6) show ?thesis
  proof (cases rule: enact_entry_cases)
    case (enacted i res)
    have safe: "is_safe_behaviour_subject ''undo''" by (simp add: is_safe_behaviour_subject_def starts_with_def ends_with_def is_ascii_lowercase_def less_eq_char_def)
    have "ve_decode v (ve_encode v (undo_event caller e)) = Inr (undo_event caller e)" using assms(3) entry(1,3) by blast
    note ack = submit_acknowledged [OF enacted(1) this]
    let ?row = "new_row (ve_mac v) (ve_json v) (ve_append v) (dm_ledger dm) AuditPermission (ve_app v)
      (plain_structural ''agent.undo'' (''enact-inverse:by='' @ caller)) None (Some (ue_correlation_id e)) None"
    have "dk_rows d' = dk_rows d @ [?row]" "\<not> dm_tampered dm"
      using ack safe by (simp_all add: undo_event_def behaviour_action_event_def behaviour_event_def)
    moreover have "row_actor ?row = ve_app v" "row_call_chain_id ?row = Some (ue_correlation_id e)"
      "row_structural ?row = jc_structural (ve_json v) (plain_structural ''agent.undo'' (''enact-inverse:by='' @ caller))"
      by (simp_all add: new_row_def)
    moreover have "snd (enact_inverse (ve_enact v) (ue_inverse e) fs) = fs'" using enacted(2) by simp
    ultimately show ?thesis using entry(1-4) enacted(4) by blast
  qed (use assms(2) in blast)
qed (use assms(2) in blast)

text \<open>
  C35. A shipped undo service undoes nothing: the identity the service has in a release build, \<open>undod\<close>, is
  not among the ones the audit daemon admits, so every enactment of an entry ends with the word for an unavailable
  ledger: no file and no ledger changes, whatever the caller, the action and the state of the daemons.
\<close>

theorem shipped_undo_undoes_nothing:
  assumes "\<not> ve_debug v" and "ve_app v = ''undod''" and "undo_service v resolved op (ds, dd, fs) = (r, ds', dd', fs')"
  shows "fs' = fs \<and> ds' = ds \<and> dk_rows (fst dd') = dk_rows (fst dd) \<and> r \<in> pre_enact"
proof -
  have refused: "\<not> caller_is_admitted (ve_debug v) (ve_audit_var v) (ve_app v)"
    using assms(1,2) by (simp add: caller_is_admitted_def ADMITTED_def)
  obtain d dm where dd: "dd = (d, dm)" by (cases dd)
  have submit: "\<exists>err. service_submit v req (d, dm) = (Inl err, d, dm)" for req
    using refused by (auto simp: service_submit_def ledger_submit_def client_submit_def client_exchange_def handle_ingest_def Let_def
        split: option.splits sum.splits)
  from assms(3) show ?thesis
  proof (cases rule: undo_service_cases)
    case stopped
    then show ?thesis by (cases r) (auto simp: pre_enact_def)
  next
    case (entry caller e word)
    from entry(6) show ?thesis
    proof (cases rule: enact_entry_cases)
      case refused
      then show ?thesis using submit [of "undo_event caller e"] entry(7) entry(6) enact_entry_signer [of "service_submit v" "ve_enact v" caller e ds dd fs] dd
        by (auto simp: pre_enact_def)
    next
      case (enacted i res)
      then show ?thesis using submit [of "undo_event caller e"] dd by simp
    qed
  qed
qed

lemma undo_service_keeps_the_log:
  assumes "undo_service v resolved op (ds, dd, fs) = (r, ds', dd', fs')"
  shows "ds' = ds"
  using assms
proof (cases rule: undo_service_cases)
  case (entry caller e word)
  then show ?thesis using enact_entry_signer [of "service_submit v" "ve_enact v" caller e ds dd fs] by simp
qed

lemma live_entry_state:
  assumes "e \<in> set (Undo_Log.live_entries rs)"
  shows "\<exists>st. current_state rs (ue_op_id e) = Some (Inr st) \<and> \<not> is_terminal st"
  using assms by (auto simp: Undo_Log.live_entries_def Undo_Log.state_ok_def split: option.splits sum.splits)

text \<open>
  An undone action is never settled: an enactment records no transition with the signer, so after an
  undo the action is as live as before it, and the next request to undo it is never told that it
  was undone already, whoever makes it and whatever happens to the ledger and the files in between.
\<close>

theorem undone_action_is_never_settled:
  assumes "undo_service v resolved op (ds, dd, fs) = (Inr word, ds', dd', fs')" and "Inr word \<notin> pre_enact"
  shows "op \<in> ue_op_id ` set (Undo_Log.live_entries (fl_log (snd ds'))) \<and>
    fst (undo_service v2 resolved2 op (ds', dd2, fs2)) \<noteq> Inr ''already-undone''"
proof -
  have same: "ds' = ds" by (rule undo_service_keeps_the_log [OF assms(1)])
  obtain e where e: "e \<in> set (Undo_Log.live_entries (fl_log (snd ds)))" "ue_op_id e = op"
    using assms by (cases rule: undo_service_cases) (auto simp: pre_enact_def)
  obtain r2 ds2 dd2' fs2' where run: "undo_service v2 resolved2 op (ds, dd2, fs2) = (r2, ds2, dd2', fs2')" by (metis prod_cases4)
  have "r2 \<noteq> Inr ''already-undone''"
    using run
  proof (cases rule: undo_service_cases)
    case stopped
    then show ?thesis using live_entry_state [OF e(1)] e(2) by auto
  next
    case (entry caller e' word')
    from entry(6) have "word' \<noteq> ''already-undone''"
    proof (cases rule: enact_entry_cases)
      case (enacted i res)
      have "outcome_wire out \<noteq> ''already-undone''" for out by (cases out) simp_all
      then show ?thesis using enacted(3) by (cases res) auto
    qed auto
    then show ?thesis using entry(7) by simp
  qed
  then show ?thesis using e same run by auto
qed

text \<open>
  C37. Undo stops for good once the live entries outgrow a frame: when the signer's answer with all live entries
  is longer than 64 KiB, no enactment of any action reaches a file or the ledger, and since no
  enactment settles an entry, the answer does not get shorter by undoing.
\<close>

theorem undo_stops_when_the_live_set_outgrows_a_frame:
  assumes "65536 < length (uw_response (ve_wire v) (ReplyEntries (Undo_Log.live_entries (fl_log (snd ds)))))"
    and "undo_service v resolved op (ds, dd, fs) = (r, ds', dd', fs')"
  shows "fs' = fs \<and> dd' = dd \<and> ds' = ds \<and> r \<in> pre_enact"
  using assms(2)
proof (cases rule: undo_service_cases)
  case stopped
  then show ?thesis by (cases r) (auto simp: pre_enact_def)
next
  case (entry caller e word)
  then show ?thesis using assms(1) by (simp add: undo_frame_fits_def UNDO_MAX_FRAME_def)
qed

section \<open>Witnesses\<close>

definition quiet_call :: call_env where
  "quiet_call = \<lparr>ca_connect = None, ca_timeout = None, ca_seal = demo_seal AppendOk\<rparr>"

text \<open>A development build that the ledger admits by its environment variable, and a release build.\<close>

definition demo_service :: "bool \<Rightarrow> string \<Rightarrow> bytes \<Rightarrow> service_env" where
  "demo_service debug app answer =
     \<lparr>ve_hmac = Undo_Runs.demo_hmac, ve_codecs = demo_codecs, ve_wire = \<lparr>uw_request = (\<lambda>_. ''r''), uw_response = (\<lambda>_. answer)\<rparr>,
      ve_call1 = quiet_call, ve_call2 = quiet_call, ve_debug = debug, ve_app = app,
      ve_mac = Audit_Runs.demo_hmac, ve_json = Audit_Runs.demo_codec,
      ve_decode = (\<lambda>_. Inr (undo_event ''dev.arlen.settings'' demo_entry)), ve_encode = (\<lambda>_. ''q''),
      ve_audit_var = Some app, ve_audit_connect = None, ve_audit_timeout = False, ve_append = demo_env write_outcome.WriteOk,
      ve_response_debug = (\<lambda>_. ''''), ve_surface_var = None, ve_surface_file = None, ve_enact = quiet_enact\<rparr>"

definition demo_sealed :: "signer_disk \<times> file_undo_log" where
  "demo_sealed = (demo_disk, \<lparr>fl_key = demo_key, fl_hashes = [''h''], fl_log = [Created demo_entry 5]\<rparr>)"

definition demo_auditd :: "disk \<times> daemon" where
  "demo_auditd = (empty_disk, \<lparr>dm_ledger = demo_ledger, dm_tampered = False\<rparr>)"

definition demo_moved :: files where "demo_moved = [''/b'' \<mapsto> ''x'']"

lemma demo_sealed_state: "current_state (fl_log (snd demo_sealed)) ''op'' = Some (Inr InFlight)"
  by (simp add: demo_sealed_def current_state_def List.map_filter_simps demo_entry_def)

lemma demo_sealed_live: "Undo_Log.live_entries (fl_log (snd demo_sealed)) = [demo_entry]"
  using demo_sealed_state by (simp add: Undo_Log.live_entries_def Undo_Log.state_ok_def demo_sealed_def is_terminal_def demo_entry_def)

lemma demo_call:
  assumes "signer_caller_is_admitted debug app" and "undo_frame_fits answer" and "validate req = Inr ()"
    and "Undo_Signer.dispatch Undo_Runs.demo_hmac demo_codecs (demo_seal AppendOk) req (fst ds) (snd ds) = (r, fst ds, snd ds)"
  shows "service_call (demo_service debug app answer) quiet_call req ds = (Inr r, ds)"
  using assms
  by (simp add: service_call_def demo_service_def signer_call_def quiet_call_def handle_signer_connection_def undo_frame_fits_def UNDO_MAX_FRAME_def Let_def)

lemma demo_asked:
  assumes "signer_caller_is_admitted debug app" and "undo_frame_fits answer"
  shows "lookup_state dbg (service_call (demo_service debug app answer) quiet_call) ''op'' demo_sealed = (Inr (state_reply.Present InFlight), demo_sealed)"
    and "fetch_live dbg (service_call (demo_service debug app answer) quiet_call) demo_sealed = (Inr [demo_entry], demo_sealed)"
proof -
  have "service_call (demo_service debug app answer) quiet_call (LookupState ''op'') demo_sealed = (Inr (ReplyState (state_reply.Present InFlight)), demo_sealed)"
    by (rule demo_call [OF assms]) (simp_all add: validate_def check_id_def MAX_OP_ID_LEN_def Undo_Signer.dispatch_def demo_sealed_state)
  then show "lookup_state dbg (service_call (demo_service debug app answer) quiet_call) ''op'' demo_sealed = (Inr (state_reply.Present InFlight), demo_sealed)"
    by (simp add: lookup_state_def expect_def)
  have "service_call (demo_service debug app answer) quiet_call LiveEntries demo_sealed = (Inr (ReplyEntries [demo_entry]), demo_sealed)"
    by (rule demo_call [OF assms]) (simp_all add: validate_def Undo_Signer.dispatch_def demo_sealed_live)
  then show "fetch_live dbg (service_call (demo_service debug app answer) quiet_call) demo_sealed = (Inr [demo_entry], demo_sealed)"
    by (simp add: fetch_live_def expect_def)
qed

lemma demo_surface: "service_surface (demo_service debug app answer) ''dev.arlen.settings''"
  by (simp add: service_surface_def is_user_surface_def USER_SURFACES_def)

lemma demo_enactment:
  assumes "signer_caller_is_admitted debug app" and "undo_frame_fits answer"
  shows "undo_service (demo_service debug app answer) (Inr ''dev.arlen.settings'') ''op'' (demo_sealed, dd, fs) =
    (let (word, w) = enact_entry (service_submit (demo_service debug app answer)) quiet_enact ''dev.arlen.settings'' demo_entry (demo_sealed, dd, fs) in (Inr word, w))"
proof -
  have env: "ve_call1 (demo_service debug app answer) = quiet_call" "ve_call2 (demo_service debug app answer) = quiet_call" "ve_enact (demo_service debug app answer) = quiet_enact"
    by (simp_all add: demo_service_def)
  show ?thesis unfolding undo_service_def env iface_enact_def
    by (simp add: admitted_def demo_surface demo_asked [OF assms] is_terminal_def demo_entry_def)
qed

lemma demo_taken: "\<exists>d' dm'. service_submit (demo_service True ''dev.arlen-undod'' answer) (undo_event ''dev.arlen.settings'' demo_entry) demo_auditd = (Inr 0, d', dm')"
proof -
  have frame: "write_frame ''q'' = Inr (u32_be_bytes 1 @ ''q'')" by (simp add: write_frame_def MAX_FRAME_def)
  have "caller_is_admitted True (Some ''dev.arlen-undod'') ''dev.arlen-undod''" by (simp add: caller_is_admitted_def dev_extra_admits_def)
  moreover have "validate_request (undo_event ''dev.arlen.settings'' demo_entry) = Inr ()"
    by (simp add: undo_event_def behaviour_action_event_def behaviour_event_def plain_structural_def validate_request_def MAX_SUBJECT_LEN_def MAX_OUTCOME_LEN_def
        MAX_ID_LEN_def List.map_filter_simps demo_entry_def is_safe_behaviour_subject_def)
  ultimately show ?thesis using read_frames_single [OF frame]
    by (simp add: service_submit_def demo_service_def ledger_submit_def client_submit_def client_exchange_def frame handle_ingest_def demo_auditd_def
        record_event_def Audit_Ledger.append_def demo_env_def demo_ledger_def insert_row_def empty_disk_def Audit_Ledger.checkpoint_write_def Let_def)
qed

lemma demo_undone:
  "\<exists>d' dm'. undo_service (demo_service True ''dev.arlen-undod'' ''s'') (Inr ''dev.arlen.settings'') ''op'' (demo_sealed, demo_auditd, demo_moved) =
    (Inr ''restored'', demo_sealed, (d', dm'), demo_moved(''/b'' := None, ''/a'' := Some ''x''))"
proof -
  have adm: "signer_caller_is_admitted True ''dev.arlen-undod''" "undo_frame_fits ''s''"
    by (simp_all add: signer_caller_is_admitted_def signer_DEV_ADMITTED_def undo_frame_fits_def UNDO_MAX_FRAME_def)
  obtain d' dm' where taken: "service_submit (demo_service True ''dev.arlen-undod'' ''s'') (undo_event ''dev.arlen.settings'' demo_entry) demo_auditd = (Inr 0, d', dm')"
    using demo_taken by blast
  have "enact_inverse quiet_enact (ue_inverse demo_entry) demo_moved = (Inr Restored, demo_moved(''/b'' := None, ''/a'' := Some ''x''))"
    by (simp add: demo_entry_def enact_restore_path_def rename_noreplace_def kernel_rename_noreplace_def quiet_enact_def demo_moved_def)
  moreover have "is_enactable_here (ue_inverse demo_entry)" by (simp add: demo_entry_def is_enactable_here_def)
  ultimately have "enact_entry (service_submit (demo_service True ''dev.arlen-undod'' ''s'')) quiet_enact ''dev.arlen.settings'' demo_entry (demo_sealed, demo_auditd, demo_moved) =
      (''restored'', demo_sealed, (d', dm'), demo_moved(''/b'' := None, ''/a'' := Some ''x''))"
    unfolding enact_entry_def prod.case taken by simp
  then show ?thesis unfolding demo_enactment [OF adm] by simp
qed

lemma demo_moved_back: "demo_moved(''/b'' := None, ''/a'' := Some ''x'') \<noteq> demo_moved"
  by (auto simp: demo_moved_def fun_eq_iff)

theorem undo_is_authorised_and_recorded_witness:
  "\<exists>d' dm' row. undo_service (demo_service True ''dev.arlen-undod'' ''s'') (Inr ''dev.arlen.settings'') ''op'' (demo_sealed, demo_auditd, demo_moved) =
      (Inr ''restored'', demo_sealed, (d', dm'), demo_moved(''/b'' := None, ''/a'' := Some ''x'')) \<and>
    dk_rows d' = dk_rows (fst demo_auditd) @ [row] \<and> row_actor row = ''dev.arlen-undod'' \<and> row_call_chain_id row = Some ''run''"
proof -
  let ?v = "demo_service True ''dev.arlen-undod'' ''s''"
  obtain d' dm' where run: "undo_service ?v (Inr ''dev.arlen.settings'') ''op'' (demo_sealed, (fst demo_auditd, snd demo_auditd), demo_moved) =
      (Inr ''restored'', demo_sealed, (d', dm'), demo_moved(''/b'' := None, ''/a'' := Some ''x''))"
    using demo_undone by auto
  have "\<forall>caller e. Inr ''dev.arlen.settings'' = Inr caller \<and> e \<in> set (Undo_Log.live_entries (fl_log (snd demo_sealed))) \<longrightarrow>
      ve_decode ?v (ve_encode ?v (undo_event caller e)) = Inr (undo_event caller e)"
    by (simp add: demo_sealed_live demo_service_def)
  from undo_is_authorised_and_recorded [OF run demo_moved_back this] obtain e row where
      "e \<in> set (Undo_Log.live_entries (fl_log (snd demo_sealed)))" "dk_rows d' = dk_rows (fst demo_auditd) @ [row]" "row_actor row = ve_app ?v"
      "row_call_chain_id row = Some (ue_correlation_id e)" by blast
  then have "dk_rows d' = dk_rows (fst demo_auditd) @ [row]" "row_actor row = ''dev.arlen-undod''" "row_call_chain_id row = Some ''run''"
    by (simp_all add: demo_sealed_live demo_service_def demo_entry_def)
  then show ?thesis using run by auto
qed

theorem shipped_undo_undoes_nothing_witness:
  "fst (undo_service (demo_service False ''undod'' ''s'') (Inr ''dev.arlen.settings'') ''op'' (demo_sealed, demo_auditd, demo_moved)) = Inr ''unavailable'' \<and>
   snd (snd (snd (undo_service (demo_service False ''undod'' ''s'') (Inr ''dev.arlen.settings'') ''op'' (demo_sealed, demo_auditd, demo_moved)))) = demo_moved"
proof -
  let ?v = "demo_service False ''undod'' ''s''" and ?w = "(demo_sealed, demo_auditd, demo_moved)"
  have adm: "signer_caller_is_admitted False ''undod''" "undo_frame_fits ''s''"
    by (simp_all add: signer_caller_is_admitted_def signer_ADMITTED_def undo_frame_fits_def UNDO_MAX_FRAME_def)
  have v: "\<not> ve_debug ?v" "ve_app ?v = ''undod''" by (simp_all add: demo_service_def)
  obtain r ds' dd' fs' where run: "undo_service ?v (Inr ''dev.arlen.settings'') ''op'' ?w = (r, ds', dd', fs')" by (metis prod_cases4)
  have out: "fs' = demo_moved" "r \<in> pre_enact" using shipped_undo_undoes_nothing [OF v run] by simp_all
  obtain word w' where e: "enact_entry (service_submit ?v) quiet_enact ''dev.arlen.settings'' demo_entry ?w = (word, w')" by (rule prod.exhaust)
  have "r = Inr word" using run unfolding demo_enactment [OF adm] e by simp
  moreover have "word \<notin> {''no-such-action'', ''already-undone'', ''not-reversible''} \<and> Inr word \<in> pre_enact \<longrightarrow> word = ''unavailable''"
    by (auto simp: pre_enact_def)
  moreover have "word \<notin> {''no-such-action'', ''already-undone'', ''not-reversible''}"
  proof -
    have here: "is_enactable_here (ue_inverse demo_entry)" by (simp add: demo_entry_def is_enactable_here_def)
    have "outcome_wire out \<notin> {''no-such-action'', ''already-undone'', ''not-reversible''}" for out by (cases out) simp_all
    then show ?thesis using e here by (auto simp: enact_entry_def split: prod.splits sum.splits)
  qed
  ultimately show ?thesis using run out by simp
qed

theorem undone_action_is_never_settled_witness:
  "\<exists>d' dm'. undo_service (demo_service True ''dev.arlen-undod'' ''s'') (Inr ''dev.arlen.settings'') ''op'' (demo_sealed, demo_auditd, demo_moved) =
      (Inr ''restored'', demo_sealed, (d', dm'), demo_moved(''/b'' := None, ''/a'' := Some ''x'')) \<and>
    fst (undo_service (demo_service True ''dev.arlen-undod'' ''s'') (Inr ''dev.arlen.settings'') ''op'' (demo_sealed, (d', dm'), demo_moved)) \<noteq> Inr ''already-undone''"
proof -
  obtain d' dm' where run: "undo_service (demo_service True ''dev.arlen-undod'' ''s'') (Inr ''dev.arlen.settings'') ''op'' (demo_sealed, demo_auditd, demo_moved) =
      (Inr ''restored'', demo_sealed, (d', dm'), demo_moved(''/b'' := None, ''/a'' := Some ''x''))"
    using demo_undone by auto
  have "Inr ''restored'' \<notin> pre_enact" using outcome_not_pre_enact(1) [of Restored] by simp
  from undone_action_is_never_settled [OF run this] run show ?thesis by blast
qed

theorem undo_stops_when_the_live_set_outgrows_a_frame_witness:
  "65536 < length (uw_response (ve_wire (demo_service True ''dev.arlen-undod'' (replicate 65537 CHR ''e'')))
      (ReplyEntries (Undo_Log.live_entries (fl_log (snd demo_sealed))))) \<and>
   snd (snd (snd (undo_service (demo_service True ''dev.arlen-undod'' (replicate 65537 CHR ''e'')) (Inr ''dev.arlen.settings'') ''op''
      (demo_sealed, demo_auditd, demo_moved)))) = demo_moved"
proof -
  let ?v = "demo_service True ''dev.arlen-undod'' (replicate 65537 CHR ''e'')"
  have long: "65536 < length (uw_response (ve_wire ?v) (ReplyEntries (Undo_Log.live_entries (fl_log (snd demo_sealed)))))"
    by (simp add: demo_service_def)
  obtain r ds' dd' fs' where run: "undo_service ?v (Inr ''dev.arlen.settings'') ''op'' (demo_sealed, demo_auditd, demo_moved) = (r, ds', dd', fs')" by (metis prod_cases4)
  show ?thesis using undo_stops_when_the_live_set_outgrows_a_frame [OF long run] run long by simp
qed

end
