(* ===== verification/Process_Identity.thy ===== *)
theory Process_Identity
  imports Prelude
begin

text \<open>
  Who a process is (\<open>sdk/permissions/src/\<close>): the rules that turn the path of an executable into an
  application identifier (\<open>identity.rs\<close>), the registry of installed binaries (\<open>identity_registry.rs\<close>),
  the start time that tells a process from a later one with its number, and the names of systemd units
  (\<open>unit_identity.rs\<close>).

  What the kernel and the file system answer (links, file attributes, the contents of \<open>/proc\<close>), the
  home directory, the JSON of the registry and the kind of build are arguments.
\<close>

section \<open>Errors\<close>

datatype identity_error =
    ProcessNotFound u32
  | CannotReadExe u32 string string
  | CannotReadStat string
  | MalformedStat u32
  | UnknownBinary string

section \<open>Paths\<close>

text \<open>\<open>Path::components\<close>: the root, then the names between the slashes, without empty ones and dots (but for
  a dot that opens a relative path).\<close>

definition path_components :: "string \<Rightarrow> string list" where
  "path_components s =
     (let cs = filter (\<lambda>c. c \<noteq> [] \<and> c \<noteq> ''.'') (split_on CHR ''/'' s)
      in if starts_with s ''/'' then ''/'' # cs
         else if s = ''.'' \<or> starts_with s ''./'' then ''.'' # cs
         else cs)"

fun strip_components :: "string list \<Rightarrow> string list \<Rightarrow> string list option" where
  "strip_components cs [] = Some cs"
| "strip_components [] (b # bs) = None"
| "strip_components (c # cs) (b # bs) = (if c = b then strip_components cs bs else None)"

definition exe_file_name :: "string \<Rightarrow> string option" where
  "exe_file_name s =
     (case rev (path_components s) of
        [] \<Rightarrow> None
      | c # _ \<Rightarrow> if c \<in> {''/'', ''.'', ''..''} then None else Some c)"

section \<open>The registry of installed binaries\<close>

record identity_record =
  ir_install_path :: string
  ir_ino :: u64
  ir_dev :: u64

type_synonym identity_registry = "(string, identity_record) hash_map"

datatype registry_error = RegistryIo string | RegistryParse string

text \<open>What reading the file gave: its text, or an error and whether it says that there is no file.\<close>

definition registry_load :: "(string \<Rightarrow> string + identity_registry) \<Rightarrow> (bool \<times> string) + string \<Rightarrow> registry_error + identity_registry" where
  "registry_load from_json file =
     (case file of
        Inr text \<Rightarrow> map_sum RegistryParse id (from_json text)
      | Inl (not_found, e) \<Rightarrow> if not_found then Inr [] else Inl (RegistryIo e))"

definition registry_lookup :: "identity_registry \<Rightarrow> string \<Rightarrow> identity_record option" where
  "registry_lookup reg app_id = map_of reg app_id"

definition registry_record :: "identity_registry \<Rightarrow> string \<Rightarrow> identity_record \<Rightarrow> identity_registry" where
  "registry_record reg app_id r = AList.update app_id r reg"

definition registry_path :: "bool \<Rightarrow> string option \<Rightarrow> nat \<Rightarrow> string" where
  "registry_path debug env_dir uid =
     (case (debug, env_dir) of
        (True, Some d) \<Rightarrow> path_join d ''registry.json''
      | _ \<Rightarrow> ''/var/lib/arlen/identity/'' @ dec uid @ ''/registry.json'')"

definition record_for_path :: "(string \<Rightarrow> string + u64 \<times> u64) \<Rightarrow> string \<Rightarrow> string + identity_record" where
  "record_for_path stat path =
     map_sum id (\<lambda>(ino, dev). \<lparr>ir_install_path = path, ir_ino = ino, ir_dev = dev\<rparr>) (stat path)"

definition verify_binary :: "(string \<Rightarrow> string + u64 \<times> u64) \<Rightarrow> identity_record \<Rightarrow> string \<Rightarrow> bool" where
  "verify_binary stat r path =
     (case stat path of Inr (ino, dev) \<Rightarrow> ino = ir_ino r \<and> dev = ir_dev r | Inl _ \<Rightarrow> False)"

section \<open>From a path to an identifier\<close>

text \<open>The first rule: the paths the system installs its own binaries at.\<close>

definition CANONICAL_BINARIES :: "(string \<times> string) list" where
  "CANONICAL_BINARIES =
   [(''/usr/bin/arlen-ai-daemon'', ''ai-daemon''),
    (''/usr/bin/arlen-ai'', ''ai-daemon''),
    (''/usr/lib/arlen/libexec/arlen-ai-daemon'', ''ai-daemon''),
    (''/usr/lib/arlen/apps/ai-daemon/bin/arlen-ai-daemon'', ''ai-daemon''),
    (''/usr/lib/arlen/apps/ai-daemon/bin/arlen-ai'', ''ai-daemon''),
    (''/usr/lib/arlen/libexec/arlen-ai-agent'', ''ai-agent''),
    (''/usr/lib/arlen/libexec/arlen-ai-engine-daemon'', ''ai-agent''),
    (''/usr/lib/arlen/libexec/arlen-ai-proxy'', ''ai-proxy''),
    (''/usr/lib/arlen/libexec/arlen-run'', ''arlen-run''),
    (''/usr/lib/arlen/libexec/arlen-accountsd'', ''online-accounts''),
    (''/usr/lib/arlen/libexec/arlen-notifyd'', ''notifyd''),
    (''/usr/lib/arlen/libexec/arlen-bottled'', ''bottled''),
    (''/usr/lib/arlen/libexec/arlen-sentineld'', ''sentineld''),
    (''/usr/lib/arlen/libexec/arlen-installd'', ''installd''),
    (''/usr/lib/arlen/libexec/arlen-powerd'', ''powerd''),
    (''/usr/lib/arlen/libexec/arlen-anomalyd'', ''anomalyd''),
    (''/usr/lib/arlen/libexec/arlen-clockd'', ''clockd''),
    (''/usr/lib/arlen/libexec/arlen-calendard'', ''calendard''),
    (''/usr/lib/arlen/libexec/arlen-undod'', ''undod''),
    (''/usr/lib/arlen/libexec/arlen-ai-undo-signer'', ''ai-undo-signer''),
    (''/usr/lib/arlen/libexec/arlen-session-supervisor'', ''session-supervisor''),
    (''/usr/lib/arlen/libexec/arlen-transferd'', ''transferd''),
    (''/usr/lib/arlen/libexec/arlen-modulesd'', ''modulesd''),
    (''/usr/lib/arlen/libexec/arlen-code-indexer'', ''code-indexer''),
    (''/usr/lib/arlen/libexec/arlen-journald-parser'', ''journald-parser''),
    (''/usr/lib/arlen/libexec/arlen-auditd'', ''auditd''),
    (''/usr/lib/arlen/libexec/arlen-settings-broker'', ''settings-broker''),
    (''/usr/lib/arlen/libexec/arlen-wallpaperd'', ''wallpaperd''),
    (''/usr/lib/arlen/libexec/arlen-install-helper'', ''install-helper''),
    (''/usr/lib/arlen/permission-helper'', ''permission-helper''),
    (''/usr/lib/arlen/libexec/arlen-bridge-ingest'', ''bridge-ingest''),
    (''/usr/lib/arlen/libexec/arlen-consent-broker'', ''consent-broker''),
    (''/usr/lib/arlen/libexec/xdg-desktop-portal-arlen'', ''xdg-desktop-portal''),
    (''/usr/lib/arlen/libexec/arlen-capsuled'', ''capsuled''),
    (''/usr/lib/arlen/libexec/arlen-config-broker'', ''config-broker''),
    (''/usr/bin/arlen-graph-daemon'', ''knowledge''),
    (''/usr/lib/arlen/libexec/arlen-connectionsd'', ''connections''),
    (''/usr/lib/arlen/apps/dev.arlen.settings/bin/arlen-settings'', ''dev.arlen.settings'')]"

definition is_valid_app_id :: "string \<Rightarrow> bool" where
  "is_valid_app_id app_id \<longleftrightarrow>
     app_id \<noteq> [] \<and> app_id \<noteq> ''..'' \<and> \<not> starts_with app_id ''.'' \<and> \<not> ends_with app_id ''.'' \<and> \<not> contains_str app_id ''..'' \<and>
     list_all (\<lambda>c. is_ascii_alphanumeric c \<or> c \<in> {CHR ''.'', CHR ''_'', CHR ''-'', CHR ''+''}) app_id"

definition is_system_installed_app_id_in :: "(string \<Rightarrow> bool) \<Rightarrow> string \<Rightarrow> string \<Rightarrow> bool" where
  "is_system_installed_app_id_in is_dir root app_id \<longleftrightarrow> is_valid_app_id app_id \<and> is_dir (path_join root app_id)"

definition SYSTEM_APPS_DIR :: string where
  "SYSTEM_APPS_DIR = ''/usr/lib/arlen/apps''"

definition is_system_installed_app_id :: "(string \<Rightarrow> bool) \<Rightarrow> string \<Rightarrow> bool" where
  "is_system_installed_app_id is_dir app_id \<longleftrightarrow> is_system_installed_app_id_in is_dir SYSTEM_APPS_DIR app_id"

definition is_reserved_app_id :: "string \<Rightarrow> bool" where
  "is_reserved_app_id app_id \<longleftrightarrow>
     app_id = ''system'' \<or> starts_with app_id ''system.'' \<or> starts_with app_id ''org.arlen.'' \<or> starts_with app_id ''dev.arlen.'' \<or>
     app_id \<in> {''ai-daemon'', ''ai-agent'', ''settings'', ''xdg-desktop-portal'', ''modulesd''}"

record identity_env =
  ie_debug :: bool
  ie_home :: "string option"
  ie_registry :: "registry_error + identity_registry"
  ie_stat :: "string \<Rightarrow> string + u64 \<times> u64"

definition user_app_inode_ok :: "(string \<Rightarrow> string + u64 \<times> u64) \<Rightarrow> identity_registry \<Rightarrow> string \<Rightarrow> string \<Rightarrow> bool" where
  "user_app_inode_ok stat reg app_id path =
     (case registry_lookup reg app_id of Some r \<Rightarrow> verify_binary stat r path | None \<Rightarrow> True)"

text \<open>The second and the third rule, and the components of a path below the directory of a user's applications.\<close>

definition daemon_name :: "string \<Rightarrow> string option" where
  "daemon_name path =
     (case strip_prefix path ''/usr/bin/arlen-'' of
        Some name \<Rightarrow>
          if name \<noteq> [] \<and> list_all (\<lambda>b. is_ascii_lowercase b \<or> is_ascii_digit b \<or> b \<in> {CHR ''.'', CHR ''_'', CHR ''-''}) name
          then Some name else None
      | None \<Rightarrow> None)"

definition system_app :: "string \<Rightarrow> string option" where
  "system_app path =
     (case strip_prefix path ''/usr/lib/arlen/apps/'' of
        Some rest \<Rightarrow> (let app_id = hd (split_on CHR ''/'' rest) in if app_id \<noteq> [] then Some app_id else None)
      | None \<Rightarrow> None)"

definition user_app :: "string option \<Rightarrow> string \<Rightarrow> string option" where
  "user_app home path =
     (case home of
        Some h \<Rightarrow>
          (case strip_components (path_components path) (path_components h @ [''.local'', ''share'', ''arlen'', ''apps'']) of
             Some (app_id # _) \<Rightarrow> Some app_id
           | _ \<Rightarrow> None)
      | None \<Rightarrow> None)"

definition user_app_identity :: "identity_env \<Rightarrow> string \<Rightarrow> string \<Rightarrow> identity_error + string" where
  "user_app_identity env path app_id =
     (if is_reserved_app_id app_id then Inl (UnknownBinary path)
      else case ie_registry env of
          Inr reg \<Rightarrow> if user_app_inode_ok (ie_stat env) reg app_id path then Inr app_id else Inl (UnknownBinary path)
        | Inl _ \<Rightarrow> Inr app_id)"

definition dev_build :: "string \<Rightarrow> string option" where
  "dev_build path =
     (if contains_str path ''/target/debug/'' \<or> contains_str path ''/target/release/''
      then map_option (\<lambda>name. ''dev.'' @ name) (exe_file_name path) else None)"

definition path_to_app_id :: "identity_env \<Rightarrow> string \<Rightarrow> identity_error + string" where
  "path_to_app_id env path =
     (case map_of CANONICAL_BINARIES path of Some app_id \<Rightarrow> Inr app_id | None \<Rightarrow>
      (case daemon_name path of Some name \<Rightarrow> Inr name | None \<Rightarrow>
       (case system_app path of Some app_id \<Rightarrow> Inr app_id | None \<Rightarrow>
        (case user_app (ie_home env) path of Some app_id \<Rightarrow> user_app_identity env path app_id | None \<Rightarrow>
         (case (if ie_debug env then dev_build path else None) of
            Some app_id \<Rightarrow> Inr app_id
          | None \<Rightarrow> Inl (UnknownBinary path))))))"

section \<open>From a process to an identifier\<close>

text \<open>What the kernel answers about a process: opening its directory under \<open>/proc\<close> (an error, and whether it
  says that there is none), reading its \<open>exe\<close> link, and the text of its \<open>stat\<close> file.\<close>

record proc_answers =
  pa_open :: "(bool \<times> string) option"
  pa_exe :: "string + bytes"
  pa_why :: string
  pa_stat :: "(bool \<times> string) + string"

definition PATH_MAX :: nat where "PATH_MAX = 4096"

definition exe_path_openat :: "proc_answers \<Rightarrow> u32 \<Rightarrow> identity_error + string" where
  "exe_path_openat a pid =
     (case pa_open a of
        Some (not_found, e) \<Rightarrow>
          Inl (if not_found then ProcessNotFound pid else CannotReadExe pid e ('' [failed at open(/proc/'' @ dec (unat pid) @ '')]'' @ pa_why a))
      | None \<Rightarrow>
          (case pa_exe a of
             Inl e \<Rightarrow> Inl (CannotReadExe pid e ('' [failed at readlinkat(exe)]'' @ pa_why a))
           | Inr link \<Rightarrow>
               if utf8_ok (take PATH_MAX link) then Inr (take PATH_MAX link)
               else Inl (CannotReadExe pid ''exe path not UTF-8'' [])))"

definition app_id_from_pid :: "identity_env \<Rightarrow> proc_answers \<Rightarrow> u32 \<Rightarrow> identity_error + string" where
  "app_id_from_pid env a pid = (case exe_path_openat a pid of Inl e \<Rightarrow> Inl e | Inr path \<Rightarrow> path_to_app_id env path)"

definition start_time_of :: "u32 \<Rightarrow> string \<Rightarrow> identity_error + u64" where
  "start_time_of pid raw =
     (case rsplit_once_str '') '' raw of
        None \<Rightarrow> Inl (MalformedStat pid)
      | Some (_, after_comm) \<Rightarrow>
          (let fields = split_whitespace after_comm
           in if length fields \<le> 19 then Inl (MalformedStat pid)
              else case parse_u64 (fields ! 19) of Some t \<Rightarrow> Inr t | None \<Rightarrow> Inl (MalformedStat pid)))"

definition pid_start_time :: "proc_answers \<Rightarrow> u32 \<Rightarrow> identity_error + u64" where
  "pid_start_time a pid =
     (case pa_stat a of
        Inl (not_found, e) \<Rightarrow> Inl (if not_found then ProcessNotFound pid else CannotReadStat e)
      | Inr raw \<Rightarrow> start_time_of pid raw)"

text \<open>The binary that starting a program will run, and its identifier: the file system says which paths are files
  and what their canonical paths are.\<close>

definition resolve_program :: "(string \<Rightarrow> bool) \<Rightarrow> (string \<Rightarrow> string option) \<Rightarrow> string \<Rightarrow> string \<Rightarrow> string option" where
  "resolve_program is_file canonicalize program path_var =
     Option.bind
       (if CHR ''/'' \<in> set program then (if is_file program then Some program else None)
        else find is_file (map (\<lambda>d. path_join d program)
               (filter (\<lambda>d. d \<noteq> []) (split_on CHR '':'' path_var))))
       canonicalize"

definition app_id_for_program :: "identity_env \<Rightarrow> (string \<Rightarrow> bool) \<Rightarrow> (string \<Rightarrow> string option) \<Rightarrow> string \<Rightarrow> string \<Rightarrow> string option" where
  "app_id_for_program env is_file canonicalize program path_var =
     Option.bind (resolve_program is_file canonicalize program path_var)
       (\<lambda>p. case path_to_app_id env p of Inr app_id \<Rightarrow> Some app_id | Inl _ \<Rightarrow> None)"

section \<open>From a systemd unit to an identifier\<close>

datatype unit_error = UserSlice string | NotAUnit string | UnitUnreadable

definition unit_error_text :: "unit_error \<Rightarrow> string" where
  "unit_error_text e =
     (case e of
        UserSlice p \<Rightarrow> ''the peer is in the user session ('' @ p @ ''), where a unit names itself; identity there comes from the launcher that asked for it''
      | NotAUnit p \<Rightarrow> ''the peer's cgroup names no service unit ('' @ p @ '')''
      | UnitUnreadable \<Rightarrow> ''the peer's cgroup has no unified hierarchy line'')"

definition unified_path :: "string \<Rightarrow> string option" where
  "unified_path cgroup_text = map_option trim_end (case List.map_filter (\<lambda>l. strip_prefix l ''0::'') (lines cgroup_text) of [] \<Rightarrow> None | p # _ \<Rightarrow> Some p)"

definition unit_from_cgroup :: "string \<Rightarrow> unit_error + string" where
  "unit_from_cgroup cgroup_text =
     (case unified_path cgroup_text of
        None \<Rightarrow> Inl UnitUnreadable
      | Some path \<Rightarrow>
          if starts_with path ''/user.slice/'' \<or> contains_str path ''/user@'' then Inl (UserSlice path)
          else (case strip_prefix path ''/system.slice/'' of
              None \<Rightarrow> Inl (NotAUnit path)
            | Some rest \<Rightarrow>
                (let last_part = last (split_on CHR ''/'' rest)
                 in if \<not> ends_with last_part ''.service'' \<or> length last_part \<le> length ''.service''
                    then Inl (NotAUnit path) else Inr last_part)))"

definition UNIT_APP_IDS :: "(string \<times> string) list" where
  "UNIT_APP_IDS =
   [(''arlen-config-broker.service'', ''config-broker''),
    (''arlen-kernel-layer.service'', ''kernel-layer''),
    (''arlen-event-bus-system.service'', ''event-bus'')]"

definition USER_UNIT_APP_IDS :: "(string \<times> string) list" where
  "USER_UNIT_APP_IDS =
   [(''arlen-ai-engine-daemon.service'', ''ai-agent''),
    (''arlen-ai-proxy.service'', ''ai-proxy''),
    (''arlen-ai-undo-signer.service'', ''ai-undo-signer''),
    (''arlen-anomalyd.service'', ''anomalyd''),
    (''arlen-auditd.service'', ''auditd''),
    (''arlen-bottled.service'', ''bottled''),
    (''arlen-capsuled.service'', ''capsuled''),
    (''arlen-calendard.service'', ''calendard''),
    (''arlen-clockd.service'', ''clockd''),
    (''arlen-code-indexer.service'', ''code-indexer''),
    (''arlen-consent-broker.service'', ''consent-broker''),
    (''arlen-dogfood.service'', ''dogfood''),
    (''arlen-event-bus.service'', ''event-bus''),
    (''arlen-file-manager-mcp.service'', ''file-manager-mcp''),
    (''arlen-graph.service'', ''knowledge''),
    (''arlen-journald-parser.service'', ''journald-parser''),
    (''arlen-knowledge-mcp.service'', ''knowledge-mcp''),
    (''arlen-kg-probe.service'', ''kg-probe''),
    (''arlen-modulesd.service'', ''modulesd''),
    (''arlen-notifyd.service'', ''notifyd''),
    (''arlen-powerd.service'', ''powerd''),
    (''arlen-sentineld.service'', ''sentineld''),
    (''arlen-system-monitor-mcp.service'', ''system-monitor-mcp''),
    (''arlen-settings-broker.service'', ''settings-broker''),
    (''arlen-terminal-run-mcp.service'', ''terminal-run-mcp''),
    (''arlen-timeline.service'', ''timeline''),
    (''arlen-undod.service'', ''undod''),
    (''arlen-wallpaperd.service'', ''wallpaperd'')]"

definition app_id_for_user_unit :: "string \<Rightarrow> string option" where
  "app_id_for_user_unit unit_name = map_of USER_UNIT_APP_IDS unit_name"

definition app_id_for_unit :: "string \<Rightarrow> string option" where
  "app_id_for_unit unit_name = map_of UNIT_APP_IDS unit_name"

definition is_enrolled_daemon_id :: "string \<Rightarrow> bool" where
  "is_enrolled_daemon_id app_id \<longleftrightarrow>
     list_ex (\<lambda>(_, a). a = app_id) USER_UNIT_APP_IDS \<or> list_ex (\<lambda>(_, a). a = app_id) UNIT_APP_IDS"

definition app_id_from_pinned_pid :: "string option \<Rightarrow> unit_error + string" where
  "app_id_from_pinned_pid cgroup =
     (case cgroup of
        None \<Rightarrow> Inl UnitUnreadable
      | Some text \<Rightarrow>
          (case unit_from_cgroup text of
             Inl e \<Rightarrow> Inl e
           | Inr unit_name \<Rightarrow> (case app_id_for_unit unit_name of Some a \<Rightarrow> Inr a | None \<Rightarrow> Inl (NotAUnit unit_name))))"

section \<open>Where an identifier can come from\<close>

lemma strip_components_Some: "strip_components cs bs = Some rest \<longleftrightarrow> cs = bs @ rest"
  by (induction cs bs rule: strip_components.induct) auto

lemma strip_components_append [simp]: "strip_components (bs @ rest) bs = Some rest"
  by (simp add: strip_components_Some)

lemma hd_split_on: "\<exists>r. s = hd (split_on c s) @ r"
  by (induction c s rule: split_on.induct) (auto split: list.splits)

lemma canonical_paths:
  "map_of CANONICAL_BINARIES path = Some app_id \<Longrightarrow> starts_with path ''/usr/bin/arlen-'' \<or> starts_with path ''/usr/lib/arlen/''"
  by (drule map_of_SomeD) (auto simp: CANONICAL_BINARIES_def starts_with_def)

lemma daemon_name_Some: "daemon_name path = Some name \<Longrightarrow> path = ''/usr/bin/arlen-'' @ name"
  by (auto simp: daemon_name_def rust_str split: option.splits if_splits)

lemma system_app_Some: "system_app path = Some app_id \<Longrightarrow> starts_with path (''/usr/lib/arlen/apps/'' @ app_id)"
  using hd_split_on [of _ "CHR ''/''"] by (fastforce simp: system_app_def rust_str Let_def split: option.splits if_splits)

lemma user_app_Some:
  "user_app home path = Some app_id \<longleftrightarrow>
    (\<exists>h rest. home = Some h \<and> path_components path = path_components h @ [''.local'', ''share'', ''arlen'', ''apps'', app_id] @ rest)"
proof
  show "user_app home path = Some app_id \<Longrightarrow> \<exists>h rest. home = Some h \<and> path_components path = path_components h @ [''.local'', ''share'', ''arlen'', ''apps'', app_id] @ rest"
    by (auto simp: user_app_def strip_components_Some split: option.splits list.splits)
next
  assume "\<exists>h rest. home = Some h \<and> path_components path = path_components h @ [''.local'', ''share'', ''arlen'', ''apps'', app_id] @ rest"
  then obtain h rest where h: "home = Some h" and p: "path_components path = (path_components h @ [''.local'', ''share'', ''arlen'', ''apps'']) @ app_id # rest" by auto
  have "strip_components (path_components path) (path_components h @ [''.local'', ''share'', ''arlen'', ''apps'']) = Some (app_id # rest)"
    by (simp only: p strip_components_append)
  then show "user_app home path = Some app_id" by (simp add: user_app_def h)
qed

lemma user_app_identity_Inr:
  "user_app_identity env path app_id = Inr i \<longleftrightarrow>
    i = app_id \<and> \<not> is_reserved_app_id app_id \<and>
    (\<forall>reg r. ie_registry env = Inr reg \<and> registry_lookup reg app_id = Some r \<longrightarrow> ie_stat env path = Inr (ir_ino r, ir_dev r))"
  by (auto simp: user_app_identity_def user_app_inode_ok_def verify_binary_def split: sum.splits option.splits prod.splits if_splits)

text \<open>
  C20. Outside the directories of the system an identifier is only the name of a user's application: what a
  release build resolves from a path that is not one of a system binary is no reserved identifier,
  is the directory the path has below the applications of the home directory, and if the registry
  holds a binary for it then the file at the path is that very file.
\<close>

theorem user_paths_name_only_user_apps:
  assumes "path_to_app_id env path = Inr app_id" and "\<not> ie_debug env"
    and "\<not> starts_with path ''/usr/bin/arlen-''" and "\<not> starts_with path ''/usr/lib/arlen/''"
  shows "\<not> is_reserved_app_id app_id \<and>
    (\<exists>h rest. ie_home env = Some h \<and> path_components path = path_components h @ [''.local'', ''share'', ''arlen'', ''apps'', app_id] @ rest) \<and>
    (\<forall>reg r. ie_registry env = Inr reg \<and> registry_lookup reg app_id = Some r \<longrightarrow> ie_stat env path = Inr (ir_ino r, ir_dev r))"
proof -
  have "map_of CANONICAL_BINARIES path = None" using canonical_paths [of path] assms(3,4) by (cases "map_of CANONICAL_BINARIES path") auto
  moreover have "daemon_name path = None" using daemon_name_Some [of path] assms(3) by (cases "daemon_name path") (auto simp: starts_with_def)
  moreover have "system_app path = None"
  proof (cases "system_app path")
    case (Some i)
    then show ?thesis using system_app_Some [OF Some] assms(4) by (auto simp: rust_str)
  qed
  ultimately show ?thesis using assms(1,2)
    by (auto simp: path_to_app_id_def user_app_Some user_app_identity_Inr split: option.splits)
qed

text \<open>In a debug build the last rule has no such bound: a file named \<open>arlen.settings\<close> in any directory
  \<open>target/debug\<close> has the reserved identifier of the settings application.\<close>

lemma debug_build_mints_a_reserved_id:
  "path_to_app_id \<lparr>ie_debug = True, ie_home = Some ''/home/u'', ie_registry = Inr [], ie_stat = (\<lambda>_. Inl '''')\<rparr> ''/tmp/target/debug/arlen.settings''
    = Inr ''dev.arlen.settings''" "is_reserved_app_id ''dev.arlen.settings''"
  by (simp_all add: path_to_app_id_def CANONICAL_BINARIES_def daemon_name_def system_app_def user_app_def dev_build_def
      exe_file_name_def path_components_def strip_prefix_def starts_with_def is_reserved_app_id_def)

section \<open>The start time of a process\<close>

lemma rsplit_once_str_None: "sep \<noteq> [] \<Longrightarrow> hd sep \<notin> set s \<Longrightarrow> rsplit_once_str sep s = None"
  by (induction s) (auto simp: strip_prefix_def starts_with_def neq_Nil_conv)

lemma rsplit_once_str_last:
  assumes "sep = x # xs" and "hd sep \<notin> set t" and "hd sep \<notin> set xs"
  shows "rsplit_once_str sep (s @ sep @ t) = Some (s, t)"
proof (induction s)
  case Nil
  have "rsplit_once_str sep (xs @ t) = None" using assms by (intro rsplit_once_str_None) auto
  then show ?case using assms(1) by (simp add: rust_str strip_prefix_def starts_with_def)
qed simp

lemma split_whitespace_word:
  "\<forall>c \<in> set f. \<not> is_whitespace c \<Longrightarrow> split_whitespace_from w (f @ s) = split_whitespace_from (w @ f) s"
  by (induction f arbitrary: w) simp_all

lemma split_whitespace_space: "\<forall>c \<in> set s. is_whitespace c \<Longrightarrow> split_whitespace_from w s = (if w = [] then [] else [w])"
  by (induction s arbitrary: w) simp_all

lemma split_whitespace_join:
  assumes "\<forall>f \<in> set fs. f \<noteq> [] \<and> (\<forall>c \<in> set f. \<not> is_whitespace c)" and "\<forall>c \<in> set w. is_whitespace c"
  shows "split_whitespace (join '' '' fs @ w) = fs"
  using assms(1)
proof (induction fs rule: induct_list012)
  case 1
  show ?case using split_whitespace_space [OF assms(2)] by (simp add: split_whitespace_def)
next
  case (2 f)
  then show ?case using split_whitespace_word [of f "[]" w] split_whitespace_space [OF assms(2)] by (simp add: split_whitespace_def)
next
  case (3 f g fs)
  have "split_whitespace_from [] (f @ CHR '' '' # join '' '' (g # fs) @ w) = split_whitespace_from f (CHR '' '' # join '' '' (g # fs) @ w)"
    using split_whitespace_word [of f "[]"] 3(3) by simp
  also have "\<dots> = f # split_whitespace_from [] (join '' '' (g # fs) @ w)" using 3(3) by (simp add: is_whitespace_def)
  finally show ?case using 3(2,3) by (simp add: split_whitespace_def)
qed

text \<open>
  The start time is read whatever the process calls itself: from a \<open>stat\<close> line of the kernel, with the
  process's name in parentheses before its fields, the start time is the twentieth field after the name, also
  when the name has spaces, parentheses or line ends in it.
\<close>

theorem start_time_ignores_the_name:
  assumes "pa_stat a = Inr (dec (unat pid) @ '' ('' @ comm @ '') '' @ join '' '' cols @ w)"
    and "\<forall>f \<in> set cols. f \<noteq> [] \<and> (\<forall>c \<in> set f. \<not> is_whitespace c \<and> c \<noteq> CHR '')'')" and "\<forall>c \<in> set w. is_whitespace c"
    and "19 < length cols" and "cols ! 19 = dec (unat t)"
  shows "pid_start_time a pid = Inr t"
proof -
  have "CHR '')'' \<notin> set (join '' '' cols @ w)" using assms(2,3) set_join [of "'' ''" cols] by (fastforce simp: is_whitespace_def)
  then have "rsplit_once_str '') '' ((dec (unat pid) @ '' ('' @ comm) @ '') '' @ (join '' '' cols @ w)) = Some (dec (unat pid) @ '' ('' @ comm, join '' '' cols @ w)"
    by (intro rsplit_once_str_last) auto
  moreover have "split_whitespace (join '' '' cols @ w) = cols" using assms(2,3) by (intro split_whitespace_join) auto
  moreover have "parse_u64 (dec (unat t)) = Some t" using parse_u64_dec [of "unat t"] unsigned_less [of t] by simp
  ultimately show ?thesis using assms(1,4,5) by (simp add: pid_start_time_def start_time_of_def)
qed

definition demo_columns :: "string list" where
  "demo_columns = [''S'', ''1'', ''1'', ''1'', ''1'', ''1'', ''1'', ''1'', ''1'', ''1'', ''1'', ''1'', ''1'', ''1'', ''1'', ''1'', ''1'', ''1'', ''1'', ''42'', ''9'']"

theorem start_time_ignores_the_name_witness:
  "pid_start_time \<lparr>pa_open = None, pa_exe = Inl [], pa_why = [], pa_stat = Inr (''7 (a) S (b) '' @ join '' '' demo_columns @ [newline])\<rparr> 7 = Inr 42"
proof (rule start_time_ignores_the_name)
  show "pa_stat \<lparr>pa_open = None, pa_exe = Inl [], pa_why = [], pa_stat = Inr (''7 (a) S (b) '' @ join '' '' demo_columns @ [newline])\<rparr> =
    Inr (dec (unat (7 :: u32)) @ '' ('' @ ''a) S (b'' @ '') '' @ join '' '' demo_columns @ [newline])"
    by (simp add: dec.simps digit_char_def del: join.simps)
  show "\<forall>f \<in> set demo_columns. f \<noteq> [] \<and> (\<forall>c \<in> set f. \<not> is_whitespace c \<and> c \<noteq> CHR '')'')"
    by (simp add: demo_columns_def is_whitespace_def)
  show "demo_columns ! 19 = dec (unat (42 :: u64))" by (simp add: demo_columns_def dec.simps digit_char_def)
qed (simp_all add: demo_columns_def is_whitespace_def newline_def)

theorem user_paths_name_only_user_apps_witness:
  "path_to_app_id \<lparr>ie_debug = False, ie_home = Some ''/home/u'', ie_registry = Inr [(''com.app'', \<lparr>ir_install_path = [], ir_ino = 5, ir_dev = 6\<rparr>)], ie_stat = (\<lambda>_. Inr (5, 6))\<rparr>
     ''/home/u/.local/share/arlen/apps/com.app/run'' = Inr ''com.app'' \<and> \<not> is_reserved_app_id ''com.app''"
proof -
  let ?env = "\<lparr>ie_debug = False, ie_home = Some ''/home/u'', ie_registry = Inr [(''com.app'', \<lparr>ir_install_path = [], ir_ino = 5, ir_dev = 6\<rparr>)], ie_stat = (\<lambda>_. Inr (5, 6))\<rparr>"
  have id: "path_to_app_id ?env ''/home/u/.local/share/arlen/apps/com.app/run'' = Inr ''com.app''"
    by (simp add: path_to_app_id_def CANONICAL_BINARIES_def daemon_name_def system_app_def user_app_def path_components_def strip_prefix_def starts_with_def
        user_app_identity_def is_reserved_app_id_def user_app_inode_ok_def registry_lookup_def verify_binary_def)
  from user_paths_name_only_user_apps [OF id] id show ?thesis by (simp add: starts_with_def)
qed

end
