(* ===== verification/Identity_Broker.thy ===== *)
theory Identity_Broker
  imports Process_Identity
begin

text \<open>
  The identity broker and its readers: the store of stamped processes (\<open>identity_store.rs\<close> of
  \<open>sdk/permissions\<close>), the register and lookup operations and the connection handler of the daemon
  \<open>config-broker\<close> (\<open>identity_op.rs\<close>, \<open>identity_server.rs\<close>), the client (\<open>identity_wire.rs\<close>), the resolver of a
  peer (\<open>peer_pidfd.rs\<close>, \<open>stamped_identity.rs\<close>) and the authentication of a connection
  (\<open>connection_auth.rs\<close>).

  A pidfd is the process it refers to, named by a natural number that is never used again. What the kernel says
  about it at a moment is the text of its \<open>fdinfo\<close> file, an argument; so are the uids of sockets, the JSON
  codec and what becomes of a connection.
\<close>

section \<open>Process handles\<close>

type_synonym process = nat
type_synonym kernel = "process \<Rightarrow> string option"

definition pidfd_pid :: "string option \<Rightarrow> u32 option" where
  "pidfd_pid info =
     (case info of
        None \<Rightarrow> None
      | Some text \<Rightarrow>
          (case List.map_filter (\<lambda>l. strip_prefix l ''Pid:'') (lines text) of
             [] \<Rightarrow> None
           | rest # _ \<Rightarrow>
               (case parse_i64 (trim rest) of
                  None \<Rightarrow> None
                | Some pid \<Rightarrow> if pid > 0 then Some (of_int pid) else None)))"

datatype pidfd_error = Getsockopt string | PeerUid string | PidfdInfo | PidfdCrossUid nat nat

record peer_pidfd =
  pp_pidfd :: process
  pp_pid :: u32
  pp_uid :: nat

text \<open>What the socket options of a connection give.\<close>

record socket_peer =
  so_pidfd :: "string + process"
  so_cred :: "string + u32 \<times> nat"

definition from_socket :: "kernel \<Rightarrow> socket_peer \<Rightarrow> nat \<Rightarrow> pidfd_error + peer_pidfd" where
  "from_socket k so caller_uid =
     (case so_pidfd so of
        Inl e \<Rightarrow> Inl (Getsockopt e)
      | Inr q \<Rightarrow>
          (case so_cred so of
             Inl e \<Rightarrow> Inl (PeerUid e)
           | Inr (_, uid) \<Rightarrow>
               if uid \<noteq> caller_uid then Inl (PidfdCrossUid caller_uid uid)
               else (case pidfd_pid (k q) of
                   None \<Rightarrow> Inl PidfdInfo
                 | Some pid \<Rightarrow> Inr \<lparr>pp_pidfd = q, pp_pid = pid, pp_uid = uid\<rparr>)))"

definition peer_is_alive :: "kernel \<Rightarrow> peer_pidfd \<Rightarrow> bool" where
  "peer_is_alive k p \<longleftrightarrow> pidfd_pid (k (pp_pidfd p)) = Some (pp_pid p)"

section \<open>The store\<close>

definition SESSION_ROOT :: string where "SESSION_ROOT = ''session''"

record grants =
  gr_register :: bool
  gr_stamp_reserved :: bool

record store_record =
  sr_pidfd :: process
  sr_pid :: u32
  sr_app_id :: string
  sr_registered_by :: string
  sr_grants :: grants

type_synonym identity_store = "store_record list"

definition is_live :: "kernel \<Rightarrow> store_record \<Rightarrow> bool" where
  "is_live k r \<longleftrightarrow> pidfd_pid (k (sr_pidfd r)) = Some (sr_pid r)"

datatype identity_store_error = DeadPidfd

definition store_register :: "kernel \<Rightarrow> process \<Rightarrow> string \<Rightarrow> string \<Rightarrow> grants \<Rightarrow> identity_store \<Rightarrow> identity_store_error + identity_store" where
  "store_register k pidfd app_id registered_by g st =
     (case pidfd_pid (k pidfd) of
        None \<Rightarrow> Inl DeadPidfd
      | Some pid \<Rightarrow>
          Inr (filter (\<lambda>r. is_live k r \<and> sr_pid r \<noteq> pid) st @
            [\<lparr>sr_pidfd = pidfd, sr_pid = pid, sr_app_id = app_id, sr_registered_by = registered_by, sr_grants = g\<rparr>]))"

definition store_lookup :: "kernel \<Rightarrow> process \<Rightarrow> identity_store \<Rightarrow> string option" where
  "store_lookup k presented st =
     (case pidfd_pid (k presented) of
        None \<Rightarrow> None
      | Some want \<Rightarrow> map_option sr_app_id (find (\<lambda>r. sr_pid r = want \<and> is_live k r) st))"

definition store_holds :: "kernel \<Rightarrow> process \<Rightarrow> (store_record \<Rightarrow> bool) \<Rightarrow> identity_store \<Rightarrow> bool" where
  "store_holds k presented want st =
     (case pidfd_pid (k presented) of
        None \<Rightarrow> False
      | Some pid \<Rightarrow> list_ex (\<lambda>r. sr_pid r = pid \<and> is_live k r \<and> want r) st)"

definition may_register :: "kernel \<Rightarrow> process \<Rightarrow> identity_store \<Rightarrow> bool" where
  "may_register k presented st = store_holds k presented (\<lambda>r. gr_register (sr_grants r)) st"

definition may_grant_registrar :: "kernel \<Rightarrow> process \<Rightarrow> identity_store \<Rightarrow> bool" where
  "may_grant_registrar k presented st = store_holds k presented (\<lambda>r. sr_registered_by r = SESSION_ROOT) st"

definition may_stamp_reserved :: "kernel \<Rightarrow> process \<Rightarrow> identity_store \<Rightarrow> bool" where
  "may_stamp_reserved k presented st = store_holds k presented (\<lambda>r. gr_stamp_reserved (sr_grants r)) st"

definition store_prune :: "kernel \<Rightarrow> identity_store \<Rightarrow> identity_store" where
  "store_prune k st = filter (is_live k) st"

section \<open>The operations\<close>

datatype identity_request = RegisterIdentity string bool bool | LookupIdentity

datatype identity_response =
    Registered
  | Resolved string
  | IdentityNotFound
  | IdentityRefused string
  | IdentityFailed string

definition DEV_REGISTRARS :: "string list" where
  "DEV_REGISTRARS = [''dev.arlen-run'', ''dev.arlen-desktop-shell'']"

definition is_admitted_registrar :: "bool \<Rightarrow> string \<Rightarrow> bool" where
  "is_admitted_registrar debug_assertions app_id \<longleftrightarrow> debug_assertions \<and> app_id \<in> set DEV_REGISTRARS"

definition caller_may_register :: "bool \<Rightarrow> kernel \<Rightarrow> identity_store \<Rightarrow> string \<Rightarrow> process \<Rightarrow> bool" where
  "caller_may_register debug_assertions k st caller_app_id caller_pidfd =
     (if caller_app_id = SESSION_ROOT then True
      else if debug_assertions \<and> caller_app_id = ''dev.arlen-session'' then True
      else may_register k caller_pidfd st \<or> is_admitted_registrar debug_assertions caller_app_id)"

definition caller_may_grant_registrar :: "bool \<Rightarrow> kernel \<Rightarrow> identity_store \<Rightarrow> string \<Rightarrow> process \<Rightarrow> bool" where
  "caller_may_grant_registrar debug_assertions k st caller_app_id caller_pidfd =
     (if caller_app_id = SESSION_ROOT then True
      else if debug_assertions \<and> caller_app_id = ''dev.arlen-session'' then True
      else may_grant_registrar k caller_pidfd st)"

definition caller_may_stamp_reserved :: "bool \<Rightarrow> kernel \<Rightarrow> identity_store \<Rightarrow> string \<Rightarrow> process \<Rightarrow> bool" where
  "caller_may_stamp_reserved debug_assertions k st caller_app_id caller_pidfd =
     (if caller_app_id = SESSION_ROOT then True
      else if debug_assertions \<and> caller_app_id = ''dev.arlen-session'' then True
      else may_stamp_reserved k caller_pidfd st)"

definition handle_identity :: "bool \<Rightarrow> kernel \<Rightarrow> string \<Rightarrow> identity_request \<Rightarrow> process option \<Rightarrow> process option \<Rightarrow> identity_store \<Rightarrow>
    identity_response \<times> identity_store" where
  "handle_identity debug_assertions k caller_app_id request received caller_pidfd st =
     (case request of
        RegisterIdentity app_id registrar stamp_reserved \<Rightarrow>
          (case caller_pidfd of
             None \<Rightarrow> (IdentityRefused ''no caller handle, so registrar provenance cannot be established'', st)
           | Some c \<Rightarrow>
               if \<not> caller_may_register debug_assertions k st caller_app_id c
               then (IdentityRefused (''caller '' @ [CHR 0x27] @ caller_app_id @ [CHR 0x27] @ '' may not register an identity''), st)
               else if is_reserved_app_id app_id \<and> \<not> caller_may_stamp_reserved debug_assertions k st caller_app_id c
               then (IdentityRefused ([CHR 0x27] @ app_id @ [CHR 0x27] @ '' is a reserved app id and this caller may not stamp one''), st)
               else if \<not> is_valid_app_id app_id
               then (IdentityRefused ([CHR 0x27] @ app_id @ [CHR 0x27] @ '' is not a valid app id and may not be stamped''), st)
               else if (registrar \<or> stamp_reserved) \<and> \<not> caller_may_grant_registrar debug_assertions k st caller_app_id c
               then (IdentityRefused (''caller '' @ [CHR 0x27] @ caller_app_id @ [CHR 0x27] @ '' may register but may not pass a right on''), st)
               else (case received of
                   None \<Rightarrow> (IdentityFailed ''register requires a pidfd'', st)
                 | Some fd \<Rightarrow>
                     (case store_register k fd app_id caller_app_id \<lparr>gr_register = registrar, gr_stamp_reserved = stamp_reserved\<rparr> st of
                        Inr st' \<Rightarrow> (Registered, st')
                      | Inl DeadPidfd \<Rightarrow> (IdentityFailed ''pidfd does not refer to a live process'', st))))
      | LookupIdentity \<Rightarrow>
          (case received of
             None \<Rightarrow> (IdentityFailed ''lookup requires a pidfd'', st)
           | Some fd \<Rightarrow>
               (case store_lookup k fd st of
                  Some app_id \<Rightarrow> (Resolved app_id, st)
                | None \<Rightarrow> (IdentityNotFound, st))))"

text \<open>
  One connection: who its peer is, what could be read from it (nothing when the read failed or timed out),
  the answers of \<open>/proc\<close> about the peer, and the answer written, if any.
\<close>

record identity_connection =
  ic_socket :: socket_peer
  ic_message :: "(bytes \<times> process option) option"
  ic_proc :: proc_answers

definition serve_identity_connection :: "identity_env \<Rightarrow> (bytes \<Rightarrow> string + identity_request) \<Rightarrow> kernel \<Rightarrow> nat \<Rightarrow> identity_connection \<Rightarrow> identity_store \<Rightarrow>
    identity_response option \<times> identity_store" where
  "serve_identity_connection env from_json k caller_uid conn st =
     (case from_socket k (ic_socket conn) caller_uid of
        Inl _ \<Rightarrow> (None, st)
      | Inr peer \<Rightarrow>
          (case ic_message conn of
             None \<Rightarrow> (None, st)
           | Some (body, fd) \<Rightarrow>
               (case from_json body of
                  Inl _ \<Rightarrow> (Some (IdentityFailed ''malformed request''), st)
                | Inr (RegisterIdentity app_id registrar stamp_reserved) \<Rightarrow>
                    (case app_id_from_pid env (ic_proc conn) (pp_pid peer) of
                       Inr caller \<Rightarrow>
                         apfst Some (handle_identity (ie_debug env) k caller (RegisterIdentity app_id registrar stamp_reserved) fd (Some (pp_pidfd peer)) st)
                     | Inl _ \<Rightarrow> (Some (IdentityRefused ''registrar identity unresolved''), st))
                | Inr LookupIdentity \<Rightarrow> apfst Some (handle_identity (ie_debug env) k [] LookupIdentity fd None st))))"

section \<open>The client\<close>

datatype identity_client_error =
    IdTransport string
  | IdRefused string
  | IdBroker string
  | IdUnexpected
  | IdUnauthenticated string

definition MAX_IDENTITY_FRAME :: nat where "MAX_IDENTITY_FRAME = 4096"

definition read_identity_response :: "(bytes \<Rightarrow> string + identity_response) \<Rightarrow> bytes \<Rightarrow> identity_client_error + identity_response" where
  "read_identity_response from_json reader =
     (if length reader < 4 then Inl (IdTransport ''failed to fill whole buffer'')
      else let n = le_value (rev (take 4 reader)); body = drop 4 reader
        in if n > MAX_IDENTITY_FRAME then Inl (IdTransport ''reply exceeds MAX_IDENTITY_FRAME'')
           else if length body < n then Inl (IdTransport ''failed to fill whole buffer'')
           else map_sum IdTransport id (from_json (take n body)))"

definition register_over :: "(identity_request \<Rightarrow> process \<Rightarrow> identity_client_error + identity_response) \<Rightarrow> process \<Rightarrow> string \<Rightarrow> grants \<Rightarrow>
    identity_client_error + unit" where
  "register_over exchange child_pidfd app_id g =
     (case exchange (RegisterIdentity app_id (gr_register g) (gr_stamp_reserved g)) child_pidfd of
        Inl e \<Rightarrow> Inl e
      | Inr Registered \<Rightarrow> Inr ()
      | Inr (IdentityRefused r) \<Rightarrow> Inl (IdRefused r)
      | Inr (IdentityFailed e) \<Rightarrow> Inl (IdBroker e)
      | Inr _ \<Rightarrow> Inl IdUnexpected)"

definition lookup_over :: "(identity_request \<Rightarrow> process \<Rightarrow> identity_client_error + identity_response) \<Rightarrow> process \<Rightarrow> identity_client_error + string option" where
  "lookup_over exchange peer_pidfd =
     (case exchange LookupIdentity peer_pidfd of
        Inl e \<Rightarrow> Inl e
      | Inr (Resolved app_id) \<Rightarrow> Inr (Some app_id)
      | Inr IdentityNotFound \<Rightarrow> Inr None
      | Inr (IdentityFailed e) \<Rightarrow> Inl (IdBroker e)
      | Inr (IdentityRefused r) \<Rightarrow> Inl (IdRefused r)
      | Inr _ \<Rightarrow> Inl IdUnexpected)"

definition resolve_connect_path :: "string \<Rightarrow> string \<Rightarrow> (string \<Rightarrow> bool) \<Rightarrow> string" where
  "resolve_connect_path per_user system_path exists = (if exists per_user then per_user else if exists system_path then system_path else per_user)"

definition expected_broker_uid_from :: "nat option \<Rightarrow> nat \<Rightarrow> bool \<Rightarrow> nat option" where
  "expected_broker_uid_from env caller_uid is_release =
     (case env of Some uid \<Rightarrow> Some uid | None \<Rightarrow> if is_release then None else Some caller_uid)"

definition broker_expected_uid :: "bool \<Rightarrow> string option \<Rightarrow> nat \<Rightarrow> nat option" where
  "broker_expected_uid debug_assertions env_var caller_uid =
     expected_broker_uid_from
       (Option.bind env_var (\<lambda>v. case parse_u32 (trim v) of Inr u \<Rightarrow> Some (unat u) | Inl _ \<Rightarrow> None)) caller_uid (\<not> debug_assertions)"

definition NOBODY_UID :: nat where "NOBODY_UID = 65534"

definition unmappable_peer_hint :: "nat \<Rightarrow> nat \<Rightarrow> string \<Rightarrow> string" where
  "unmappable_peer_hint broker_uid expected socket =
     (if broker_uid = NOBODY_UID \<and> expected \<noteq> NOBODY_UID then
        ''broker at '' @ socket @ '' reads as uid '' @ dec broker_uid @ '' (nobody), expected '' @ dec expected @
        '': the peer's real uid has no mapping in this process's user namespace, which is what a hardened user unit gets. '' @
        ''No value of the expected-uid env can match while that is true''
      else ''broker at '' @ socket @ '' has uid '' @ dec broker_uid @ '', expected '' @ dec expected)"

text \<open>The directory of the broker's socket as the client sees it (whether the path has a parent, whether that is a directory,
  whether its name has no zero byte, whether the client may write to it), the result of connecting, and the uid
  of the listener.\<close>

record broker_link =
  bl_socket :: string
  bl_parent :: bool
  bl_is_dir :: bool
  bl_c_string :: bool
  bl_writable :: bool
  bl_connect :: "string + (identity_request \<Rightarrow> process \<Rightarrow> identity_client_error + identity_response)"
  bl_uid :: "string + nat"

definition socket_dir_is_closed_to_us :: "broker_link \<Rightarrow> bool" where
  "socket_dir_is_closed_to_us b \<longleftrightarrow> bl_parent b \<and> bl_is_dir b \<and> bl_c_string b \<and> \<not> bl_writable b"

definition lookup_identity_authenticated :: "broker_link \<Rightarrow> process \<Rightarrow> nat option \<Rightarrow> identity_client_error + string option" where
  "lookup_identity_authenticated b peer_pidfd expected_broker_uid =
     (if socket_dir_is_closed_to_us b then
        (case bl_connect b of Inl e \<Rightarrow> Inl (IdTransport e) | Inr exchange \<Rightarrow> lookup_over exchange peer_pidfd)
      else (case expected_broker_uid of
          None \<Rightarrow> Inl (IdUnauthenticated ''no trusted identity-broker uid configured (ARLEN_CONFIG_BROKER_IDENTITY_UID)'')
        | Some expected \<Rightarrow>
            (case bl_connect b of
               Inl e \<Rightarrow> Inl (IdTransport e)
             | Inr exchange \<Rightarrow>
                 (case bl_uid b of
                    Inl e \<Rightarrow> Inl (IdUnauthenticated (''peer uid unreadable: '' @ e))
                  | Inr broker_uid \<Rightarrow>
                      if broker_uid \<noteq> expected then Inl (IdUnauthenticated (unmappable_peer_hint broker_uid expected (bl_socket b)))
                      else lookup_over exchange peer_pidfd))))"

section \<open>Resolving the peer of a connection\<close>

datatype identity_source = Stamped | InodeRegistry | LegacyProc

record stamped_identity =
  si_app_id :: string
  si_peer :: peer_pidfd
  si_source :: identity_source

datatype conn_error =
    PeerCred string
  | CrossUid nat nat
  | ConnIdentity identity_error
  | ConnProfile string
  | PeerNotAlive

definition auth_error_from_pidfd :: "pidfd_error \<Rightarrow> conn_error" where
  "auth_error_from_pidfd e =
     (case e of
        PidfdCrossUid caller peer \<Rightarrow> CrossUid caller peer
      | PidfdInfo \<Rightarrow> PeerNotAlive
      | Getsockopt e \<Rightarrow> PeerCred e
      | PeerUid e \<Rightarrow> PeerCred e)"

definition broker_lookup_pidfd :: "(string \<Rightarrow> bool) \<Rightarrow> broker_link \<Rightarrow> nat option \<Rightarrow> process \<Rightarrow> string option" where
  "broker_lookup_pidfd is_dir b expected pidfd =
     (case lookup_identity_authenticated b pidfd expected of
        Inr (Some app_id) \<Rightarrow>
          (let reserved_but_unknown = is_reserved_app_id app_id \<and> \<not> is_enrolled_daemon_id app_id \<and> \<not> is_system_installed_app_id is_dir app_id
           in if reserved_but_unknown \<or> \<not> is_valid_app_id app_id then None else Some app_id)
      | Inr None \<Rightarrow> None
      | Inl _ \<Rightarrow> None)"

definition stamped_app_id_for_pid :: "(string \<Rightarrow> bool) \<Rightarrow> broker_link \<Rightarrow> nat option \<Rightarrow> process option \<Rightarrow> string option" where
  "stamped_app_id_for_pid is_dir b expected opened = Option.bind opened (broker_lookup_pidfd is_dir b expected)"

definition classify_source_with :: "identity_registry option \<Rightarrow> string \<Rightarrow> (u64 \<times> u64) option \<Rightarrow> identity_source" where
  "classify_source_with registry app_id ino_dev =
     (case (Option.bind registry (\<lambda>r. registry_lookup r app_id), ino_dev) of
        (Some record, Some (ino, dev)) \<Rightarrow> if ir_ino record = ino \<and> ir_dev record = dev then InodeRegistry else LegacyProc
      | _ \<Rightarrow> LegacyProc)"

text \<open>What the resolver of a daemon reads: its build, home, registry and the directory listing, the broker, and the
  answers about a process with the inode of its binary.\<close>

record resolver_env =
  rv_identity :: identity_env
  rv_is_dir :: "string \<Rightarrow> bool"
  rv_broker :: broker_link
  rv_uid_env :: "string option"
  rv_proc :: "u32 \<Rightarrow> proc_answers"
  rv_ino_dev :: "u32 \<Rightarrow> (u64 \<times> u64) option"

definition classify_source :: "resolver_env \<Rightarrow> string \<Rightarrow> u32 \<Rightarrow> identity_source" where
  "classify_source v app_id pid =
     classify_source_with (case ie_registry (rv_identity v) of Inr r \<Rightarrow> Some r | Inl _ \<Rightarrow> None) app_id (rv_ino_dev v pid)"

definition app_id_from_connection :: "resolver_env \<Rightarrow> kernel \<Rightarrow> socket_peer \<Rightarrow> nat \<Rightarrow> conn_error + stamped_identity" where
  "app_id_from_connection v k so caller_uid =
     (case from_socket k so caller_uid of
        Inl e \<Rightarrow> Inl (auth_error_from_pidfd e)
      | Inr peer \<Rightarrow>
          (case broker_lookup_pidfd (rv_is_dir v) (rv_broker v) (broker_expected_uid (ie_debug (rv_identity v)) (rv_uid_env v) caller_uid) (pp_pidfd peer) of
             Some app_id \<Rightarrow> Inr \<lparr>si_app_id = app_id, si_peer = peer, si_source = Stamped\<rparr>
           | None \<Rightarrow>
               (case exe_path_openat (rv_proc v (pp_pid peer)) (pp_pid peer) of
                  Inl e \<Rightarrow> Inl (ConnIdentity e)
                | Inr exe \<Rightarrow>
                    (case path_to_app_id (rv_identity v) exe of
                       Inl e \<Rightarrow> Inl (ConnIdentity e)
                     | Inr app_id \<Rightarrow> Inr \<lparr>si_app_id = app_id, si_peer = peer, si_source = classify_source v app_id (pp_pid peer)\<rparr>))))"

section \<open>The identity of a connection\<close>

datatype stamped_mode = Shadow | Enforce

definition parse_stamped_mode :: "string option \<Rightarrow> stamped_mode" where
  "parse_stamped_mode v = (if v = Some ''enforce'' then Enforce else Shadow)"

definition resolve_identity :: "(u32 \<Rightarrow> proc_answers) \<Rightarrow> stamped_mode \<Rightarrow> u32 \<Rightarrow> identity_error + string \<Rightarrow> conn_error + stamped_identity \<Rightarrow>
    conn_error + u32 \<times> string \<times> u64 \<times> peer_pidfd option" where
  "resolve_identity proc mode peer_pid legacy stamped =
     (case mode of
        Shadow \<Rightarrow>
          (case legacy of
             Inl e \<Rightarrow> Inl (ConnIdentity e)
           | Inr app_id \<Rightarrow>
               (case pid_start_time (proc peer_pid) peer_pid of
                  Inl e \<Rightarrow> Inl (ConnIdentity e)
                | Inr t \<Rightarrow> Inr (peer_pid, app_id, t, None)))
      | Enforce \<Rightarrow>
          (case stamped of
             Inl e \<Rightarrow> Inl e
           | Inr s \<Rightarrow>
               (case pid_start_time (proc (pp_pid (si_peer s))) (pp_pid (si_peer s)) of
                  Inl e \<Rightarrow> Inl (ConnIdentity e)
                | Inr t \<Rightarrow> Inr (pp_pid (si_peer s), si_app_id s, t, Some (si_peer s)))))"

datatype 'p profile_load = ProfileLoaded 'p | ProfileNotFound | ProfileFailed string

record 'p connection_auth =
  ca_pid :: u32
  ca_uid :: nat
  ca_start_time :: u64
  ca_app_id :: string
  ca_profile :: 'p
  ca_pidfd :: "peer_pidfd option"

definition profile_or_empty :: "(string \<Rightarrow> 'p profile_load) \<Rightarrow> (string \<Rightarrow> 'p) \<Rightarrow> string \<Rightarrow> conn_error + 'p" where
  "profile_or_empty load empty_profile app_id =
     (case load app_id of
        ProfileLoaded p \<Rightarrow> Inr p
      | ProfileNotFound \<Rightarrow> Inr (empty_profile app_id)
      | ProfileFailed e \<Rightarrow> Inl (ConnProfile e))"

definition extract_from_inner :: "resolver_env \<Rightarrow> kernel \<Rightarrow> string option \<Rightarrow> (string \<Rightarrow> 'p profile_load) \<Rightarrow> (string \<Rightarrow> 'p) \<Rightarrow> socket_peer \<Rightarrow> nat \<Rightarrow> bool \<Rightarrow>
    conn_error + 'p connection_auth" where
  "extract_from_inner v k mode_env load empty_profile so caller_uid allow_root =
     (case so_cred so of
        Inl e \<Rightarrow> Inl (PeerCred e)
      | Inr (peer_pid, peer_uid) \<Rightarrow>
          if peer_uid \<noteq> caller_uid \<and> \<not> (allow_root \<and> peer_uid = 0) then Inl (CrossUid caller_uid peer_uid)
          else (case resolve_identity (rv_proc v) (parse_stamped_mode mode_env) peer_pid
                       (app_id_from_pid (rv_identity v) (rv_proc v peer_pid) peer_pid) (app_id_from_connection v k so caller_uid) of
              Inl e \<Rightarrow> Inl e
            | Inr (pid, app_id, t, pidfd) \<Rightarrow>
                (case profile_or_empty load empty_profile app_id of
                   Inl e \<Rightarrow> Inl e
                 | Inr p \<Rightarrow> Inr \<lparr>ca_pid = pid, ca_uid = peer_uid, ca_start_time = t, ca_app_id = app_id, ca_profile = p, ca_pidfd = pidfd\<rparr>)))"

definition extract_from :: "resolver_env \<Rightarrow> kernel \<Rightarrow> string option \<Rightarrow> (string \<Rightarrow> 'p profile_load) \<Rightarrow> (string \<Rightarrow> 'p) \<Rightarrow> socket_peer \<Rightarrow> nat \<Rightarrow> conn_error + 'p connection_auth" where
  "extract_from v k mode_env load empty_profile so caller_uid = extract_from_inner v k mode_env load empty_profile so caller_uid False"

definition extract_from_trusting_root :: "resolver_env \<Rightarrow> kernel \<Rightarrow> string option \<Rightarrow> (string \<Rightarrow> 'p profile_load) \<Rightarrow> (string \<Rightarrow> 'p) \<Rightarrow> socket_peer \<Rightarrow> nat \<Rightarrow> conn_error + 'p connection_auth" where
  "extract_from_trusting_root v k mode_env load empty_profile so caller_uid = extract_from_inner v k mode_env load empty_profile so caller_uid True"

definition verify_alive :: "(u32 \<Rightarrow> proc_answers) \<Rightarrow> kernel \<Rightarrow> 'p connection_auth \<Rightarrow> conn_error + unit" where
  "verify_alive proc k auth =
     (case ca_pidfd auth of
        Some p \<Rightarrow> if peer_is_alive k p then Inr () else Inl PeerNotAlive
      | None \<Rightarrow>
          (case pid_start_time (proc (ca_pid auth)) (ca_pid auth) of
             Inl (ProcessNotFound _) \<Rightarrow> Inl PeerNotAlive
           | Inl e \<Rightarrow> Inl (ConnIdentity e)
           | Inr t \<Rightarrow> if t \<noteq> ca_start_time auth then Inl PeerNotAlive else Inr ()))"

definition refresh_profile :: "(string \<Rightarrow> 'p profile_load) \<Rightarrow> (string \<Rightarrow> 'p) \<Rightarrow> 'p connection_auth \<Rightarrow> conn_error + 'p connection_auth" where
  "refresh_profile load empty_profile auth =
     (case profile_or_empty load empty_profile (ca_app_id auth) of
        Inl e \<Rightarrow> Inl e
      | Inr p \<Rightarrow> Inr (auth\<lparr>ca_profile := p\<rparr>))"

end
