(* ===== verification/Identity_Runs.thy ===== *)
theory Identity_Runs
  imports Identity_Broker
begin

text \<open>
  What the identity broker guarantees over every run in which processes start, end and have their numbers used again,
  connections of any caller are served and the store is pruned: a lookup answers the latest stamp of that very process,
  rights reach two hops from the session root and no further, and which right can be passed on by a holder that
  does not have it.
\<close>

section \<open>Runs\<close>

definition alive :: "kernel \<Rightarrow> process \<Rightarrow> bool" where
  "alive k q \<longleftrightarrow> pidfd_pid (k q) \<noteq> None"

text \<open>What the kernel may do to the processes that were born: a process keeps its number until it ends and
  never comes back; new ones are born; no two living processes share a number.\<close>

definition kernel_step :: "kernel \<Rightarrow> process set \<Rightarrow> kernel \<Rightarrow> process set \<Rightarrow> bool" where
  "kernel_step k born k' born' \<longleftrightarrow>
     born \<subseteq> born' \<and> (\<forall>q \<in> born. pidfd_pid (k' q) = pidfd_pid (k q) \<or> pidfd_pid (k' q) = None) \<and>
     (\<forall>q. alive k' q \<longrightarrow> q \<in> born') \<and> inj_on (\<lambda>q. pidfd_pid (k' q)) {q. alive k' q}"

text \<open>A registration that was acknowledged: the process that asked with the path of its binary and the name that gave it,
  and the process it stamped with what.\<close>

record stamping =
  rg_caller :: process
  rg_exe :: string
  rg_by :: string
  rg_process :: process
  rg_app_id :: string
  rg_grants :: grants

definition latest :: "stamping list \<Rightarrow> process \<Rightarrow> stamping option" where
  "latest log q = find (\<lambda>g. rg_process g = q) log"

text \<open>The registration a connection asks for, when its caller and its request are known.\<close>

definition asked :: "identity_env \<Rightarrow> (bytes \<Rightarrow> string + identity_request) \<Rightarrow> kernel \<Rightarrow> nat \<Rightarrow> identity_connection \<Rightarrow> stamping option" where
  "asked env from_json k uid conn =
     (case (from_socket k (ic_socket conn) uid, ic_message conn) of
        (Inr peer, Some (body, Some q)) \<Rightarrow>
          (case (from_json body, exe_path_openat (ic_proc conn) (pp_pid peer)) of
             (Inr (RegisterIdentity app_id registrar stamp_reserved), Inr exe) \<Rightarrow>
               (case path_to_app_id env exe of
                  Inr by_name \<Rightarrow> Some \<lparr>rg_caller = pp_pidfd peer, rg_exe = exe, rg_by = by_name, rg_process = q, rg_app_id = app_id,
                    rg_grants = \<lparr>gr_register = registrar, gr_stamp_reserved = stamp_reserved\<rparr>\<rparr>
                | Inl _ \<Rightarrow> None)
           | _ \<Rightarrow> None)
      | _ \<Rightarrow> None)"

text \<open>The log of acknowledged registrations, the newest first.\<close>

definition logged :: "identity_response option \<Rightarrow> stamping option \<Rightarrow> stamping list \<Rightarrow> stamping list" where
  "logged reply g log = (if reply = Some Registered then (case g of Some g \<Rightarrow> g # log | None \<Rightarrow> log) else log)"

inductive identity_run :: "identity_env \<Rightarrow> (bytes \<Rightarrow> string + identity_request) \<Rightarrow> nat \<Rightarrow> kernel \<Rightarrow> process set \<Rightarrow> identity_store \<Rightarrow> stamping list \<Rightarrow> bool"
  for env from_json uid where
  start: "(\<forall>q. alive k q \<longrightarrow> q \<in> born) \<Longrightarrow> inj_on (\<lambda>q. pidfd_pid (k q)) {q. alive k q} \<Longrightarrow> identity_run env from_json uid k born [] []"
| world: "identity_run env from_json uid k born st log \<Longrightarrow> kernel_step k born k' born' \<Longrightarrow> identity_run env from_json uid k' born' st log"
| prune: "identity_run env from_json uid k born st log \<Longrightarrow> identity_run env from_json uid k born (store_prune k st) log"
| serve: "identity_run env from_json uid k born st log \<Longrightarrow> serve_identity_connection env from_json k uid conn st = (reply, st') \<Longrightarrow>
    identity_run env from_json uid k born st' (logged reply (asked env from_json k uid conn) log)"

section \<open>The store is a table of processes\<close>

definition stamp_in :: "identity_store \<Rightarrow> process \<Rightarrow> (string \<times> string \<times> grants) option" where
  "stamp_in st q = map_option (\<lambda>r. (sr_app_id r, sr_registered_by r, sr_grants r)) (find (\<lambda>r. sr_pidfd r = q) st)"

definition stamp_of :: "stamping list \<Rightarrow> process \<Rightarrow> (string \<times> string \<times> grants) option" where
  "stamp_of log q = map_option (\<lambda>g. (rg_app_id g, rg_by g, rg_grants g)) (latest log q)"

definition stamps_fit :: "kernel \<Rightarrow> process set \<Rightarrow> identity_store \<Rightarrow> stamping list \<Rightarrow> bool" where
  "stamps_fit k born st log \<longleftrightarrow>
     (\<forall>q. alive k q \<longrightarrow> q \<in> born) \<and> inj_on (\<lambda>q. pidfd_pid (k q)) {q. alive k q} \<and>
     (\<forall>r \<in> set st. sr_pidfd r \<in> born \<and> (alive k (sr_pidfd r) \<longrightarrow> is_live k r)) \<and> distinct (map sr_pidfd st) \<and>
     (\<forall>g \<in> set log. rg_process g \<in> born) \<and> (\<forall>q. alive k q \<longrightarrow> stamp_in st q = stamp_of log q)"

lemma find_filter: "(\<And>x. x \<in> set xs \<Longrightarrow> P x \<Longrightarrow> Q x) \<Longrightarrow> find P (filter Q xs) = find P xs"
  by (induction xs) auto



lemma is_live_alive: "is_live k r \<Longrightarrow> alive k (sr_pidfd r)"
  by (simp add: is_live_def alive_def)

text \<open>A living record with a living process's number is that process's record.\<close>

lemma live_record_is_its_process:
  assumes "stamps_fit k born st log" and "r \<in> set st" and "pidfd_pid (k q) = Some pid"
  shows "sr_pid r = pid \<and> is_live k r \<longleftrightarrow> sr_pidfd r = q"
proof
  assume r: "sr_pid r = pid \<and> is_live k r"
  then have "pidfd_pid (k (sr_pidfd r)) = pidfd_pid (k q)" using assms(3) by (simp add: is_live_def)
  moreover have "alive k (sr_pidfd r)" "alive k q" using r assms(3) by (auto simp: is_live_def alive_def)
  ultimately show "sr_pidfd r = q" using assms(1) by (auto simp: stamps_fit_def dest: inj_onD)
next
  assume "sr_pidfd r = q"
  then show "sr_pid r = pid \<and> is_live k r" using assms by (auto simp: stamps_fit_def alive_def is_live_def)
qed

lemma lookup_stamp:
  assumes "stamps_fit k born st log"
  shows "store_lookup k q st = (if alive k q then map_option fst (stamp_of log q) else None)"
proof (cases "pidfd_pid (k q)")
  case (Some pid)
  have "find (\<lambda>r. sr_pid r = pid \<and> is_live k r) st = find (\<lambda>r. sr_pidfd r = q) st"
    using live_record_is_its_process [OF assms _ Some] by (intro find_cong) auto
  then have "store_lookup k q st = map_option fst (stamp_in st q)" using Some
    by (simp add: store_lookup_def stamp_in_def option.map_comp comp_def)
  then show ?thesis using Some assms by (simp add: alive_def stamps_fit_def)
qed (simp add: store_lookup_def alive_def)

lemma holds_stamp:
  assumes "stamps_fit k born st log" and "\<And>r. want r \<longleftrightarrow> P (sr_app_id r, sr_registered_by r, sr_grants r)"
  shows "store_holds k q want st \<longleftrightarrow> alive k q \<and> (\<exists>s. stamp_of log q = Some s \<and> P s)"
proof (cases "pidfd_pid (k q)")
  case (Some pid)
  have live: "alive k q" using Some by (simp add: alive_def)
  have inj: "inj_on sr_pidfd (set st)" using assms(1) by (simp add: stamps_fit_def distinct_map)
  have "store_holds k q want st \<longleftrightarrow> (\<exists>r \<in> set st. sr_pidfd r = q \<and> want r)"
    using Some live_record_is_its_process [OF assms(1) _ Some] by (auto simp: store_holds_def list_ex_iff)
  also have "\<dots> \<longleftrightarrow> (\<exists>r. find (\<lambda>r. sr_pidfd r = q) st = Some r \<and> want r)"
  proof (cases "find (\<lambda>r. sr_pidfd r = q) st")
    case None
    then have "\<forall>r \<in> set st. sr_pidfd r \<noteq> q" by (auto simp: find_None_iff)
    then show ?thesis unfolding None by simp
  next
    case (Some r)
    then have r: "r \<in> set st" "sr_pidfd r = q" by (auto simp: find_Some_iff)
    have "r' = r" if "r' \<in> set st" "sr_pidfd r' = q" for r'
      by (rule inj_onD [OF inj]) (simp_all add: r that)
    then show ?thesis unfolding Some using r by blast
  qed
  also have "\<dots> \<longleftrightarrow> (\<exists>s. stamp_in st q = Some s \<and> P s)" by (auto simp: stamp_in_def assms(2))
  finally show ?thesis using live assms(1) by (simp add: stamps_fit_def)
qed (simp add: store_holds_def alive_def)

lemmas right_defs = may_register_def may_grant_registrar_def may_stamp_reserved_def

lemma rights_stamp:
  assumes "stamps_fit k born st log"
  shows "may_register k q st \<longleftrightarrow> alive k q \<and> (\<exists>g. latest log q = Some g \<and> gr_register (rg_grants g))"
    and "may_grant_registrar k q st \<longleftrightarrow> alive k q \<and> (\<exists>g. latest log q = Some g \<and> rg_by g = SESSION_ROOT)"
    and "may_stamp_reserved k q st \<longleftrightarrow> alive k q \<and> (\<exists>g. latest log q = Some g \<and> gr_stamp_reserved (rg_grants g))"
proof -
  show "may_register k q st \<longleftrightarrow> alive k q \<and> (\<exists>g. latest log q = Some g \<and> gr_register (rg_grants g))"
    using holds_stamp [OF assms, of "\<lambda>r. gr_register (sr_grants r)" "\<lambda>(a, b, g). gr_register g" q] by (auto simp: right_defs stamp_of_def)
  show "may_grant_registrar k q st \<longleftrightarrow> alive k q \<and> (\<exists>g. latest log q = Some g \<and> rg_by g = SESSION_ROOT)"
    using holds_stamp [OF assms, of "\<lambda>r. sr_registered_by r = SESSION_ROOT" "\<lambda>(a, b, g). b = SESSION_ROOT" q] by (auto simp: right_defs stamp_of_def)
  show "may_stamp_reserved k q st \<longleftrightarrow> alive k q \<and> (\<exists>g. latest log q = Some g \<and> gr_stamp_reserved (rg_grants g))"
    using holds_stamp [OF assms, of "\<lambda>r. gr_stamp_reserved (sr_grants r)" "\<lambda>(a, b, g). gr_stamp_reserved g" q] by (auto simp: right_defs stamp_of_def)
qed

section \<open>Every step keeps the table\<close>

lemma fits_world:
  assumes "stamps_fit k born st log" and "kernel_step k born k' born'"
  shows "stamps_fit k' born' st log"
proof -
  have st: "\<forall>r \<in> set st. sr_pidfd r \<in> born \<and> (alive k (sr_pidfd r) \<longrightarrow> is_live k r)" and lg: "\<forall>g \<in> set log. rg_process g \<in> born"
    and tab: "\<forall>q. alive k q \<longrightarrow> stamp_in st q = stamp_of log q" using assms(1) by (auto simp: stamps_fit_def)
  have step: "born \<subseteq> born'" "\<forall>q \<in> born. pidfd_pid (k' q) = pidfd_pid (k q) \<or> pidfd_pid (k' q) = None" using assms(2) by (auto simp: kernel_step_def)
  have "stamp_in st q = stamp_of log q" if "alive k' q" for q
  proof (cases "q \<in> born")
    case True
    then have "alive k q" using step(2) that by (auto simp: alive_def)
    then show ?thesis using tab by blast
  next
    case False
    then have "find (\<lambda>r. sr_pidfd r = q) st = None" "latest log q = None" using st lg by (auto simp: find_None_iff latest_def)
    then show ?thesis by (simp add: stamp_in_def stamp_of_def)
  qed
  moreover have "is_live k' r" if "r \<in> set st" "alive k' (sr_pidfd r)" for r
  proof -
    have "sr_pidfd r \<in> born" using st that(1) by blast
    then have "pidfd_pid (k' (sr_pidfd r)) = pidfd_pid (k (sr_pidfd r))" using step(2) that(2) by (auto simp: alive_def)
    then show ?thesis using st that by (auto simp: alive_def is_live_def)
  qed
  ultimately show ?thesis using assms step(1) by (auto simp: stamps_fit_def kernel_step_def)
qed

lemma fits_prune:
  assumes "stamps_fit k born st log"
  shows "stamps_fit k born (store_prune k st) log"
proof -
  have "stamp_in (store_prune k st) q = stamp_in st q" if "alive k q" for q
    using assms that unfolding stamp_in_def store_prune_def by (subst find_filter) (auto simp: stamps_fit_def)
  then show ?thesis using assms by (auto simp: stamps_fit_def store_prune_def distinct_map_filter)
qed

lemma fits_register:
  assumes fits: "stamps_fit k born st log" and "store_register k q app_id by_name g st = Inr st'"
    and "rg_process reg = q" "rg_app_id reg = app_id" "rg_by reg = by_name" "rg_grants reg = g"
  shows "stamps_fit k born st' (reg # log)"
proof -
  obtain pid where pid: "pidfd_pid (k q) = Some pid"
    and st': "st' = filter (\<lambda>r. is_live k r \<and> sr_pid r \<noteq> pid) st @ [\<lparr>sr_pidfd = q, sr_pid = pid, sr_app_id = app_id, sr_registered_by = by_name, sr_grants = g\<rparr>]"
    using assms(2) by (auto simp: store_register_def split: option.splits)
  have gone: "sr_pidfd r \<noteq> q" if "r \<in> set st" "is_live k r" "sr_pid r \<noteq> pid" for r
    using live_record_is_its_process [OF fits that(1) pid] that by auto
  have "stamp_in st' p = stamp_of (reg # log) p" if "alive k p" for p
  proof (cases "p = q")
    case True
    have "find (\<lambda>r. sr_pidfd r = q) (filter (\<lambda>r. is_live k r \<and> sr_pid r \<noteq> pid) st) = None" using gone by (auto simp: find_None_iff)
    then show ?thesis using True assms(3-6) by (simp add: stamp_in_def stamp_of_def latest_def st' find_append)
  next
    case False
    have "is_live k r \<and> sr_pid r \<noteq> pid" if r: "r \<in> set st" "sr_pidfd r = p" for r
      using r False \<open>alive k p\<close> live_record_is_its_process [OF fits r(1) pid] fits by (auto simp: stamps_fit_def)
    then have "find (\<lambda>r. sr_pidfd r = p) (filter (\<lambda>r. is_live k r \<and> sr_pid r \<noteq> pid) st) = find (\<lambda>r. sr_pidfd r = p) st" by (rule find_filter)
    then have "stamp_in st' p = stamp_in st p" using False by (simp add: stamp_in_def st' find_append split: option.split)
    also have "\<dots> = stamp_of log p" using that fits by (simp add: stamps_fit_def)
    also have "\<dots> = stamp_of (reg # log) p" using False assms(3) by (simp add: stamp_of_def latest_def)
    finally show ?thesis .
  qed
  moreover have "q \<in> born" using fits pid by (auto simp: stamps_fit_def alive_def)
  ultimately show ?thesis using fits gone pid assms(3) unfolding st' stamps_fit_def
    by (auto simp: distinct_map_filter is_live_def)
qed

text \<open>A connection changes the store only by an acknowledged registration whose caller passed every gate.\<close>

lemma serve_registers:
  assumes "serve_identity_connection env from_json k uid conn st = (reply, st')"
  shows "reply \<noteq> Some Registered \<and> st' = st \<or>
    reply = Some Registered \<and> (\<exists>g. asked env from_json k uid conn = Some g \<and>
      store_register k (rg_process g) (rg_app_id g) (rg_by g) (rg_grants g) st = Inr st' \<and>
      path_to_app_id env (rg_exe g) = Inr (rg_by g) \<and> is_valid_app_id (rg_app_id g) \<and> alive k (rg_caller g) \<and>
      caller_may_register (ie_debug env) k st (rg_by g) (rg_caller g) \<and>
      (is_reserved_app_id (rg_app_id g) \<longrightarrow> caller_may_stamp_reserved (ie_debug env) k st (rg_by g) (rg_caller g)) \<and>
      (gr_register (rg_grants g) \<or> gr_stamp_reserved (rg_grants g) \<longrightarrow> caller_may_grant_registrar (ie_debug env) k st (rg_by g) (rg_caller g)))"
proof -
  have "alive k (pp_pidfd p)" if "from_socket k (ic_socket conn) uid = Inr p" for p
    using that by (auto simp: from_socket_def alive_def split: sum.splits option.splits if_splits)
  then show ?thesis using assms
    by (auto simp: serve_identity_connection_def handle_identity_def asked_def app_id_from_pid_def apfst_def map_prod_def
        split: sum.splits option.splits identity_request.splits identity_store_error.splits prod.splits if_splits)
qed

lemma fits_run: "identity_run env from_json uid k born st log \<Longrightarrow> stamps_fit k born st log"
proof (induction rule: identity_run.induct)
  case (serve k born st log conn reply st')
  then show ?case using serve_registers [OF serve(2)] fits_register by (fastforce simp: logged_def)
qed (auto intro: fits_world fits_prune, auto simp: stamps_fit_def stamp_in_def stamp_of_def latest_def)

section \<open>Whose stamp a process has\<close>

text \<open>
  C11. The broker is a table of processes: over any run, a lookup answers with the identifier of the latest
  acknowledged registration of that very process while it lives, and with nothing for a process that
  ended or was never registered, however often numbers are used again; and the rights a process
  has are those of that registration.
\<close>

theorem lookup_answers_the_latest_stamp:
  assumes "identity_run env from_json uid k born st log"
  shows "store_lookup k q st = (if alive k q then map_option rg_app_id (latest log q) else None) \<and>
    (may_register k q st \<longleftrightarrow> alive k q \<and> (\<exists>g. latest log q = Some g \<and> gr_register (rg_grants g))) \<and>
    (may_stamp_reserved k q st \<longleftrightarrow> alive k q \<and> (\<exists>g. latest log q = Some g \<and> gr_stamp_reserved (rg_grants g)))"
  using lookup_stamp [OF fits_run [OF assms], of q] rights_stamp [OF fits_run [OF assms], of q]
  by (simp add: stamp_of_def option.map_comp comp_def)

section \<open>How far rights reach\<close>

definition justified :: "identity_env \<Rightarrow> stamping list \<Rightarrow> stamping \<Rightarrow> bool" where
  "justified env earlier g \<longleftrightarrow>
     is_valid_app_id (rg_app_id g) \<and> path_to_app_id env (rg_exe g) = Inr (rg_by g) \<and>
     (rg_by g = SESSION_ROOT \<or>
      (\<exists>c. latest earlier (rg_caller g) = Some c \<and> gr_register (rg_grants c) \<and>
        (is_reserved_app_id (rg_app_id g) \<longrightarrow> gr_stamp_reserved (rg_grants c)) \<and>
        (gr_register (rg_grants g) \<or> gr_stamp_reserved (rg_grants g) \<longrightarrow> rg_by c = SESSION_ROOT)))"

lemma run_justified:
  assumes "identity_run env from_json uid k born st log" and "\<not> ie_debug env"
  shows "log = later @ g # earlier \<Longrightarrow> justified env earlier g"
  using assms
proof (induction arbitrary: later rule: identity_run.induct)
  case (serve k born st log conn reply st')
  show ?case
  proof (cases "reply = Some Registered")
    case True
    then obtain n where n: "asked env from_json k uid conn = Some n" "path_to_app_id env (rg_exe n) = Inr (rg_by n)" "is_valid_app_id (rg_app_id n)"
      "caller_may_register False k st (rg_by n) (rg_caller n)"
      "is_reserved_app_id (rg_app_id n) \<longrightarrow> caller_may_stamp_reserved False k st (rg_by n) (rg_caller n)"
      "gr_register (rg_grants n) \<or> gr_stamp_reserved (rg_grants n) \<longrightarrow> caller_may_grant_registrar False k st (rg_by n) (rg_caller n)"
      using serve_registers [OF serve(2)] serve(5) by auto
    show ?thesis
    proof (cases later)
      case Nil
      then have "g = n" "earlier = log" using serve(4) n(1) True by (auto simp: logged_def)
      then show ?thesis using n(2-6) rights_stamp [OF fits_run [OF serve(1)], of "rg_caller n"]
        by (auto simp: justified_def caller_may_register_def caller_may_stamp_reserved_def caller_may_grant_registrar_def is_admitted_registrar_def)
    next
      case (Cons x later')
      then show ?thesis using serve(3) [of later'] serve(4,5) n(1) True by (simp add: logged_def)
    qed
  next
    case False
    then show ?thesis using serve(3-5) by (simp add: logged_def)
  qed
qed auto

lemma session_root_paths:
  assumes "path_to_app_id env path = Inr SESSION_ROOT" and "\<not> ie_debug env"
  shows "path = ''/usr/bin/arlen-session'' \<or> starts_with path ''/usr/lib/arlen/apps/session'' \<or> user_app (ie_home env) path = Some SESSION_ROOT"
proof -
  have "SESSION_ROOT \<notin> snd ` set CANONICAL_BINARIES" by (simp add: SESSION_ROOT_def CANONICAL_BINARIES_def)
  then have "map_of CANONICAL_BINARIES path \<noteq> Some SESSION_ROOT" by (metis map_of_SomeD image_eqI snd_conv)
  then show ?thesis using assms daemon_name_Some [of path] system_app_Some [of path]
    by (fastforce simp: path_to_app_id_def user_app_identity_Inr SESSION_ROOT_def split: option.splits)
qed

text \<open>
  C9. Rights reach two hops from the session root and no further: in a release build, every acknowledged
  registration stamps a valid identifier and was made by the session root (whose binary is the system's
  own, or one a user put below the broker's home directory under the name of the session) or by a
  process that had the right to register by its own latest stamp; only such a process with the right for
  it stamps a reserved identifier, and only one that the session root itself registered passes any right on.
\<close>

theorem rights_reach_two_hops:
  assumes "identity_run env from_json uid k born st log" and "\<not> ie_debug env" and "log = later @ g # earlier"
  shows "is_valid_app_id (rg_app_id g) \<and>
    (rg_by g = SESSION_ROOT \<and>
       (rg_exe g = ''/usr/bin/arlen-session'' \<or> starts_with (rg_exe g) ''/usr/lib/arlen/apps/session'' \<or> user_app (ie_home env) (rg_exe g) = Some SESSION_ROOT) \<or>
     (\<exists>c. latest earlier (rg_caller g) = Some c \<and> gr_register (rg_grants c) \<and>
        (is_reserved_app_id (rg_app_id g) \<longrightarrow> gr_stamp_reserved (rg_grants c)) \<and>
        (gr_register (rg_grants g) \<or> gr_stamp_reserved (rg_grants g) \<longrightarrow> rg_by c = SESSION_ROOT)))"
  using run_justified [OF assms(1,2,3)] session_root_paths [OF _ assms(2), of "rg_exe g"] unfolding justified_def by metis

text \<open>
  C36. A right can be passed on by a process that does not have it: a process that the session root registered with the right
  to register, but not the right to stamp reserved identifiers, can register any living process with both
  rights, and that one then stamps the reserved identifier of the settings application on any
  living process.
\<close>

theorem session_child_grants_a_right_it_lacks:
  assumes "identity_run env from_json uid k born st log" and "alive k q" and "alive k p"
    and "latest log q = Some c" and "rg_by c = SESSION_ROOT" and "rg_grants c = \<lparr>gr_register = True, gr_stamp_reserved = False\<rparr>"
    and "is_valid_app_id a" and "\<not> is_reserved_app_id a"
  shows "\<not> may_stamp_reserved k q st \<and>
    (\<exists>st'. handle_identity (ie_debug env) k name (RegisterIdentity a True True) (Some p) (Some q) st = (Registered, st') \<and>
      (\<forall>v. alive k v \<longrightarrow> fst (handle_identity (ie_debug env) k name' (RegisterIdentity ''dev.arlen.settings'' False False) (Some v) (Some p) st') = Registered))"
proof
  note fits = fits_run [OF assms(1)]
  show "\<not> may_stamp_reserved k q st" using rights_stamp(3) [OF fits, of q] assms(4,6) by auto
  have reg: "may_register k q st" "may_grant_registrar k q st" using rights_stamp [OF fits, of q] assms(2,4-6) by auto
  obtain pid where pid: "pidfd_pid (k p) = Some pid" using assms(3) by (auto simp: alive_def)
  let ?new = "\<lparr>sr_pidfd = p, sr_pid = pid, sr_app_id = a, sr_registered_by = name, sr_grants = \<lparr>gr_register = True, gr_stamp_reserved = True\<rparr>\<rparr>"
  let ?st = "filter (\<lambda>r. is_live k r \<and> sr_pid r \<noteq> pid) st @ [?new]"
  have "handle_identity (ie_debug env) k name (RegisterIdentity a True True) (Some p) (Some q) st = (Registered, ?st)"
    using reg pid assms(7,8) by (simp add: handle_identity_def caller_may_register_def caller_may_grant_registrar_def store_register_def)
  moreover have "may_register k p ?st" "may_stamp_reserved k p ?st" using pid by (simp_all add: right_defs store_holds_def is_live_def)
  then have "fst (handle_identity (ie_debug env) k name' (RegisterIdentity ''dev.arlen.settings'' False False) (Some v) (Some p) ?st) = Registered" if "alive k v" for v
    using that by (auto simp: handle_identity_def caller_may_register_def caller_may_stamp_reserved_def store_register_def alive_def
        is_valid_app_id_def rust_str ascii_defs less_eq_char_def starts_with_def)
  ultimately show "\<exists>st'. handle_identity (ie_debug env) k name (RegisterIdentity a True True) (Some p) (Some q) st = (Registered, st') \<and>
      (\<forall>v. alive k v \<longrightarrow> fst (handle_identity (ie_debug env) k name' (RegisterIdentity ''dev.arlen.settings'' False False) (Some v) (Some p) st') = Registered)"
    by blast
qed

section \<open>The identity of a connection\<close>

text \<open>The broker as its clients reach it.\<close>

definition serving :: "bool \<Rightarrow> kernel \<Rightarrow> identity_store \<Rightarrow> identity_request \<Rightarrow> process \<Rightarrow> identity_client_error + identity_response" where
  "serving debug_assertions k st req p = Inr (fst (handle_identity debug_assertions k [] req (Some p) None st))"

lemma peer_of_socket:
  "from_socket k so uid = Inr p \<Longrightarrow> so_pidfd so = Inr (pp_pidfd p) \<and> pidfd_pid (k (pp_pidfd p)) = Some (pp_pid p)"
  by (auto simp: from_socket_def split: sum.splits option.splits if_splits)

text \<open>What a daemon that resolves its peers needs of whoever answers its lookups: one stamp, or none, for a process.\<close>

locale stamp_service =
  fixes ask :: "identity_request \<Rightarrow> process \<Rightarrow> identity_client_error + identity_response" and stamp :: "process \<Rightarrow> string option"
  assumes answers: "ask LookupIdentity q = Inr (case stamp q of Some app_id \<Rightarrow> Resolved app_id | None \<Rightarrow> IdentityNotFound)"
begin

lemma lookup_over_stamp: "lookup_over ask q = Inr (stamp q)"
  by (simp add: lookup_over_def answers split: option.split)

lemma broker_lookup_stamp:
  assumes "bl_connect b = Inr ask" and "broker_lookup_pidfd is_dir b expected q = Some app_id"
  shows "stamp q = Some app_id"
  using assms by (auto simp: broker_lookup_pidfd_def lookup_identity_authenticated_def lookup_over_stamp Let_def
      split: sum.splits option.splits if_splits)

lemma resolved_peer:
  assumes "app_id_from_connection v k so uid = Inr s" and "bl_connect (rv_broker v) = Inr ask"
  shows "so_pidfd so = Inr (pp_pidfd (si_peer s)) \<and> pidfd_pid (k (pp_pidfd (si_peer s))) = Some (pp_pid (si_peer s)) \<and>
    (stamp (pp_pidfd (si_peer s)) = Some (si_app_id s) \<or> app_id_from_pid (rv_identity v) (rv_proc v (pp_pid (si_peer s))) (pp_pid (si_peer s)) = Inr (si_app_id s))"
  using assms(1) broker_lookup_stamp [OF assms(2)] peer_of_socket
  by (auto simp: app_id_from_connection_def app_id_from_pid_def split: sum.splits option.splits)

end

interpretation served: stamp_service "serving debug_assertions k st" "\<lambda>q. store_lookup k q st" for debug_assertions k st
  by unfold_locales (simp add: serving_def handle_identity_def split: option.split)

text \<open>
  C16. An enforced connection has the identity of its own process for as long as it lasts: when a daemon that
  enforces stamps admits a connection, its identifier is the one of the latest registration of the very process that
  connected, or else the one of that process's binary; and at any later moment the liveness check passes
  exactly while that process is alive, whoever has its number then.
\<close>

theorem enforced_identity_is_pinned:
  assumes "identity_run env from_json uid k born st log" and "bl_connect (rv_broker v) = Inr (serving (ie_debug env) k st)"
    and "extract_from v k (Some ''enforce'') load empty_profile so caller_uid = Inr auth"
    and "kernel_step k born k' born'"
  shows "\<exists>q pid. so_pidfd so = Inr q \<and> alive k q \<and>
    (map_option rg_app_id (latest log q) = Some (ca_app_id auth) \<or> app_id_from_pid (rv_identity v) (rv_proc v pid) pid = Inr (ca_app_id auth) \<and> pidfd_pid (k q) = Some pid) \<and>
    (verify_alive proc k' auth = Inr () \<longleftrightarrow> alive k' q)"
proof -
  obtain s where s: "app_id_from_connection v k so caller_uid = Inr s" and auth: "ca_app_id auth = si_app_id s" "ca_pidfd auth = Some (si_peer s)"
    using assms(3) by (auto simp: extract_from_def extract_from_inner_def resolve_identity_def parse_stamped_mode_def split: sum.splits prod.splits if_splits)
  let ?q = "pp_pidfd (si_peer s)"
  from served.resolved_peer [OF s assms(2)] have peer: "so_pidfd so = Inr ?q" "pidfd_pid (k ?q) = Some (pp_pid (si_peer s))"
    and named: "store_lookup k ?q st = Some (si_app_id s) \<or> app_id_from_pid (rv_identity v) (rv_proc v (pp_pid (si_peer s))) (pp_pid (si_peer s)) = Inr (si_app_id s)" by auto
  have live: "alive k ?q" using peer(2) by (simp add: alive_def)
  note fits = fits_run [OF assms(1)]
  have "?q \<in> born" using fits live by (simp add: stamps_fit_def)
  then have "pidfd_pid (k' ?q) = pidfd_pid (k ?q) \<or> pidfd_pid (k' ?q) = None" using assms(4) by (simp add: kernel_step_def)
  then have "verify_alive proc k' auth = Inr () \<longleftrightarrow> alive k' ?q" using auth(2) peer(2) by (auto simp: verify_alive_def peer_is_alive_def alive_def)
  moreover have "map_option rg_app_id (latest log ?q) = Some (si_app_id s) \<or> app_id_from_pid (rv_identity v) (rv_proc v (pp_pid (si_peer s))) (pp_pid (si_peer s)) = Inr (si_app_id s)"
    using named lookup_stamp [OF fits, of ?q] live by (auto simp: stamp_of_def option.map_comp comp_def)
  ultimately show ?thesis using peer live auth(1) by (intro exI [of _ ?q] exI [of _ "pp_pid (si_peer s)"]) auto
qed

text \<open>Where the broker shares its home directory with a user, that user can put a binary there that it takes for the session root:
  the name is not among the reserved ones.\<close>

lemma session_root_is_not_reserved:
  assumes "ie_home env = Some ''/home/u''" and "\<forall>reg. ie_registry env = Inr reg \<longrightarrow> registry_lookup reg SESSION_ROOT = None"
  shows "path_to_app_id env ''/home/u/.local/share/arlen/apps/session/x'' = Inr SESSION_ROOT"
proof -
  have "user_app (ie_home env) ''/home/u/.local/share/arlen/apps/session/x'' = Some SESSION_ROOT"
    by (simp add: user_app_def assms(1) path_components_def starts_with_def SESSION_ROOT_def)
  moreover have "user_app_identity env ''/home/u/.local/share/arlen/apps/session/x'' SESSION_ROOT = Inr SESSION_ROOT"
    using assms(2) by (auto simp: user_app_identity_Inr is_reserved_app_id_def SESSION_ROOT_def starts_with_def)
  moreover have "map_of CANONICAL_BINARIES ''/home/u/.local/share/arlen/apps/session/x'' = None" by (simp add: CANONICAL_BINARIES_def)
  moreover have "daemon_name ''/home/u/.local/share/arlen/apps/session/x'' = None" "system_app ''/home/u/.local/share/arlen/apps/session/x'' = None"
    by (simp_all add: daemon_name_def system_app_def strip_prefix_def starts_with_def)
  ultimately show ?thesis by (simp add: path_to_app_id_def)
qed

section \<open>A run\<close>

definition demo_kernel :: kernel where
  "demo_kernel q = (if q = 1 then Some ''Pid: 101'' else if q = 2 then Some ''Pid: 102'' else if q = 3 then Some ''Pid: 103'' else None)"

definition demo_identity :: identity_env where
  "demo_identity = \<lparr>ie_debug = False, ie_home = None, ie_registry = Inr [], ie_stat = (\<lambda>_. Inl [])\<rparr>"

definition demo_json :: "bytes \<Rightarrow> string + identity_request" where
  "demo_json b = Inr (RegisterIdentity b True False)"

definition demo_proc :: proc_answers where
  "demo_proc = \<lparr>pa_open = None, pa_exe = Inr ''/usr/bin/arlen-session'', pa_why = [], pa_stat = Inr (''7 (a) '' @ join '' '' demo_columns)\<rparr>"

definition demo_connection :: identity_connection where
  "demo_connection = \<lparr>ic_socket = \<lparr>so_pidfd = Inr 1, so_cred = Inr (101, 1000)\<rparr>, ic_message = Some (''shell'', Some 2), ic_proc = demo_proc\<rparr>"

definition demo_stamp :: stamping where
  "demo_stamp = \<lparr>rg_caller = 1, rg_exe = ''/usr/bin/arlen-session'', rg_by = SESSION_ROOT, rg_process = 2, rg_app_id = ''shell'',
     rg_grants = \<lparr>gr_register = True, gr_stamp_reserved = False\<rparr>\<rparr>"

definition demo_stamps :: identity_store where
  "demo_stamps = [\<lparr>sr_pidfd = 2, sr_pid = 102, sr_app_id = ''shell'', sr_registered_by = SESSION_ROOT, sr_grants = \<lparr>gr_register = True, gr_stamp_reserved = False\<rparr>\<rparr>]"

lemma demo_pids:
  "pidfd_pid (demo_kernel q) = (if q = 1 then Some 101 else if q = 2 then Some 102 else if q = 3 then Some 103 else None)"
  by (simp add: demo_kernel_def pidfd_pid_def lines_def newline_def Let_def List.map_filter_def strip_prefix_def starts_with_def
      trim_def trim_start_def is_whitespace_def parse_i64_def is_ascii_digit_def less_eq_char_def strip_cr_def)

lemma demo_session: "path_to_app_id demo_identity ''/usr/bin/arlen-session'' = Inr SESSION_ROOT"
  by (simp add: path_to_app_id_def CANONICAL_BINARIES_def daemon_name_def strip_prefix_def starts_with_def ascii_defs less_eq_char_def SESSION_ROOT_def)

lemma demo_exe: "exe_path_openat demo_proc pid = Inr ''/usr/bin/arlen-session''"
  by (simp add: exe_path_openat_def demo_proc_def PATH_MAX_def)

lemma demo_stamp_asked: "asked demo_identity demo_json demo_kernel 1000 demo_connection = Some demo_stamp"
  by (simp add: asked_def demo_connection_def from_socket_def demo_pids demo_json_def demo_exe demo_session demo_stamp_def)

lemma demo_served: "serve_identity_connection demo_identity demo_json demo_kernel 1000 demo_connection [] = (Some Registered, demo_stamps)"
  by (simp add: serve_identity_connection_def demo_connection_def from_socket_def demo_pids demo_json_def app_id_from_pid_def demo_exe demo_session
      handle_identity_def caller_may_register_def caller_may_grant_registrar_def store_register_def demo_stamps_def
      is_reserved_app_id_def is_valid_app_id_def starts_with_def rust_str ascii_defs less_eq_char_def)

lemma demo_identity_run: "identity_run demo_identity demo_json 1000 demo_kernel {1, 2, 3} demo_stamps [demo_stamp]"
proof -
  have "identity_run demo_identity demo_json 1000 demo_kernel {1, 2, 3} [] []"
    by (rule identity_run.start) (auto simp: alive_def demo_pids inj_on_def split: if_splits)
  from identity_run.serve [OF this demo_served] show ?thesis by (simp add: logged_def demo_stamp_asked)
qed

lemma demo_latest: "latest [demo_stamp] 2 = Some demo_stamp"
  by (simp add: latest_def demo_stamp_def)

theorem lookup_answers_the_latest_stamp_witness:
  "store_lookup demo_kernel 2 demo_stamps = Some ''shell'' \<and> store_lookup demo_kernel 1 demo_stamps = None"
  using lookup_answers_the_latest_stamp [OF demo_identity_run, of 2] lookup_answers_the_latest_stamp [OF demo_identity_run, of 1]
  by (simp add: demo_latest alive_def demo_pids) (simp add: latest_def demo_stamp_def)

theorem rights_reach_two_hops_witness:
  "is_valid_app_id (rg_app_id demo_stamp) \<and> rg_by demo_stamp = SESSION_ROOT"
  using rights_reach_two_hops [OF demo_identity_run, of "[]" demo_stamp "[]"]
  by (simp add: demo_identity_def demo_stamp_def latest_def)

theorem session_child_grants_a_right_it_lacks_witness:
  "\<not> may_stamp_reserved demo_kernel 2 demo_stamps \<and>
   (\<exists>st'. handle_identity (ie_debug demo_identity) demo_kernel ''shell'' (RegisterIdentity ''com.app'' True True) (Some 3) (Some 2) demo_stamps = (Registered, st') \<and>
      (\<forall>v. alive demo_kernel v \<longrightarrow>
        fst (handle_identity (ie_debug demo_identity) demo_kernel ''com.app'' (RegisterIdentity ''dev.arlen.settings'' False False) (Some v) (Some 3) st') = Registered))"
proof (rule session_child_grants_a_right_it_lacks [OF demo_identity_run _ _ demo_latest])
  show "is_valid_app_id ''com.app''" by (simp add: is_valid_app_id_def rust_str ascii_defs less_eq_char_def starts_with_def)
  show "\<not> is_reserved_app_id ''com.app''" by (simp add: is_reserved_app_id_def starts_with_def)
qed (simp_all add: alive_def demo_pids demo_stamp_def)

definition demo_resolver :: resolver_env where
  "demo_resolver = \<lparr>rv_identity = demo_identity, rv_is_dir = (\<lambda>_. False),
     rv_broker = \<lparr>bl_socket = ''/run/arlen/s'', bl_parent = True, bl_is_dir = True, bl_c_string = True, bl_writable = False,
       bl_connect = Inr (serving (ie_debug demo_identity) demo_kernel demo_stamps), bl_uid = Inr 0\<rparr>,
     rv_uid_env = None, rv_proc = (\<lambda>_. demo_proc), rv_ino_dev = (\<lambda>_. None)\<rparr>"

lemma demo_start_time: "pid_start_time demo_proc pid = Inr 42"
  by (simp add: pid_start_time_def demo_proc_def start_time_of_def demo_columns_def strip_prefix_def starts_with_def
      split_whitespace_def is_whitespace_def parse_u64_def is_ascii_digit_def less_eq_char_def)

lemma demo_extract:
  "\<exists>auth. extract_from demo_resolver demo_kernel (Some ''enforce'') (\<lambda>_. ProfileNotFound) (\<lambda>a. a) \<lparr>so_pidfd = Inr 2, so_cred = Inr (102, 1000)\<rparr> 1000 = Inr auth \<and>
    ca_app_id auth = ''shell''"
proof -
  have "store_lookup demo_kernel 2 demo_stamps = Some ''shell''" by (simp add: store_lookup_def demo_pids demo_stamps_def is_live_def)
  then have "broker_lookup_pidfd (\<lambda>_. False) (rv_broker demo_resolver) e 2 = Some ''shell''" for e
    by (simp add: broker_lookup_pidfd_def lookup_identity_authenticated_def socket_dir_is_closed_to_us_def demo_resolver_def served.lookup_over_stamp
        is_reserved_app_id_def is_valid_app_id_def starts_with_def rust_str ascii_defs less_eq_char_def)
  then show ?thesis
    by (simp add: extract_from_def extract_from_inner_def app_id_from_connection_def from_socket_def demo_pids parse_stamped_mode_def resolve_identity_def
        demo_start_time profile_or_empty_def) (simp add: demo_resolver_def demo_start_time profile_or_empty_def)
qed

theorem enforced_identity_is_pinned_witness:
  "\<exists>auth. extract_from demo_resolver demo_kernel (Some ''enforce'') (\<lambda>_. ProfileNotFound) (\<lambda>a. a) \<lparr>so_pidfd = Inr 2, so_cred = Inr (102, 1000)\<rparr> 1000 = Inr auth \<and>
    ca_app_id auth = ''shell'' \<and> verify_alive (\<lambda>_. demo_proc) demo_kernel auth = Inr ()"
proof -
  obtain auth where a: "extract_from demo_resolver demo_kernel (Some ''enforce'') (\<lambda>_. ProfileNotFound) (\<lambda>a. a) \<lparr>so_pidfd = Inr 2, so_cred = Inr (102, 1000)\<rparr> 1000 = Inr auth"
    "ca_app_id auth = ''shell''" using demo_extract by blast
  have same: "kernel_step demo_kernel {1, 2, 3} demo_kernel {1, 2, 3}" by (auto simp: kernel_step_def alive_def demo_pids inj_on_def split: if_splits)
  have link: "bl_connect (rv_broker demo_resolver) = Inr (serving (ie_debug demo_identity) demo_kernel demo_stamps)" by (simp add: demo_resolver_def)
  from enforced_identity_is_pinned [OF demo_identity_run link a(1) same, of "\<lambda>_. demo_proc"]
  have "verify_alive (\<lambda>_. demo_proc) demo_kernel auth = Inr ()" by (auto simp: alive_def demo_pids split: if_splits)
  with a show ?thesis by blast
qed

end
