(* ===== verification/Master_Switches.thy ===== *)
theory Master_Switches
  imports Identity_Broker AI_Events
begin

text \<open>
  The configuration broker (\<open>daemons/config-broker/src/\<close>): the AI master switches and the accessibility
  settings with their store (\<open>state.rs\<close>), the requests and who may make them (\<open>protocol.rs\<close>), the policy that
  records a change (\<open>server.rs\<close>) and the client (\<open>client.rs\<close>).

  The TOML and JSON codecs and what fails of the file system are arguments; the audit ledger is an
  argument of the server, a function on a state of its own.
\<close>

section \<open>The state\<close>

definition MAX_ACCESS_LEVEL :: u8 where "MAX_ACCESS_LEVEL = 4"

datatype switch_action_mode = Suggest | Supervised

fun action_mode_str :: "switch_action_mode \<Rightarrow> string" where
  "action_mode_str Suggest = ''suggest''"
| "action_mode_str Supervised = ''supervised''"

record ai_master_switches =
  ai_enabled :: bool
  ai_access_level :: u8
  ai_executor_live :: bool
  ai_action_mode :: switch_action_mode
  ai_provider :: string

record accessibility =
  ac_screen_reader :: bool

record broker_state =
  bs_ai :: ai_master_switches
  bs_accessibility :: accessibility

definition default_switches :: ai_master_switches where
  "default_switches = \<lparr>ai_enabled = False, ai_access_level = 0, ai_executor_live = False, ai_action_mode = Suggest, ai_provider = []\<rparr>"

definition default_accessibility :: accessibility where
  "default_accessibility = \<lparr>ac_screen_reader = False\<rparr>"

definition default_state :: broker_state where
  "default_state = \<lparr>bs_ai = default_switches, bs_accessibility = default_accessibility\<rparr>"

definition shipped_default :: ai_master_switches where
  "shipped_default = \<lparr>ai_enabled = False, ai_access_level = 3, ai_executor_live = False, ai_action_mode = Suggest, ai_provider = ''ollama-default''\<rparr>"

definition sanitised_switches :: "ai_master_switches \<Rightarrow> ai_master_switches" where
  "sanitised_switches s = (if ai_access_level s > MAX_ACCESS_LEVEL then s\<lparr>ai_access_level := 0\<rparr> else s)"

definition sanitised_state :: "broker_state \<Rightarrow> broker_state" where
  "sanitised_state s = \<lparr>bs_ai = sanitised_switches (bs_ai s), bs_accessibility = bs_accessibility s\<rparr>"

text \<open>A parsed TOML value, as far as the seed looks at it.\<close>

datatype toml_value = TomlBool bool | TomlInteger int | TomlString string | TomlTable "(string \<times> toml_value) list" | TomlOther

fun toml_get :: "toml_value \<Rightarrow> string \<Rightarrow> toml_value option" where
  "toml_get (TomlTable t) key = map_of t key"
| "toml_get v key = None"

fun as_table :: "toml_value \<Rightarrow> toml_value option" where
  "as_table (TomlTable t) = Some (TomlTable t)"
| "as_table v = None"

fun as_bool :: "toml_value \<Rightarrow> bool option" where
  "as_bool (TomlBool b) = Some b"
| "as_bool v = None"

fun as_integer :: "toml_value \<Rightarrow> int option" where
  "as_integer (TomlInteger i) = Some i"
| "as_integer v = None"

fun as_string :: "toml_value \<Rightarrow> string option" where
  "as_string (TomlString s) = Some s"
| "as_string v = None"

definition from_ai_table :: "toml_value \<Rightarrow> ai_master_switches \<Rightarrow> ai_master_switches" where
  "from_ai_table ai s =
     (let s1 = (case Option.bind (toml_get ai ''enabled'') as_bool of Some b \<Rightarrow> s\<lparr>ai_enabled := b\<rparr> | None \<Rightarrow> s);
          s2 = (case Option.bind (toml_get ai ''access_level'') as_integer of
                  Some n \<Rightarrow> if 0 \<le> n \<and> n \<le> 255 then s1\<lparr>ai_access_level := of_int n\<rparr> else s1
                | None \<Rightarrow> s1)
      in case Option.bind (toml_get ai ''provider'') as_string of
           Some p \<Rightarrow> if p \<noteq> [] then s2\<lparr>ai_provider := p\<rparr> else s2
         | None \<Rightarrow> s2)"

definition from_ai_toml :: "(string \<Rightarrow> toml_value option) \<Rightarrow> string \<Rightarrow> ai_master_switches" where
  "from_ai_toml parse text_of =
     (case parse text_of of
        None \<Rightarrow> sanitised_switches shipped_default
      | Some v \<Rightarrow>
          (let s = (case Option.bind (toml_get v ''ai'') as_table of Some ai \<Rightarrow> from_ai_table ai shipped_default | None \<Rightarrow> shipped_default)
           in sanitised_switches
                (case Option.bind (Option.bind (toml_get v ''agent'') as_table) (\<lambda>agent. Option.bind (toml_get agent ''executor_live'') as_bool) of
                   Some b \<Rightarrow> s\<lparr>ai_executor_live := b\<rparr>
                 | None \<Rightarrow> s)))"

definition seed_from_ai_toml :: "(string \<Rightarrow> toml_value option) \<Rightarrow> string option \<Rightarrow> ai_master_switches" where
  "seed_from_ai_toml parse file = (case file of Some s \<Rightarrow> from_ai_toml parse s | None \<Rightarrow> shipped_default)"

definition truth_text :: "bool \<Rightarrow> string" where
  "truth_text b = (if b then ''true'' else ''false'')"

definition changed_security_keys :: "ai_master_switches \<Rightarrow> ai_master_switches \<Rightarrow> string list" where
  "changed_security_keys old new =
     (if ai_enabled old \<noteq> ai_enabled new then [''enabled='' @ truth_text (ai_enabled new)] else []) @
     (if ai_access_level old \<noteq> ai_access_level new then [''access_level='' @ dec (unat (ai_access_level new))] else []) @
     (if ai_executor_live old \<noteq> ai_executor_live new then [''executor_live='' @ truth_text (ai_executor_live new)] else []) @
     (if ai_action_mode old \<noteq> ai_action_mode new then [''action_mode='' @ action_mode_str (ai_action_mode new)] else []) @
     (if ai_provider old \<noteq> ai_provider new then [''provider='' @ ai_provider new] else [])"

definition escalates :: "ai_master_switches \<Rightarrow> ai_master_switches \<Rightarrow> bool" where
  "escalates old new \<longleftrightarrow>
     (\<not> ai_enabled old \<and> ai_enabled new) \<or> (\<not> ai_executor_live old \<and> ai_executor_live new) \<or>
     ai_access_level new > ai_access_level old \<or>
     (ai_action_mode old = Suggest \<and> ai_action_mode new = Supervised) \<or>
     (ai_provider new \<noteq> ai_provider old \<and> ai_provider new \<noteq> [])"

definition switch_change_event :: "string \<Rightarrow> string list \<Rightarrow> ingest_request" where
  "switch_change_event caller_app_id changed =
     \<lparr>ir_kind = CapabilityChange,
      ir_structural = plain_structural ''ai.master_switches'' (''set by '' @ caller_app_id @ '': '' @ join '', '' changed),
      ir_forensic = None, ir_call_chain_id = None, ir_project_id = None\<rparr>"

section \<open>The store\<close>

datatype state_error = NoStateDir | StateIo string | StateParse string

definition state_error_text :: "state_error \<Rightarrow> string" where
  "state_error_text e =
     (case e of
        NoStateDir \<Rightarrow> ''no state directory (set ARLEN_CONFIG_BROKER_DIR, XDG_STATE_HOME or HOME)''
      | StateIo m \<Rightarrow> ''state io: '' @ m
      | StateParse m \<Rightarrow> ''state file is corrupt: '' @ m)"

definition state_dir :: "string option \<Rightarrow> string option \<Rightarrow> string option \<Rightarrow> state_error + string" where
  "state_dir override xdg home =
     (case override of Some d \<Rightarrow> Inr d | None \<Rightarrow>
      (case xdg of Some b \<Rightarrow> Inr (path_join (path_join b ''arlen'') ''config-broker'') | None \<Rightarrow>
       (case home of Some h \<Rightarrow> Inr (path_join h ''.local/state/arlen/config-broker'') | None \<Rightarrow> Inl NoStateDir)))"

definition ai_toml_path :: "string option \<Rightarrow> string option \<Rightarrow> string option" where
  "ai_toml_path override home = (case override of Some p \<Rightarrow> Some p | None \<Rightarrow> map_option (\<lambda>h. path_join h ''.config/arlen/ai.toml'') home)"

text \<open>The state directory: its file and the temporary file beside it. A read or a write may fail; a write that fails
  leaves the first bytes in the temporary file.\<close>

record switch_files =
  sw_state :: "string option"
  sw_tmp :: "string option"

datatype store_fault = TmpOpenFails string | TmpWriteFails nat string | TmpSyncFails string | TmpRenameFails string

record state_codec =
  sc_read :: "string \<Rightarrow> string + broker_state"
  sc_write :: "broker_state \<Rightarrow> string + string"

definition load_state :: "state_codec \<Rightarrow> string option \<Rightarrow> switch_files \<Rightarrow> state_error + broker_state" where
  "load_state c read_error fs =
     (case read_error of
        Some e \<Rightarrow> Inl (StateIo e)
      | None \<Rightarrow>
          (case sw_state fs of
             None \<Rightarrow> Inr default_state
           | Some s \<Rightarrow> (case sc_read c s of Inl e \<Rightarrow> Inl (StateParse e) | Inr st \<Rightarrow> Inr (sanitised_state st))))"

definition load_ai :: "state_codec \<Rightarrow> string option \<Rightarrow> switch_files \<Rightarrow> state_error + ai_master_switches" where
  "load_ai c read_error fs = map_sum id bs_ai (load_state c read_error fs)"

definition write_atomic_0600 :: "store_fault option \<Rightarrow> string \<Rightarrow> switch_files \<Rightarrow> (state_error + unit) \<times> switch_files" where
  "write_atomic_0600 fault body fs =
     (case fault of
        Some (TmpOpenFails e) \<Rightarrow> (Inl (StateIo e), fs)
      | Some (TmpWriteFails n e) \<Rightarrow> (Inl (StateIo e), fs\<lparr>sw_tmp := Some (take n body)\<rparr>)
      | Some (TmpSyncFails e) \<Rightarrow> (Inl (StateIo e), fs\<lparr>sw_tmp := Some body\<rparr>)
      | Some (TmpRenameFails e) \<Rightarrow> (Inl (StateIo e), fs\<lparr>sw_tmp := Some body\<rparr>)
      | None \<Rightarrow> (Inr (), \<lparr>sw_state = Some body, sw_tmp = None\<rparr>))"

definition store_state :: "state_codec \<Rightarrow> store_fault option \<Rightarrow> broker_state \<Rightarrow> switch_files \<Rightarrow> (state_error + unit) \<times> switch_files" where
  "store_state c fault st fs =
     (case sc_write c (sanitised_state st) of
        Inl e \<Rightarrow> (Inl (StateIo (''serialize: '' @ e)), fs)
      | Inr body \<Rightarrow> write_atomic_0600 fault body fs)"

definition store_ai :: "state_codec \<Rightarrow> string option \<Rightarrow> store_fault option \<Rightarrow> ai_master_switches \<Rightarrow> switch_files \<Rightarrow> (state_error + unit) \<times> switch_files" where
  "store_ai c read_error fault ai fs =
     (case load_state c read_error fs of
        Inl e \<Rightarrow> (Inl e, fs)
      | Inr st \<Rightarrow> store_state c fault (st\<lparr>bs_ai := ai\<rparr>) fs)"

definition store_accessibility :: "state_codec \<Rightarrow> string option \<Rightarrow> store_fault option \<Rightarrow> accessibility \<Rightarrow> switch_files \<Rightarrow> (state_error + unit) \<times> switch_files" where
  "store_accessibility c read_error fault a fs =
     (case load_state c read_error fs of
        Inl e \<Rightarrow> (Inl e, fs)
      | Inr st \<Rightarrow> store_state c fault (st\<lparr>bs_accessibility := a\<rparr>) fs)"

definition seed_if_absent :: "state_codec \<Rightarrow> store_fault option \<Rightarrow> ai_master_switches \<Rightarrow> switch_files \<Rightarrow> (state_error + bool) \<times> switch_files" where
  "seed_if_absent c fault seed fs =
     (if sw_state fs \<noteq> None then (Inr False, fs)
      else case store_state c fault \<lparr>bs_ai = seed, bs_accessibility = default_accessibility\<rparr> fs of
          (Inl e, fs') \<Rightarrow> (Inl e, fs')
        | (Inr _, fs') \<Rightarrow> (Inr True, fs'))"

section \<open>Requests\<close>

definition ADMITTED_WRITERS :: "string list" where
  "ADMITTED_WRITERS = [''dev.arlen.settings'']"

definition ADMITTED_ACCESSIBILITY_WRITERS :: "string list" where
  "ADMITTED_ACCESSIBILITY_WRITERS = [''dev.arlen.settings'', ''dev.arlen.desktop-shell'']"

definition is_admitted_writer :: "bool \<Rightarrow> string \<Rightarrow> bool" where
  "is_admitted_writer debug_assertions app_id \<longleftrightarrow>
     app_id \<in> set ADMITTED_WRITERS \<or> (debug_assertions \<and> app_id = ''dev.arlen-settings'')"

definition broker_extra_admits :: "bool \<Rightarrow> string option \<Rightarrow> string \<Rightarrow> bool" where
  "broker_extra_admits debug_assertions env_var app_id \<longleftrightarrow> debug_assertions \<and> env_var = Some app_id"

definition is_admitted_accessibility_writer :: "bool \<Rightarrow> string option \<Rightarrow> string \<Rightarrow> bool" where
  "is_admitted_accessibility_writer debug_assertions env_var app_id \<longleftrightarrow>
     app_id \<in> set ADMITTED_ACCESSIBILITY_WRITERS \<or>
     (debug_assertions \<and> app_id \<in> {''dev.arlen-settings'', ''dev.arlen-desktop-shell''}) \<or> broker_extra_admits debug_assertions env_var app_id"

datatype switch_request = GetState | SetAi ai_master_switches | SetAccessibility accessibility

datatype switch_response = SwitchState broker_state | SwitchCommitted | SwitchRefused string | SwitchError string

text \<open>The build, the debug variable, the codec, and what fails when a request is handled: the read before a change is
  classified, the read of the request itself, and the write.\<close>

record switch_env =
  we_debug :: bool
  we_extra :: "string option"
  we_codec :: state_codec
  we_classify_read :: "string option"
  we_read :: "string option"
  we_write :: "store_fault option"

definition committed :: "(state_error + unit) \<times> switch_files \<Rightarrow> switch_response \<times> switch_files" where
  "committed r = (case r of (Inr _, fs) \<Rightarrow> (SwitchCommitted, fs) | (Inl e, fs) \<Rightarrow> (SwitchError (state_error_text e), fs))"

definition handle_switch_request :: "switch_env \<Rightarrow> string \<Rightarrow> switch_request \<Rightarrow> switch_files \<Rightarrow> switch_response \<times> switch_files" where
  "handle_switch_request env caller_app_id request fs =
     (case request of
        GetState \<Rightarrow>
          (case load_state (we_codec env) (we_read env) fs of
             Inr st \<Rightarrow> (SwitchState st, fs)
           | Inl e \<Rightarrow> (SwitchError (state_error_text e), fs))
      | SetAi switches \<Rightarrow>
          if \<not> is_admitted_writer (we_debug env) caller_app_id
          then (SwitchRefused (''caller '' @ [CHR 0x27] @ caller_app_id @ [CHR 0x27] @ '' may not set the AI master switches''), fs)
          else committed (store_ai (we_codec env) (we_read env) (we_write env) (sanitised_switches switches) fs)
      | SetAccessibility a \<Rightarrow>
          if \<not> is_admitted_accessibility_writer (we_debug env) (we_extra env) caller_app_id
          then (SwitchRefused (''caller '' @ [CHR 0x27] @ caller_app_id @ [CHR 0x27] @ '' may not set the accessibility settings''), fs)
          else committed (store_accessibility (we_codec env) (we_read env) (we_write env) a fs))"

definition SWITCH_MAX_FRAME :: nat where "SWITCH_MAX_FRAME = 64 * 1024"

definition switch_read_frame :: "(bytes \<Rightarrow> string + 'a) \<Rightarrow> bytes \<Rightarrow> string + 'a \<times> bytes" where
  "switch_read_frame from_json reader =
     (if length reader < 4 then Inl ''failed to fill whole buffer''
      else let n = le_value (rev (take 4 reader)); body = drop 4 reader
        in if n > SWITCH_MAX_FRAME then Inl ''frame exceeds MAX_FRAME''
           else if length body < n then Inl ''failed to fill whole buffer''
           else map_sum id (\<lambda>v. (v, drop n body)) (from_json (take n body)))"

definition switch_write_frame :: "('a \<Rightarrow> string + bytes) \<Rightarrow> 'a \<Rightarrow> string + bytes" where
  "switch_write_frame to_json v =
     (case to_json v of
        Inl e \<Rightarrow> Inl e
      | Inr body \<Rightarrow> if length body > SWITCH_MAX_FRAME then Inl ''frame exceeds MAX_FRAME'' else Inr (rev (le_digits 4 (length body)) @ body))"

section \<open>The server\<close>

definition owner_uid :: "string option \<Rightarrow> nat \<Rightarrow> nat" where
  "owner_uid env_var current = (case Option.bind env_var (\<lambda>s. case parse_u32 s of Inr u \<Rightarrow> Some (unat u) | Inl _ \<Rightarrow> None) of Some u \<Rightarrow> u | None \<Rightarrow> current)"

definition owner_audit_socket :: "string option \<Rightarrow> nat \<Rightarrow> string" where
  "owner_audit_socket override owner = (case override of Some p \<Rightarrow> p | None \<Rightarrow> ''/run/user/'' @ dec owner @ ''/arlen/audit-ingest.sock'')"

definition per_user_named :: "string option \<Rightarrow> string \<Rightarrow> string" where
  "per_user_named xdg_runtime_dir name = path_join (path_join (case xdg_runtime_dir of Some d \<Rightarrow> d | None \<Rightarrow> ''/run'') ''arlen'') name"

definition switch_socket_path :: "string option \<Rightarrow> string option \<Rightarrow> string" where
  "switch_socket_path override xdg = (case override of Some p \<Rightarrow> p | None \<Rightarrow> per_user_named xdg ''config-broker.sock'')"

definition SYSTEM_SOCKET :: string where "SYSTEM_SOCKET = ''/run/arlen/config-broker.sock''"

definition switch_connect_path :: "(string \<Rightarrow> bool) \<Rightarrow> string option \<Rightarrow> string option \<Rightarrow> string" where
  "switch_connect_path exists override xdg =
     (case override of
        Some p \<Rightarrow> p
      | None \<Rightarrow> (let per_user = per_user_named xdg ''config-broker.sock''
                in if exists per_user then per_user else if exists SYSTEM_SOCKET then SYSTEM_SOCKET else per_user))"

definition audit_client_error_text :: "audit_client_error \<Rightarrow> string" where
  "audit_client_error_text e =
     (case e of
        AuditTransport m \<Rightarrow> ''audit transport: '' @ m
      | AuditUnavailable m \<Rightarrow> ''audit unavailable: '' @ m
      | AuditTimeout \<Rightarrow> ''audit daemon timed out'')"

definition switches_or_floor :: "state_error + ai_master_switches \<Rightarrow> ai_master_switches" where
  "switches_or_floor r = (case r of Inr s \<Rightarrow> s | Inl _ \<Rightarrow> default_switches)"

definition apply_set_audited :: "switch_env \<Rightarrow> (ingest_request \<Rightarrow> 'a \<Rightarrow> (audit_client_error + u64) \<times> 'a) \<Rightarrow> string \<Rightarrow> ai_master_switches \<Rightarrow>
    switch_files \<times> 'a \<Rightarrow> switch_response \<times> switch_files \<times> 'a" where
  "apply_set_audited env submit app_id new w =
     (case w of (fs, a) \<Rightarrow>
        if \<not> is_admitted_writer (we_debug env) app_id
        then (case handle_switch_request env app_id (SetAi new) fs of (r, fs') \<Rightarrow> (r, fs', a))
        else
          let old = switches_or_floor (load_ai (we_codec env) (we_classify_read env) fs);
              new_sanitised = sanitised_switches new;
              changed = changed_security_keys old new_sanitised
          in if changed = [] then (case handle_switch_request env app_id (SetAi new) fs of (r, fs') \<Rightarrow> (r, fs', a))
             else if escalates old new_sanitised then
               (case submit (switch_change_event app_id changed) a of
                  (Inl e, a') \<Rightarrow> (SwitchError (''escalating change refused: the audit ledger is unavailable ('' @ audit_client_error_text e @ '')''), fs, a')
                | (Inr _, a') \<Rightarrow> (case handle_switch_request env app_id (SetAi new) fs of (r, fs') \<Rightarrow> (r, fs', a')))
             else
               (case handle_switch_request env app_id (SetAi new) fs of (r, fs') \<Rightarrow>
                  if r = SwitchCommitted then (r, fs', snd (submit (switch_change_event app_id changed) a)) else (r, fs', a)))"

definition dispatch_switch :: "switch_env \<Rightarrow> (ingest_request \<Rightarrow> 'a \<Rightarrow> (audit_client_error + u64) \<times> 'a) \<Rightarrow> string \<Rightarrow> switch_request \<Rightarrow>
    switch_files \<times> 'a \<Rightarrow> switch_response \<times> switch_files \<times> 'a" where
  "dispatch_switch env submit app_id request w =
     (case request of
        SetAi new \<Rightarrow> apply_set_audited env submit app_id new w
      | _ \<Rightarrow> (case w of (fs, a) \<Rightarrow> case handle_switch_request env app_id request fs of (r, fs') \<Rightarrow> (r, fs', a)))"

text \<open>One turn of a connection: whether the peer is alive, the request that could be read, what fails, how the ledger
  behaves, and whether the answer could be written.\<close>

record 'a switch_turn =
  st_kernel :: kernel
  st_request :: "switch_request option"
  st_env :: switch_env
  st_submit :: "ingest_request \<Rightarrow> 'a \<Rightarrow> (audit_client_error + u64) \<times> 'a"
  st_written :: bool

fun serve_switch_turns :: "peer_pidfd \<Rightarrow> string \<Rightarrow> 'a switch_turn list \<Rightarrow> switch_files \<times> 'a \<Rightarrow> switch_response list \<times> switch_files \<times> 'a" where
  "serve_switch_turns peer app_id [] w = ([], w)"
| "serve_switch_turns peer app_id (t # ts) w =
     (if \<not> peer_is_alive (st_kernel t) peer then ([], w)
      else case st_request t of
          None \<Rightarrow> ([], w)
        | Some req \<Rightarrow>
            (case dispatch_switch (st_env t) (st_submit t) app_id req w of (r, w') \<Rightarrow>
               if \<not> st_written t then ([], w')
               else (case serve_switch_turns peer app_id ts w' of (rs, w'') \<Rightarrow> (r # rs, w''))))"

definition serve_switch_connection :: "identity_env \<Rightarrow> (u32 \<Rightarrow> proc_answers) \<Rightarrow> kernel \<Rightarrow> socket_peer \<Rightarrow> nat \<Rightarrow> 'a switch_turn list \<Rightarrow>
    switch_files \<times> 'a \<Rightarrow> switch_response list \<times> switch_files \<times> 'a" where
  "serve_switch_connection env proc k so caller_uid turns w =
     (case from_socket k so caller_uid of
        Inl _ \<Rightarrow> ([], w)
      | Inr peer \<Rightarrow>
          (case app_id_from_pid env (proc (pp_pid peer)) (pp_pid peer) of
             Inl _ \<Rightarrow> ([], w)
           | Inr app_id \<Rightarrow> serve_switch_turns peer app_id turns w))"

section \<open>The client\<close>

datatype switch_client_error = SwitchTransport string | SwitchClientRefused string | SwitchBroker string | SwitchUnexpected

definition switch_get :: "(switch_request \<Rightarrow> string + switch_response) \<Rightarrow> switch_client_error + broker_state" where
  "switch_get exchange =
     (case exchange GetState of
        Inl e \<Rightarrow> Inl (SwitchTransport e)
      | Inr (SwitchState s) \<Rightarrow> Inr s
      | Inr (SwitchError e) \<Rightarrow> Inl (SwitchBroker e)
      | Inr (SwitchRefused r) \<Rightarrow> Inl (SwitchClientRefused r)
      | Inr SwitchCommitted \<Rightarrow> Inl SwitchUnexpected)"

definition send_set :: "(switch_request \<Rightarrow> string + switch_response) \<Rightarrow> switch_request \<Rightarrow> switch_client_error + unit" where
  "send_set exchange request =
     (case exchange request of
        Inl e \<Rightarrow> Inl (SwitchTransport e)
      | Inr SwitchCommitted \<Rightarrow> Inr ()
      | Inr (SwitchRefused r) \<Rightarrow> Inl (SwitchClientRefused r)
      | Inr (SwitchError e) \<Rightarrow> Inl (SwitchBroker e)
      | Inr (SwitchState _) \<Rightarrow> Inl SwitchUnexpected)"

definition switch_get_ai :: "(switch_request \<Rightarrow> string + switch_response) \<Rightarrow> switch_client_error + ai_master_switches" where
  "switch_get_ai exchange = map_sum id bs_ai (switch_get exchange)"

definition set_accessibility :: "(switch_request \<Rightarrow> string + switch_response) \<Rightarrow> accessibility \<Rightarrow> switch_client_error + unit" where
  "set_accessibility exchange a = send_set exchange (SetAccessibility a)"

definition set_ai :: "(switch_request \<Rightarrow> string + switch_response) \<Rightarrow> ai_master_switches \<Rightarrow> switch_client_error + unit" where
  "set_ai exchange switches = send_set exchange (SetAi switches)"

end
