(* ===== verification/Switch_Runs.thy ===== *)
theory Switch_Runs
  imports Master_Switches Undo_Surface
begin

text \<open>
  What the configuration broker guarantees about the AI master switches: authority grows only after the audit
  ledger has taken a record of it, never while the ledger is silent, and can always be taken away from
  a store that reads; and what a store that does not read, or two connections at once, do to that.
\<close>

section \<open>Authority\<close>

text \<open>The switches a store holds: what a read gives, or the floor.\<close>

definition stored :: "state_codec \<Rightarrow> switch_files \<Rightarrow> ai_master_switches" where
  "stored c fs = switches_or_floor (load_ai c None fs)"

text \<open>A codec that reads what it wrote.\<close>

definition reads_back :: "state_codec \<Rightarrow> bool" where
  "reads_back c \<longleftrightarrow> (\<forall>st body. sc_write c st = Inr body \<longrightarrow> sc_read c body = Inr st)"

lemma not_suggest: "m \<noteq> Suggest \<longleftrightarrow> m = Supervised"
  by (cases m) simp_all

lemma no_escalation:
  "\<not> escalates a b \<longleftrightarrow>
    (ai_enabled b \<longrightarrow> ai_enabled a) \<and> (ai_executor_live b \<longrightarrow> ai_executor_live a) \<and> ai_access_level b \<le> ai_access_level a \<and>
    (ai_action_mode b = Supervised \<longrightarrow> ai_action_mode a = Supervised) \<and> (ai_provider b = ai_provider a \<or> ai_provider b = [])"
  unfolding escalates_def not_less [symmetric] using not_suggest by blast

lemma escalates_refl [simp]: "\<not> escalates s s"
  by (simp add: no_escalation)

lemma escalates_trans: "\<not> escalates a b \<Longrightarrow> \<not> escalates b c \<Longrightarrow> \<not> escalates a c"
  unfolding no_escalation by (elim conjE, intro conjI) (blast, blast, erule order.trans, assumption, blast, metis)

lemma escalates_floor [simp]: "\<not> escalates s default_switches"
  by (simp add: no_escalation default_switches_def)

lemma escalates_from_floor: "s \<noteq> default_switches \<Longrightarrow> escalates default_switches s"
proof (rule ccontr)
  assume "s \<noteq> default_switches" and "\<not> escalates default_switches s"
  then have "\<not> ai_enabled s" "\<not> ai_executor_live s" "ai_access_level s = 0" "ai_action_mode s = Suggest" "ai_provider s = []"
    unfolding no_escalation using not_suggest [of "ai_action_mode s"] by (auto simp: default_switches_def)
  then show False using \<open>s \<noteq> default_switches\<close> by (cases s) (simp add: default_switches_def)
qed

lemma unchanged_keys: "changed_security_keys a b = [] \<longleftrightarrow> a = b"
  by (auto simp: changed_security_keys_def split: if_splits intro: ai_master_switches.equality)

lemma sanitised_idem [simp]: "sanitised_switches (sanitised_switches s) = sanitised_switches s"
  by (simp add: sanitised_switches_def MAX_ACCESS_LEVEL_def)

section \<open>What a request does to the store\<close>

lemma load_committed:
  assumes "reads_back c" and "sc_write c (sanitised_state st) = Inr body"
  shows "load_state c None \<lparr>sw_state = Some body, sw_tmp = t\<rparr> = Inr (sanitised_state st)"
  using assms by (simp add: load_state_def reads_back_def sanitised_state_def)

lemma store_result:
  assumes "store_state c fault st fs = (res, fs')" and "reads_back c"
  shows "(res = Inr () \<and> load_state c None fs' = Inr (sanitised_state st)) \<or> (isl res \<and> sw_state fs' = sw_state fs)"
  using assms load_committed [OF assms(2), of st]
  by (auto simp: store_state_def write_atomic_0600_def split: sum.splits option.splits store_fault.splits)

lemma load_same: "sw_state fs' = sw_state fs \<Longrightarrow> load_state c e fs' = load_state c e fs"
  by (simp add: load_state_def split: option.split)

lemma load_quiet: "load_state c e fs = Inr st \<Longrightarrow> load_state c None fs = Inr st"
  by (auto simp: load_state_def split: option.splits)

text \<open>A request leaves what the store reads as, or replaces one of the two families by what it asks for.\<close>

lemma request_result:
  assumes "handle_switch_request env app req fs = (r, fs')" and "reads_back (we_codec env)"
  shows "(\<forall>e. load_state (we_codec env) e fs' = load_state (we_codec env) e fs) \<and> r \<noteq> SwitchCommitted \<or>
    (\<exists>st st'. r = SwitchCommitted \<and> load_state (we_codec env) None fs = Inr st \<and> load_state (we_codec env) None fs' = Inr st' \<and>
      (case req of
         GetState \<Rightarrow> False
       | SetAi new \<Rightarrow> is_admitted_writer (we_debug env) app \<and> st' = st\<lparr>bs_ai := sanitised_switches new\<rparr>
       | SetAccessibility a \<Rightarrow> is_admitted_accessibility_writer (we_debug env) (we_extra env) app \<and> st' = st\<lparr>bs_accessibility := a\<rparr>))"
proof -
  have san: "sanitised_state st = st" if "load_state (we_codec env) e fs = Inr st" for e st
    using that by (auto simp: load_state_def sanitised_state_def default_state_def default_switches_def sanitised_switches_def MAX_ACCESS_LEVEL_def
        split: option.splits sum.splits)
  show ?thesis
  proof (cases req)
    case GetState
    then show ?thesis using assms(1) by (auto simp: handle_switch_request_def split: sum.splits)
  next
    case (SetAi new)
    show ?thesis
    proof (cases "load_state (we_codec env) (we_read env) fs")
      case (Inr st)
      then have s: "sanitised_state (st\<lparr>bs_ai := sanitised_switches new\<rparr>) = st\<lparr>bs_ai := sanitised_switches new\<rparr>"
        using san [OF Inr] by (cases st) (simp add: sanitised_state_def)
      obtain res fs1 where r: "store_state (we_codec env) (we_write env) (st\<lparr>bs_ai := sanitised_switches new\<rparr>) fs = (res, fs1)" by (cases "store_state (we_codec env) (we_write env) (st\<lparr>bs_ai := sanitised_switches new\<rparr>) fs") auto
      show ?thesis using SetAi assms(1) Inr r load_quiet [OF Inr] store_result [OF r assms(2)] s
        by (auto simp: handle_switch_request_def committed_def store_ai_def isl_def intro: load_same split: if_splits)
    qed (use SetAi assms(1) in \<open>auto simp: handle_switch_request_def committed_def store_ai_def split: if_splits\<close>)
  next
    case (SetAccessibility a)
    show ?thesis
    proof (cases "load_state (we_codec env) (we_read env) fs")
      case (Inr st)
      then have s: "sanitised_state (st\<lparr>bs_accessibility := a\<rparr>) = st\<lparr>bs_accessibility := a\<rparr>"
        using san [OF Inr] by (cases st) (simp add: sanitised_state_def)
      obtain res fs1 where r: "store_state (we_codec env) (we_write env) (st\<lparr>bs_accessibility := a\<rparr>) fs = (res, fs1)" by (cases "store_state (we_codec env) (we_write env) (st\<lparr>bs_accessibility := a\<rparr>) fs") auto
      show ?thesis using SetAccessibility assms(1) Inr r load_quiet [OF Inr] store_result [OF r assms(2)] s
        by (auto simp: handle_switch_request_def committed_def store_accessibility_def isl_def intro: load_same split: if_splits)
    qed (use SetAccessibility assms(1) in \<open>auto simp: handle_switch_request_def committed_def store_accessibility_def split: if_splits\<close>)
  qed
qed

lemma request_keeps_switches:
  assumes "handle_switch_request env app req fs = (r, fs')" and "reads_back (we_codec env)"
  shows "stored (we_codec env) fs' = stored (we_codec env) fs \<or>
    (\<exists>new. req = SetAi new \<and> is_admitted_writer (we_debug env) app \<and> r = SwitchCommitted \<and> stored (we_codec env) fs' = sanitised_switches new)"
  using request_result [OF assms]
  by (elim disjE exE conjE) (auto simp: stored_def load_ai_def switches_or_floor_def split: switch_request.splits)

text \<open>The state a set is classified by, and that it never misses an escalation of the store.\<close>

definition classified :: "switch_env \<Rightarrow> switch_files \<Rightarrow> ai_master_switches" where
  "classified env fs = switches_or_floor (load_ai (we_codec env) (we_classify_read env) fs)"

lemma classified_cases: "classified env fs = stored (we_codec env) fs \<or> classified env fs = default_switches"
  by (cases "we_classify_read env") (auto simp: classified_def stored_def load_ai_def load_state_def switches_or_floor_def)

lemma classified_growth: "escalates (stored (we_codec env) fs) new \<Longrightarrow> escalates (classified env fs) new"
  using classified_cases [of env fs] escalates_from_floor [of new] escalates_floor by metis

section \<open>Authority grows only on record\<close>

text \<open>What the broker needs of the ledger: whatever is acknowledged was taken.\<close>

locale recording_sink =
  fixes submit :: "ingest_request \<Rightarrow> 'a \<Rightarrow> (audit_client_error + u64) \<times> 'a" and taken :: "ingest_request \<Rightarrow> 'a \<Rightarrow> 'a \<Rightarrow> bool"
  assumes acknowledged: "submit req a = (Inr i, a') \<Longrightarrow> taken req a a'"
begin

lemma growth_is_taken:
  assumes "dispatch_switch env submit app req (fs, a) = (r, fs', a')" and "reads_back (we_codec env)"
    and "escalates (stored (we_codec env) fs) (stored (we_codec env) fs')"
  shows "is_admitted_writer (we_debug env) app \<and> r = SwitchCommitted \<and>
    (let keys = changed_security_keys (classified env fs) (stored (we_codec env) fs') in keys \<noteq> [] \<and> taken (switch_change_event app keys) a a')"
proof -
  obtain new where new: "req = SetAi new"
    using assms request_keeps_switches [of env app req fs] by (cases req) (auto simp: dispatch_switch_def split: prod.splits)
  obtain r1 fs1 where h: "handle_switch_request env app (SetAi new) fs = (r1, fs1)" by (cases "handle_switch_request env app (SetAi new) fs") auto
  have "fs' = fs1 \<or> fs' = fs" using assms(1) h
    by (auto simp: new dispatch_switch_def apply_set_audited_def Let_def split: if_splits prod.splits sum.splits)
  then have f: "fs' = fs1" using assms(3) by auto
  then have s: "is_admitted_writer (we_debug env) app" "r1 = SwitchCommitted" "stored (we_codec env) fs' = sanitised_switches new"
    using request_keeps_switches [OF h assms(2)] assms(3) by auto
  have e: "escalates (classified env fs) (sanitised_switches new)" using classified_growth [OF assms(3)] s(3) by simp
  then have k: "changed_security_keys (classified env fs) (sanitised_switches new) \<noteq> []" using unchanged_keys by fastforce
  obtain i where "submit (switch_change_event app (changed_security_keys (classified env fs) (sanitised_switches new))) a = (Inr i, a')" "r = r1"
    using assms(1,3) h s(1) e k f
    by (auto simp: new dispatch_switch_def apply_set_audited_def Let_def classified_def split: if_splits prod.splits sum.splits)
  then show ?thesis using s k acknowledged by (auto simp: Let_def)
qed

end

text \<open>The audit daemon behind its client, with the row it appends.\<close>

definition row_taken :: "mac \<Rightarrow> json_codec \<Rightarrow> (bytes \<Rightarrow> string + ingest_request) \<Rightarrow> (ingest_request \<Rightarrow> bytes) \<Rightarrow> bool \<Rightarrow> string option \<Rightarrow> append_env \<Rightarrow> string \<Rightarrow>
    ingest_request \<Rightarrow> disk \<times> daemon \<Rightarrow> disk \<times> daemon \<Rightarrow> bool" where
  "row_taken hmac c dec_req encode debug var env app req dd dd' \<longleftrightarrow>
     (\<exists>req'. dec_req (encode req) = Inr req' \<and> caller_is_admitted debug var app \<and> \<not> dm_tampered (snd dd) \<and>
       dk_rows (fst dd') = dk_rows (fst dd) @
         [new_row hmac c env (dm_ledger (snd dd)) (ir_kind req') app (ir_structural req') (ir_forensic req') (ir_call_chain_id req') (ir_project_id req')])"

interpretation ledger_sink: recording_sink "ledger_submit hmac c dec_req encode debug var connect timed_out env app" "row_taken hmac c dec_req encode debug var env app"
  for hmac c dec_req encode debug var connect timed_out env app
  by unfold_locales (auto simp: row_taken_def dest: ledger_submit_acknowledged)

text \<open>
  C4. The AI gains authority only on record: when a request to the configuration broker leaves any master
  switch wider than it was, its caller is the settings application, and the audit ledger, which was not
  frozen, has taken a new row in the broker's name before, with the caller and every switch that changed.
\<close>

theorem authority_grows_only_on_record:
  assumes "dispatch_switch env (ledger_submit hmac c dec_req encode debug var connect timed_out aenv broker) app req (fs, d, dm) = (r, fs', d', dm')"
    and "reads_back (we_codec env)" and "escalates (stored (we_codec env) fs) (stored (we_codec env) fs')"
    and "\<forall>keys. dec_req (encode (switch_change_event app keys)) = Inr (switch_change_event app keys)"
  shows "(app = ''dev.arlen.settings'' \<or> we_debug env \<and> app = ''dev.arlen-settings'') \<and> \<not> dm_tampered dm \<and>
    (\<exists>row. dk_rows d' = dk_rows d @ [row] \<and> row_actor row = broker \<and>
      row_structural row = jc_structural c (plain_structural ''ai.master_switches''
        (''set by '' @ app @ '': '' @ join '', '' (changed_security_keys (classified env fs) (stored (we_codec env) fs')))))"
proof -
  from ledger_sink.growth_is_taken [OF assms(1-3)]
  have "is_admitted_writer (we_debug env) app"
    and t: "row_taken hmac c dec_req encode debug var aenv broker
      (switch_change_event app (changed_security_keys (classified env fs) (stored (we_codec env) fs'))) (d, dm) (d', dm')" by (simp_all add: Let_def)
  then have "app = ''dev.arlen.settings'' \<or> we_debug env \<and> app = ''dev.arlen-settings''"
    by (auto simp: is_admitted_writer_def ADMITTED_WRITERS_def)
  with t show ?thesis using assms(4) by (auto simp: row_taken_def switch_change_event_def new_row_def)
qed

section \<open>A silent ledger\<close>

text \<open>Connections of any callers, one after another, in which no turn's ledger acknowledges anything.\<close>

definition silent_turn :: "state_codec \<Rightarrow> 'a switch_turn \<Rightarrow> bool" where
  "silent_turn c t \<longleftrightarrow> we_codec (st_env t) = c \<and> (\<forall>req a. isl (fst (st_submit t req a)))"

inductive silent_run :: "state_codec \<Rightarrow> switch_files \<times> 'a \<Rightarrow> switch_files \<times> 'a \<Rightarrow> bool" for c w where
  stop: "silent_run c w w"
| connection: "silent_run c w w' \<Longrightarrow> \<forall>t \<in> set turns. silent_turn c t \<Longrightarrow>
    serve_switch_connection env proc k so uid turns w' = (rs, w'') \<Longrightarrow> silent_run c w w''"

lemma silent_sink: "\<forall>req a. isl (fst (submit req a)) \<Longrightarrow> recording_sink submit (\<lambda>_ _ _. False)"
  by unfold_locales (metis fst_conv sum.disc(2))

lemma silent_dispatch:
  assumes "dispatch_switch env submit app req w = (r, w')" and "reads_back (we_codec env)" and "\<forall>req a. isl (fst (submit req a))"
  shows "\<not> escalates (stored (we_codec env) (fst w)) (stored (we_codec env) (fst w'))"
  using recording_sink.growth_is_taken [OF silent_sink [OF assms(3)], of env app req "fst w" "snd w" r "fst w'" "snd w'"] assms(1,2)
  by (auto simp: Let_def)

lemma silent_turns:
  assumes "reads_back c" and "serve_switch_turns peer app turns w = (rs, w')" and "\<forall>t \<in> set turns. silent_turn c t"
  shows "\<not> escalates (stored c (fst w)) (stored c (fst w'))"
  using assms(2,3)
proof (induction turns arbitrary: w rs)
  case (Cons t ts)
  show ?case
  proof (cases "peer_is_alive (st_kernel t) peer \<and> st_request t \<noteq> None")
    case True
    then obtain req where req: "st_request t = Some req" and live: "peer_is_alive (st_kernel t) peer" by auto
    obtain r w1 where d: "dispatch_switch (st_env t) (st_submit t) app req w = (r, w1)" by (cases "dispatch_switch (st_env t) (st_submit t) app req w") auto
    have s: "silent_turn c t" "\<forall>t \<in> set ts. silent_turn c t" using Cons.prems(2) by auto
    then have step: "\<not> escalates (stored c (fst w)) (stored c (fst w1))"
      using silent_dispatch [OF d] assms(1) by (simp add: silent_turn_def)
    show ?thesis
    proof (cases "st_written t")
      case True
      obtain rs1 w2 where rec: "serve_switch_turns peer app ts w1 = (rs1, w2)" by (cases "serve_switch_turns peer app ts w1") auto
      then have "w' = w2" using Cons.prems(1) req live d True by simp
      then show ?thesis using escalates_trans [OF step] Cons.IH [OF rec [unfolded \<open>w' = w2\<close> [symmetric]] s(2)] by simp
    next
      case False
      then show ?thesis using Cons.prems(1) req live d step by simp
    qed
  next
    case False
    then have "w' = w" using Cons.prems(1) by (cases "peer_is_alive (st_kernel t) peer") auto
    then show ?thesis by simp
  qed
qed simp

text \<open>
  C10. A silent ledger never lets authority grow: over any sequence of connections of any callers, with any
  failures of the store, in which the audit ledger acknowledges nothing, no master switch ends up wider than it
  was at the beginning.
\<close>

theorem silent_ledger_never_widens:
  assumes "silent_run c w w'" and "reads_back c"
  shows "\<not> escalates (stored c (fst w)) (stored c (fst w'))"
  using assms(1)
proof induction
  case (connection w' turns env proc k so uid rs w'')
  have "\<not> escalates (stored c (fst w')) (stored c (fst w''))"
    using connection(3) silent_turns [OF assms(2) _ connection(2)]
    by (auto simp: serve_switch_connection_def split: sum.splits)
  then show ?case using escalates_trans [OF connection(4)] by blast
qed simp

section \<open>Taking authority away\<close>

text \<open>
  C22. Authority can always be taken away: on a store that reads and a disk that works, a set by the settings
  application that widens nothing is committed and stored, whatever the ledger does, and leaves the
  accessibility settings alone.
\<close>

theorem off_switch_needs_no_ledger:
  assumes "is_admitted_writer (we_debug env) app" and "load_state (we_codec env) None fs = Inr st" and "\<not> escalates (bs_ai st) (sanitised_switches new)"
    and "we_classify_read env = None" "we_read env = None" "we_write env = None"
    and "reads_back (we_codec env)" and "sc_write (we_codec env) (st\<lparr>bs_ai := sanitised_switches new\<rparr>) = Inr body"
  shows "\<exists>fs' a'. dispatch_switch env submit app (SetAi new) (fs, a) = (SwitchCommitted, fs', a') \<and>
    load_state (we_codec env) None fs' = Inr (st\<lparr>bs_ai := sanitised_switches new\<rparr>)"
proof -
  have s: "sanitised_state (st\<lparr>bs_ai := sanitised_switches new\<rparr>) = st\<lparr>bs_ai := sanitised_switches new\<rparr>" by (cases st) (simp add: sanitised_state_def)
  have h: "handle_switch_request env app (SetAi new) fs = (SwitchCommitted, \<lparr>sw_state = Some body, sw_tmp = None\<rparr>)"
    using assms(1,2,5,6,8) s by (simp add: handle_switch_request_def committed_def store_ai_def store_state_def write_atomic_0600_def)
  have l: "load_state (we_codec env) None \<lparr>sw_state = Some body, sw_tmp = None\<rparr> = Inr (st\<lparr>bs_ai := sanitised_switches new\<rparr>)"
    using load_committed [OF assms(7), of "st\<lparr>bs_ai := sanitised_switches new\<rparr>"] assms(8) s by simp
  have "\<not> escalates (classified env fs) (sanitised_switches new)" using assms(2-4) by (simp add: classified_def load_ai_def switches_or_floor_def)
  then show ?thesis using h l assms(1) by (simp add: dispatch_switch_def apply_set_audited_def Let_def classified_def)
qed

text \<open>
  A widening change can be too much to record: when the settings that change spell out more than the 128 bytes the
  ledger takes of an outcome, the broker reports an unavailable ledger and nothing is changed, although
  the ledger works.
\<close>

theorem long_change_is_refused:
  assumes "is_admitted_writer (we_debug env) app" and "escalates (classified env fs) (sanitised_switches new)"
    and "128 < length (''set by '' @ app @ '': '' @ join '', '' (changed_security_keys (classified env fs) (sanitised_switches new)))"
    and "\<forall>keys. dec_req (encode (switch_change_event app keys)) = Inr (switch_change_event app keys)"
  shows "\<exists>m dd'. dispatch_switch env (ledger_submit hmac c dec_req encode debug var connect timed_out aenv broker) app (SetAi new) (fs, dd) =
    (SwitchError (''escalating change refused: the audit ledger is unavailable ('' @ m), fs, dd')"
proof -
  let ?req = "switch_change_event app (changed_security_keys (classified env fs) (sanitised_switches new))"
  have changed: "changed_security_keys (classified env fs) (sanitised_switches new) \<noteq> []" using assms(2) unchanged_keys by fastforce
  have invalid: "validate_request ?req \<noteq> Inr ()" using assms(3)
    by (simp add: validate_request_def switch_change_event_def plain_structural_def MAX_OUTCOME_LEN_def Let_def)
  obtain res dd' where s: "ledger_submit hmac c dec_req encode debug var connect timed_out aenv broker ?req (fst dd, snd dd) = (res, fst dd', snd dd')"
    by (metis prod.collapse)
  with ledger_submit_acknowledged [of hmac c dec_req encode debug var connect timed_out aenv broker ?req] assms(4) invalid
  obtain e where "res = Inl e" by (cases res) fastforce+
  then show ?thesis using s assms(1,2) changed
    by (auto simp: dispatch_switch_def apply_set_audited_def Let_def classified_def)
qed

text \<open>
  C40. A store that does not read cannot be repaired: when the state file does not parse, no set of either
  family by any caller is committed or changes the file, not even one that turns everything off.
\<close>

theorem corrupt_store_cannot_be_switched_off:
  assumes "sw_state fs = Some s" and "sc_read (we_codec env) s = Inl e" and "dispatch_switch env submit app req (fs, a) = (r, fs', a')"
  shows "fs' = fs \<and> r \<noteq> SwitchCommitted"
proof -
  have l: "isl (load_state (we_codec env) err fs)" for err using assms(1,2) by (auto simp: load_state_def isl_def split: option.splits)
  have "y = fs \<and> x \<noteq> SwitchCommitted" if "handle_switch_request env app q fs = (x, y)" for q x y
    using that l [of "we_read env"]
    by (auto simp: handle_switch_request_def committed_def store_ai_def store_accessibility_def isl_def split: switch_request.splits sum.splits if_splits)
  then show ?thesis using assms(3)
    by (fastforce simp: dispatch_switch_def apply_set_audited_def Let_def split: switch_request.splits if_splits prod.splits sum.splits)
qed

section \<open>Two connections at once\<close>

text \<open>A change of the accessibility settings reads the whole state and later writes it back; another
  connection may be served in between.\<close>

definition accessibility_written :: "switch_env \<Rightarrow> accessibility \<Rightarrow> broker_state \<Rightarrow> switch_files \<Rightarrow> switch_response \<times> switch_files" where
  "accessibility_written env a st fs = committed (store_state (we_codec env) (we_write env) (st\<lparr>bs_accessibility := a\<rparr>) fs)"

lemma accessibility_halves:
  assumes "is_admitted_accessibility_writer (we_debug env) (we_extra env) app"
  shows "handle_switch_request env app (SetAccessibility a) fs =
    (case load_state (we_codec env) (we_read env) fs of
       Inl e \<Rightarrow> (SwitchError (state_error_text e), fs)
     | Inr st \<Rightarrow> accessibility_written env a st fs)"
  using assms by (simp add: handle_switch_request_def store_accessibility_def accessibility_written_def committed_def split: sum.split)


section \<open>Concrete runs\<close>

text \<open>A codec, a broker without faults and a ledger that takes what it is sent.\<close>

definition flag :: "bool \<Rightarrow> char" where "flag b = (if b then CHR ''t'' else CHR ''f'')"

definition demo_state_text :: "broker_state \<Rightarrow> string" where
  "demo_state_text st =
     [flag (ai_enabled (bs_ai st)), char_of (unat (ai_access_level (bs_ai st))), flag (ai_executor_live (bs_ai st)), flag (ai_action_mode (bs_ai st) = Supervised),
      flag (ac_screen_reader (bs_accessibility st))] @ ai_provider (bs_ai st)"

definition demo_switch_codec :: state_codec where
  "demo_switch_codec =
     \<lparr>sc_read = (\<lambda>s. case s of
          e # l # x # m # r # p \<Rightarrow>
            Inr \<lparr>bs_ai = \<lparr>ai_enabled = e = CHR ''t'', ai_access_level = word_of_nat (of_char l), ai_executor_live = x = CHR ''t'',
                  ai_action_mode = (if m = CHR ''t'' then Supervised else Suggest), ai_provider = p\<rparr>,
                 bs_accessibility = \<lparr>ac_screen_reader = r = CHR ''t''\<rparr>\<rparr>
        | _ \<Rightarrow> Inl ''short''),
      sc_write = (\<lambda>st. Inr (demo_state_text st))\<rparr>"

definition demo_switch_env :: switch_env where
  "demo_switch_env = \<lparr>we_debug = False, we_extra = None, we_codec = demo_switch_codec, we_classify_read = None, we_read = None, we_write = None\<rparr>"

definition fresh_files :: switch_files where "fresh_files = \<lparr>sw_state = None, sw_tmp = None\<rparr>"

lemma demo_env_fields [simp]:
  "we_debug demo_switch_env = False" "we_codec demo_switch_env = demo_switch_codec" "we_classify_read demo_switch_env = None"
  "we_read demo_switch_env = None" "we_write demo_switch_env = None" "sc_write demo_switch_codec st = Inr (demo_state_text st)"
  by (simp_all add: demo_switch_env_def demo_switch_codec_def)

lemma flag_true [simp]: "flag b = CHR ''t'' \<longleftrightarrow> b"
  by (simp add: flag_def)

lemma demo_reads_back: "reads_back demo_switch_codec"
proof -
  have "(word_of_nat (of_char (char_of (unat w) :: char)) :: u8) = w" for w :: u8
  proof -
    have "unat w < 256" using unsigned_less [of w] by simp
    then show ?thesis by simp
  qed
  moreover have "(if m = Supervised then Supervised else Suggest) = m" for m by (cases m) simp_all
  ultimately show ?thesis by (simp add: reads_back_def demo_switch_codec_def demo_state_text_def)
qed

lemma demo_stored: "stored demo_switch_codec \<lparr>sw_state = Some (demo_state_text st), sw_tmp = t\<rparr> = sanitised_switches (bs_ai st)"
  using demo_reads_back by (simp add: stored_def load_ai_def load_state_def reads_back_def switches_or_floor_def sanitised_state_def)

lemma fresh_stored [simp]: "stored c fresh_files = default_switches"
  by (simp add: stored_def fresh_files_def load_ai_def load_state_def switches_or_floor_def default_state_def)

definition demo_change_encode :: "ingest_request \<Rightarrow> bytes" where
  "demo_change_encode req = sr_outcome (ir_structural req)"

definition demo_change_decode :: "bytes \<Rightarrow> string + ingest_request" where
  "demo_change_decode s =
     Inr \<lparr>ir_kind = CapabilityChange, ir_structural = plain_structural ''ai.master_switches'' s, ir_forensic = None, ir_call_chain_id = None, ir_project_id = None\<rparr>"

lemma demo_change_codec: "\<forall>keys. demo_change_decode (demo_change_encode (switch_change_event app keys)) = Inr (switch_change_event app keys)"
  by (simp add: demo_change_decode_def demo_change_encode_def switch_change_event_def plain_structural_def)

definition demo_sink :: "ingest_request \<Rightarrow> disk \<times> daemon \<Rightarrow> (audit_client_error + u64) \<times> disk \<times> daemon" where
  "demo_sink = ledger_submit Audit_Runs.demo_hmac Audit_Runs.demo_codec demo_change_decode demo_change_encode False None None False (demo_env write_outcome.WriteOk) ''config-broker''"

lemma shipped_keys: "changed_security_keys default_switches (sanitised_switches shipped_default) = [''access_level=3'', ''provider=ollama-default'']"
  by (simp add: changed_security_keys_def default_switches_def shipped_default_def sanitised_switches_def MAX_ACCESS_LEVEL_def dec.simps digit_char_def)

lemma demo_sink_takes: "\<exists>dd. demo_sink (switch_change_event ''dev.arlen.settings'' [''access_level=3'', ''provider=ollama-default'']) demo_auditd = (Inr 0, dd)"
proof -
  let ?req = "switch_change_event ''dev.arlen.settings'' [''access_level=3'', ''provider=ollama-default'']"
  have len: "length (demo_change_encode ?req) = 66" by (simp add: demo_change_encode_def switch_change_event_def plain_structural_def)
  have "\<exists>f. write_frame b = Inr f" if "length b = 66" for b using that by (cases b) (simp_all add: write_frame_def MAX_FRAME_def)
  with len obtain frame where frame: "write_frame (demo_change_encode ?req) = Inr frame" by blast
  have "caller_is_admitted False None ''config-broker''" by (simp add: caller_is_admitted_def ADMITTED_def)
  moreover have "validate_request ?req = Inr ()"
    by (simp add: switch_change_event_def plain_structural_def validate_request_def MAX_SUBJECT_LEN_def MAX_OUTCOME_LEN_def List.map_filter_simps)
  ultimately show ?thesis using read_frames_single [OF frame] demo_change_codec [of "''dev.arlen.settings''"]
    by (simp add: demo_sink_def ledger_submit_def client_submit_def client_exchange_def frame handle_ingest_def demo_auditd_def
        record_event_def Audit_Ledger.append_def demo_env_def demo_ledger_def insert_row_def empty_disk_def Audit_Ledger.checkpoint_write_def Let_def)
qed

definition shipped_files :: switch_files where
  "shipped_files = \<lparr>sw_state = Some (demo_state_text \<lparr>bs_ai = shipped_default, bs_accessibility = default_accessibility\<rparr>), sw_tmp = None\<rparr>"

lemma shipped_sanitised: "sanitised_switches shipped_default = shipped_default"
  by (simp add: sanitised_switches_def shipped_default_def MAX_ACCESS_LEVEL_def)

lemma shipped_loaded: "load_state demo_switch_codec None shipped_files = Inr \<lparr>bs_ai = shipped_default, bs_accessibility = default_accessibility\<rparr>"
  using demo_reads_back by (simp add: load_state_def shipped_files_def reads_back_def sanitised_state_def shipped_sanitised)

lemma shipped_stored: "stored demo_switch_codec shipped_files = shipped_default"
  by (simp add: stored_def load_ai_def shipped_loaded switches_or_floor_def)

lemma shipped_escalates: "escalates default_switches shipped_default"
  by (rule escalates_from_floor) (simp add: default_switches_def shipped_default_def)

lemma demo_handled:
  "handle_switch_request demo_switch_env ''dev.arlen.settings'' (SetAi shipped_default) fresh_files = (SwitchCommitted, shipped_files)"
  by (simp add: handle_switch_request_def is_admitted_writer_def ADMITTED_WRITERS_def committed_def store_ai_def load_state_def store_state_def write_atomic_0600_def
      fresh_files_def shipped_files_def sanitised_state_def shipped_sanitised default_state_def)

lemma fresh_classified: "classified demo_switch_env fresh_files = default_switches"
  by (simp add: classified_def fresh_files_def load_ai_def load_state_def switches_or_floor_def default_state_def)

lemma demo_widened: "\<exists>d dm. dispatch_switch demo_switch_env demo_sink ''dev.arlen.settings'' (SetAi shipped_default) (fresh_files, fst demo_auditd, snd demo_auditd) =
    (SwitchCommitted, shipped_files, d, dm)"
proof -
  obtain dd where "demo_sink (switch_change_event ''dev.arlen.settings'' [''access_level=3'', ''provider=ollama-default'']) demo_auditd = (Inr 0, dd)"
    using demo_sink_takes by blast
  then show ?thesis using demo_handled shipped_keys shipped_escalates fresh_classified
    by (cases dd) (simp add: dispatch_switch_def apply_set_audited_def is_admitted_writer_def ADMITTED_WRITERS_def shipped_sanitised Let_def classified_def)
qed

theorem authority_grows_only_on_record_witness:
  "\<exists>d dm row. dispatch_switch demo_switch_env demo_sink ''dev.arlen.settings'' (SetAi shipped_default) (fresh_files, demo_auditd) = (SwitchCommitted, shipped_files, d, dm) \<and>
    dk_rows d = dk_rows (fst demo_auditd) @ [row] \<and> row_actor row = ''config-broker''"
proof -
  obtain d dm where run: "dispatch_switch demo_switch_env demo_sink ''dev.arlen.settings'' (SetAi shipped_default) (fresh_files, fst demo_auditd, snd demo_auditd) =
      (SwitchCommitted, shipped_files, d, dm)" using demo_widened by blast
  have "reads_back (we_codec demo_switch_env)" by (simp add: demo_reads_back)
  moreover have "escalates (stored (we_codec demo_switch_env) fresh_files) (stored (we_codec demo_switch_env) shipped_files)"
    by (simp add: shipped_stored shipped_escalates)
  ultimately have "\<exists>row. dk_rows d = dk_rows (fst demo_auditd) @ [row] \<and> row_actor row = ''config-broker''"
    using authority_grows_only_on_record [OF run [unfolded demo_sink_def] _ _ demo_change_codec] by blast
  then show ?thesis using run by auto
qed

definition asks_for_more :: "kernel \<Rightarrow> nat switch_turn" where
  "asks_for_more k = \<lparr>st_kernel = k, st_request = Some (SetAi shipped_default), st_env = demo_switch_env, st_submit = (\<lambda>_ n. (Inl AuditTimeout, n + 1)), st_written = True\<rparr>"

theorem silent_ledger_never_widens_witness:
  "\<forall>env proc k so uid. \<not> escalates default_switches
    (stored demo_switch_codec (fst (snd (serve_switch_connection env proc k so uid [asks_for_more k, asks_for_more k] (fresh_files, 0)))))"
proof (intro allI)
  fix env proc k so uid
  obtain rs w where run: "serve_switch_connection env proc k so uid [asks_for_more k, asks_for_more k] (fresh_files, 0) = (rs, w)" by (rule prod.exhaust)
  have "\<forall>t \<in> set [asks_for_more k, asks_for_more k]. silent_turn demo_switch_codec t" by (simp add: silent_turn_def asks_for_more_def)
  from silent_run.connection [OF silent_run.stop this run]
  show "\<not> escalates default_switches (stored demo_switch_codec (fst (snd (serve_switch_connection env proc k so uid [asks_for_more k, asks_for_more k] (fresh_files, 0)))))"
    using silent_ledger_never_widens [OF _ demo_reads_back] run by fastforce
qed

theorem off_switch_needs_no_ledger_witness:
  "\<exists>fs'. fst (dispatch_switch demo_switch_env (\<lambda>_ a. (Inl AuditTimeout, a)) ''dev.arlen.settings'' (SetAi default_switches) (shipped_files, ())) = SwitchCommitted \<and>
    fst (snd (dispatch_switch demo_switch_env (\<lambda>_ a. (Inl AuditTimeout, a)) ''dev.arlen.settings'' (SetAi default_switches) (shipped_files, ()))) = fs' \<and>
    load_state demo_switch_codec None fs' = Inr default_state"
proof -
  let ?st = "\<lparr>bs_ai = shipped_default, bs_accessibility = default_accessibility\<rparr>"
  have floor: "sanitised_switches default_switches = default_switches" by (simp add: sanitised_switches_def default_switches_def MAX_ACCESS_LEVEL_def)
  have "is_admitted_writer (we_debug demo_switch_env) ''dev.arlen.settings''" by (simp add: is_admitted_writer_def ADMITTED_WRITERS_def)
  then show ?thesis
    using off_switch_needs_no_ledger [of demo_switch_env "''dev.arlen.settings''" shipped_files ?st default_switches _ "\<lambda>_ a. (Inl AuditTimeout, a)" "()"]
      shipped_loaded demo_reads_back floor by (auto simp: default_state_def)
qed

theorem long_change_is_refused_witness:
  "\<exists>m dd. dispatch_switch demo_switch_env demo_sink ''dev.arlen.settings'' (SetAi (shipped_default\<lparr>ai_provider := replicate 100 (CHR ''p'')\<rparr>)) (fresh_files, demo_auditd) =
    (SwitchError (''escalating change refused: the audit ledger is unavailable ('' @ m), fresh_files, dd)"
proof -
  let ?new = "shipped_default\<lparr>ai_provider := replicate 100 (CHR ''p'')\<rparr>"
  have adm: "is_admitted_writer (we_debug demo_switch_env) ''dev.arlen.settings''" by (simp add: is_admitted_writer_def ADMITTED_WRITERS_def)
  have new: "sanitised_switches ?new = ?new" by (simp add: sanitised_switches_def shipped_default_def MAX_ACCESS_LEVEL_def)
  have esc: "escalates (classified demo_switch_env fresh_files) (sanitised_switches ?new)"
    unfolding new by (simp add: fresh_classified escalates_def default_switches_def shipped_default_def)
  have long: "128 < length (''set by '' @ ''dev.arlen.settings'' @ '': '' @ join '', '' (changed_security_keys (classified demo_switch_env fresh_files) (sanitised_switches ?new)))"
    unfolding new by (simp add: fresh_classified changed_security_keys_def default_switches_def shipped_default_def dec.simps)
  show ?thesis unfolding demo_sink_def by (rule long_change_is_refused [OF adm esc long demo_change_codec])
qed

theorem corrupt_store_cannot_be_switched_off_witness:
  "fst (snd (dispatch_switch demo_switch_env demo_sink ''dev.arlen.settings'' (SetAi default_switches) (\<lparr>sw_state = Some ''x'', sw_tmp = None\<rparr>, demo_auditd))) =
    \<lparr>sw_state = Some ''x'', sw_tmp = None\<rparr>"
proof -
  let ?fs = "\<lparr>sw_state = Some ''x'', sw_tmp = None\<rparr>"
  obtain r fs' dd where run: "dispatch_switch demo_switch_env demo_sink ''dev.arlen.settings'' (SetAi default_switches) (?fs, demo_auditd) = (r, fs', dd)"
    by (rule prod_cases3)
  have "sc_read (we_codec demo_switch_env) ''x'' = Inl ''short''" by (simp add: demo_switch_codec_def)
  with corrupt_store_cannot_be_switched_off [OF _ _ run, of "''x''" "''short''"] run show ?thesis by simp
qed


end
