(* ===== verification/Spec2Isabelle.thy ===== *)
theory Spec2Isabelle
  imports Audit_Runs Entity_Store Consent_Runs Event_Runs Graph_Reads Undo_Chain Undo_Replay AI_Events Undo_Surface Identity_Runs Switch_Runs
begin

text \<open>
  \<^bold>\<open>The trust core of the Arlen desktop system.\<close>

  Arlen is a desktop system in which applications and AI agents act through daemons that decide, record
  and confine what they do. This development models the daemons that carry these decisions, from
  their Rust sources under \<open>src/\<close>, and proves what makes them correct.

  \<^bold>\<open>The parts and how they interact.\<close> The \<^emph>\<open>graph daemon\<close> (\<open>daemons/knowledge\<close>) turns the permission profile of
  an application into a signed token, checks every write against token and schema, renders the
  statements for its graph engine, and guards the raw queries it serves. The \<^emph>\<open>consent broker\<close>
  (\<open>daemons/consent-broker\<close>) asks the user, remembers what was granted, and writes every decision to
  the \<^emph>\<open>audit daemon\<close> (\<open>daemons/audit-daemon\<close>), a hash-chained ledger with an external witness of its
  head, before it answers. The \<^emph>\<open>event bus\<close> (\<open>daemons/event-bus\<close>) carries events between all of them,
  stamped with the identity the kernel attests. The \<^emph>\<open>AI core\<close> (\<open>ai/ai-core\<close>) decides whether an action
  needs the user at all. Every action an agent takes is sealed with its inverse by the
  \<^emph>\<open>undo signer\<close> (\<open>ai/ai-undo-signer\<close>), and the \<^emph>\<open>undo service\<close> (\<open>daemons/undo-service\<close>) replays an inverse for a
  user surface after the ledger has taken a record of it, moving files, using the \<^emph>\<open>trash\<close>
  (\<open>contracts/freedesktop-trash\<close>) and editing settings with the \<^emph>\<open>configuration editor\<close> (\<open>sdk/config-format\<close>). Who a
  caller is, every daemon asks the \<^emph>\<open>identity\<close> modules of \<open>sdk/permissions\<close>, which read the path of its binary
  or ask the \<^emph>\<open>identity broker\<close> (\<open>daemons/config-broker\<close>) for the stamp its launcher gave it.
  The same process is the \<^emph>\<open>configuration broker\<close>, which holds the master switches of the AI and widens them
  only when the ledger has taken a record.

  \<^bold>\<open>Theories.\<close>
  \<^item> \<open>Prelude\<close>: the parts of Rust's standard library the sources use (strings as byte lists, hash maps as
    association lists, unsigned integers as words, number texts) and the locale \<open>field_encoding\<close> of
    length-delimited encodings, interpreted for the ledger's fields and for content keys.
  \<^item> \<open>Audit_Proto\<close>, \<open>Audit_Ledger\<close>, \<open>Audit_Chain\<close>, \<open>Audit_Daemon\<close>, \<open>Audit_Runs\<close>: the wire contract
    (\<open>contracts/audit-proto\<close>), the ledger with its checkpoint and anchor (\<open>ledger/\<close>, \<open>checkpoint.rs\<close>,
    \<open>tpm_anchor.rs\<close>), the locale \<open>chained_log\<close> of hash chains, start-up and handlers (\<open>main.rs\<close>, \<open>key.rs\<close>,
    \<open>ingest/mod.rs\<close>, \<open>read.rs\<close>), and all runs of the daemon with disk, database and TPM failures and
    crashes at any point: the ledger always verifies, acknowledged entries survive, truncation is
    detected, a restart raises no false alarm but for one case that is proved too.
  \<^item> \<open>Capability_Token\<close>, \<open>Namespace_Grant\<close>, \<open>Permission_Auth\<close>: \<open>token.rs\<close>, \<open>write/namespace_grant.rs\<close>,
    \<open>permission.rs\<close>, \<open>auth.rs\<close>: a token grants exactly its profile, cannot be altered (locale \<open>sealing\<close>),
    and a delegation never reaches another application's namespace.
  \<^item> \<open>Schema\<close>, \<open>Write_Path\<close>, \<open>Cypher\<close>, \<open>Entity_Store\<close>: \<open>schema/\<close>, \<open>write/\<close>, \<open>lifecycle/restore.rs\<close>, \<open>utils.rs\<close>,
    \<open>cypher.rs\<close>: validated and stamped writes (locale \<open>ownership_guarded\<close>), statements whose literals
    cannot be broken out of, the gates of upsert, link and merge (locale \<open>write_gate\<close>), and the purge.
  \<^item> \<open>Quota\<close>, \<open>Read_Gate\<close>, \<open>Graph_Reads\<close>: \<open>quota/\<close> and the query path of \<open>daemon.rs\<close>: token buckets as a
    locale \<open>rate_check\<close> interpreted for queries and writes, the scanners in front of the engine with what
    they decide and what they miss, and the path from a profile to an executed query.
  \<^item> \<open>AI_Capability\<close>, \<open>Consent_Broker\<close>, \<open>Consent_State\<close>, \<open>Consent_Runs\<close>: \<open>ai-core/src/capability.rs\<close> and the
    broker's queue, grants, intake, decision and control gate, over every interleaving of requests and
    the two halves of a decision.
  \<^item> \<open>Event_Bus\<close>, \<open>Event_Socket\<close>, \<open>Event_Runs\<close>: \<open>registry.rs\<close>, \<open>validation.rs\<close>, \<open>socket.rs\<close>: bounded channels,
    retained state and registration lines, refined against an abstract bus that owes every consumer a
    feed (locale \<open>scope_language\<close> relates subscription patterns to permission patterns).
  \<^item> \<open>Hash_Chain\<close>: the locale \<open>chained_log\<close> of hash-chained logs, interpreted for the audit ledger and for the undo log.
  \<^item> \<open>Undo_Log\<close>, \<open>Undo_Signer\<close>, \<open>Undo_Runs\<close>, \<open>Undo_Chain\<close>: receipts, lifecycle and log file (\<open>ai-undo-core\<close>), protocol, key,
    checkpoint, store and handler (\<open>ai-undo-proto\<close>, \<open>ai-undo-signer\<close>). The signer refines a table of actions, every
    acknowledged record survives failing calls, kills and restarts, a checkpoint pins the log, and what one
    interrupted append can cost.
  \<^item> \<open>Config_Format\<close>, \<open>Config_Edits\<close>, \<open>Config_Sets\<close>: the line engine, its handlers and the self-check of \<open>sdk/config-format\<close>:
    an edit is confined to its key, a document prints back, existing settings can be set, and which documents
    are refused.
  \<^item> \<open>Trash\<close>, \<open>Trash_Safety\<close>: the trash and the reader of its records: nothing is overwritten, the first free name is taken, a
    record reads back.
  \<^item> \<open>Undo_Enact\<close>, \<open>Undo_Replay\<close>, \<open>AI_Events\<close>, \<open>Undo_Service\<close>, \<open>Undo_Surface\<close>: \<open>undo_enact.rs\<close>, the audit events of \<open>ai-core\<close>,
    the signer client, the history and the interface methods: replaying restores the files, touches nothing else,
    and happens only when authorised and recorded.
  \<^item> \<open>Process_Identity\<close>, \<open>Identity_Broker\<close>, \<open>Identity_Runs\<close>: the path rules, the registry of binaries and unit names, the store
    of stamped processes with its gates, and the resolver of a connection (locale \<open>stamp_service\<close>, interpreted for
    the broker), over every run in which processes start, end and have their numbers used again.
  \<^item> \<open>Master_Switches\<close>, \<open>Switch_Runs\<close>: \<open>state.rs\<close>, \<open>protocol.rs\<close>, \<open>server.rs\<close> and \<open>client.rs\<close> of \<open>daemons/config-broker\<close>: authority grows
    only on record (locale \<open>recording_sink\<close>, interpreted for the audit daemon behind its client), can always be taken away
    from a store that reads, and what a corrupt store, a long change and two connections at once do to that.

  \<^bold>\<open>Conventions.\<close> Errors are values of sum types, one branch for each early return of the source. A \<open>u64\<close> is
  a \<open>64 word\<close> and wraps; an \<open>i64\<close> that only carries a time is an \<open>int\<close>. Bucket levels, \<open>f64\<close> in the source,
  are exact multiples of a billionth of a token. Character classes are those of ASCII. Loops are
  structural recursions or folds; none needs fuel. The runs of the daemons are inductive relations
  whose environment chooses which call fails, what the kernel does to processes and which bytes reach a disk; \<open>broker_run\<close> is bounded by the last free request number.

  \<^bold>\<open>Parameters.\<close> HMAC and SHA-256, SQLite, TOML, JSON, MessagePack and protobuf codecs, the graph engine,
  the reading and printing of floats, the decoder of percent escapes, the clock, random numbers, the answers of the
  kernel and of the file system with their failures are arguments of the definitions; where a property needs a law of theirs (injectivity on the messages at hand, a
  codec that reads back) it is a hypothesis that its witness discharges.

  \<^bold>\<open>Not modelled.\<close> Sockets, accept loops, signals and log lines (I/O); the graph engine and the structured
  read operations of the graph daemon behind it; the promotion of events into the graph
  (\<open>promotion.rs\<close>), whose effect lies in the engine; the diagnostic texts of \<open>identity.rs\<close>; the AI engine, the module runtime, the installer, the
  sensors, the desktop services, and the applications with their user interfaces, which are clients of
  the daemons modelled here.
\<close>

section \<open>Properties that span components\<close>

text \<open>C2. Whatever a token issued from a profile lets its app write stays home: an upsert, a link (at either
  end) or a merge goes through only for a type that the profile's write entries grant, that is no
  observation data, and that lies under the namespace of an installed app only if it lies under
  the caller's own identifier or is a shared type the caller owns.\<close>

theorem issued_token_writes_stay_home:
  assumes "issue_token_from_profile hmac to_vec iter uuid start installed s app p g = Inr t"
    and "\<not> isl (plan_entity_upsert to_json now r t ty key data origin) \<or>
      \<not> isl (plan_entity_link r t edge ty key other key') \<or> \<not> isl (plan_entity_link r t edge other key ty key') \<or>
      \<not> isl (authorise_entity_merge t ty)"
    and iter: "\<And>m. mset (iter m) = mset m"
  shows "(\<exists>e \<in> set (gp_write g). entry_grants e ty) \<and>
    \<not> in_namespace ''system'' ty \<and>
    (\<forall>owner \<in> set installed. in_namespace owner ty \<longrightarrow> in_namespace app ty \<or> shared_owner ty = Some app)"
proof -
  note t = issue_InrD [OF assms(1)]
  have sub: "set (ct_delegated_namespaces t) \<subseteq> set (unowned_delegations (gp_delegated_namespaces g) installed)"
    by (simp add: t)
  have "can_write t ty \<and> \<not> in_namespace ''system'' ty \<and>
    (\<forall>owner \<in> set installed. in_namespace owner ty \<longrightarrow> in_namespace (ct_app_id t) ty \<or> shared_owner ty = Some (ct_app_id t))"
    using assms(2) by (elim disjE) (erule upsert_gate.stays_home [OF _ sub] link_from_gate.stays_home [OF _ sub]
      link_to_gate.stays_home [OF _ sub] merge_gate.stays_home [OF _ sub])+
  then show ?thesis
    using parse_scope_entries_matches [of iter, OF iter] by (simp add: can_write_def t)
qed

theorem issued_token_writes_stay_home_witness:
  "authorise_entity_merge demo_token ''md.obsidian.Note'' = Inr () \<and> \<not> in_namespace ''com.anki'' ''md.obsidian.Note''"
proof -
  have "in_own_or_delegated demo_token ''md.obsidian.Note''" "can_write demo_token ''md.obsidian.Note''"
    by (simp_all add: demo_token_def sign_def in_own_or_delegated_def can_write_def, code_simp+)
  then have merge: "authorise_entity_merge demo_token ''md.obsidian.Note'' = Inr ()"
    by (simp add: authorise_entity_merge_def starts_with_def)
  have "\<not> in_namespace ''bridge-ingest'' ''md.obsidian.Note''" "shared_owner ''md.obsidian.Note'' = None"
    by code_simp+
  then show ?thesis
    using merge issued_token_writes_stay_home [OF demo_issue, where ty = "''md.obsidian.Note''"] by simp
qed

end
